(* ===== verification/Prelude.thy ===== *)
theory Prelude
  imports Main "HOL-Library.State_Monad" "HOL-Library.Char_ord" "HOL-Library.List_Lexorder"
begin

text \<open>
  Shared vocabulary of the development: the error values of the Go packages, the
  fallible input/output calls (database statements, websocket writes), the
  "if err is not nil, return" step of Go as a combinator of the state monad, and the
  list-backed database tables with the laws their clients rely on.
\<close>

named_theorems run_simps \<open>what running one operation does to the state\<close>
named_theorems step_intros \<open>operations whose every run stays inside a given step relation\<close>

section \<open>Errors\<close>

text \<open>
  A Go error is a chain of wrapped errors that ends in a sentinel
  (\<^verbatim>\<open>errors.New\<close>) or in an error of a library. \<open>Wrap\<close> is
  \<^verbatim>\<open>fmt.Errorf\<close> with a \<^verbatim>\<open>%w\<close> verb; its text is the fixed part
  of the format string; \<open>Detail\<close> is the form with the wrapped error first. \<open>ErrText\<close> is an error made on the spot with no
  \<^verbatim>\<open>%w\<close>; \<open>ErrIO\<close> is any failure of the database, the network or the
  operating system.
\<close>

datatype error =
    ErrIO string
  | Sentinel string string
  | Wrap string error
  | Detail error string
  | ErrText string

text \<open>The sentinels, each with its package and its text.\<close>

abbreviation ErrUserNotFound :: error where "ErrUserNotFound \<equiv> Sentinel ''db'' ''user not found''"
abbreviation ErrLocalUsernameTaken :: error where "ErrLocalUsernameTaken \<equiv> Sentinel ''db'' ''local username already taken''"
abbreviation ErrRunningInstanceNotFound :: error where "ErrRunningInstanceNotFound \<equiv> Sentinel ''db'' ''running instance not found''"
abbreviation ErrProfileNotFound :: error where "ErrProfileNotFound \<equiv> Sentinel ''db'' ''model profile not found''"
abbreviation ErrAlertNotFound :: error where "ErrAlertNotFound \<equiv> Sentinel ''db'' ''alert not found''"
abbreviation ErrNodeNotFound :: error where "ErrNodeNotFound \<equiv> Sentinel ''db'' ''node not found''"
abbreviation ErrModelTransferNotFound :: error where "ErrModelTransferNotFound \<equiv> Sentinel ''db'' ''model transfer not found''"
abbreviation ErrNodeModelInventoryNotFound :: error where "ErrNodeModelInventoryNotFound \<equiv> Sentinel ''db'' ''node model inventory entry not found''"
abbreviation ErrPermissionOverrideNotFound :: error where "ErrPermissionOverrideNotFound \<equiv> Sentinel ''db'' ''permission override not found''"
abbreviation ErrNotPermitted :: error where "ErrNotPermitted \<equiv> Sentinel ''rbac'' ''not permitted''"
abbreviation ErrNotLocalAccount :: error where "ErrNotLocalAccount \<equiv> Sentinel ''rbac'' ''not a local account''"
abbreviation ErrWrongPassword :: error where "ErrWrongPassword \<equiv> Sentinel ''rbac'' ''wrong current password''"
abbreviation ErrInvalidTheme :: error where "ErrInvalidTheme \<equiv> Sentinel ''rbac'' ''invalid theme''"
abbreviation ErrInvalidLoad :: error where "ErrInvalidLoad \<equiv> Sentinel ''lifecycle'' ''invalid load request''"
abbreviation ErrAlreadyRunning :: error where "ErrAlreadyRunning \<equiv> Sentinel ''lifecycle'' ''profile already has an active running instance''"
abbreviation ErrTargetNodeOffline :: error where "ErrTargetNodeOffline \<equiv> Sentinel ''lifecycle'' ''target node is not connected''"
abbreviation ErrInstanceNotRunning :: error where "ErrInstanceNotRunning \<equiv> Sentinel ''lifecycle'' ''running instance is not in a running state''"
abbreviation ErrUnknownStatus :: error where "ErrUnknownStatus \<equiv> Sentinel ''lifecycle'' ''unknown instance status''"
abbreviation ErrNodeNotConnected :: error where "ErrNodeNotConnected \<equiv> Sentinel ''agentconn'' ''node not connected''"
abbreviation ErrInvalidParams :: error where "ErrInvalidParams \<equiv> Sentinel ''engines'' ''invalid engine params''"
abbreviation ErrUnknownEngineType :: error where "ErrUnknownEngineType \<equiv> Sentinel ''engines'' ''unknown engine type''"
abbreviation ErrNotFound :: error where "ErrNotFound \<equiv> Sentinel ''alerts'' ''alert not found''"
abbreviation ErrInvalidAlert :: error where "ErrInvalidAlert \<equiv> Sentinel ''alerts'' ''invalid alert''"
abbreviation ErrInvalidRetention :: error where "ErrInvalidRetention \<equiv> Sentinel ''alerts'' ''invalid retention period''"
abbreviation ErrInvalidSpec :: error where "ErrInvalidSpec \<equiv> Sentinel ''schedule'' ''invalid schedule''"
abbreviation ErrInvalidTimezone :: error where "ErrInvalidTimezone \<equiv> Sentinel ''schedule'' ''invalid time zone''"
abbreviation ErrInvalidSettings :: error where "ErrInvalidSettings \<equiv> Sentinel ''stalecontainers'' ''invalid stale container settings''"
abbreviation ErrPruneNotConfirmed :: error where "ErrPruneNotConfirmed \<equiv> Sentinel ''stalecontainers'' ''confirm that Prune removes containers automatically before turning it on''"
abbreviation ErrNotStale :: error where "ErrNotStale \<equiv> Sentinel ''stalecontainers'' ''this container is not stale''"
abbreviation ErrNodeUnavailable :: error where "ErrNodeUnavailable \<equiv> Sentinel ''stalecontainers'' ''node is not available''"
abbreviation ErrInvalidRequest :: error where "ErrInvalidRequest \<equiv> Sentinel ''stalecontainers'' ''invalid request''"
abbreviation ErrAuditAfterRemoval :: error where "ErrAuditAfterRemoval \<equiv> Sentinel ''stalecontainers'' ''the container was removed but recording it in the audit log failed''"
abbreviation ErrInvalidNode :: error where "ErrInvalidNode \<equiv> Sentinel ''nodes'' ''invalid node''"
abbreviation ErrInvalidCredentials :: error where "ErrInvalidCredentials \<equiv> Sentinel ''nodes'' ''invalid node credentials''"
abbreviation ErrUnknownInterface :: error where "ErrUnknownInterface \<equiv> Sentinel ''nodes'' ''node does not report that interface''"
abbreviation ErrNoInterfaces :: error where "ErrNoInterfaces \<equiv> Sentinel ''nodes'' ''node has reported no network interfaces''"
abbreviation ErrInvalidTransfer :: error where "ErrInvalidTransfer \<equiv> Sentinel ''transfers'' ''invalid model transfer''"
abbreviation ErrDestNodeOffline :: error where "ErrDestNodeOffline \<equiv> Sentinel ''transfers'' ''destination node is not connected''"
abbreviation ErrNotRetryable :: error where "ErrNotRetryable \<equiv> Sentinel ''transfers'' ''only a failed transfer can be retried''"
abbreviation ErrNotCancelable :: error where "ErrNotCancelable \<equiv> Sentinel ''transfers'' ''this transfer has already finished''"
abbreviation ErrSourceNodeOffline :: error where "ErrSourceNodeOffline \<equiv> Sentinel ''transfers'' ''source node is not connected''"
abbreviation ErrSourceNotPresent :: error where "ErrSourceNotPresent \<equiv> Sentinel ''transfers'' ''source node does not have that model''"
abbreviation ErrPeerNotReady :: error where "ErrPeerNotReady \<equiv> Sentinel ''transfers'' ''peer transfer prerequisites not met''"
abbreviation ErrUniqueViolation :: error where "ErrUniqueViolation \<equiv> Sentinel ''pgconn'' ''duplicate key value violates unique constraint''"
abbreviation ErrInvalidEnum :: error where "ErrInvalidEnum \<equiv> Sentinel ''pgconn'' ''invalid input value for enum''"
abbreviation ErrMalformed :: error where "ErrMalformed \<equiv> Sentinel ''json'' ''malformed''"
abbreviation ErrMalformedHash :: error where "ErrMalformedHash \<equiv> Sentinel ''auth'' ''malformed password hash''"
abbreviation ErrProfileNameTaken :: error where "ErrProfileNameTaken \<equiv> Sentinel ''db'' ''model profile name already in use''"
abbreviation ErrAppGroupNotFound :: error where "ErrAppGroupNotFound \<equiv> Sentinel ''db'' ''application group not found''"
abbreviation ErrAppGroupNameTaken :: error where "ErrAppGroupNameTaken \<equiv> Sentinel ''db'' ''an application group with that name already exists''"
abbreviation ErrADGroupAlreadyMapped :: error where "ErrADGroupAlreadyMapped \<equiv> Sentinel ''db'' ''that AD group is already mapped to this application group''"
abbreviation ErrForeignKey :: error where "ErrForeignKey \<equiv> Sentinel ''pgconn'' ''violates foreign key constraint''"
abbreviation ErrGroupNotFound :: error where "ErrGroupNotFound \<equiv> Sentinel ''groups'' ''application group not found''"
abbreviation ErrGroupNameTaken :: error where "ErrGroupNameTaken \<equiv> Sentinel ''groups'' ''an application group with that name already exists''"
abbreviation ErrInvalidName :: error where "ErrInvalidName \<equiv> Sentinel ''groups'' ''invalid group name''"
abbreviation ErrInvalidSearch :: error where "ErrInvalidSearch \<equiv> Sentinel ''groups'' ''invalid search''"
abbreviation ErrDirectoryUnavailable :: error where "ErrDirectoryUnavailable \<equiv> Sentinel ''groups'' ''no directory is configured''"
abbreviation ErrADGroupNotFound :: error where "ErrADGroupNotFound \<equiv> Sentinel ''groups'' ''that group was not found in the directory''"
abbreviation ErrDirectory :: error where "ErrDirectory \<equiv> Sentinel ''groups'' ''the directory could not be reached or did not answer''"
abbreviation ErrAlreadyMapped :: error where "ErrAlreadyMapped \<equiv> Sentinel ''groups'' ''that AD group is already mapped to this group''"
abbreviation ErrOnlyLocalAccounts :: error where "ErrOnlyLocalAccounts \<equiv> Sentinel ''groups'' ''only local accounts can be added by hand; an AD account is a member through its AD groups''"
abbreviation ErrDirectoryNoGroup :: error where "ErrDirectoryNoGroup \<equiv> Sentinel ''auth'' ''group not found in the directory''"
abbreviation ErrInvalidProfile :: error where "ErrInvalidProfile \<equiv> Sentinel ''profiles'' ''invalid model profile''"
abbreviation ErrModelInUse :: error where "ErrModelInUse \<equiv> Sentinel ''inventory'' ''model is still referenced by a profile''"
abbreviation ErrDeleteInProgress :: error where "ErrDeleteInProgress \<equiv> Sentinel ''inventory'' ''a delete of this model is already in progress''"
abbreviation ErrNodeOffline :: error where "ErrNodeOffline \<equiv> Sentinel ''inventory'' ''node is not connected''"
abbreviation ErrScanNotFound :: error where "ErrScanNotFound \<equiv> Sentinel ''inventory'' ''scan not found or expired''"
abbreviation ErrTooManyScans :: error where "ErrTooManyScans \<equiv> Sentinel ''inventory'' ''too many recent scans; wait a few minutes and try again''"
abbreviation ErrNoScanNodes :: error where "ErrNoScanNodes \<equiv> Sentinel ''inventory'' ''select at least one node to scan''"
abbreviation ErrInvalidScanNode :: error where "ErrInvalidScanNode \<equiv> Sentinel ''inventory'' ''invalid node id''"
abbreviation ErrNotInScan :: error where "ErrNotInScan \<equiv> Sentinel ''inventory'' ''model was not found in this scan''"
abbreviation ErrAlreadyKnown :: error where "ErrAlreadyKnown \<equiv> Sentinel ''inventory'' ''inventory already has this model''"
abbreviation ErrInvalidQuantization :: error where "ErrInvalidQuantization \<equiv> Sentinel ''inventory'' ''invalid quantization''"
abbreviation ErrSharedDirectory :: error where "ErrSharedDirectory \<equiv> Sentinel ''inventory'' ''shares a directory with other models; deleting it later would remove them too - give it a quantization that appears in its file name''"
abbreviation ErrAmbiguousQuantization :: error where "ErrAmbiguousQuantization \<equiv> Sentinel ''inventory'' (''quantization does not match exactly this model'' @ CHR 0x27 # ''s file in its directory'')"

text \<open>\<^verbatim>\<open>errors.Is\<close>: some error of the chain is the target.\<close>

fun errors_is :: "error \<Rightarrow> error \<Rightarrow> bool" where
  "errors_is (Wrap m e) t = (Wrap m e = t \<or> errors_is e t)"
| "errors_is (Detail e m) t = (Detail e m = t \<or> errors_is e t)"
| "errors_is e t = (e = t)"

lemma errors_is_refl [simp]: "errors_is e e"
  by (cases e) auto

text \<open>\<^verbatim>\<open>err.Error()\<close>.\<close>

fun error_text :: "error \<Rightarrow> string" where
  "error_text (ErrIO s) = s"
| "error_text (ErrText s) = s"
| "error_text (Sentinel pkg s) = s"
| "error_text (Wrap m e) = m @ '': '' @ error_text e"
| "error_text (Detail e m) = error_text e @ '': '' @ m"

type_synonym 'a res = "error + 'a"

section \<open>Strings\<close>

text \<open>\<^verbatim>\<open>strings.Split\<close> at a one character separator.\<close>

fun split_on :: "char \<Rightarrow> string \<Rightarrow> string list" where
  "split_on c [] = [[]]"
| "split_on c (x # xs) =
     (if x = c then [] # split_on c xs
      else case split_on c xs of [] \<Rightarrow> [[x]] | p # ps \<Rightarrow> (x # p) # ps)"

lemma split_on_absent: "c \<notin> set s \<Longrightarrow> split_on c s = [s]"
  by (induction s) auto

lemma split_on_ne [simp]: "split_on c s \<noteq> []"
  by (induction s) (auto split: list.splits)

lemma split_on_append: "c \<notin> set s \<Longrightarrow> split_on c (s @ c # t) = s # split_on c t"
  by (induction s) auto

section \<open>Calls that can fail\<close>

text \<open>
  Instants are nanoseconds since the zero value of Go's \<^verbatim>\<open>time.Time\<close>
  (1 January of year 1, UTC).
\<close>

type_synonym time = int

definition IsZero :: "time \<Rightarrow> bool" where
  "IsZero t \<longleftrightarrow> t = 0"

text \<open>
  Whether the n-th outside call fails is not determined by the program, so the
  environment carries it. A call that fails may have had no effect (\<open>Lost\<close>) or may
  have taken effect although the caller only sees an error (\<open>Ambiguous\<close>: the
  connection broke after the commit). The clock readings, the identifiers that the
  database generates and random bytes come from the environment in the same way.
\<close>

datatype fault = NoFault | Lost string | Ambiguous string

record io_env =
  tick :: nat
  faults :: "nat \<Rightarrow> fault"
  clock :: "nat \<Rightarrow> time"
  uuids :: "nat \<Rightarrow> string"
  entropy :: "nat \<Rightarrow> string"

text \<open>Time and identifier of the statement that is running.\<close>

definition db_now :: "'z io_env_scheme \<Rightarrow> time" where
  "db_now w = clock w (tick w)"

definition db_uuid :: "'z io_env_scheme \<Rightarrow> string" where
  "db_uuid w = uuids w (tick w)"

definition io_call ::
  "('z io_env_scheme \<Rightarrow> 'a res \<times> 'z io_env_scheme) \<Rightarrow> ('z io_env_scheme, 'a res) state" where
  "io_call f = State (\<lambda>w.
     let w1 = w\<lparr>tick := Suc (tick w)\<rparr> in
     case faults w (tick w) of
       NoFault \<Rightarrow> f w1
     | Lost e \<Rightarrow> (Inl (ErrIO e), w1)
     | Ambiguous e \<Rightarrow> (Inl (ErrIO e), snd (f w1)))"

text \<open>\<^verbatim>\<open>time.Now\<close>.\<close>

definition time_now :: "('z io_env_scheme, time) state" where
  "time_now = State (\<lambda>w. (clock w (tick w), w\<lparr>tick := Suc (tick w)\<rparr>))"

section \<open>Go's early returns\<close>

abbreviation ok :: "'a \<Rightarrow> ('w, 'a res) state" where
  "ok x \<equiv> State_Monad.return (Inr x)"

abbreviation fail :: "error \<Rightarrow> ('w, 'a res) state" where
  "fail e \<equiv> State_Monad.return (Inl e)"

text \<open>
  \<open>or_return m h k\<close> is \<^verbatim>\<open>x, err := m(); if err != nil { return h(err) }; k\<close>.
\<close>

definition or_return ::
  "('w, 'a res) state \<Rightarrow> (error \<Rightarrow> error) \<Rightarrow> ('a \<Rightarrow> ('w, 'b res) state) \<Rightarrow> ('w, 'b res) state" where
  "or_return m h k =
     State_Monad.bind m (\<lambda>r. case r of Inl e \<Rightarrow> fail (h e) | Inr x \<Rightarrow> k x)"

lemma run_or_return [run_simps]:
  "run_state (or_return m h k) w =
     (case run_state m w of
        (Inl e, w') \<Rightarrow> (Inl (h e), w')
      | (Inr x, w') \<Rightarrow> run_state (k x) w')"
  by (auto simp: or_return_def split: prod.splits sum.splits)

lemma run_io_call [run_simps]:
  "run_state (io_call f) w =
     (case faults w (tick w) of
        NoFault \<Rightarrow> f (w\<lparr>tick := Suc (tick w)\<rparr>)
      | Lost e \<Rightarrow> (Inl (ErrIO e), w\<lparr>tick := Suc (tick w)\<rparr>)
      | Ambiguous e \<Rightarrow> (Inl (ErrIO e), snd (f (w\<lparr>tick := Suc (tick w)\<rparr>))))"
  by (simp add: io_call_def Let_def)

lemma run_time_now [run_simps]:
  "run_state time_now w = (clock w (tick w), w\<lparr>tick := Suc (tick w)\<rparr>)"
  by (simp add: time_now_def)

text \<open>Reads of the state that touch neither the database nor the network.\<close>

definition peek :: "('w \<Rightarrow> 'a) \<Rightarrow> ('w, 'a) state" where
  "peek f = State (\<lambda>w. (f w, w))"

definition poke :: "('w \<Rightarrow> 'w) \<Rightarrow> ('w, unit) state" where
  "poke f = State (\<lambda>w. ((), f w))"

lemma run_peek [run_simps]: "run_state (peek f) w = (f w, w)"
  by (simp add: peek_def)

lemma run_poke [run_simps]: "run_state (poke f) w = ((), f w)"
  by (simp add: poke_def)

text \<open>\<^verbatim>\<open>for _, x := range xs { m(x) }\<close> where the body never leaves the loop.\<close>

fun for_each :: "('a \<Rightarrow> ('w, unit) state) \<Rightarrow> 'a list \<Rightarrow> ('w, unit) state" where
  "for_each m [] = State_Monad.return ()"
| "for_each m (x # xs) = State_Monad.bind (m x) (\<lambda>_. for_each m xs)"

lemma for_each_append:
  "snd (run_state (for_each m (xs @ ys)) w) =
     snd (run_state (for_each m ys) (snd (run_state (for_each m xs) w)))"
  by (induction xs arbitrary: w) (auto split: prod.splits)

section \<open>Step relations\<close>

text \<open>
  A property of every run that is closed under doing nothing and under composition
  (an invariant is kept, a log only grows, a table is left alone). The rules lift it
  from the single calls to a whole handler.
\<close>

definition within :: "('w \<Rightarrow> 'w \<Rightarrow> bool) \<Rightarrow> ('w, 'a) state \<Rightarrow> bool" where
  "within R m \<longleftrightarrow> (\<forall>w. R w (snd (run_state m w)))"

lemma withinI: "(\<And>w. R w (snd (run_state m w))) \<Longrightarrow> within R m"
  by (simp add: within_def)

lemma withinD: "within R m \<Longrightarrow> run_state m w = (r, w') \<Longrightarrow> R w w'"
  by (metis snd_conv within_def)

locale step_rel =
  fixes R :: "'w \<Rightarrow> 'w \<Rightarrow> bool"
  assumes rel_refl: "R w w"
    and rel_trans: "R u v \<Longrightarrow> R v w \<Longrightarrow> R u w"
begin

lemma within_return: "within R (State_Monad.return x)"
  by (simp add: within_def rel_refl)

lemma within_peek: "within R (peek f)"
  by (simp add: within_def run_simps rel_refl)

lemma within_bind:
  "within R m \<Longrightarrow> (\<And>x. within R (k x)) \<Longrightarrow> within R (State_Monad.bind m k)"
  unfolding within_def by (auto split: prod.splits) (metis rel_trans snd_conv)

lemma within_or_return:
  "within R m \<Longrightarrow> (\<And>x. within R (k x)) \<Longrightarrow> within R (or_return m h k)"
  unfolding or_return_def
  by (rule within_bind) (auto split: sum.split intro: within_return)

lemma within_for_each: "(\<And>x. within R (m x)) \<Longrightarrow> within R (for_each m xs)"
  by (induction xs) (auto intro: within_return within_bind)

lemma within_if: "within R m \<Longrightarrow> within R n \<Longrightarrow> within R (if b then m else n)"
  by simp

lemma within_option:
  "within R m \<Longrightarrow> (\<And>x. within R (k x)) \<Longrightarrow> within R (case v of None \<Rightarrow> m | Some x \<Rightarrow> k x)"
  by (cases v) auto

lemma within_sum:
  "(\<And>e. within R (h e)) \<Longrightarrow> (\<And>x. within R (k x)) \<Longrightarrow> within R (case v of Inl e \<Rightarrow> h e | Inr x \<Rightarrow> k x)"
  by (cases v) auto

lemma within_prod:
  "(\<And>x y. within R (k x y)) \<Longrightarrow> within R (case p of (x, y) \<Rightarrow> k x y)"
  by (cases p) auto

lemmas within_rules =
  within_return within_peek within_bind within_or_return within_for_each within_if
  within_option within_sum within_prod

end

section \<open>Tables\<close>

text \<open>
  A database table is the list of its rows. \<open>find_row\<close> is a select by primary key,
  \<open>update_row\<close> an update of the row with that key.
\<close>

definition find_row :: "('r \<Rightarrow> 'k) \<Rightarrow> 'k \<Rightarrow> 'r list \<Rightarrow> 'r option" where
  "find_row key k t = find (\<lambda>r. key r = k) t"

definition update_rows :: "('r \<Rightarrow> bool) \<Rightarrow> ('r \<Rightarrow> 'r) \<Rightarrow> 'r list \<Rightarrow> 'r list" where
  "update_rows p f t = map (\<lambda>r. if p r then f r else r) t"

definition update_row :: "('r \<Rightarrow> 'k) \<Rightarrow> 'k \<Rightarrow> ('r \<Rightarrow> 'r) \<Rightarrow> 'r list \<Rightarrow> 'r list" where
  "update_row key k f t = update_rows (\<lambda>r. key r = k) f t"

definition primary_key :: "('r \<Rightarrow> 'k) \<Rightarrow> 'r list \<Rightarrow> bool" where
  "primary_key key t \<longleftrightarrow> distinct (map key t)"

lemma find_row_Nil [simp]: "find_row key k [] = None"
  by (simp add: find_row_def)

lemma find_row_Cons [simp]:
  "find_row key k (r # t) = (if key r = k then Some r else find_row key k t)"
  by (simp add: find_row_def)

lemma update_row_Nil [simp]: "update_row key k f [] = []"
  by (simp add: update_row_def update_rows_def)

lemma update_row_Cons [simp]:
  "update_row key k f (r # t) = (if key r = k then f r else r) # update_row key k f t"
  by (simp add: update_row_def update_rows_def)

lemma find_row_SomeD: "find_row key k t = Some r \<Longrightarrow> r \<in> set t \<and> key r = k"
  by (induction t) (auto split: if_splits)

lemma find_row_None_iff: "find_row key k t = None \<longleftrightarrow> k \<notin> key ` set t"
  by (induction t) auto

lemma find_row_append: "find_row key k (t @ u) = (case find_row key k t of None \<Rightarrow> find_row key k u | Some r \<Rightarrow> Some r)"
  by (induction t) auto

lemma find_append: "find p (t @ u) = (case find p t of None \<Rightarrow> find p u | Some r \<Rightarrow> Some r)"
  by (induction t) auto

lemma find_row_unique:
  "primary_key key t \<Longrightarrow> r \<in> set t \<Longrightarrow> find_row key (key r) t = Some r"
  by (induction t) (auto simp: primary_key_def)

lemma update_row_absent: "k \<notin> key ` set t \<Longrightarrow> update_row key k f t = t"
  by (induction t) auto

text \<open>
  What the services rely on: a row that is updated is found updated, every other row is
  untouched, and writing the old row back restores the table.
\<close>

locale keyed_table =
  fixes key :: "'r \<Rightarrow> 'k"
    and fnd :: "'k \<Rightarrow> 'r list \<Rightarrow> 'r option"
    and upd :: "'k \<Rightarrow> ('r \<Rightarrow> 'r) \<Rightarrow> 'r list \<Rightarrow> 'r list"
  assumes fnd_key: "fnd k t = Some r \<Longrightarrow> key r = k"
    and fnd_upd_same: "(\<And>r. key (f r) = key r) \<Longrightarrow> fnd k (upd k f t) = map_option f (fnd k t)"
    and fnd_upd_other: "(\<And>r. key (f r) = key r) \<Longrightarrow> k' \<noteq> k \<Longrightarrow> fnd k' (upd k f t) = fnd k' t"
    and keys_upd: "(\<And>r. key (f r) = key r) \<Longrightarrow> map key (upd k f t) = map key t"
    and fnd_all_eq: "map key t = map key u \<Longrightarrow> primary_key key t \<Longrightarrow> (\<And>k. fnd k t = fnd k u) \<Longrightarrow> t = u"
begin

lemma pk_upd: "(\<And>r. key (f r) = key r) \<Longrightarrow> primary_key key t \<Longrightarrow> primary_key key (upd k f t)"
  by (simp add: primary_key_def keys_upd)

lemma fnd_upd:
  "(\<And>r. key (f r) = key r) \<Longrightarrow> fnd k' (upd k f t) = (if k' = k then map_option f (fnd k t) else fnd k' t)"
  by (simp add: fnd_upd_same fnd_upd_other)

lemma revert_restores:
  assumes f: "\<And>r. key (f r) = key r" and g: "\<And>r. key (g r) = key r"
    and pk: "primary_key key t" and old: "fnd k t = Some r" and undo: "g (f r) = r"
  shows "upd k g (upd k f t) = t"
proof -
  have "map key t = map key (upd k g (upd k f t))"
    using f g by (simp add: keys_upd)
  moreover have "fnd j t = fnd j (upd k g (upd k f t))" for j
    using f g old undo by (simp add: fnd_upd)
  ultimately show ?thesis using fnd_all_eq [OF _ pk] by metis
qed

end

lemma find_row_ext:
  "map key t = map key u \<Longrightarrow> distinct (map key t) \<Longrightarrow> (\<And>k. find_row key k t = find_row key k u) \<Longrightarrow> t = u"
proof (induction t arbitrary: u)
  case Nil
  then show ?case by simp
next
  case (Cons r t)
  then obtain s v where u: "u = s # v" and k: "key r = key s" by (cases u) auto
  have "r = s" using Cons.prems(3) [of "key r"] by (simp add: u k)
  have *: "find_row key j t = find_row key j v" for j
  proof (cases "j = key r")
    case True
    have "key r \<notin> key ` set t" and "key r \<notin> key ` set v"
      using Cons.prems(1,2) by (auto simp: u) (metis list.set_map image_eqI)
    then show ?thesis using find_row_None_iff [of key j] True by metis
  next
    case False
    then show ?thesis using Cons.prems(3) [of j] by (simp add: u k)
  qed
  have "t = v" using Cons.IH [OF _ _ *] Cons.prems(1,2) by (simp add: u)
  with u \<open>r = s\<close> show ?case by simp
qed

interpretation pk_table: keyed_table key "find_row key" "update_row key"
  for key :: "'r \<Rightarrow> 'k"
proof
  fix k k' :: 'k and t u :: "'r list" and r and f :: "'r \<Rightarrow> 'r"
  show "find_row key k t = Some r \<Longrightarrow> key r = k" by (auto dest: find_row_SomeD)
  show "find_row key k (update_row key k f t) = map_option f (find_row key k t)"
    if "\<And>r. key (f r) = key r" using that by (induction t) auto
  show "find_row key k' (update_row key k f t) = find_row key k' t"
    if "\<And>r. key (f r) = key r" "k' \<noteq> k" using that by (induction t) auto
  show "map key (update_row key k f t) = map key t"
    if "\<And>r. key (f r) = key r" using that by (induction t) auto
  show "t = u" if "map key t = map key u" "primary_key key t" "\<And>k. find_row key k t = find_row key k u"
    using that by (auto simp: primary_key_def intro: find_row_ext)
qed

end
