(* ===== verification/Json.thy ===== *)
theory Json
  imports Prelude "HOL-Library.AList"
begin

text \<open>
  JSON values as \<^verbatim>\<open>encoding/json\<close> reads and writes them: the decoding of an object into
  a Go struct with \<^verbatim>\<open>DisallowUnknownFields\<close>, which is how engine parameters
  (internal/engines) and the payloads of the agent protocol (internal/agentproto) are read.
  The text of a document is not modelled, only whether it is empty, malformed or a value.
  A number literal without fraction and exponent is \<open>JInt\<close>, any other is \<open>JDec\<close> with
  its text.
\<close>

datatype json =
    JNull
  | JBool bool
  | JInt int
  | JDec string
  | JStr string
  | JArr "json list"
  | JObj "(string \<times> json) list"

datatype raw_json = RawEmpty | RawMalformed | RawJson json

section \<open>Matching object keys with struct fields\<close>

text \<open>
  A key matches a field name when the two are equal up to Unicode simple case folding. The
  field names of this program are lower case ASCII, so the only letters outside ASCII that
  can match are the long s (U+017F) and the Kelvin sign (U+212A), given here by their UTF-8
  bytes.
\<close>

definition fold_char :: "char \<Rightarrow> char" where
  "fold_char c = (if CHR ''A'' \<le> c \<and> c \<le> CHR ''Z'' then char_of (of_char c + 32 :: nat) else c)"

fun fold_name :: "string \<Rightarrow> string" where
  "fold_name [] = []"
| "fold_name (a # b # c # xs) =
     (if a = CHR 0xC5 \<and> b = CHR 0xBF then CHR ''s'' # fold_name (c # xs)
      else if a = CHR 0xE2 \<and> b = CHR 0x84 \<and> c = CHR 0xAA then CHR ''k'' # fold_name xs
      else fold_char a # fold_name (b # c # xs))"
| "fold_name (a # xs) =
     (if a = CHR 0xC5 \<and> xs = [CHR 0xBF] then [CHR ''s''] else fold_char a # fold_name xs)"

definition match_field :: "string list \<Rightarrow> string \<Rightarrow> string option" where
  "match_field names k =
     (if k \<in> set names then Some k else find (\<lambda>n. n = fold_name k) names)"

fun canonical_fields :: "string list \<Rightarrow> (string \<times> json) list \<Rightarrow> (string \<times> json) list res" where
  "canonical_fields names [] = Inr []"
| "canonical_fields names ((k, v) # kvs) =
     (case match_field names k of
        None \<Rightarrow> Inl ErrMalformed
      | Some n \<Rightarrow>
          (case canonical_fields names kvs of
             Inl e \<Rightarrow> Inl e
           | Inr fs \<Rightarrow> Inr ((n, v) # fs)))"

text \<open>The members of the document, named by the struct fields they set.\<close>

definition decode_object :: "string list \<Rightarrow> raw_json \<Rightarrow> (string \<times> json) list res" where
  "decode_object names raw =
     (case raw of
        RawJson JNull \<Rightarrow> Inr []
      | RawJson (JObj kvs) \<Rightarrow> canonical_fields names kvs
      | _ \<Rightarrow> Inl ErrMalformed)"

definition field_values :: "string \<Rightarrow> (string \<times> json) list \<Rightarrow> json list" where
  "field_values n fs = map snd (filter (\<lambda>f. fst f = n) fs)"

section \<open>Values of fields\<close>

text \<open>
  A repeated member overwrites the one before it. \<^verbatim>\<open>null\<close> leaves a plain field as it is and
  sets a pointer field to nil. The conversion sees the current value, which only a map field
  needs.
\<close>

fun dec_plain :: "('a \<Rightarrow> json \<Rightarrow> 'a option) \<Rightarrow> 'a \<Rightarrow> json list \<Rightarrow> 'a res" where
  "dec_plain conv cur [] = Inr cur"
| "dec_plain conv cur (v # vs) =
     (if v = JNull then dec_plain conv cur vs
      else (case conv cur v of None \<Rightarrow> Inl ErrMalformed | Some x \<Rightarrow> dec_plain conv x vs))"

fun dec_ptr :: "(json \<Rightarrow> 'a option) \<Rightarrow> 'a option \<Rightarrow> json list \<Rightarrow> 'a option res" where
  "dec_ptr conv cur [] = Inr cur"
| "dec_ptr conv cur (v # vs) =
     (if v = JNull then dec_ptr conv None vs
      else (case conv v of None \<Rightarrow> Inl ErrMalformed | Some x \<Rightarrow> dec_ptr conv (Some x) vs))"

definition conv_string :: "json \<Rightarrow> string option" where
  "conv_string v = (case v of JStr s \<Rightarrow> Some s | _ \<Rightarrow> None)"

definition conv_bool :: "json \<Rightarrow> bool option" where
  "conv_bool v = (case v of JBool b \<Rightarrow> Some b | _ \<Rightarrow> None)"

text \<open>Go's \<^verbatim>\<open>int\<close> and \<^verbatim>\<open>int64\<close> are 64 bits wide on the supported platforms.\<close>

definition in_int64 :: "int \<Rightarrow> bool" where
  "in_int64 n \<longleftrightarrow> - (2 ^ 63) \<le> n \<and> n < 2 ^ 63"

definition conv_int :: "json \<Rightarrow> int option" where
  "conv_int v = (case v of JInt n \<Rightarrow> if in_int64 n then Some n else None | _ \<Rightarrow> None)"

fun conv_strings :: "json list \<Rightarrow> string list option" where
  "conv_strings [] = Some []"
| "conv_strings (v # vs) =
     (case (if v = JNull then Some '''' else conv_string v, conv_strings vs) of
        (Some s, Some ss) \<Rightarrow> Some (s # ss)
      | _ \<Rightarrow> None)"

definition conv_string_list :: "json \<Rightarrow> string list option" where
  "conv_string_list v = (case v of JArr vs \<Rightarrow> conv_strings vs | _ \<Rightarrow> None)"

text \<open>
  A \<^verbatim>\<open>float64\<close> is kept as the number literal it was read from; rounding to a double is not
  modelled.
\<close>

definition conv_number :: "json \<Rightarrow> json option" where
  "conv_number v = (case v of JInt n \<Rightarrow> Some v | JDec d \<Rightarrow> Some v | _ \<Rightarrow> None)"

fun conv_number_map :: "(string \<times> json) list \<Rightarrow> (string \<times> json) list \<Rightarrow> (string \<times> json) list option" where
  "conv_number_map cur [] = Some cur"
| "conv_number_map cur ((k, v) # kvs) =
     (case (if v = JNull then Some (JInt 0) else conv_number v) of
        None \<Rightarrow> None
      | Some x \<Rightarrow> conv_number_map (AList.update k x cur) kvs)"

section \<open>RFC 3339 times\<close>

definition is_digit :: "char \<Rightarrow> bool" where
  "is_digit c \<longleftrightarrow> of_char c \<ge> (48 :: nat) \<and> of_char c \<le> (57 :: nat)"

definition digit_val :: "char \<Rightarrow> int" where
  "digit_val c = of_char c - 48"

definition digits_val :: "string \<Rightarrow> int" where
  "digits_val s = foldl (\<lambda>n c. 10 * n + digit_val c) 0 s"

definition parse_uint :: "string \<Rightarrow> int \<Rightarrow> int \<Rightarrow> int option" where
  "parse_uint s lo hi =
     (if list_all is_digit s \<and> lo \<le> digits_val s \<and> digits_val s \<le> hi then Some (digits_val s) else None)"

definition is_leap :: "int \<Rightarrow> bool" where
  "is_leap y \<longleftrightarrow> y mod 4 = 0 \<and> (y mod 100 \<noteq> 0 \<or> y mod 400 = 0)"

definition days_in :: "int \<Rightarrow> int \<Rightarrow> int" where
  "days_in m y = (if m = 2 then (if is_leap y then 29 else 28) else if m \<in> {4, 6, 9, 11} then 30 else 31)"

text \<open>Day number of a date of the proleptic Gregorian calendar; day 0 is 1 January of year 1.\<close>

definition days_before_year :: "int \<Rightarrow> int" where
  "days_before_year y = 365 * (y - 1) + (y - 1) div 4 - (y - 1) div 100 + (y - 1) div 400"

definition civil_day :: "int \<Rightarrow> int \<Rightarrow> int \<Rightarrow> int" where
  "civil_day y m d = days_before_year y + sum_list (map (\<lambda>i. days_in i y) [1..m - 1]) + (d - 1)"

abbreviation second :: int where "second \<equiv> 1000000000"
abbreviation minute :: int where "minute \<equiv> 60 * second"
abbreviation hour :: int where "hour \<equiv> 60 * minute"
abbreviation day_ns :: int where "day_ns \<equiv> 24 * hour"

text \<open>Fraction of a second: nine digits count, further digits are dropped.\<close>

definition frac_ns :: "string \<Rightarrow> int" where
  "frac_ns ds = digits_val (take 9 (ds @ replicate 9 (CHR ''0'')))"

definition zone_offset :: "string \<Rightarrow> int option" where
  "zone_offset z =
     (if z = ''Z'' then Some 0
      else if length z = 6 \<and> (z ! 0 = CHR ''+'' \<or> z ! 0 = CHR ''-'') \<and> z ! 3 = CHR '':'' then
        (case (parse_uint (take 2 (drop 1 z)) 0 23, parse_uint (drop 4 z) 0 59) of
           (Some h, Some m) \<Rightarrow> Some ((if z ! 0 = CHR ''-'' then - 1 else 1) * (h * hour + m * minute))
         | _ \<Rightarrow> None)
      else None)"

definition parse_rfc3339 :: "string \<Rightarrow> time option" where
  "parse_rfc3339 s =
     (if length s < 20 \<or> s ! 4 \<noteq> CHR ''-'' \<or> s ! 7 \<noteq> CHR ''-'' \<or> s ! 10 \<noteq> CHR ''T''
         \<or> s ! 13 \<noteq> CHR '':'' \<or> s ! 16 \<noteq> CHR '':'' then None
      else case parse_uint (take 4 s) 0 9999 of None \<Rightarrow> None | Some y \<Rightarrow>
       (case parse_uint (take 2 (drop 5 s)) 1 12 of None \<Rightarrow> None | Some mo \<Rightarrow>
       (case parse_uint (take 2 (drop 8 s)) 1 (days_in mo y) of None \<Rightarrow> None | Some d \<Rightarrow>
       (case parse_uint (take 2 (drop 11 s)) 0 23 of None \<Rightarrow> None | Some h \<Rightarrow>
       (case parse_uint (take 2 (drop 14 s)) 0 59 of None \<Rightarrow> None | Some mi \<Rightarrow>
       (case parse_uint (take 2 (drop 17 s)) 0 59 of None \<Rightarrow> None | Some sec \<Rightarrow>
        let rest = drop 19 s;
            ds = (if take 1 rest = ''.'' then takeWhile is_digit (drop 1 rest) else []);
            z = (if ds = [] then rest else drop (Suc (length ds)) rest)
        in (case zone_offset z of None \<Rightarrow> None
            | Some off \<Rightarrow>
                Some (civil_day y mo d * day_ns + h * hour + mi * minute + sec * second
                      + frac_ns ds - off))))))))"

definition conv_time :: "json \<Rightarrow> time option" where
  "conv_time v = (case v of JStr s \<Rightarrow> parse_rfc3339 s | _ \<Rightarrow> None)"

section \<open>Facts\<close>

lemma match_field_self [simp]: "k \<in> set names \<Longrightarrow> match_field names k = Some k"
  by (simp add: match_field_def)

lemma match_field_in: "match_field names k = Some n \<Longrightarrow> n \<in> set names"
  by (auto simp: match_field_def find_Some_iff split: if_splits) (metis nth_mem)

lemma canonical_fields_known:
  "fst ` set kvs \<subseteq> set names \<Longrightarrow> canonical_fields names kvs = Inr kvs"
  by (induction kvs) auto

lemma canonical_fields_names:
  "canonical_fields names kvs = Inr fs \<Longrightarrow> fst ` set fs \<subseteq> set names"
proof (induction kvs arbitrary: fs)
  case (Cons kv kvs)
  then show ?case
    by (cases kv) (fastforce split: option.splits sum.splits dest: match_field_in)
qed simp

lemma field_values_Nil [simp]: "field_values n [] = []"
  by (simp add: field_values_def)

lemma field_values_Cons [simp]:
  "field_values n ((k, v) # fs) = (if k = n then v # field_values n fs else field_values n fs)"
  by (simp add: field_values_def)

lemma field_values_append [simp]: "field_values n (fs @ gs) = field_values n fs @ field_values n gs"
  by (simp add: field_values_def)

lemma conv_strings_JStr [simp]: "conv_strings (map JStr ss) = Some ss"
  by (induction ss) (auto simp: conv_string_def)

lemma conv_strings_JStr_comp [simp]: "conv_string_list (JArr (map JStr ss)) = Some ss"
  by (simp add: conv_string_list_def)

end
