(* ===== verification/World.thy ===== *)
theory World
  imports Json
begin

text \<open>
  The rows of the central database that the modelled services read and write (internal/db),
  and the state of the central server: the tables, the live agent connections of
  internal/agentconn, the frames written to them, the audit stream and the events published
  to browsers. A nullable column and a Go pointer field are an \<^typ>\<open>'a option\<close>.
\<close>

section \<open>Rows\<close>

text \<open>
  \<^verbatim>\<open>db.Tier\<close> is a Go string type; \<open>TierOther\<close> is any string outside the database's
  \<^verbatim>\<open>user_tier\<close> enumeration.
\<close>

datatype tier = TierReadOnly | TierDeveloper | TierPowerDev | TierAdmin | TierOther string

definition tier_string :: "tier \<Rightarrow> string" where
  "tier_string t =
     (case t of TierReadOnly \<Rightarrow> ''read_only'' | TierDeveloper \<Rightarrow> ''developer''
      | TierPowerDev \<Rightarrow> ''power_dev'' | TierAdmin \<Rightarrow> ''admin'' | TierOther s \<Rightarrow> s)"

text \<open>The order of the enumeration, used by \<^verbatim>\<open>min_tier <= $2::user_tier\<close>.\<close>

definition tier_rank :: "tier \<Rightarrow> nat option" where
  "tier_rank t =
     (case t of TierReadOnly \<Rightarrow> Some 0 | TierDeveloper \<Rightarrow> Some 1
      | TierPowerDev \<Rightarrow> Some 2 | TierAdmin \<Rightarrow> Some 3 | TierOther s \<Rightarrow> None)"

definition valid_tier :: "tier \<Rightarrow> bool" where
  "valid_tier t \<longleftrightarrow> tier_rank t \<noteq> None"

record user =
  user_ID :: string
  user_ADSID :: "string option"
  user_EntraObjectID :: "string option"
  user_DisplayName :: string
  user_Tier :: tier
  user_CreatedAt :: time
  user_LastLoginAt :: "time option"
  user_ElevatedBy :: "string option"
  user_ElevatedAt :: "time option"
  user_LDAPDN :: "string option"
  user_LocalUsername :: "string option"
  user_LocalPasswordHash :: "string option"
  user_ThemePreset :: "string option"
  user_ThemeCustomColors :: "(string \<times> string) list option"
  user_ThemeStatusPalette :: "string option"

type_synonym audit_detail = "(string \<times> json) list"

record audit_record =
  audit_ID :: string
  audit_ActorID :: "string option"
  audit_IsSuperAdminAction :: bool
  audit_Action :: string
  audit_ObjectType :: string
  audit_ObjectID :: string
  audit_Detail :: "audit_detail option"
  audit_CreatedAt :: time

datatype instance_status =
  StatusStarting | StatusRunning | StatusStopping | StatusStopped | StatusFailed

datatype health_status = HealthHealthy | HealthUnhealthy | HealthUnknown | HealthDead

record running_instance =
  inst_ID :: string
  inst_ProfileID :: string
  inst_Status :: instance_status
  inst_PrimaryNodeID :: string
  inst_ActualPort :: "int option"
  inst_StartedBy :: "string option"
  inst_StartedAt :: time
  inst_StoppedAt :: "time option"
  inst_HealthStatus :: health_status
  inst_LastHealthCheckAt :: "time option"
  inst_HealthDetail :: "(string \<times> json) list option"
  inst_ErrorMessage :: "string option"

datatype engine_type = EngineVLLM | EngineAphrodite | EngineLlamaCPP

definition engine_string :: "engine_type \<Rightarrow> string" where
  "engine_string e =
     (case e of EngineVLLM \<Rightarrow> ''vllm'' | EngineAphrodite \<Rightarrow> ''aphrodite'' | EngineLlamaCPP \<Rightarrow> ''llamacpp'')"

text \<open>A \<^verbatim>\<open>float64\<close>: \<open>Finite m e\<close> is \<open>m * 2 ^ e\<close>.\<close>

datatype float64 = NaN | PosInf | NegInf | Finite int int

datatype model_format = FormatSafetensors | FormatGGUF | FormatOther string

text \<open>The topology of a profile is always the column's default.\<close>

record profile =
  prof_ID :: string
  prof_Name :: string
  prof_ModelRef :: string
  prof_EngineType :: engine_type
  prof_EngineParams :: raw_json
  prof_RequiresFullGPUResidency :: bool
  prof_RequiredMemoryGB :: "float64 option"
  prof_EngineVersion :: "string option"
  prof_Quantization :: string
  prof_Format :: model_format
  prof_Image :: "string option"
  prof_TargetNodeID :: "string option"
  prof_Port :: int
  prof_CreatedBy :: "string option"
  prof_CreatedAt :: time
  prof_UpdatedBy :: "string option"
  prof_UpdatedAt :: time

datatype severity = SeverityInfo | SeverityWarning | SeverityCritical | SeverityOther string

datatype resolution = ResolutionCleared | ResolutionUser

datatype audience =
    AudienceUser string
  | AudienceTier tier
  | AudienceGroup string
  | AudienceOther string

record alert =
  alert_ID :: string
  alert_Kind :: string
  alert_Severity :: severity
  alert_Title :: string
  alert_Body :: string
  alert_ObjectType :: "string option"
  alert_ObjectID :: "string option"
  alert_DedupeKey :: "string option"
  alert_FirstRaisedAt :: time
  alert_LastRaisedAt :: time
  alert_Occurrences :: nat
  alert_ResolvedAt :: "time option"
  alert_ResolvedBy :: "string option"
  alert_Resolution :: "resolution option"

record user_state =
  us_AlertID :: string
  us_UserID :: string
  us_ReadAt :: "time option"
  us_DismissedAt :: "time option"

record alert_settings =
  as_RetentionMonths :: int
  as_UpdatedBy :: "string option"
  as_UpdatedAt :: time

record schedule_settings =
  ss_Timezone :: string
  ss_UpdatedBy :: "string option"
  ss_UpdatedAt :: time

datatype stale_mode = ModeNone | ModeReport | ModePrune | ModeOther string

text \<open>\<^verbatim>\<open>stalecontainers.RunSummary\<close>; its column holds the value that the JSON document encodes.\<close>

record run_summary =
  sum_Mode :: string
  sum_StartedAt :: time
  sum_FinishedAt :: time
  sum_NodesScanned :: int
  sum_NodesSkipped :: int
  sum_Stale :: int
  sum_Recent :: int
  sum_Orphans :: int
  sum_Removed :: int
  sum_Gone :: int
  sum_Kept :: int
  sum_Failed :: int

text \<open>A \<^verbatim>\<open>jsonb\<close> column is the value it holds; \<open>None\<close> is \<^verbatim>\<open>NULL\<close>.\<close>

record stale_settings =
  sc_Mode :: stale_mode
  sc_Schedule :: "json option"
  sc_ScheduleSetAt :: time
  sc_LastRunAt :: "time option"
  sc_LastRunSummary :: "run_summary option"
  sc_MinAgeHours :: int
  sc_ArchiveLines :: int
  sc_UpdatedBy :: "string option"
  sc_UpdatedAt :: time

datatype runtime_backend = BackendDocker | BackendPodman | BackendBareMetal | BackendOther string

datatype agent_status = AgentOnline | AgentOffline | AgentUnreachable

record node =
  node_ID :: string
  node_Name :: string
  node_Hostname :: string
  node_IPAddress :: string
  node_RuntimeBackend :: runtime_backend
  node_GPUMemoryGB :: float64
  node_CPUMemoryGB :: float64
  node_AgentStatus :: agent_status
  node_LastHeartbeatAt :: "time option"
  node_RegisteredBy :: "string option"
  node_RegisteredAt :: time
  node_SSHPublicKey :: "string option"
  node_SSHHostPublicKey :: "string option"
  node_DefaultTransferInterface :: "string option"
  node_Comment :: "string option"
  node_CommentUpdatedBy :: "string option"
  node_CommentUpdatedAt :: "time option"

text \<open>A row of the nodes table: the node and the hash of its bearer token.\<close>

record node_credential =
  cred_Node :: node
  cred_BearerTokenHash :: string

record node_interface =
  ni_NodeID :: string
  ni_InterfaceName :: string
  ni_IPAddress :: string
  ni_LinkSpeedMbps :: "int option"
  ni_ReportedAt :: time

datatype transfer_source_type = SourceInternet | SourcePeerNode | SourceOther string

datatype transfer_status =
    TransferQueued | TransferTransferring | TransferCompleted | TransferFailed | TransferCancelled | TransferOther string

record model_transfer =
  mt_ID :: string
  mt_DestNodeID :: string
  mt_ModelRef :: string
  mt_SourceType :: transfer_source_type
  mt_SourceNodeID :: "string option"
  mt_Status :: transfer_status
  mt_BytesTransferred :: int
  mt_BytesTotal :: int
  mt_Quantization :: "string option"
  mt_RequestedBy :: "string option"
  mt_RequestedAt :: time
  mt_CompletedAt :: "time option"
  mt_ErrorMessage :: "string option"
  mt_SourceInterface :: "string option"
  mt_Format :: "model_format option"

datatype inventory_status = InvPresent | InvStale | InvRemoved | InvIncomplete

record model_inventory =
  mi_NodeID :: string
  mi_ModelRef :: string
  mi_Quantization :: string
  mi_Format :: model_format
  mi_Status :: inventory_status
  mi_SizeBytes :: int
  mi_PlacedAt :: time
  mi_PlacedVia :: string

datatype capability = CapabilityManageModelStore

record permission_override =
  po_UserID :: string
  po_Capability :: capability
  po_GrantedBy :: string
  po_GrantedAt :: time

text \<open>An open connectivity check and its answer.\<close>

record connectivity_result =
  cr_Reachable :: bool
  cr_LatencyMs :: int
  cr_Reason :: string

record pending_check =
  pc_destNodeID :: string
  pc_created :: time
  pc_result :: "connectivity_result option"

text \<open>
  A model copy found on a node's disk (\<^verbatim>\<open>modelscan.Candidate\<close>, and \<^verbatim>\<open>agentproto.ScannedModel\<close> on the
  wire: the same fields), and what the inventory service keeps of open scans and deletes.
\<close>

record scanned_model =
  sm_ModelRef :: string
  sm_Quantization :: string
  sm_Format :: string
  sm_SizeBytes :: int
  sm_FileName :: string
  sm_PossiblyIncomplete :: bool

record scan_candidate =
  sd_ModelRef :: string
  sd_Quantization :: string
  sd_Format :: model_format
  sd_SizeBytes :: int
  sd_FileName :: string
  sd_PossiblyIncomplete :: bool
  sd_PreviouslyRemoved :: bool
  sd_BlockedReason :: string

datatype inv_scan_status = InvScanPending | InvScanDone | InvScanOffline | InvScanFailed

record node_scan_state =
  nss_status :: inv_scan_status
  nss_err :: string
  nss_truncated :: bool
  nss_known :: int
  nss_models :: "scanned_model list"
  nss_candidates :: "scan_candidate list"

record scan_state =
  scs_at :: time
  scs_order :: "string list"
  scs_nodes :: "(string \<times> node_scan_state) list"

record delete_state =
  ds_at :: time
  ds_failed :: bool
  ds_reason :: string

section \<open>Application groups\<close>

record app_group =
  ag_ID :: string
  ag_Name :: string
  ag_CreatedBy :: "string option"
  ag_CreatedAt :: time
  ag_UpdatedBy :: "string option"
  ag_UpdatedAt :: time

record ad_mapping =
  am_GroupID :: string
  am_DN :: string
  am_Name :: string
  am_AddedBy :: "string option"
  am_AddedAt :: time

text \<open>The single row of the credential for emergencies.\<close>

record break_glass_credential =
  bg_PasswordHash :: string
  bg_UpdatedAt :: time

section \<open>The agent protocol's frames\<close>

record envelope =
  env_Type :: string
  env_RequestID :: string
  env_Payload :: raw_json

text \<open>What the stale container monitoring keeps of its open requests.\<close>

record managed_container =
  mc_InstanceID :: string
  mc_ProfileID :: string
  mc_ContainerID :: string
  mc_ContainerName :: string
  mc_State :: string
  mc_Labelled :: bool
  mc_ExitCode :: "int option"
  mc_OOMKilled :: bool
  mc_CreatedAt :: "time option"
  mc_FinishedAt :: "time option"

record remove_container_result =
  rc_RemoveID :: string
  rc_InstanceID :: string
  rc_Outcome :: string
  rc_Detail :: string

record list_wait =
  lw_nodeID :: string
  lw_next :: int
  lw_containers :: "managed_container list"
  lw_truncated :: bool
  lw_errMsg :: string
  lw_finished :: bool

record remove_wait =
  rw_nodeID :: string
  rw_instanceID :: string

section \<open>The server\<close>

text \<open>
  \<open>rivals n\<close> is the alert that another session of the database commits between the lookup and the insert
  of a raise whose insert is call \<open>n\<close>: statements of one transaction are not atomic together.
  \<open>arrivals n\<close> are the frames that arrive while call \<open>n\<close> waits for an agent, each with the node whose
  connection they came over. \<open>remove_answers\<close> are the buffered channels of open remove requests.
\<close>

type_synonym conn = nat

record world = io_env +
  users :: "user list"
  audit_log :: "audit_record list"
  audit_stream :: "audit_record list"
  running_instances :: "running_instance list"
  model_profiles :: "profile list"
  conns :: "(string \<times> conn) list"
  sent :: "(conn \<times> envelope) list"
  alerts :: "alert list"
  rivals :: "nat \<Rightarrow> alert option"
  alert_audiences :: "(string \<times> audience) list"
  alert_user_state :: "user_state list"
  alert_settings_row :: alert_settings
  app_group_local_members :: "(string \<times> string) list"
  app_groups :: "app_group list"
  app_group_ad_groups :: "ad_mapping list"
  user_ad_group_membership :: "(string \<times> string) list"
  published :: "string list"
  notified :: "(alert \<times> bool) list"
  schedule_settings_row :: schedule_settings
  stale_settings_row :: stale_settings
  nodes :: "node_credential list"
  node_network_interfaces :: "node_interface list"
  arrivals :: "nat \<Rightarrow> (string \<times> envelope) list"
  list_waits :: "(string \<times> list_wait) list"
  remove_waits :: "(string \<times> remove_wait) list"
  remove_answers :: "(string \<times> remove_container_result) list"
  model_transfers :: "model_transfer list"
  node_model_inventory :: "model_inventory list"
  permission_overrides :: "permission_override list"
  connectivity_checks :: "(string \<times> pending_check) list"
  model_deletes :: "(string \<times> delete_state) list"
  model_scans :: "(string \<times> scan_state) list"
  break_glass :: "break_glass_credential option"

type_synonym 'a io = "(world, 'a) state"

text \<open>
  An empty server with a clock that stands at one instant per call and identifiers numbered by
  call, on which concrete runs start.
\<close>

definition uuid_of :: "nat \<Rightarrow> string" where
  "uuid_of n =
     ''00000000-0000-0000-0000-0000000'' @
     map (\<lambda>k. char_of (48 + k mod 10 :: nat))
       [n div 10 div 10 div 10 div 10, n div 10 div 10 div 10, n div 10 div 10, n div 10, n]"

definition empty_world :: world where
  "empty_world =
     \<lparr>tick = 0, faults = (\<lambda>_. NoFault), clock = (\<lambda>n. 63900000000000000000 + int n), uuids = uuid_of,
      entropy = (\<lambda>_. replicate 32 (CHR ''s'')),
      users = [], audit_log = [], audit_stream = [], running_instances = [], model_profiles = [],
      conns = [], sent = [], alerts = [], rivals = (\<lambda>_. None), alert_audiences = [], alert_user_state = [],
      alert_settings_row = \<lparr>as_RetentionMonths = 12, as_UpdatedBy = None, as_UpdatedAt = 0\<rparr>,
      app_group_local_members = [], app_groups = [], app_group_ad_groups = [], user_ad_group_membership = [],
      published = [], notified = [],
      schedule_settings_row = \<lparr>ss_Timezone = ''UTC'', ss_UpdatedBy = None, ss_UpdatedAt = 0\<rparr>,
      stale_settings_row = \<lparr>sc_Mode = ModeNone, sc_Schedule = None, sc_ScheduleSetAt = 0, sc_LastRunAt = None,
        sc_LastRunSummary = None, sc_MinAgeHours = 24, sc_ArchiveLines = 2000, sc_UpdatedBy = None, sc_UpdatedAt = 0\<rparr>,
      nodes = [], node_network_interfaces = [], arrivals = (\<lambda>_. []), list_waits = [], remove_waits = [], remove_answers = [],
      model_transfers = [], node_model_inventory = [], permission_overrides = [], connectivity_checks = [], model_deletes = [], model_scans = [],
      break_glass = None\<rparr>"

section \<open>Statements\<close>

text \<open>
  A select returns a value and leaves the database alone; a statement that writes returns a
  value and the new database. Both can fail as \<^const>\<open>io_call\<close> describes. Constraints that the
  code does not react to (foreign keys, casts to \<^verbatim>\<open>uuid\<close>) show as failures of the
  environment.
\<close>

definition query :: "(world \<Rightarrow> 'a res) \<Rightarrow> 'a res io" where
  "query f = io_call (\<lambda>w. (f w, w))"

definition exec :: "(world \<Rightarrow> 'a \<times> world) \<Rightarrow> 'a res io" where
  "exec f = io_call (\<lambda>w. (Inr (fst (f w)), snd (f w)))"

lemma run_query [run_simps]:
  "run_state (query f) w =
     (case faults w (tick w) of
        NoFault \<Rightarrow> f (w\<lparr>tick := Suc (tick w)\<rparr>)
      | Lost e \<Rightarrow> Inl (ErrIO e)
      | Ambiguous e \<Rightarrow> Inl (ErrIO e),
      w\<lparr>tick := Suc (tick w)\<rparr>)"
  by (simp add: query_def run_simps split: fault.splits)

lemma run_exec [run_simps]:
  "run_state (exec f) w =
     (case faults w (tick w) of
        NoFault \<Rightarrow> (Inr (fst (f (w\<lparr>tick := Suc (tick w)\<rparr>))), snd (f (w\<lparr>tick := Suc (tick w)\<rparr>)))
      | Lost e \<Rightarrow> (Inl (ErrIO e), w\<lparr>tick := Suc (tick w)\<rparr>)
      | Ambiguous e \<Rightarrow> (Inl (ErrIO e), snd (f (w\<lparr>tick := Suc (tick w)\<rparr>))))"
  by (simp add: exec_def run_simps split: fault.splits)

text \<open>A step relation that ignores the call counter holds of a statement when it holds of its effect.\<close>

locale db_step_rel = step_rel R for R :: "world \<Rightarrow> world \<Rightarrow> bool" +
  assumes rel_tick: "R w (w\<lparr>tick := n\<rparr>)"
begin

lemma within_query: "within R (query f)"
  by (auto simp: within_def run_simps rel_tick split: fault.split)

lemma within_time_now: "within R time_now"
  by (simp add: within_def run_simps rel_tick)

lemma within_exec: "(\<And>w. R w (snd (f w))) \<Longrightarrow> within R (exec f)"
  unfolding within_def run_simps by (auto split: fault.split intro: rel_tick rel_trans)

lemma within_io_call: "(\<And>w. R w (snd (f w))) \<Longrightarrow> within R (io_call f)"
  unfolding within_def run_simps by (auto split: fault.split intro: rel_tick rel_trans)

lemma within_poke: "(\<And>w. R w (f w)) \<Longrightarrow> within R (poke f)"
  by (simp add: within_def run_simps)

lemmas db_within_rules = within_rules within_query within_time_now

end

end
