(* ===== verification/Rbac.thy ===== *)
theory Rbac
  imports World
begin

text \<open>
  The permission decisions of internal/rbac/rbac.go: pure functions of the actor and, for a tier
  change, of the two tiers. The lemmas give each decision as a threshold on the tier order and
  show that the elevation rule never reaches the Admin tier.
\<close>

record actor =
  IsSuperAdmin :: bool
  UserID :: string
  Tier :: tier

definition adminRange :: "tier list" where
  "adminRange = [TierReadOnly, TierDeveloper, TierPowerDev]"

text \<open>The index of the first match, -1 when there is none.\<close>

fun rangeIndex_from :: "tier list \<Rightarrow> int \<Rightarrow> tier \<Rightarrow> int" where
  "rangeIndex_from [] i t = - 1"
| "rangeIndex_from (x # xs) i t = (if x = t then i else rangeIndex_from xs (i + 1) t)"

definition rangeIndex :: "tier \<Rightarrow> int" where
  "rangeIndex t = rangeIndex_from adminRange 0 t"

definition CanElevate :: "actor \<Rightarrow> tier \<Rightarrow> tier \<Rightarrow> bool" where
  "CanElevate a fromTier toTier =
     (if IsSuperAdmin a then True
      else if Tier a \<noteq> TierAdmin then False
      else
        let fromIdx = rangeIndex fromTier; toIdx = rangeIndex toTier in
        if fromIdx = - 1 \<or> toIdx = - 1 then False
        else let step = toIdx - fromIdx in step = 1 \<or> step = - 1)"

definition CanManageNodes :: "actor \<Rightarrow> bool" where
  "CanManageNodes a = (if IsSuperAdmin a then True else Tier a = TierAdmin)"

definition CanImportModels :: "actor \<Rightarrow> bool" where
  "CanImportModels a = (if IsSuperAdmin a then True else Tier a = TierAdmin)"

definition CanEditNodeComment :: "actor \<Rightarrow> bool" where
  "CanEditNodeComment a =
     (if IsSuperAdmin a then True
      else case Tier a of TierPowerDev \<Rightarrow> True | TierAdmin \<Rightarrow> True | _ \<Rightarrow> False)"

definition CanViewAuditLog :: "actor \<Rightarrow> bool" where
  "CanViewAuditLog a = (if IsSuperAdmin a then True else Tier a = TierAdmin)"

definition CanViewUsers :: "actor \<Rightarrow> bool" where
  "CanViewUsers a = (if IsSuperAdmin a then True else Tier a = TierAdmin)"

definition CanManageStaleContainers :: "actor \<Rightarrow> bool" where
  "CanManageStaleContainers a = (if IsSuperAdmin a then True else Tier a = TierAdmin)"

definition CanManageEmail :: "actor \<Rightarrow> bool" where
  "CanManageEmail a = (if IsSuperAdmin a then True else Tier a = TierAdmin)"

definition CanViewSettings :: "actor \<Rightarrow> bool" where
  "CanViewSettings a = (if IsSuperAdmin a then True else Tier a = TierAdmin)"

definition CanCreateLocalAccount :: "actor \<Rightarrow> bool" where
  "CanCreateLocalAccount a = (if IsSuperAdmin a then True else Tier a = TierAdmin)"

definition CanResetLocalAccountPassword :: "actor \<Rightarrow> bool" where
  "CanResetLocalAccountPassword a = (if IsSuperAdmin a then True else Tier a = TierAdmin)"

definition CanSetUserEmail :: "actor \<Rightarrow> bool" where
  "CanSetUserEmail a = (if IsSuperAdmin a then True else Tier a = TierAdmin)"

definition CanManageModelStore :: "actor \<Rightarrow> bool \<Rightarrow> bool" where
  "CanManageModelStore a hasOverride =
     (if IsSuperAdmin a then True
      else if Tier a = TierAdmin then True
      else Tier a = TierPowerDev \<and> hasOverride)"

definition CanManageProfiles :: "actor \<Rightarrow> bool" where
  "CanManageProfiles a =
     (if IsSuperAdmin a then True
      else if Tier a = TierAdmin then True
      else Tier a = TierPowerDev)"

definition CanViewInstanceLogs :: "actor \<Rightarrow> bool" where
  "CanViewInstanceLogs a =
     (if IsSuperAdmin a then True
      else case Tier a of TierDeveloper \<Rightarrow> True | TierPowerDev \<Rightarrow> True | TierAdmin \<Rightarrow> True | _ \<Rightarrow> False)"

definition CanLaunchInstances :: "actor \<Rightarrow> bool" where
  "CanLaunchInstances a =
     (if IsSuperAdmin a then True
      else case Tier a of TierDeveloper \<Rightarrow> True | TierPowerDev \<Rightarrow> True | TierAdmin \<Rightarrow> True | _ \<Rightarrow> False)"

definition CanResolveAnyAlert :: "actor \<Rightarrow> bool" where
  "CanResolveAnyAlert a = (if IsSuperAdmin a then True else Tier a = TierAdmin)"

definition CanManageGroups :: "actor \<Rightarrow> bool" where
  "CanManageGroups a =
     (if IsSuperAdmin a then True
      else case Tier a of TierPowerDev \<Rightarrow> True | TierAdmin \<Rightarrow> True | _ \<Rightarrow> False)"

definition CanManageGroupLocalMembers :: "actor \<Rightarrow> bool" where
  "CanManageGroupLocalMembers a = (if IsSuperAdmin a then True else Tier a = TierAdmin)"

text \<open>\<^verbatim>\<open>var actorID *string; if !actor.IsSuperAdmin { actorID = &actor.UserID }\<close>, as every service has it.\<close>

definition actor_id :: "actor \<Rightarrow> string option" where
  "actor_id a = (if IsSuperAdmin a then None else Some (UserID a))"

section \<open>Decisions as thresholds\<close>

text \<open>An actor has at least tier \<open>t\<close>: the SuperAdmin always, a string outside the enumeration never.\<close>

definition at_least :: "tier \<Rightarrow> actor \<Rightarrow> bool" where
  "at_least t a \<longleftrightarrow>
     IsSuperAdmin a \<or>
     (case (tier_rank t, tier_rank (Tier a)) of (Some m, Some n) \<Rightarrow> m \<le> n | _ \<Rightarrow> False)"

lemma at_least_mono: "at_least t a \<Longrightarrow> tier_rank t' = Some m \<Longrightarrow> tier_rank t = Some n \<Longrightarrow> m \<le> n \<Longrightarrow> at_least t' a"
  by (auto simp: at_least_def split: option.splits)

lemmas permission_defs =
  CanManageNodes_def CanImportModels_def CanEditNodeComment_def CanViewAuditLog_def CanViewUsers_def
  CanManageStaleContainers_def CanManageEmail_def CanViewSettings_def CanCreateLocalAccount_def
  CanResetLocalAccountPassword_def CanSetUserEmail_def CanManageProfiles_def CanViewInstanceLogs_def
  CanLaunchInstances_def CanResolveAnyAlert_def CanManageGroups_def CanManageGroupLocalMembers_def

lemma admin_threshold: "(if IsSuperAdmin a then True else Tier a = TierAdmin) \<longleftrightarrow> at_least TierAdmin a"
  by (cases "Tier a") (auto simp: at_least_def tier_rank_def)

lemma powerdev_threshold:
  "(if IsSuperAdmin a then True else case Tier a of TierPowerDev \<Rightarrow> True | TierAdmin \<Rightarrow> True | _ \<Rightarrow> False)
     \<longleftrightarrow> at_least TierPowerDev a"
  by (cases "Tier a") (auto simp: at_least_def tier_rank_def)

lemma developer_threshold:
  "(if IsSuperAdmin a then True
    else case Tier a of TierDeveloper \<Rightarrow> True | TierPowerDev \<Rightarrow> True | TierAdmin \<Rightarrow> True | _ \<Rightarrow> False)
     \<longleftrightarrow> at_least TierDeveloper a"
  by (cases "Tier a") (auto simp: at_least_def tier_rank_def)

lemma rangeIndex_rank:
  "rangeIndex t = (case tier_rank t of Some n \<Rightarrow> if n < 3 then int n else - 1 | None \<Rightarrow> - 1)"
  by (cases t) (auto simp: rangeIndex_def adminRange_def tier_rank_def)

text \<open>
  The tier floors: which operations an actor may perform depends only on a threshold of the
  tier order Read-only < Developer < PowerDev < Admin, the SuperAdmin passes every threshold, and a
  tier outside the enumeration passes none. Twelve operations need Admin, three need PowerDev, two
  need Developer, and the model store needs Admin or a PowerDev with a recorded override.
\<close>

theorem permission_floors:
  "map (\<lambda>can. can a)
     [CanManageNodes, CanImportModels, CanViewAuditLog, CanViewUsers, CanManageStaleContainers,
      CanManageEmail, CanViewSettings, CanCreateLocalAccount, CanResetLocalAccountPassword,
      CanSetUserEmail, CanResolveAnyAlert, CanManageGroupLocalMembers]
     = replicate 12 (at_least TierAdmin a)
   \<and> map (\<lambda>can. can a) [CanEditNodeComment, CanManageProfiles, CanManageGroups]
     = replicate 3 (at_least TierPowerDev a)
   \<and> map (\<lambda>can. can a) [CanViewInstanceLogs, CanLaunchInstances] = replicate 2 (at_least TierDeveloper a)
   \<and> CanManageModelStore a ov = (at_least TierAdmin a \<or> at_least TierPowerDev a \<and> ov)"
proof -
  have "CanManageProfiles a = at_least TierPowerDev a"
    by (cases "Tier a") (auto simp: CanManageProfiles_def at_least_def tier_rank_def)
  moreover have "CanManageModelStore a ov = (at_least TierAdmin a \<or> at_least TierPowerDev a \<and> ov)"
    by (cases "Tier a") (auto simp: CanManageModelStore_def at_least_def tier_rank_def)
  ultimately show ?thesis
    unfolding permission_defs admin_threshold powerdev_threshold developer_threshold
    by (simp add: numeral_eq_Suc)
qed

text \<open>
  The elevation rule in terms of the tier order: neighbours below Admin.
\<close>

definition adjacent_below_admin :: "tier \<Rightarrow> tier \<Rightarrow> bool" where
  "adjacent_below_admin f t \<longleftrightarrow>
     (case (tier_rank f, tier_rank t) of
        (Some m, Some n) \<Rightarrow> m < 3 \<and> n < 3 \<and> (m = Suc n \<or> n = Suc m)
      | _ \<Rightarrow> False)"

lemma CanElevate_ordinary:
  "\<not> IsSuperAdmin a \<Longrightarrow> CanElevate a f t \<longleftrightarrow> Tier a = TierAdmin \<and> adjacent_below_admin f t"
  by (cases f; cases t)
    (auto simp: CanElevate_def adjacent_below_admin_def rangeIndex_rank tier_rank_def Let_def)

text \<open>
  The elevation rule: the SuperAdmin may make any tier change; any other actor may make one
  exactly when that actor is an Admin and the two tiers are neighbours of each other below Admin. In
  particular neither the old nor the new tier is Admin, and neither lies outside the enumeration.
\<close>

theorem elevation_rule:
  "CanElevate a f t \<longleftrightarrow> IsSuperAdmin a \<or> Tier a = TierAdmin \<and> adjacent_below_admin f t"
proof (cases "IsSuperAdmin a")
  case True
  then show ?thesis by (simp add: CanElevate_def)
next
  case False
  then show ?thesis by (simp add: CanElevate_ordinary)
qed

lemma adjacent_not_admin: "adjacent_below_admin f t \<Longrightarrow> f \<noteq> TierAdmin \<and> t \<noteq> TierAdmin"
  by (cases f; cases t) (auto simp: adjacent_below_admin_def tier_rank_def)

lemma adjacent_valid: "adjacent_below_admin f t \<Longrightarrow> valid_tier f \<and> valid_tier t"
  by (cases f; cases t) (auto simp: adjacent_below_admin_def tier_rank_def valid_tier_def)

end
