(* ===== verification/Audit_Log.thy ===== *)
theory Audit_Log
  imports Rbac
begin

text \<open>
  The audit log (internal/audit/audit.go, internal/db/audit.go) and the pattern every audited
  settings write follows: change, record, and undo the change when recording fails. The lemmas show
  that the log only grows and that the pattern is all-or-nothing when at most one call fails.
\<close>

section \<open>Recording\<close>

definition audit_Write ::
  "string option \<Rightarrow> bool \<Rightarrow> string \<Rightarrow> string \<Rightarrow> string \<Rightarrow> audit_detail option \<Rightarrow> audit_record res io" where
  "audit_Write actorID isSuperAdminAction action objectType objectID detail =
     or_return
       (exec (\<lambda>w.
          let rec = \<lparr>audit_ID = db_uuid w, audit_ActorID = actorID,
                     audit_IsSuperAdminAction = isSuperAdminAction, audit_Action = action,
                     audit_ObjectType = objectType, audit_ObjectID = objectID,
                     audit_Detail = detail, audit_CreatedAt = db_now w\<rparr>
          in (rec, w\<lparr>audit_log := audit_log w @ [rec]\<rparr>)))
       (Wrap ''write audit record'') ok"

text \<open>\<^verbatim>\<open>emit\<close> copies the stored record to the audit stream; a failed write is ignored.\<close>

definition emit :: "audit_record \<Rightarrow> unit io" where
  "emit rec = poke (\<lambda>w. w\<lparr>audit_stream := audit_stream w @ [rec]\<rparr>)"

definition Record ::
  "string option \<Rightarrow> bool \<Rightarrow> string \<Rightarrow> string \<Rightarrow> string \<Rightarrow> audit_detail option \<Rightarrow> unit res io" where
  "Record actorID isSuperAdminAction action objectType objectID detail =
     or_return (audit_Write actorID isSuperAdminAction action objectType objectID detail)
       (Wrap ''write audit record'')
       (\<lambda>rec. State_Monad.bind (emit rec) (\<lambda>_. ok ()))"

definition audit_repo_List :: "audit_record list res io" where
  "audit_repo_List = query (\<lambda>w. Inr (sort_key (\<lambda>r. - audit_CreatedAt r) (audit_log w)))"

definition audit_List :: "actor \<Rightarrow> audit_record list res io" where
  "audit_List a =
     (if \<not> CanViewAuditLog a then fail ErrNotPermitted
      else or_return audit_repo_List (Wrap ''list audit records'') ok)"

text \<open>
  Change, record, revert: the tail of \<^verbatim>\<open>rbac.Service.ElevateTier\<close>, \<^verbatim>\<open>UpdateOwnTheme\<close>,
  \<^verbatim>\<open>schedule.Service.UpdateTimezone\<close>, \<^verbatim>\<open>alerts.Service.UpdateRetention\<close>, \<^verbatim>\<open>userStateChange\<close> and
  \<^verbatim>\<open>ResolveAlert\<close> from the audit write on. \<open>both\<close> is what is returned when the revert fails too.
\<close>

definition audited :: "unit res io \<Rightarrow> unit res io \<Rightarrow> (error \<Rightarrow> error) \<Rightarrow> unit res io" where
  "audited record revert both =
     State_Monad.bind record (\<lambda>r.
       case r of
         Inr _ \<Rightarrow> ok ()
       | Inl e \<Rightarrow>
           let auditErr = Wrap ''record audit'' e in
           State_Monad.bind revert (\<lambda>v.
             case v of
               Inl revertErr \<Rightarrow> fail (both auditErr)
             | Inr _ \<Rightarrow> fail auditErr))"

section \<open>What a record call does\<close>

definition new_record ::
  "world \<Rightarrow> string option \<Rightarrow> bool \<Rightarrow> string \<Rightarrow> string \<Rightarrow> string \<Rightarrow> audit_detail option \<Rightarrow> audit_record" where
  "new_record w actorID isSuper action objectType objectID detail =
     \<lparr>audit_ID = uuids w (Suc (tick w)), audit_ActorID = actorID,
      audit_IsSuperAdminAction = isSuper, audit_Action = action,
      audit_ObjectType = objectType, audit_ObjectID = objectID,
      audit_Detail = detail, audit_CreatedAt = clock w (Suc (tick w))\<rparr>"

lemma run_Record [run_simps]:
  "run_state (Record act isSA action otyp obj det) w =
     (let w1 = w\<lparr>tick := Suc (tick w)\<rparr>;
          rec = new_record w act isSA action otyp obj det;
          w2 = w1\<lparr>audit_log := audit_log w @ [rec]\<rparr>;
          bad = \<lambda>e. Inl (Wrap ''write audit record'' (Wrap ''write audit record'' (ErrIO e)))
      in case faults w (tick w) of
           NoFault \<Rightarrow> (Inr (), w2\<lparr>audit_stream := audit_stream w @ [rec]\<rparr>)
         | Lost e \<Rightarrow> (bad e, w1)
         | Ambiguous e \<Rightarrow> (bad e, w2))"
  by (simp add: Record_def audit_Write_def emit_def run_simps db_uuid_def db_now_def new_record_def
      Let_def split: fault.splits)

lemma run_audited [run_simps]:
  "run_state (audited rc rv both) w =
     (case run_state rc w of
        (Inr _, w') \<Rightarrow> (Inr (), w')
      | (Inl e, w') \<Rightarrow>
          (case run_state rv w' of
             (Inl _, w'') \<Rightarrow> (Inl (both (Wrap ''record audit'' e)), w'')
           | (Inr _, w'') \<Rightarrow> (Inl (Wrap ''record audit'' e), w'')))"
  by (auto simp: audited_def Let_def split: prod.splits sum.splits)

section \<open>The log only grows\<close>

definition log_grows :: "world \<Rightarrow> world \<Rightarrow> bool" where
  "log_grows w w' \<longleftrightarrow> (\<exists>new. audit_log w' = audit_log w @ new)"

lemma log_grows_same: "audit_log w' = audit_log w \<Longrightarrow> log_grows w w'"
  by (simp add: log_grows_def)

interpretation log_grows: db_step_rel log_grows
  by unfold_locales (auto simp: log_grows_def)

lemma log_grows_exec: "(\<And>w. audit_log (snd (f w)) = audit_log w) \<Longrightarrow> within log_grows (exec f)"
  by (rule log_grows.within_exec) (simp add: log_grows_same)

lemma log_grows_poke: "(\<And>w. audit_log (f w) = audit_log w) \<Longrightarrow> within log_grows (poke f)"
  by (rule log_grows.within_poke) (simp add: log_grows_same)

lemma log_grows_Record: "within log_grows (Record act isSA action otyp obj det)"
  by (auto simp: within_def run_simps Let_def log_grows_def split: fault.split)

lemma log_grows_audited:
  "within log_grows rc \<Longrightarrow> within log_grows rv \<Longrightarrow> within log_grows (audited rc rv both)"
  unfolding audited_def Let_def by (intro log_grows.within_rules) assumption+

lemmas log_grows_rules = log_grows.db_within_rules log_grows_Record log_grows_audited

section \<open>All or nothing\<close>

text \<open>
  At most one of the calls fails, and the one that fails had no effect. This is the failure that
  the services' comments consider (the audit write fails right after a successful update).
\<close>

definition one_lost_call :: "world \<Rightarrow> bool" where
  "one_lost_call w \<longleftrightarrow>
     (\<forall>n e. faults w n \<noteq> Ambiguous e) \<and>
     (\<forall>m n. faults w m \<noteq> NoFault \<longrightarrow> faults w n \<noteq> NoFault \<longrightarrow> m = n)"

lemma one_lost_callD:
  "one_lost_call w \<Longrightarrow> faults w m \<noteq> NoFault \<Longrightarrow> n \<noteq> m \<Longrightarrow> faults w n = NoFault"
  unfolding one_lost_call_def by metis

lemma one_lost_call_not_ambiguous [simp]: "one_lost_call w \<Longrightarrow> faults w n \<noteq> Ambiguous e"
  by (simp add: one_lost_call_def)

lemma one_lost_call_cong: "faults w' = faults w \<Longrightarrow> one_lost_call w' = one_lost_call w"
  by (simp add: one_lost_call_def)

text \<open>
  The contract between an audited change and its revert. \<open>view\<close> is the part of the state the
  change is about, \<open>changed\<close> tells from the result of the write whether it did anything. Writing advances
  the call counter by one and leaves the faults alone; a lost write changes nothing; the revert, run on a
  state with the written view, restores the old view.
\<close>

locale reversible_write =
  fixes view :: "world \<Rightarrow> 'v"
    and wr :: "'a res io"
    and revert :: "unit res io"
    and pre :: "world \<Rightarrow> bool"
    and changed :: "'a \<Rightarrow> bool"
  assumes wr_env: "run_state wr w = (r, w') \<Longrightarrow> faults w' = faults w \<and> tick w' = Suc (tick w)"
    and wr_log: "run_state wr w = (r, w') \<Longrightarrow> audit_log w' = audit_log w"
    and wr_lost: "one_lost_call w \<Longrightarrow> pre w \<Longrightarrow> run_state wr w = (Inl e, w') \<Longrightarrow> view w' = view w"
    and revert_undoes: "pre w \<Longrightarrow> run_state wr w = (Inr u, w1) \<Longrightarrow> changed u \<Longrightarrow> view w2 = view w1 \<Longrightarrow>
           faults w2 (tick w2) = NoFault \<Longrightarrow> run_state revert w2 = (v, w3) \<Longrightarrow>
           view w3 = view w \<and> audit_log w3 = audit_log w2"
    and view_tick: "view (w\<lparr>tick := n\<rparr>) = view w"
    and view_log: "view (w\<lparr>audit_log := l\<rparr>) = view w"
    and view_stream: "view (w\<lparr>audit_stream := l\<rparr>) = view w"
begin

lemma audited_tail:
  assumes one: "one_lost_call w" and pre: "pre w" and wr: "run_state wr w = (Inr u, w2)" and ch: "changed u"
    and run: "run_state (audited (Record act isSA action otyp obj det) revert both) w2 = (r, w')"
  shows "case r of
           Inl e \<Rightarrow> view w' = view w \<and> audit_log w' = audit_log w
         | Inr _ \<Rightarrow> view w' = view w2 \<and>
                     audit_log w' = audit_log w @ [new_record w2 act isSA action otyp obj det]"
proof (cases "faults w2 (tick w2)")
  case NoFault
  with run wr_log [OF wr] show ?thesis by (auto simp: run_simps Let_def view_tick view_log view_stream)
next
  case (Lost e)
  have "faults w2 (Suc (tick w2)) = NoFault"
    using one_lost_callD [of w2 "tick w2" "Suc (tick w2)"] Lost one wr_env [OF wr]
    by (simp add: one_lost_call_cong [of w2 w])
  moreover obtain v w3 where rv: "run_state revert (w2\<lparr>tick := Suc (tick w2)\<rparr>) = (v, w3)"
    by (cases "run_state revert (w2\<lparr>tick := Suc (tick w2)\<rparr>)")
  ultimately have "view w3 = view w" and "audit_log w3 = audit_log w2"
    using revert_undoes [OF pre wr ch _ _ rv] by (simp_all add: view_tick)
  moreover have "w' = w3" and "\<exists>e. r = Inl e"
    using run Lost rv by (auto simp: run_simps Let_def split: sum.splits)
  ultimately show ?thesis using wr_log [OF wr] by auto
next
  case (Ambiguous e)
  with one wr_env [OF wr] show ?thesis by (metis one_lost_call_not_ambiguous)
qed

end

text \<open>A write that always changes something, followed at once by its audit record.\<close>

locale audited_write = reversible_write view wr revert pre "\<lambda>_. True"
  for view :: "world \<Rightarrow> 'v" and wr :: "unit res io" and revert pre
begin

lemma all_or_nothing:
  assumes one: "one_lost_call w" and pre: "pre w"
    and run: "run_state (or_return wr h
                (\<lambda>_. audited (Record act isSA action otyp obj det) revert both)) w = (r, w')"
  shows "case r of
           Inl e \<Rightarrow> view w' = view w \<and> audit_log w' = audit_log w
         | Inr _ \<Rightarrow> \<exists>w1. run_state wr w = (Inr (), w1) \<and> view w' = view w1 \<and>
                     audit_log w' = audit_log w @ [new_record w1 act isSA action otyp obj det]"
proof -
  obtain q w2 where wr: "run_state wr w = (q, w2)" by (cases "run_state wr w")
  show ?thesis
  proof (cases q)
    case (Inl e)
    with run wr wr_lost [OF one pre] wr_log [OF wr] show ?thesis by (auto simp: run_or_return)
  next
    case (Inr u)
    then have w2: "run_state wr w = (Inr (), w2)" using wr by simp
    have "run_state (audited (Record act isSA action otyp obj det) revert both) w2 = (r, w')"
      using run w2 by (simp add: run_or_return)
    from audited_tail [OF one pre w2 _ this] w2 show ?thesis by (auto split: sum.splits)
  qed
qed

end

end
