(* ===== verification/Users.thy ===== *)
theory Users
  imports Audit_Log
begin

text \<open>
  The users table and its repository (internal/db/users.go). Every operation is one statement; the
  lemmas give the effect of each on a run without faults, that the repository keeps the primary key
  and never touches the audit log, and that writing a row's old values back restores the table.
\<close>

section \<open>Statements\<close>

definition isUniqueViolation :: "error \<Rightarrow> bool" where
  "isUniqueViolation e = errors_is e ErrUniqueViolation"

text \<open>\<^verbatim>\<open>scanUser\<close> reads every column but the password hash.\<close>

definition scanUser :: "user option \<Rightarrow> user res" where
  "scanUser row = (case row of None \<Rightarrow> Inl ErrUserNotFound | Some u \<Rightarrow> Inr (u\<lparr>user_LocalPasswordHash := None\<rparr>))"

definition scan_error :: "error \<Rightarrow> error" where
  "scan_error e = (if e = ErrUserNotFound then e else Wrap ''scan user'' e)"

definition user_FindByADSID :: "string \<Rightarrow> user res io" where
  "user_FindByADSID adSID =
     or_return (query (\<lambda>w. scanUser (find (\<lambda>u. user_ADSID u = Some adSID) (users w)))) scan_error ok"

definition user_FindByLocalUsername :: "string \<Rightarrow> (user \<times> string) res io" where
  "user_FindByLocalUsername username =
     or_return
       (query (\<lambda>w.
          case find (\<lambda>u. user_LocalUsername u = Some username) (users w) of
            None \<Rightarrow> Inl ErrUserNotFound
          | Some u \<Rightarrow>
              (case user_LocalPasswordHash u of
                 None \<Rightarrow> Inl ErrMalformed
               | Some h \<Rightarrow> Inr (u\<lparr>user_LocalPasswordHash := None\<rparr>, h))))
       scan_error ok"

definition user_FindByID :: "string \<Rightarrow> user res io" where
  "user_FindByID i =
     or_return (query (\<lambda>w. scanUser (find_row user_ID i (users w)))) scan_error ok"

definition new_user :: "world \<Rightarrow> string \<Rightarrow> tier \<Rightarrow> user" where
  "new_user w displayName t =
     \<lparr>user_ID = db_uuid w, user_ADSID = None, user_EntraObjectID = None,
      user_DisplayName = displayName, user_Tier = t, user_CreatedAt = db_now w,
      user_LastLoginAt = None, user_ElevatedBy = None, user_ElevatedAt = None,
      user_LDAPDN = None, user_LocalUsername = None, user_LocalPasswordHash = None,
      user_ThemePreset = None, user_ThemeCustomColors = None, user_ThemeStatusPalette = None\<rparr>"

definition insert_user :: "user \<Rightarrow> world \<Rightarrow> user res \<times> world" where
  "insert_user u w =
     (if \<not> valid_tier (user_Tier u) then (Inl ErrInvalidEnum, w)
      else if user_ID u \<in> user_ID ` set (users w)
        \<or> (user_ADSID u \<noteq> None \<and> user_ADSID u \<in> user_ADSID ` set (users w))
        \<or> (user_LocalUsername u \<noteq> None \<and> user_LocalUsername u \<in> user_LocalUsername ` set (users w))
      then (Inl ErrUniqueViolation, w)
      else (scanUser (Some u), w\<lparr>users := users w @ [u]\<rparr>))"

definition user_Create :: "string \<Rightarrow> string \<Rightarrow> string \<Rightarrow> tier \<Rightarrow> user res io" where
  "user_Create adSID displayName dn t =
     or_return
       (io_call (\<lambda>w. insert_user ((new_user w displayName t)\<lparr>user_ADSID := Some adSID, user_LDAPDN := Some dn\<rparr>) w))
       (\<lambda>e. Wrap ''create user'' (scan_error e)) ok"

definition user_CreateLocal :: "string \<Rightarrow> string \<Rightarrow> string \<Rightarrow> tier \<Rightarrow> user res io" where
  "user_CreateLocal username passwordHash displayName t =
     or_return
       (io_call (\<lambda>w. insert_user
          ((new_user w displayName t)\<lparr>user_LocalUsername := Some username, user_LocalPasswordHash := Some passwordHash\<rparr>) w))
       (\<lambda>e. if isUniqueViolation (scan_error e) then ErrLocalUsernameTaken else Wrap ''create local user'' (scan_error e)) ok"

text \<open>An update by primary key, with \<^verbatim>\<open>RowsAffected() == 0\<close> reported as a missing user.\<close>

definition update_user :: "string \<Rightarrow> (user \<Rightarrow> user) \<Rightarrow> string \<Rightarrow> unit res io" where
  "update_user msg f i =
     or_return
       (exec (\<lambda>w. (length (filter (\<lambda>u. user_ID u = i) (users w)), w\<lparr>users := update_row user_ID i f (users w)\<rparr>)))
       (Wrap msg)
       (\<lambda>n. if n = 0 then fail ErrUserNotFound else ok ())"

definition user_UpdateDisplayName :: "string \<Rightarrow> string \<Rightarrow> unit res io" where
  "user_UpdateDisplayName i displayName =
     update_user ''update display name'' (\<lambda>u. u\<lparr>user_DisplayName := displayName\<rparr>) i"

definition user_UpdateLocalPassword :: "string \<Rightarrow> string \<Rightarrow> unit res io" where
  "user_UpdateLocalPassword i passwordHash =
     update_user ''update local password'' (\<lambda>u. u\<lparr>user_LocalPasswordHash := Some passwordHash\<rparr>) i"

definition user_UpdateTheme ::
  "string \<Rightarrow> string option \<Rightarrow> (string \<times> string) list option \<Rightarrow> string option \<Rightarrow> unit res io" where
  "user_UpdateTheme i preset customColors statusPalette =
     update_user ''update user theme''
       (\<lambda>u. u\<lparr>user_ThemePreset := preset, user_ThemeCustomColors := customColors,
               user_ThemeStatusPalette := statusPalette\<rparr>) i"

definition user_UpdateLastLogin :: "string \<Rightarrow> string \<Rightarrow> time \<Rightarrow> unit res io" where
  "user_UpdateLastLogin i dn at =
     update_user ''update last login'' (\<lambda>u. u\<lparr>user_LastLoginAt := Some at, user_LDAPDN := Some dn\<rparr>) i"

text \<open>A tier outside the enumeration is refused by the database.\<close>

definition set_tier :: "tier \<Rightarrow> string option \<Rightarrow> time option \<Rightarrow> user \<Rightarrow> user" where
  "set_tier t elevatedBy elevatedAt u =
     u\<lparr>user_Tier := t, user_ElevatedBy := elevatedBy, user_ElevatedAt := elevatedAt\<rparr>"

definition user_UpdateTier :: "string \<Rightarrow> tier \<Rightarrow> string option \<Rightarrow> time option \<Rightarrow> unit res io" where
  "user_UpdateTier i t elevatedBy elevatedAt =
     or_return
       (io_call (\<lambda>w.
          if valid_tier t
          then (Inr (length (filter (\<lambda>u. user_ID u = i) (users w))),
                w\<lparr>users := update_row user_ID i (set_tier t elevatedBy elevatedAt) (users w)\<rparr>)
          else (Inl ErrInvalidEnum, w)))
       (Wrap ''update user tier'')
       (\<lambda>n. if n = 0 then fail ErrUserNotFound else ok ())"

definition user_List :: "user list res io" where
  "user_List =
     or_return
       (query (\<lambda>w. Inr (map (\<lambda>u. u\<lparr>user_LocalPasswordHash := None\<rparr>) (sort_key user_DisplayName (users w)))))
       (Wrap ''list users'') ok"

section \<open>What the statements do\<close>

lemma run_user_FindByID [run_simps]:
  "run_state (user_FindByID i) w =
     (case faults w (tick w) of
        NoFault \<Rightarrow> scanUser (find_row user_ID i (users w))
      | Lost e \<Rightarrow> Inl (Wrap ''scan user'' (ErrIO e))
      | Ambiguous e \<Rightarrow> Inl (Wrap ''scan user'' (ErrIO e)),
      w\<lparr>tick := Suc (tick w)\<rparr>)"
  by (auto simp: user_FindByID_def run_simps scanUser_def scan_error_def split: fault.split option.split)

lemma count_rows: "length (filter (\<lambda>r. key r = k) t) = 0 \<longleftrightarrow> find_row key k t = None"
  by (induction t) auto

lemma run_update_user:
  "run_state (update_user msg f i) w =
     (let w1 = w\<lparr>tick := Suc (tick w)\<rparr>; w2 = w1\<lparr>users := update_row user_ID i f (users w)\<rparr> in
      case faults w (tick w) of
        NoFault \<Rightarrow> (if find_row user_ID i (users w) = None then Inl ErrUserNotFound else Inr (), w2)
      | Lost e \<Rightarrow> (Inl (Wrap msg (ErrIO e)), w1)
      | Ambiguous e \<Rightarrow> (Inl (Wrap msg (ErrIO e)), w2))"
  using count_rows [of user_ID i "users w"]
  by (auto simp: update_user_def run_simps Let_def split: fault.split)

lemma run_user_UpdateTier:
  "run_state (user_UpdateTier i t eb ea) w =
     (let w1 = w\<lparr>tick := Suc (tick w)\<rparr>;
          w2 = (if valid_tier t then w1\<lparr>users := update_row user_ID i (set_tier t eb ea) (users w)\<rparr> else w1) in
      case faults w (tick w) of
        NoFault \<Rightarrow>
          (if \<not> valid_tier t then Inl (Wrap ''update user tier'' ErrInvalidEnum)
           else if find_row user_ID i (users w) = None then Inl ErrUserNotFound else Inr (), w2)
      | Lost e \<Rightarrow> (Inl (Wrap ''update user tier'' (ErrIO e)), w1)
      | Ambiguous e \<Rightarrow> (Inl (Wrap ''update user tier'' (ErrIO e)), w2))"
  using count_rows [of user_ID i "users w"]
  by (auto simp: user_UpdateTier_def run_simps Let_def split: fault.split)

lemma user_ID_set_tier [simp]: "user_ID (set_tier t eb ea u) = user_ID u"
  by (simp add: set_tier_def)

text \<open>The repository leaves the audit log alone.\<close>

lemma log_grows_users:
  "within log_grows (user_FindByID i)" "within log_grows (user_FindByLocalUsername n)"
  "within log_grows (update_user msg f i)" "within log_grows (user_UpdateTier i t eb ea)"
  "within log_grows (user_CreateLocal n h d t)" "within log_grows user_List"
  unfolding user_FindByID_def user_FindByLocalUsername_def update_user_def user_UpdateTier_def
    user_CreateLocal_def user_List_def
  by (auto intro!: log_grows_rules log_grows_exec log_grows.within_io_call log_grows_same
      simp: insert_user_def split: if_split)

text \<open>Writing back the values that were read restores the table.\<close>

lemma revert_tier_restores:
  assumes "primary_key user_ID (users w)" and "find_row user_ID i (users w) = Some u"
  shows "update_row user_ID i (set_tier (user_Tier u) (user_ElevatedBy u) (user_ElevatedAt u))
           (update_row user_ID i (set_tier t eb ea) (users w)) = users w"
  by (rule pk_table.revert_restores) (use assms in \<open>auto simp: set_tier_def\<close>)

end
