(* ===== verification/Password.thy ===== *)
theory Password
  imports World
begin

text \<open>
  Password hashing (internal/auth/breakglass.go): the encoded Argon2id string that
  \<^verbatim>\<open>HashPassword\<close> writes and \<^verbatim>\<open>VerifyPassword\<close> reads. The Argon2id function itself belongs to
  \<^verbatim>\<open>golang.org/x/crypto\<close> and is a parameter of the definitions
  (\<open>idkey password salt time memory threads keyLen\<close>).
\<close>

type_synonym idkey = "string \<Rightarrow> string \<Rightarrow> nat \<Rightarrow> nat \<Rightarrow> nat \<Rightarrow> nat \<Rightarrow> string"

section \<open>base64.RawStdEncoding\<close>

definition b64_chars :: string where
  "b64_chars = ''ABCDEFGHIJKLMNOPQRSTUVWXYZabcdefghijklmnopqrstuvwxyz0123456789+/''"

definition b64_char :: "nat \<Rightarrow> char" where
  "b64_char n = b64_chars ! (n mod 64)"

fun index_of :: "'a \<Rightarrow> 'a list \<Rightarrow> nat option" where
  "index_of x [] = None"
| "index_of x (y # ys) = (if x = y then Some 0 else map_option Suc (index_of x ys))"

definition b64_val :: "char \<Rightarrow> nat option" where
  "b64_val c = index_of c b64_chars"

fun b64_encode :: "string \<Rightarrow> string" where
  "b64_encode (a # b # c # xs) =
     (let n = (of_char a * 256 + of_char b) * 256 + of_char c in
      b64_char (n div 262144) # b64_char (n div 4096) # b64_char (n div 64) # b64_char n # b64_encode xs)"
| "b64_encode [a, b] =
     (let n = (of_char a * 256 + of_char b) * 256 in
      [b64_char (n div 262144), b64_char (n div 4096), b64_char (n div 64)])"
| "b64_encode [a] =
     (let n = of_char a * 256 * 256 in [b64_char (n div 262144), b64_char (n div 4096)])"
| "b64_encode [] = []"

text \<open>
  Line breaks in the input are skipped; the spare bits of the last group are dropped, as Go does
  outside its strict mode; a single left-over character is an error.
\<close>

fun b64_groups :: "nat list \<Rightarrow> string option" where
  "b64_groups (a # b # c # d # xs) =
     (let n = a * 262144 + b * 4096 + c * 64 + d in
      map_option (\<lambda>r. char_of (n div 65536) # char_of (n div 256) # char_of n # r) (b64_groups xs))"
| "b64_groups [a, b, c] =
     (let n = a * 262144 + b * 4096 + c * 64 in Some [char_of (n div 65536), char_of (n div 256)])"
| "b64_groups [a, b] = (let n = a * 262144 + b * 4096 in Some [char_of (n div 65536)])"
| "b64_groups [a] = None"
| "b64_groups [] = Some []"

fun b64_values :: "string \<Rightarrow> nat list option" where
  "b64_values [] = Some []"
| "b64_values (c # cs) =
     (if c = CHR 0x0A \<or> c = CHR 0x0D then b64_values cs
      else case (b64_val c, b64_values cs) of (Some n, Some ns) \<Rightarrow> Some (n # ns) | _ \<Rightarrow> None)"

definition b64_decode :: "string \<Rightarrow> string option" where
  "b64_decode s = Option.bind (b64_values s) b64_groups"

section \<open>Reading the encoded hash\<close>

text \<open>
  One step of \<^verbatim>\<open>fmt.Sscanf\<close>: the literal text, then a decimal number of at most \<open>hi\<close>, after
  optional blanks. Text after the last number is not looked at.
\<close>

definition scan_lit :: "string \<Rightarrow> string \<Rightarrow> string option" where
  "scan_lit l s = (if take (length l) s = l then Some (drop (length l) s) else None)"

definition scan_num :: "int \<Rightarrow> string \<Rightarrow> (int \<times> string) option" where
  "scan_num hi s =
     (let s1 = dropWhile (\<lambda>c. c = CHR '' '' \<or> c = CHR 0x09 \<or> c = CHR 0x0D) s;
          ds = takeWhile is_digit s1
      in if ds = [] \<or> digits_val ds > hi then None else Some (digits_val ds, dropWhile is_digit s1))"

definition uint32_max :: int where "uint32_max = 2 ^ 32 - 1"
definition uint8_max :: int where "uint8_max = 2 ^ 8 - 1"

definition scan_version :: "string \<Rightarrow> int option" where
  "scan_version s =
     Option.bind (scan_lit ''v='' s) (\<lambda>s1. map_option fst (scan_num (2 ^ 63 - 1) s1))"

definition scan_params :: "string \<Rightarrow> (int \<times> int \<times> int) option" where
  "scan_params s =
     Option.bind (scan_lit ''m='' s) (\<lambda>s1.
     Option.bind (scan_num uint32_max s1) (\<lambda>(m, s2).
     Option.bind (scan_lit '',t='' s2) (\<lambda>s3.
     Option.bind (scan_num uint32_max s3) (\<lambda>(t, s4).
     Option.bind (scan_lit '',p='' s4) (\<lambda>s5.
     map_option (\<lambda>(p, _). (m, t, p)) (scan_num uint8_max s5))))))"

section \<open>Hashing and verifying\<close>

definition argon2Time :: nat where "argon2Time = 3"
definition argon2Memory :: nat where "argon2Memory = 64 * 1024"
definition argon2Threads :: nat where "argon2Threads = 4"
definition argon2KeyLen :: nat where "argon2KeyLen = 32"
definition argon2SaltLen :: nat where "argon2SaltLen = 16"
definition argon2Version :: int where "argon2Version = 19"

definition hash_prefix :: string where
  "hash_prefix = ''$argon2id$v=19$m=65536,t=3,p=4$''"

definition encode_hash :: "idkey \<Rightarrow> string \<Rightarrow> string \<Rightarrow> string" where
  "encode_hash idkey password salt =
     (let hash = idkey password salt argon2Time argon2Memory argon2Threads argon2KeyLen
      in hash_prefix @ b64_encode salt @ ''$'' @ b64_encode hash)"

text \<open>\<^verbatim>\<open>rand.Read\<close> fills the salt with random bytes and does not fail (Go 1.24 and later).\<close>

definition HashPassword :: "idkey \<Rightarrow> string \<Rightarrow> string res io" where
  "HashPassword idkey password =
     State (\<lambda>w. (Inr (encode_hash idkey password (take argon2SaltLen (entropy w (tick w)))),
                w\<lparr>tick := Suc (tick w)\<rparr>))"

definition VerifyPassword :: "idkey \<Rightarrow> string \<Rightarrow> string \<Rightarrow> bool res" where
  "VerifyPassword idkey password encodedHash =
     (let parts = split_on (CHR ''$'') encodedHash in
      if length parts \<noteq> 6 \<or> parts ! 0 \<noteq> '''' \<or> parts ! 1 \<noteq> ''argon2id'' then Inl ErrMalformedHash
      else case scan_version (parts ! 2) of
        None \<Rightarrow> Inl ErrMalformedHash
      | Some version \<Rightarrow>
          if version \<noteq> argon2Version then Inl ErrMalformedHash
          else case scan_params (parts ! 3) of
            None \<Rightarrow> Inl ErrMalformedHash
          | Some (memory, timeCost, threads) \<Rightarrow>
              (case b64_decode (parts ! 4) of
                 None \<Rightarrow> Inl ErrMalformedHash
               | Some salt \<Rightarrow>
                   (case b64_decode (parts ! 5) of
                      None \<Rightarrow> Inl ErrMalformedHash
                    | Some wantHash \<Rightarrow>
                        Inr (idkey password salt (nat timeCost) (nat memory) (nat threads) (length wantHash)
                             = wantHash))))"

lemma run_HashPassword [run_simps]:
  "run_state (HashPassword idkey password) w =
     (Inr (encode_hash idkey password (take argon2SaltLen (entropy w (tick w)))), w\<lparr>tick := Suc (tick w)\<rparr>)"
  by (simp add: HashPassword_def)

section \<open>Round trips\<close>

lemma b64_chars_distinct: "distinct b64_chars"
  by (simp add: b64_chars_def)

lemma index_of_nth: "distinct xs \<Longrightarrow> i < length xs \<Longrightarrow> index_of (xs ! i) xs = Some i"
  by (induction xs arbitrary: i) (auto simp: less_Suc_eq_0_disj)

lemma b64_val_char [simp]: "b64_val (b64_char n) = Some (n mod 64)"
proof -
  have "length b64_chars = 64" by (simp add: b64_chars_def)
  then show ?thesis by (simp add: b64_val_def b64_char_def index_of_nth b64_chars_distinct)
qed

lemma b64_char_in: "b64_char n \<in> set b64_chars"
proof -
  have "length b64_chars = 64" by (simp add: b64_chars_def)
  then show ?thesis by (simp add: b64_char_def)
qed

lemma b64_chars_plain: "c \<in> set b64_chars \<Longrightarrow> c \<noteq> CHR ''$'' \<and> c \<noteq> CHR 0x0A \<and> c \<noteq> CHR 0x0D"
  by (auto simp: b64_chars_def)

lemma b64_char_plain [simp]:
  "b64_char n \<noteq> CHR ''$''" "b64_char n \<noteq> CHR 0x0A" "b64_char n \<noteq> CHR 0x0D"
  "CHR ''$'' \<noteq> b64_char n"
  using b64_chars_plain [OF b64_char_in [of n]] by auto

lemma b64_values_char [simp]:
  "b64_values (b64_char n # cs) = map_option ((#) (n mod 64)) (b64_values cs)"
  by (simp split: option.splits)

lemma of_char_less: "of_char (c :: char) < (256 :: nat)"
  by simp

lemma sum_atoms:
  fixes n :: nat
  shows "n = a * 262144 + m \<Longrightarrow> m = 4096 * b + l \<Longrightarrow> l = 64 * c + d \<Longrightarrow> a * 262144 + b * 4096 + c * 64 + d = n"
  by simp

lemma regroup:
  fixes n :: nat
  assumes "n < 16777216"
  shows "(n div 262144) mod 64 * 262144 + (n div 4096) mod 64 * 4096 + (n div 64) mod 64 * 64 + n mod 64 = n"
proof -
  have "n div 262144 < 64" using assms less_mult_imp_div_less [of n 64 262144] by simp
  then have c: "n div 262144 mod 64 = n div 262144" by (rule mod_less)
  show ?thesis unfolding c
  proof (rule sum_atoms)
    show "n = n div 262144 * 262144 + n mod 262144" by (rule div_mult_mod_eq [symmetric])
    show "n mod 262144 = 4096 * (n div 4096 mod 64) + n mod 4096"
      using mod_mult2_eq [of n 4096 64] by simp
    show "n mod 4096 = 64 * (n div 64 mod 64) + n mod 64"
      using mod_mult2_eq [of n 64 64] by simp
  qed
qed

lemma div_byte: "(c :: nat) < 256 \<Longrightarrow> (h * 256 + c) div 256 = h"
  using div_mult_self3 [of 256 h c] by simp

lemma char_of_low: "char_of (h * 256 + of_char c :: nat) = c"
proof -
  have "(h * 256 + of_char c) mod 256 = (of_char c :: nat)"
    using mod_mult_self3 [of h 256 "of_char c"] mod_less [OF of_char_less [of c]] by simp
  then show ?thesis by (metis char_of_char char_of_mod_256)
qed

lemma horner_less: "(h :: nat) < k \<Longrightarrow> c < 256 \<Longrightarrow> h * 256 + c < k * 256"
  using mult_le_mono1 [of "Suc h" k 256] by simp

lemma tail_zero: "(h :: nat) * 256 mod 64 = 0"
proof -
  have "h * 256 = h * 4 * 64" by simp
  then show ?thesis by (simp only: mod_mult_self2_is_0)
qed

lemma tail_zero': "(h :: nat) * 256 * 256 div 64 mod 64 = 0"
proof -
  have "h * 256 * 256 = h * 16 * 64 * 64" by simp
  then have "h * 256 * 256 div 64 = h * 16 * 64"
    by (simp only: nonzero_mult_div_cancel_right)
  then show ?thesis by (simp only: mod_mult_self2_is_0)
qed

text \<open>The three bytes of a group, as Horner sums.\<close>

lemma char_of_group:
  defines "n a b c \<equiv> (of_char a * 256 + of_char b) * 256 + of_char c :: nat"
  shows "char_of (n a b c div 65536) = a" "char_of (n a b c div 256) = b" "char_of (n a b c) = c"
proof -
  have 2: "n a b c div 256 = of_char a * 256 + of_char b"
    unfolding n_def by (rule div_byte [OF of_char_less])
  have "n a b c div 65536 = n a b c div 256 div 256" by (simp only: div_mult2_eq [symmetric]) simp
  then have 1: "n a b c div 65536 = of_char a" unfolding 2 by (simp only: div_byte [OF of_char_less])
  show "char_of (n a b c div 65536) = a" unfolding 1 by simp
  show "char_of (n a b c div 256) = b" unfolding 2 by (rule char_of_low)
  show "char_of (n a b c) = c" unfolding n_def by (rule char_of_low)
qed

lemma group_less: "(of_char a * 256 + of_char b) * 256 + of_char c < (16777216 :: nat)"
  using horner_less [OF horner_less [OF of_char_less [of a] of_char_less [of b]] of_char_less [of c]] by simp

text \<open>Decoding the characters of one group gives its bytes; a short last group drops its zero bits.\<close>

lemma b64_decode_three:
  "n < 16777216 \<Longrightarrow> b64_decode (b64_char (n div 262144) # b64_char (n div 4096) # b64_char (n div 64) # b64_char n # cs)
   = map_option (\<lambda>t. char_of (n div 65536) # char_of (n div 256) # char_of n # t) (b64_decode cs)"
  by (cases "b64_values cs") (simp_all only: b64_decode_def b64_values_char b64_groups.simps Let_def
      option.map Option.bind.simps regroup)

lemma b64_decode_two:
  assumes "n < 16777216" and z: "n mod 64 = 0"
  shows "b64_decode [b64_char (n div 262144), b64_char (n div 4096), b64_char (n div 64)]
   = Some [char_of (n div 65536), char_of (n div 256)]"
  using regroup [OF assms(1)] unfolding z
  by (simp only: b64_decode_def b64_values_char b64_values.simps(1) b64_groups.simps Let_def option.map
      Option.bind.simps add_0_right)

lemma b64_decode_one:
  assumes "n < 16777216" and z: "n mod 64 = 0" "(n div 64) mod 64 = 0"
  shows "b64_decode [b64_char (n div 262144), b64_char (n div 4096)] = Some [char_of (n div 65536)]"
  using regroup [OF assms(1)] unfolding z
  by (simp only: b64_decode_def b64_values_char b64_values.simps(1) b64_groups.simps Let_def option.map
      Option.bind.simps add_0_right mult_zero_left)

lemma b64_roundtrip: "b64_decode (b64_encode s) = Some s"
proof (induction s rule: b64_encode.induct)
  case (1 a b c xs)
  then show ?case
    by (simp only: b64_encode.simps Let_def b64_decode_three [OF group_less] char_of_group option.map)
next
  case (2 a b)
  let ?n = "(of_char a * 256 + of_char b) * 256 :: nat"
  have "?n mod 64 = 0" by (rule tail_zero)
  moreover have "?n < 16777216" using group_less [of a b "CHR 0x00"] by simp
  ultimately have "b64_decode (b64_encode [a, b]) = Some [char_of (?n div 65536), char_of (?n div 256)]"
    by (simp only: b64_encode.simps Let_def b64_decode_two)
  then show ?case using char_of_group(1,2) [of a b "CHR 0x00"] by simp
next
  case (3 a)
  let ?n = "of_char a * 256 * 256 :: nat"
  have "?n mod 64 = 0" "?n div 64 mod 64 = 0" by (rule tail_zero, rule tail_zero')
  moreover have "?n < 16777216" using group_less [of a "CHR 0x00" "CHR 0x00"] by simp
  ultimately have "b64_decode (b64_encode [a]) = Some [char_of (?n div 65536)]"
    by (simp only: b64_encode.simps Let_def b64_decode_one)
  then show ?case using char_of_group(1) [of a "CHR 0x00" "CHR 0x00"] by simp
next
  case 4
  then show ?case by (simp add: b64_decode_def)
qed

lemma b64_encode_no_dollar: "CHR ''$'' \<notin> set (b64_encode s)"
  by (induction s rule: b64_encode.induct) (simp_all add: Let_def)

lemma split_encode_hash:
  "split_on (CHR ''$'') (encode_hash idkey password salt) =
     [[], ''argon2id'', ''v=19'', ''m=65536,t=3,p=4'', b64_encode salt,
      b64_encode (idkey password salt argon2Time argon2Memory argon2Threads argon2KeyLen)]"
proof -
  have "encode_hash idkey password salt =
        [] @ CHR ''$'' # ''argon2id'' @ CHR ''$'' # ''v=19'' @ CHR ''$'' # ''m=65536,t=3,p=4'' @ CHR ''$'' #
        b64_encode salt @ CHR ''$'' # b64_encode (idkey password salt argon2Time argon2Memory argon2Threads argon2KeyLen)"
    by (simp add: encode_hash_def hash_prefix_def Let_def)
  then show ?thesis
    by (simp add: split_on_append split_on_absent b64_encode_no_dollar)
qed

lemma scan_version_written: "scan_version ''v=19'' = Some argon2Version"
  by (simp add: scan_version_def scan_lit_def scan_num_def is_digit_def digits_val_def digit_val_def argon2Version_def)

lemma scan_params_written: "scan_params ''m=65536,t=3,p=4'' = Some (65536, 3, 4)"
  by (simp add: scan_params_def scan_lit_def scan_num_def is_digit_def digits_val_def digit_val_def
      uint32_max_def uint8_max_def)

lemma Verify_encode:
  assumes len: "\<And>p s t m th n. length (idkey p s t m th n) = n"
  shows "VerifyPassword idkey q (encode_hash idkey p salt) =
     Inr (idkey q salt argon2Time argon2Memory argon2Threads argon2KeyLen
          = idkey p salt argon2Time argon2Memory argon2Threads argon2KeyLen)"
  by (simp add: VerifyPassword_def split_encode_hash scan_version_written scan_params_written
      b64_roundtrip Let_def len argon2Time_def argon2Memory_def argon2Threads_def)

text \<open>
  C14. Hash and verify: what \<^verbatim>\<open>HashPassword\<close> stores is well formed for \<^verbatim>\<open>VerifyPassword\<close>, whatever
  the salt, and a candidate is accepted exactly when the Argon2id key derived from it with the stored
  salt and parameters equals the key derived from the original password; so the original password is
  always accepted. Argon2id's documented law that it returns as many bytes as asked for is the hypothesis.
\<close>

theorem hash_then_verify:
  assumes len: "\<And>p s t m th n. length (idkey p s t m th n) = n"
    and run: "run_state (HashPassword idkey password) w = (Inr stored, w')"
  shows "VerifyPassword idkey password stored = Inr True
    \<and> VerifyPassword idkey candidate stored =
        Inr (idkey candidate (take 16 (entropy w (tick w))) 3 65536 4 32
             = idkey password (take 16 (entropy w (tick w))) 3 65536 4 32)"
proof -
  have "stored = encode_hash idkey password (take argon2SaltLen (entropy w (tick w)))"
    using run by (simp add: run_simps)
  then show ?thesis
    by (simp add: Verify_encode [OF len] argon2Time_def argon2Memory_def argon2Threads_def
        argon2KeyLen_def argon2SaltLen_def)
qed

definition toy_idkey :: idkey where
  "toy_idkey p s t m th n = take n (p @ s @ replicate n (CHR ''0''))"

theorem hash_then_verify_witness:
  "VerifyPassword toy_idkey ''hunter2'' (encode_hash toy_idkey ''hunter2'' (replicate 16 (CHR ''s''))) = Inr True"
proof -
  have len: "length (toy_idkey p s t m th n) = n" for p s t m th n by (simp add: toy_idkey_def)
  have run: "run_state (HashPassword toy_idkey ''hunter2'') empty_world =
      (Inr (encode_hash toy_idkey ''hunter2'' (replicate 16 (CHR ''s''))), empty_world\<lparr>tick := 1\<rparr>)"
    by (simp add: run_simps empty_world_def argon2SaltLen_def)
  show ?thesis using hash_then_verify [OF len run] by blast
qed

end
