(* ===== verification/Rbac_Service.thy ===== *)
theory Rbac_Service
  imports Users Password
begin

text \<open>
  internal/rbac/service.go and theme.go: tier changes, local accounts, passwords and themes. Each
  operation checks its rule, writes through the users repository and records the change. The lemmas
  show that tier and theme changes are all-or-nothing with their audit record, that no sequence of tier
  changes by ordinary actors changes who is an Admin, and that custom colors stay inside the whitelist.
\<close>

section \<open>Themes\<close>

definition ThemeColorKeys :: "(string \<times> string) list" where
  "ThemeColorKeys =
     [(''--color-bg'', ''bg''),
      (''--color-surface'', ''surface''),
      (''--color-border'', ''border''),
      (''--color-text'', ''text''),
      (''--color-text-muted'', ''text_muted''),
      (''--color-primary'', ''primary''),
      (''--color-primary-contrast'', ''primary_contrast''),
      (''--color-sidebar-bg'', ''sidebar_bg''),
      (''--color-sidebar-text'', ''sidebar_text''),
      (''--color-sidebar-text-active'', ''sidebar_text_active''),
      (''--color-sidebar-brand'', ''sidebar_brand''),
      (''--color-sidebar-hover-bg'', ''sidebar_hover_bg''),
      (''--color-sidebar-active-bg'', ''sidebar_active_bg''),
      (''--color-form-error-bg'', ''form_error_bg''),
      (''--color-form-success-bg'', ''form_success_bg'')]"

definition AllowedThemeColorKey :: "string \<Rightarrow> bool" where
  "AllowedThemeColorKey k = (k \<in> set (map fst ThemeColorKeys))"

definition CSSVarForThemeColorSlug :: "string \<Rightarrow> string option" where
  "CSSVarForThemeColorSlug slug = map_of (map (\<lambda>(v, s). (s, v)) ThemeColorKeys) slug"

definition is_hex :: "char \<Rightarrow> bool" where
  "is_hex c \<longleftrightarrow> CHR ''0'' \<le> c \<and> c \<le> CHR ''9'' \<or> CHR ''a'' \<le> c \<and> c \<le> CHR ''f'' \<or> CHR ''A'' \<le> c \<and> c \<le> CHR ''F''"

text \<open>The pattern \<^verbatim>\<open>^#[0-9a-fA-F]{6}$\<close>.\<close>

definition ValidHexColor :: "string \<Rightarrow> bool" where
  "ValidHexColor v = (case v of [] \<Rightarrow> False | c # cs \<Rightarrow> c = CHR ''#'' \<and> length cs = 6 \<and> list_all is_hex cs)"

definition ThemePresets :: "string list" where
  "ThemePresets =
     [''slate-light'', ''linen-light'', ''arctic-light'', ''sand-light'',
      ''carbon-dark'', ''matrix-dark'', ''tron-dark'', ''amethyst-dark'']"

definition ValidThemePreset :: "string \<Rightarrow> bool" where
  "ValidThemePreset p = (p \<in> set ThemePresets)"

definition ValidThemeStatusPalette :: "string \<Rightarrow> bool" where
  "ValidThemeStatusPalette p \<longleftrightarrow> p = ''light'' \<or> p = ''dark''"

text \<open>
  The loop over the submitted map, in some order of its keys; the encoded result lists them sorted,
  as \<^verbatim>\<open>json.Marshal\<close> writes a map.
\<close>

fun check_colors :: "(string \<times> string) list \<Rightarrow> unit res" where
  "check_colors [] = Inr ()"
| "check_colors ((key, value) # rest) =
     (if \<not> AllowedThemeColorKey key then Inl (Wrap ''is not a customizable color'' ErrInvalidTheme)
      else if \<not> ValidHexColor value then Inl (Wrap ''must be a #RRGGBB hex color'' ErrInvalidTheme)
      else check_colors rest)"

definition ValidateThemeCustomColors :: "(string \<times> string) list \<Rightarrow> (string \<times> string) list res" where
  "ValidateThemeCustomColors raw =
     (case check_colors raw of Inl e \<Rightarrow> Inl e | Inr _ \<Rightarrow> Inr (sort_key fst raw))"

section \<open>The service\<close>

definition ElevateTier :: "actor \<Rightarrow> string \<Rightarrow> tier \<Rightarrow> unit res io" where
  "ElevateTier a targetUserID toTier =
     or_return (user_FindByID targetUserID) (Wrap ''find target user'') (\<lambda>target.
       if \<not> CanElevate a (user_Tier target) toTier then fail ErrNotPermitted
       else
         let fromTier = user_Tier target;
             fromElevatedBy = user_ElevatedBy target;
             fromElevatedAt = user_ElevatedAt target;
             elevatedBy = actor_id a
         in State_Monad.bind time_now (\<lambda>now.
            or_return (user_UpdateTier targetUserID toTier elevatedBy (Some now)) (Wrap ''update tier'') (\<lambda>_.
            audited
              (Record elevatedBy (IsSuperAdmin a) ''elevated_user'' ''user'' targetUserID
                 (Some [(''from_tier'', JStr (tier_string fromTier)), (''to_tier'', JStr (tier_string toTier))]))
              (user_UpdateTier targetUserID fromTier fromElevatedBy fromElevatedAt)
              (\<lambda>auditErr. auditErr))))"

definition ListUsers :: "actor \<Rightarrow> user list res io" where
  "ListUsers a =
     (if \<not> CanViewUsers a then fail ErrNotPermitted
      else or_return user_List (Wrap ''list users'') ok)"

definition CreateLocalAccount :: "idkey \<Rightarrow> actor \<Rightarrow> string \<Rightarrow> string \<Rightarrow> string \<Rightarrow> tier \<Rightarrow> user res io" where
  "CreateLocalAccount idkey a username password displayName t =
     (if \<not> CanCreateLocalAccount a then fail ErrNotPermitted
      else or_return (HashPassword idkey password) (Wrap ''hash password'') (\<lambda>hash.
        or_return (user_CreateLocal username hash displayName t)
          (\<lambda>e. if errors_is e ErrLocalUsernameTaken then ErrLocalUsernameTaken else Wrap ''create local account'' e) (\<lambda>u.
        or_return
          (Record (actor_id a) (IsSuperAdmin a) ''created_local_account'' ''user'' (user_ID u)
             (Some [(''local_username'', JStr username), (''tier'', JStr (tier_string t))]))
          (Wrap ''record audit'') (\<lambda>_. ok u))))"

definition ResetLocalAccountPassword :: "idkey \<Rightarrow> actor \<Rightarrow> string \<Rightarrow> string \<Rightarrow> unit res io" where
  "ResetLocalAccountPassword idkey a targetUserID newPassword =
     (if \<not> CanResetLocalAccountPassword a then fail ErrNotPermitted
      else or_return (user_FindByID targetUserID) (Wrap ''find target user'') (\<lambda>target.
        if user_LocalUsername target = None then fail ErrNotLocalAccount
        else or_return (HashPassword idkey newPassword) (Wrap ''hash password'') (\<lambda>hash.
          or_return (user_UpdateLocalPassword targetUserID hash) (Wrap ''update local password'') (\<lambda>_.
          or_return
            (Record (actor_id a) (IsSuperAdmin a) ''reset_local_account_password'' ''user'' targetUserID None)
            (Wrap ''record audit'') ok))))"

definition UpdateDisplayName :: "actor \<Rightarrow> string \<Rightarrow> unit res io" where
  "UpdateDisplayName a displayName =
     or_return (user_FindByID (UserID a)) (Wrap ''find actor user'') (\<lambda>target.
       if user_LocalUsername target = None then fail ErrNotLocalAccount
       else or_return (user_UpdateDisplayName (UserID a) displayName) (Wrap ''update display name'') (\<lambda>_.
         or_return (Record (Some (UserID a)) False ''updated_display_name'' ''user'' (UserID a) None)
           (Wrap ''record audit'') ok))"

definition ChangeOwnPassword :: "idkey \<Rightarrow> actor \<Rightarrow> string \<Rightarrow> string \<Rightarrow> unit res io" where
  "ChangeOwnPassword idkey a currentPassword newPassword =
     or_return (user_FindByID (UserID a)) (Wrap ''find actor user'') (\<lambda>target.
       case user_LocalUsername target of
         None \<Rightarrow> fail ErrNotLocalAccount
       | Some username \<Rightarrow>
           or_return (user_FindByLocalUsername username) (Wrap ''find actor local credentials'') (\<lambda>(_, hash).
             case VerifyPassword idkey currentPassword hash of
               Inl e \<Rightarrow> fail (Wrap ''verify current password'' e)
             | Inr matches \<Rightarrow>
                 if \<not> matches then fail ErrWrongPassword
                 else or_return (HashPassword idkey newPassword) (Wrap ''hash new password'') (\<lambda>newHash.
                   or_return (user_UpdateLocalPassword (UserID a) newHash) (Wrap ''update local password'') (\<lambda>_.
                   or_return (Record (Some (UserID a)) False ''changed_own_password'' ''user'' (UserID a) None)
                     (Wrap ''record audit'') ok))))"

definition UpdateOwnTheme ::
  "actor \<Rightarrow> string option \<Rightarrow> (string \<times> string) list \<Rightarrow> string option \<Rightarrow> unit res io" where
  "UpdateOwnTheme a preset customColors statusPalette =
     (if IsSuperAdmin a then fail ErrNotPermitted
      else if (case preset of Some p \<Rightarrow> \<not> ValidThemePreset p | None \<Rightarrow> False)
        then fail (Wrap ''unknown preset'' ErrInvalidTheme)
      else if (case statusPalette of Some p \<Rightarrow> \<not> ValidThemeStatusPalette p | None \<Rightarrow> False)
        then fail (Wrap ''unknown status palette'' ErrInvalidTheme)
      else case ValidateThemeCustomColors customColors of
        Inl e \<Rightarrow> fail e
      | Inr colorsJSON \<Rightarrow>
          or_return (user_FindByID (UserID a)) (Wrap ''find actor user'') (\<lambda>target.
          or_return (user_UpdateTheme (UserID a) preset (Some colorsJSON) statusPalette) (Wrap ''update theme'') (\<lambda>_.
          audited
            (Record (Some (UserID a)) False ''updated_own_theme'' ''user'' (UserID a)
               (Some ([(''custom_color_count'', JInt (int (length customColors)))]
                      @ (case preset of Some p \<Rightarrow> [(''preset'', JStr p)] | None \<Rightarrow> [])
                      @ (case statusPalette of Some p \<Rightarrow> [(''status_palette'', JStr p)] | None \<Rightarrow> []))))
            (user_UpdateTheme (UserID a) (user_ThemePreset target) (user_ThemeCustomColors target)
               (user_ThemeStatusPalette target))
            (\<lambda>auditErr. auditErr))))"

section \<open>Custom colors stay inside the whitelist\<close>

lemma check_colors_iff:
  "check_colors raw = Inr () \<longleftrightarrow> (\<forall>(k, v) \<in> set raw. AllowedThemeColorKey k \<and> ValidHexColor v)"
  by (induction raw rule: check_colors.induct) auto

lemma check_colors_cases: "check_colors raw = Inr () \<or> (\<exists>e. check_colors raw = Inl e \<and> errors_is e ErrInvalidTheme)"
  by (induction raw rule: check_colors.induct) auto

lemma hex_color_chars: "ValidHexColor v \<Longrightarrow> c \<in> set v \<Longrightarrow> c = CHR ''#'' \<or> is_hex c"
  by (auto simp: ValidHexColor_def list_all_iff split: list.splits)

text \<open>The characters that could end the declaration inside the page's style block.\<close>

definition style_breakers :: "char set" where
  "style_breakers = {CHR ''<'', CHR ''>'', CHR 0x22, CHR '';'', CHR ''{'', CHR ''}'', CHR 0x0A, CHR 0x0D}"

lemma style_breakers_not_hex: "c \<in> style_breakers \<Longrightarrow> c \<noteq> CHR ''#'' \<and> \<not> is_hex c"
  by (auto simp: style_breakers_def is_hex_def less_eq_char_def)

lemma allowed_key_chars: "AllowedThemeColorKey k \<Longrightarrow> set k \<inter> style_breakers = {}"
  by (auto simp: AllowedThemeColorKey_def ThemeColorKeys_def style_breakers_def)

text \<open>
  Theme injection safety: \<^verbatim>\<open>ValidateThemeCustomColors\<close> accepts a map exactly when every key is one
  of the fifteen whitelisted variables and every value is a #RRGGBB color; otherwise the error is
  ErrInvalidTheme. What it returns holds the same entries, and no key or value of it contains a
  character that could leave the declaration in the rendered style block.
\<close>

theorem theme_colors_safe:
  "case ValidateThemeCustomColors raw of
     Inl e \<Rightarrow> errors_is e ErrInvalidTheme \<and> (\<exists>(k, v) \<in> set raw. \<not> (AllowedThemeColorKey k \<and> ValidHexColor v))
   | Inr out \<Rightarrow> set out = set raw \<and> length out = length raw \<and> sorted (map fst out)
       \<and> (\<Union>(k, v) \<in> set out. set k \<union> set v) \<inter> style_breakers = {}"
proof (cases "check_colors raw")
  case (Inl e)
  then show ?thesis
    using check_colors_iff [of raw] check_colors_cases [of raw] by (auto simp: ValidateThemeCustomColors_def)
next
  case (Inr u)
  then have ok: "\<forall>(k, v) \<in> set raw. AllowedThemeColorKey k \<and> ValidHexColor v"
    using check_colors_iff [of raw] by simp
  have "set k \<inter> style_breakers = {} \<and> set v \<inter> style_breakers = {}" if "(k, v) \<in> set raw" for k v
    using ok that allowed_key_chars [of k] hex_color_chars [of v] style_breakers_not_hex by blast
  with Inr show ?thesis by (fastforce simp: ValidateThemeCustomColors_def)
qed

section \<open>Tier and theme changes are all-or-nothing\<close>

definition wf_users :: "world \<Rightarrow> bool" where
  "wf_users w \<longleftrightarrow> primary_key user_ID (users w) \<and> list_all (\<lambda>u. valid_tier (user_Tier u)) (users w)"

lemma wf_users_tier: "wf_users w \<Longrightarrow> find_row user_ID i (users w) = Some u \<Longrightarrow> valid_tier (user_Tier u)"
  by (auto simp: wf_users_def list_all_iff dest: find_row_SomeD)

definition holds_tier :: "string \<Rightarrow> tier \<Rightarrow> string option \<Rightarrow> time option \<Rightarrow> world \<Rightarrow> bool" where
  "holds_tier i t eb ea w \<longleftrightarrow>
     wf_users w \<and> (\<exists>u. find_row user_ID i (users w) = Some u \<and>
       user_Tier u = t \<and> user_ElevatedBy u = eb \<and> user_ElevatedAt u = ea)"

lemma revert_tier_run:
  assumes "holds_tier i t0 eb0 ea0 w" and "users w2 = update_row user_ID i (set_tier t eb ea) (users w)"
    and "faults w2 (tick w2) = NoFault"
  shows "users (snd (run_state (user_UpdateTier i t0 eb0 ea0) w2)) = users w"
    and "audit_log (snd (run_state (user_UpdateTier i t0 eb0 ea0) w2)) = audit_log w2"
proof -
  obtain u where u: "find_row user_ID i (users w) = Some u" "user_Tier u = t0"
      "user_ElevatedBy u = eb0" "user_ElevatedAt u = ea0" and wf: "wf_users w"
    using assms(1) by (auto simp: holds_tier_def)
  show "users (snd (run_state (user_UpdateTier i t0 eb0 ea0) w2)) = users w"
    using revert_tier_restores [of w i u t eb ea] u wf wf_users_tier [OF wf u(1)] assms(2,3)
    by (auto simp: run_user_UpdateTier Let_def wf_users_def)
  show "audit_log (snd (run_state (user_UpdateTier i t0 eb0 ea0) w2)) = audit_log w2"
    using assms(3) by (simp add: run_user_UpdateTier Let_def)
qed

interpretation tier_change: audited_write users "user_UpdateTier i t eb ea" "user_UpdateTier i t0 eb0 ea0"
    "holds_tier i t0 eb0 ea0"
  for i t eb ea t0 eb0 ea0
proof
  fix w w' w1 w2 w3 r u e n and l :: "audit_record list"
  let ?wr = "user_UpdateTier i t eb ea"
  show "run_state ?wr w = (r, w') \<Longrightarrow> faults w' = faults w \<and> tick w' = Suc (tick w)"
    by (auto simp: run_user_UpdateTier Let_def split: fault.splits)
  show "run_state ?wr w = (r, w') \<Longrightarrow> audit_log w' = audit_log w"
    by (auto simp: run_user_UpdateTier Let_def split: fault.splits)
  show "users w' = users w"
    if "one_lost_call w" "holds_tier i t0 eb0 ea0 w" "run_state ?wr w = (Inl e, w')"
    using that by (auto simp: run_user_UpdateTier Let_def holds_tier_def split: fault.splits if_splits)
  show "users w3 = users w \<and> audit_log w3 = audit_log w2"
    if "holds_tier i t0 eb0 ea0 w" "run_state ?wr w = (Inr u, w1)" "users w2 = users w1"
      "faults w2 (tick w2) = NoFault" "run_state (user_UpdateTier i t0 eb0 ea0) w2 = (r, w3)"
  proof -
    have "users w2 = update_row user_ID i (set_tier t eb ea) (users w)"
      using that(2,3) by (auto simp: run_user_UpdateTier Let_def split: fault.splits if_splits)
    from revert_tier_run [OF that(1) this that(4)] that(5) show ?thesis by simp
  qed
qed simp_all

lemma scanUser_Inr: "scanUser r = Inr u \<longleftrightarrow> (\<exists>v. r = Some v \<and> u = v\<lparr>user_LocalPasswordHash := None\<rparr>)"
  by (auto simp: scanUser_def split: option.splits)

text \<open>A run that passes the lookup and the permission check is an audited tier change.\<close>

lemma run_ElevateTier:
  "run_state (ElevateTier a i t) w =
     (let w1 = w\<lparr>tick := Suc (tick w)\<rparr>; w2 = w\<lparr>tick := Suc (Suc (tick w))\<rparr> in
      case fst (run_state (user_FindByID i) w) of
        Inl e \<Rightarrow> (Inl (Wrap ''find target user'' e), w1)
      | Inr u \<Rightarrow>
          if \<not> CanElevate a (user_Tier u) t then (Inl ErrNotPermitted, w1)
          else run_state (or_return (user_UpdateTier i t (actor_id a) (Some (clock w (Suc (tick w))))) (Wrap ''update tier'') (\<lambda>_.
             audited
              (Record (actor_id a) (IsSuperAdmin a) ''elevated_user'' ''user'' i
                 (Some [(''from_tier'', JStr (tier_string (user_Tier u))), (''to_tier'', JStr (tier_string t))]))
              (user_UpdateTier i (user_Tier u) (user_ElevatedBy u) (user_ElevatedAt u)) (\<lambda>e. e))) w2)"
  unfolding ElevateTier_def
  by (subst run_or_return)
    (simp add: run_user_FindByID run_time_now Let_def split: fault.splits sum.splits)

text \<open>
  C13. Tier changes are all-or-nothing with their audit record. When at most one of the calls fails
  and had no effect, \<^verbatim>\<open>ElevateTier\<close> either returns an error and leaves both the users table and the
  audit log as they were (the revert after a failed audit write restores the row exactly, including the
  fields of an earlier elevation), or returns nil, the actor was permitted to make the change, exactly
  the target's tier, elevated_by and elevated_at changed, and exactly one record was appended, which
  names the actor, the target and both tiers.
\<close>

theorem elevate_all_or_nothing:
  assumes one: "one_lost_call w" and wf: "wf_users w"
    and run: "run_state (ElevateTier a i t) w = (r, w')"
  shows "case r of
      Inl e \<Rightarrow> users w' = users w \<and> audit_log w' = audit_log w
    | Inr _ \<Rightarrow> \<exists>u now rec.
        find_row user_ID i (users w) = Some u \<and> CanElevate a (user_Tier u) t \<and>
        users w' = update_row user_ID i (set_tier t (actor_id a) (Some now)) (users w) \<and>
        audit_log w' = audit_log w @ [rec] \<and> audit_Action rec = ''elevated_user'' \<and>
        audit_ActorID rec = actor_id a \<and> audit_IsSuperAdminAction rec = IsSuperAdmin a \<and>
        audit_ObjectID rec = i \<and>
        audit_Detail rec = Some [(''from_tier'', JStr (tier_string (user_Tier u))), (''to_tier'', JStr (tier_string t))]"
proof (cases "fst (run_state (user_FindByID i) w)")
  case (Inl e)
  then show ?thesis using run by (auto simp: run_ElevateTier Let_def)
next
  case (Inr v)
  then obtain u where u: "find_row user_ID i (users w) = Some u" and v: "v = u\<lparr>user_LocalPasswordHash := None\<rparr>"
    by (auto simp: run_user_FindByID scanUser_Inr split: fault.splits)
  show ?thesis
  proof (cases "CanElevate a (user_Tier u) t")
    case False
    then show ?thesis using run Inr v by (auto simp: run_ElevateTier Let_def)
  next
    case True
    let ?w2 = "w\<lparr>tick := Suc (Suc (tick w))\<rparr>"
    have one2: "one_lost_call ?w2" using one one_lost_call_cong [of ?w2 w] by simp
    have pre: "holds_tier i (user_Tier u) (user_ElevatedBy u) (user_ElevatedAt u) ?w2"
      using u wf by (auto simp: holds_tier_def wf_users_def)
    let ?wr = "user_UpdateTier i t (actor_id a) (Some (clock w (Suc (tick w))))"
    let ?det = "Some [(''from_tier'', JStr (tier_string (user_Tier u))), (''to_tier'', JStr (tier_string t))]"
    have "run_state (or_return ?wr (Wrap ''update tier'') (\<lambda>_. audited
             (Record (actor_id a) (IsSuperAdmin a) ''elevated_user'' ''user'' i ?det)
             (user_UpdateTier i (user_Tier u) (user_ElevatedBy u) (user_ElevatedAt u)) (\<lambda>e. e))) ?w2 = (r, w')"
      using run Inr True by (simp add: run_ElevateTier Let_def v)
    note all = tier_change.all_or_nothing [OF one2 pre this]
    show ?thesis
    proof (cases r)
      case (Inl e)
      then show ?thesis using all by simp
    next
      case Inr2: (Inr x)
      then obtain w1 where w1: "run_state ?wr ?w2 = (Inr (), w1)" and "users w' = users w1"
        and log: "audit_log w' = audit_log w @ [new_record w1 (actor_id a) (IsSuperAdmin a) ''elevated_user'' ''user'' i ?det]"
        using all by auto
      then have "users w' = update_row user_ID i (set_tier t (actor_id a) (Some (clock w (Suc (tick w))))) (users w)"
        by (auto simp: run_user_UpdateTier Let_def split: fault.splits if_splits)
      with u True log Inr2 show ?thesis by (auto simp: new_record_def)
    qed
  qed
qed

definition two_users :: world where
  "two_users = empty_world\<lparr>users :=
     [(new_user empty_world ''Ada'' TierAdmin)\<lparr>user_ID := ''u1''\<rparr>,
      (new_user empty_world ''Bob'' TierReadOnly)\<lparr>user_ID := ''u2''\<rparr>]\<rparr>"

definition ada :: actor where
  "ada = \<lparr>IsSuperAdmin = False, UserID = ''u1'', Tier = TierAdmin\<rparr>"

definition audit_down :: world where
  "audit_down = two_users\<lparr>faults := (\<lambda>n. if n = 3 then Lost ''connection reset'' else NoFault)\<rparr>"

lemmas example_defs =
  two_users_def ada_def audit_down_def empty_world_def new_user_def db_uuid_def db_now_def

theorem elevate_all_or_nothing_witness:
  "users (snd (run_state (ElevateTier ada ''u2'' TierDeveloper) audit_down)) = users audit_down
   \<and> map user_Tier (users (snd (run_state (ElevateTier ada ''u2'' TierDeveloper) two_users)))
     = [TierAdmin, TierDeveloper]"
proof -
  have one: "one_lost_call audit_down" by (simp add: one_lost_call_def audit_down_def)
  have wf: "wf_users audit_down"
    by (simp add: wf_users_def primary_key_def valid_tier_def tier_rank_def example_defs)
  obtain r w' where run: "run_state (ElevateTier ada ''u2'' TierDeveloper) audit_down = (r, w')"
    by (cases "run_state (ElevateTier ada ''u2'' TierDeveloper) audit_down")
  have "\<exists>e. r = Inl e"
    using run by (auto simp: run_ElevateTier run_user_FindByID run_user_UpdateTier run_simps example_defs scanUser_def
        elevation_rule adjacent_below_admin_def valid_tier_def tier_rank_def Let_def split: sum.splits if_splits)
  then have "users w' = users audit_down"
    using elevate_all_or_nothing [OF one wf run] by auto
  moreover have "map user_Tier (users (snd (run_state (ElevateTier ada ''u2'' TierDeveloper) two_users)))
     = [TierAdmin, TierDeveloper]"
    by (simp add: run_ElevateTier run_user_FindByID run_user_UpdateTier run_simps example_defs scanUser_def
        elevation_rule adjacent_below_admin_def valid_tier_def tier_rank_def set_tier_def Let_def)
  ultimately show ?thesis using run by simp
qed

section \<open>Who is an Admin\<close>

definition admin_ids :: "world \<Rightarrow> string list" where
  "admin_ids w = map user_ID (filter (\<lambda>u. user_Tier u = TierAdmin) (users w))"

text \<open>The target of a change is a user below Admin.\<close>

definition ordinary_row :: "string \<Rightarrow> world \<Rightarrow> bool" where
  "ordinary_row i w \<longleftrightarrow>
     primary_key user_ID (users w) \<and>
     (\<exists>u. find_row user_ID i (users w) = Some u \<and> user_Tier u \<noteq> TierAdmin)"

lemma admins_update_row:
  assumes "primary_key user_ID us" "find_row user_ID i us = Some u" "user_Tier u \<noteq> TierAdmin" "t \<noteq> TierAdmin"
  shows "map user_ID (filter (\<lambda>u. user_Tier u = TierAdmin) (update_row user_ID i (set_tier t eb ea) us))
       = map user_ID (filter (\<lambda>u. user_Tier u = TierAdmin) us)"
  using assms
proof (induction us)
  case (Cons r us)
  show ?case
  proof (cases "user_ID r = i")
    case True
    with Cons.prems(1) have "i \<notin> user_ID ` set us" by (auto simp: primary_key_def)
    then show ?thesis using Cons.prems True by (simp add: update_row_absent set_tier_def)
  next
    case False
    then show ?thesis using Cons by (simp add: primary_key_def)
  qed
qed simp

lemma UpdateTier_admins:
  assumes row: "ordinary_row i w" and t: "t \<noteq> TierAdmin" and run: "run_state (user_UpdateTier i t eb ea) w = (r, w')"
  shows "ordinary_row i w' \<and> admin_ids w' = admin_ids w"
proof -
  obtain u where u: "primary_key user_ID (users w)" "find_row user_ID i (users w) = Some u" "user_Tier u \<noteq> TierAdmin"
    using row by (auto simp: ordinary_row_def)
  let ?us = "update_row user_ID i (set_tier t eb ea) (users w)"
  have "primary_key user_ID ?us" by (rule pk_table.pk_upd) (use u in auto)
  moreover have "find_row user_ID i ?us = Some (set_tier t eb ea u)"
    using pk_table.fnd_upd_same [of user_ID "set_tier t eb ea" i "users w"] u by simp
  moreover have "users w' = ?us \<or> users w' = users w"
    using run by (auto simp: run_user_UpdateTier Let_def split: fault.splits if_splits)
  ultimately show ?thesis
    using u t admins_update_row [OF u t] by (auto simp: ordinary_row_def admin_ids_def set_tier_def)
qed

lemma ordinary_row_frame: "users w' = users w \<Longrightarrow> ordinary_row i w' = ordinary_row i w \<and> admin_ids w' = admin_ids w"
  by (simp add: ordinary_row_def admin_ids_def)

lemma Record_users: "users (snd (run_state (Record act isSA action otyp obj det) w)) = users w"
  by (simp add: run_simps Let_def split: fault.splits)

lemma audited_tier_admins:
  assumes row: "ordinary_row i w" and t: "t0 \<noteq> TierAdmin"
    and run: "run_state (audited (Record act isSA action otyp obj det) (user_UpdateTier i t0 eb ea) both) w = (r, w')"
  shows "primary_key user_ID (users w') \<and> admin_ids w' = admin_ids w"
proof -
  obtain q w1 where rc: "run_state (Record act isSA action otyp obj det) w = (q, w1)"
    by (cases "run_state (Record act isSA action otyp obj det) w")
  then have w1: "ordinary_row i w1" "admin_ids w1 = admin_ids w"
    using Record_users [of act isSA action otyp obj det w] ordinary_row_frame [of w1 w i] row by simp_all
  obtain v w2 where rv: "run_state (user_UpdateTier i t0 eb ea) w1 = (v, w2)"
    by (cases "run_state (user_UpdateTier i t0 eb ea) w1")
  have "w' = w1 \<or> w' = w2" using run rc rv by (auto simp: run_audited split: sum.splits)
  then show ?thesis using w1 UpdateTier_admins [OF w1(1) t rv] by (auto simp: ordinary_row_def)
qed

lemma ElevateTier_admins:
  assumes pk: "primary_key user_ID (users w)" and a: "\<not> IsSuperAdmin a"
    and run: "run_state (ElevateTier a i t) w = (r, w')"
  shows "primary_key user_ID (users w') \<and> admin_ids w' = admin_ids w"
proof (cases "fst (run_state (user_FindByID i) w)")
  case (Inl e)
  then show ?thesis using run pk by (auto simp: run_ElevateTier Let_def admin_ids_def)
next
  case (Inr v)
  then obtain u where u: "find_row user_ID i (users w) = Some u" and v: "v = u\<lparr>user_LocalPasswordHash := None\<rparr>"
    by (auto simp: run_user_FindByID scanUser_Inr split: fault.splits)
  show ?thesis
  proof (cases "CanElevate a (user_Tier u) t")
    case False
    then show ?thesis using run Inr v pk by (auto simp: run_ElevateTier Let_def admin_ids_def)
  next
    case True
    let ?w2 = "w\<lparr>tick := Suc (Suc (tick w))\<rparr>"
    let ?wr = "user_UpdateTier i t (actor_id a) (Some (clock w (Suc (tick w))))"
    have below: "user_Tier u \<noteq> TierAdmin" "t \<noteq> TierAdmin"
      using True a adjacent_not_admin by (auto simp: elevation_rule)
    have row: "ordinary_row i ?w2" "admin_ids ?w2 = admin_ids w"
      using u pk below by (auto simp: ordinary_row_def admin_ids_def)
    obtain q w1 where wr: "run_state ?wr ?w2 = (q, w1)" by (cases "run_state ?wr ?w2")
    note w1 = UpdateTier_admins [OF row(1) below(2) wr]
    show ?thesis
    proof (cases q)
      case (Inl e)
      then show ?thesis using run Inr v True wr w1 row by (simp add: run_ElevateTier run_or_return Let_def ordinary_row_def)
    next
      case Inr2: (Inr x)
      then show ?thesis
        using run Inr v True wr w1 row audited_tier_admins [of i w1 "user_Tier u", OF _ below(1)]
        by (simp add: run_ElevateTier run_or_return Let_def)
    qed
  qed
qed

text \<open>A sequence of requests, each of which may fail at any call.\<close>

definition elevate_all :: "(actor \<times> string \<times> tier) list \<Rightarrow> unit io" where
  "elevate_all = for_each (\<lambda>(a, i, t). State_Monad.bind (ElevateTier a i t) (\<lambda>_. State_Monad.return ()))"

text \<open>
  C2. No privilege escalation: any sequence of tier changes requested by actors other than the
  SuperAdmin, whatever tiers they claim, whatever targets and tiers they name and whichever database
  calls fail or are applied without being acknowledged, leaves the list of Admin users as it was. Only
  the break-glass SuperAdmin can make or unmake an Admin.
\<close>

theorem no_privilege_escalation:
  assumes "primary_key user_ID (users w)" and "list_all (\<lambda>(a, i, t). \<not> IsSuperAdmin a) reqs"
  shows "admin_ids (snd (run_state (elevate_all reqs) w)) = admin_ids w"
  using assms
proof (induction reqs arbitrary: w)
  case Nil
  then show ?case by (simp add: elevate_all_def)
next
  case (Cons req reqs)
  obtain a i t where req: "req = (a, i, t)" by (cases req)
  obtain r w1 where run: "run_state (ElevateTier a i t) w = (r, w1)" by (cases "run_state (ElevateTier a i t) w")
  have "primary_key user_ID (users w1) \<and> admin_ids w1 = admin_ids w"
    using ElevateTier_admins [OF Cons.prems(1) _ run] Cons.prems(2) by (simp add: req)
  then show ?case using Cons.IH [of w1] Cons.prems(2) run by (simp add: elevate_all_def req)
qed

theorem no_privilege_escalation_witness:
  "admin_ids (snd (run_state (elevate_all [(ada, ''u2'', TierDeveloper), (ada, ''u2'', TierPowerDev),
     (ada, ''u2'', TierAdmin)]) two_users)) = [''u1'']"
proof -
  have "primary_key user_ID (users two_users)" by (simp add: example_defs primary_key_def)
  moreover have "list_all (\<lambda>(a, i, t). \<not> IsSuperAdmin a)
      [(ada, ''u2'', TierDeveloper), (ada, ''u2'', TierPowerDev), (ada, ''u2'', TierAdmin)]"
    by (simp add: ada_def)
  ultimately show ?thesis
    using no_privilege_escalation [of two_users] by (simp add: admin_ids_def example_defs)
qed

section \<open>Themes\<close>

definition set_theme :: "string option \<Rightarrow> (string \<times> string) list option \<Rightarrow> string option \<Rightarrow> user \<Rightarrow> user" where
  "set_theme p c s u = u\<lparr>user_ThemePreset := p, user_ThemeCustomColors := c, user_ThemeStatusPalette := s\<rparr>"

lemma user_UpdateTheme_alt: "user_UpdateTheme i p c s = update_user ''update user theme'' (set_theme p c s) i"
  by (simp add: user_UpdateTheme_def set_theme_def [abs_def])

definition holds_theme :: "string \<Rightarrow> string option \<Rightarrow> (string \<times> string) list option \<Rightarrow> string option \<Rightarrow> world \<Rightarrow> bool" where
  "holds_theme i p c s w \<longleftrightarrow>
     primary_key user_ID (users w) \<and> (\<exists>u. find_row user_ID i (users w) = Some u \<and>
       user_ThemePreset u = p \<and> user_ThemeCustomColors u = c \<and> user_ThemeStatusPalette u = s)"

interpretation theme_change: audited_write users "user_UpdateTheme i p c s" "user_UpdateTheme i p0 c0 s0"
    "holds_theme i p0 c0 s0"
  for i p c s p0 c0 s0
proof
  fix w w' w1 w2 w3 r u e n and l :: "audit_record list"
  let ?wr = "user_UpdateTheme i p c s"
  note run = user_UpdateTheme_alt run_update_user Let_def
  show "run_state ?wr w = (r, w') \<Longrightarrow> faults w' = faults w \<and> tick w' = Suc (tick w)"
    by (auto simp: run split: fault.splits)
  show "run_state ?wr w = (r, w') \<Longrightarrow> audit_log w' = audit_log w"
    by (auto simp: run split: fault.splits)
  show "users w' = users w"
    if "one_lost_call w" "holds_theme i p0 c0 s0 w" "run_state ?wr w = (Inl e, w')"
    using that by (auto simp: run holds_theme_def split: fault.splits if_splits)
  show "users w3 = users w \<and> audit_log w3 = audit_log w2"
    if "holds_theme i p0 c0 s0 w" "run_state ?wr w = (Inr u, w1)" "users w2 = users w1"
      "faults w2 (tick w2) = NoFault" "run_state (user_UpdateTheme i p0 c0 s0) w2 = (r, w3)"
  proof -
    note prems = that
    have w2: "users w2 = update_row user_ID i (set_theme p c s) (users w)"
      using prems(2,3) by (auto simp: run split: fault.splits if_splits)
    obtain x where x: "primary_key user_ID (users w)" "find_row user_ID i (users w) = Some x"
        "user_ThemePreset x = p0" "user_ThemeCustomColors x = c0" "user_ThemeStatusPalette x = s0"
      using prems(1) by (auto simp: holds_theme_def)
    have "update_row user_ID i (set_theme p0 c0 s0) (update_row user_ID i (set_theme p c s) (users w)) = users w"
      by (rule pk_table.revert_restores [where r = x]) (use x in \<open>auto simp: set_theme_def\<close>)
    then show ?thesis using prems(4,5) w2 by (auto simp: run)
  qed
qed simp_all

text \<open>
  Theme changes are all-or-nothing with their audit record: when at most one call fails and had no
  effect, \<^verbatim>\<open>UpdateOwnTheme\<close> with an error leaves the users table and the audit log as they were, and
  with nil has set exactly the three theme columns of the actor's own row, with the validated colors,
  and appended exactly one record that names the actor; the SuperAdmin is always refused.
\<close>

theorem theme_all_or_nothing:
  assumes one: "one_lost_call w" and pk: "primary_key user_ID (users w)"
    and run: "run_state (UpdateOwnTheme a p colors s) w = (r, w')"
  shows "case r of
      Inl e \<Rightarrow> users w' = users w \<and> audit_log w' = audit_log w
    | Inr _ \<Rightarrow> \<not> IsSuperAdmin a \<and> (\<exists>out rec.
        ValidateThemeCustomColors colors = Inr out \<and>
        users w' = update_row user_ID (UserID a) (set_theme p (Some out) s) (users w) \<and>
        audit_log w' = audit_log w @ [rec] \<and> audit_Action rec = ''updated_own_theme'' \<and>
        audit_ActorID rec = Some (UserID a) \<and> audit_ObjectID rec = UserID a)"
proof (cases "\<exists>e. run_state (UpdateOwnTheme a p colors s) w = (Inl e, w) \<or>
    run_state (UpdateOwnTheme a p colors s) w = (Inl e, w\<lparr>tick := Suc (tick w)\<rparr>)")
  case True
  then show ?thesis using run by auto
next
  case False
  note F = False [unfolded UpdateOwnTheme_def]
  let ?i = "UserID a"
  obtain out where a: "\<not> IsSuperAdmin a" and out: "ValidateThemeCustomColors colors = Inr out"
    and p: "\<not> (case p of Some p \<Rightarrow> \<not> ValidThemePreset p | None \<Rightarrow> False)"
    and s: "\<not> (case s of Some p \<Rightarrow> \<not> ValidThemeStatusPalette p | None \<Rightarrow> False)"
    using F by (auto split: if_splits sum.splits)
  obtain v where v: "run_state (user_FindByID ?i) w = (Inr v, w\<lparr>tick := Suc (tick w)\<rparr>)"
    using F a out p s by (auto simp: run_or_return run_user_FindByID split: sum.splits fault.splits)
  then obtain u where u: "find_row user_ID ?i (users w) = Some u" and vu: "v = u\<lparr>user_LocalPasswordHash := None\<rparr>"
    by (auto simp: run_user_FindByID scanUser_Inr split: fault.splits)
  let ?w1 = "w\<lparr>tick := Suc (tick w)\<rparr>"
  have one1: "one_lost_call ?w1" using one one_lost_call_cong [of ?w1 w] by simp
  have pre: "holds_theme ?i (user_ThemePreset u) (user_ThemeCustomColors u) (user_ThemeStatusPalette u) ?w1"
    using u pk by (auto simp: holds_theme_def)
  have "\<exists>det. run_state (or_return (user_UpdateTheme ?i p (Some out) s) (Wrap ''update theme'') (\<lambda>_. audited
            (Record (Some ?i) False ''updated_own_theme'' ''user'' ?i det)
            (user_UpdateTheme ?i (user_ThemePreset u) (user_ThemeCustomColors u) (user_ThemeStatusPalette u))
            (\<lambda>e. e))) ?w1 = (r, w')"
    using run a out p s v vu by (auto simp: UpdateOwnTheme_def run_or_return [where m = "user_FindByID ?i"])
  then obtain det where "case r of
           Inl e \<Rightarrow> users w' = users ?w1 \<and> audit_log w' = audit_log ?w1
         | Inr _ \<Rightarrow> \<exists>w1. run_state (user_UpdateTheme ?i p (Some out) s) ?w1 = (Inr (), w1) \<and> users w' = users w1 \<and>
                     audit_log w' = audit_log ?w1 @ [new_record w1 (Some ?i) False ''updated_own_theme'' ''user'' ?i det]"
    using theme_change.all_or_nothing [OF one1 pre] by blast
  then show ?thesis
    using a out by (auto simp: user_UpdateTheme_alt run_update_user Let_def new_record_def
        split: sum.splits fault.splits if_splits)
qed

theorem theme_all_or_nothing_witness:
  "map user_ThemePreset (users (snd (run_state (UpdateOwnTheme ada (Some ''carbon-dark'') [] None) two_users)))
     = [Some ''carbon-dark'', None]"
proof -
  have one: "one_lost_call two_users" by (simp add: one_lost_call_def two_users_def empty_world_def)
  have pk: "primary_key user_ID (users two_users)" by (simp add: primary_key_def example_defs)
  obtain r w' where run: "run_state (UpdateOwnTheme ada (Some ''carbon-dark'') [] None) two_users = (r, w')"
    by (cases "run_state (UpdateOwnTheme ada (Some ''carbon-dark'') [] None) two_users")
  have "r = Inr ()"
    using run by (auto simp: UpdateOwnTheme_def ValidThemePreset_def ThemePresets_def ValidateThemeCustomColors_def
        run_simps run_user_FindByID user_UpdateTheme_alt run_update_user scanUser_def example_defs Let_def)
  then show ?thesis
    using theme_all_or_nothing [OF one pk run] run
    by (auto simp: ValidateThemeCustomColors_def set_theme_def example_defs)
qed

end
