(* ===== verification/Gotime.thy ===== *)
theory Gotime
  imports World
begin

text \<open>
  The part of Go's package time and of unicode/utf8 that the services use: calendar dates, local time in a
  location, \<^verbatim>\<open>time.Date\<close>, \<^verbatim>\<open>Time.AddDate\<close>, \<^verbatim>\<open>Time.Format\<close> with two layouts, saturating
  \<^verbatim>\<open>Time.Sub\<close>, and the runes of a string.
\<close>

section \<open>Calendar\<close>

text \<open>
  Year, month and day of a day number (day 0 is 1 January of year 1), counted in 400-year eras from
  1 March of year 0.
\<close>

definition civil_of_day :: "int \<Rightarrow> int \<times> int \<times> int" where
  "civil_of_day n =
     (let z = n + 306;
          era = z div 146097;
          doe = z mod 146097;
          yoe = (doe - doe div 1460 + doe div 36524 - doe div 146096) div 365;
          doy = doe - (365 * yoe + yoe div 4 - yoe div 100);
          mp = (5 * doy + 2) div 153;
          d = doy - (153 * mp + 2) div 5 + 1;
          m = (if mp < 10 then mp + 3 else mp - 9)
      in (yoe + era * 400 + (if m \<le> 2 then 1 else 0), m, d))"

text \<open>\<^verbatim>\<open>time.Weekday\<close>: 0 is Sunday; day 0 was a Monday.\<close>

definition Weekday :: "int \<Rightarrow> int" where
  "Weekday n = (n + 1) mod 7"

section \<open>Locations\<close>

text \<open>
  A \<^verbatim>\<open>*time.Location\<close> is its lookup: for a second, the offset from UTC in force and the start and end of
  the period it is in force for. The zone database is outside the program, so a location is a parameter.
\<close>

type_synonym location = "int \<Rightarrow> int \<times> int \<times> int"

definition loc_offset :: "location \<Rightarrow> int \<Rightarrow> int" where
  "loc_offset loc s = fst (loc s)"

definition fixed_zone :: "int \<Rightarrow> location" where
  "fixed_zone off = (\<lambda>_. (off, - (2 ^ 63), 2 ^ 63 - 1))"

abbreviation UTC :: location where "UTC \<equiv> fixed_zone 0"

definition sec_of :: "time \<Rightarrow> int" where
  "sec_of t = t div second"

text \<open>The local clock of \<^verbatim>\<open>t.In(loc)\<close>, as seconds since local midnight of day 0.\<close>

definition local_secs :: "location \<Rightarrow> time \<Rightarrow> int" where
  "local_secs loc t = sec_of t + loc_offset loc (sec_of t)"

definition local_day :: "location \<Rightarrow> time \<Rightarrow> int" where
  "local_day loc t = local_secs loc t div 86400"

definition local_clock :: "location \<Rightarrow> time \<Rightarrow> int" where
  "local_clock loc t = local_secs loc t mod 86400"

text \<open>
  \<^verbatim>\<open>time.Date\<close> for a local reading: the offset is looked up as if the reading were UTC, and looked up again
  when the resulting instant is outside the period found.
\<close>

definition Date_secs :: "location \<Rightarrow> int \<Rightarrow> int" where
  "Date_secs loc unix =
     (let (off, start, stop) = loc unix in
      if off \<noteq> 0 then
        let utc = unix - off in
        unix - (if utc < start \<or> utc \<ge> stop then loc_offset loc utc else off)
      else unix)"

definition hms :: "int \<Rightarrow> int \<Rightarrow> int \<Rightarrow> int" where
  "hms h m s = h * 3600 + m * 60 + s"

text \<open>The date is given as a day number, which stands for year, month and a day that may overflow the month.\<close>

definition Date :: "int \<Rightarrow> int \<Rightarrow> location \<Rightarrow> time" where
  "Date dn clk loc = Date_secs loc (dn * 86400 + clk) * second"

text \<open>\<^verbatim>\<open>t.AddDate(0, months, 0)\<close>.\<close>

definition AddMonths :: "location \<Rightarrow> int \<Rightarrow> time \<Rightarrow> time" where
  "AddMonths loc months t =
     (let (y, mo, d) = civil_of_day (local_day loc t);
          k = mo - 1 + months;
          dn = civil_day (y + k div 12) (k mod 12 + 1) 1 + (d - 1)
      in Date dn (local_clock loc t) loc + t mod second)"

text \<open>\<^verbatim>\<open>Sub\<close> saturates at the range of a 64-bit duration.\<close>

definition Sub :: "time \<Rightarrow> time \<Rightarrow> int" where
  "Sub t u = max (- (2 ^ 63)) (min (2 ^ 63 - 1) (t - u))"

definition Truncate :: "int \<Rightarrow> time \<Rightarrow> time" where
  "Truncate d t = t - t mod d"

section \<open>Formats\<close>

definition two_digits :: "int \<Rightarrow> string" where
  "two_digits n = [char_of (48 + nat n div 10 mod 10), char_of (48 + nat n mod 10)]"

definition four_digits :: "int \<Rightarrow> string" where
  "four_digits n = two_digits (n div 100) @ two_digits (n mod 100)"

text \<open>\<^verbatim>\<open>t.UTC().Format("20060102-150405")\<close> and \<^verbatim>\<open>t.UTC().Format(time.RFC3339)\<close> for years of four digits.\<close>

definition format_ref :: "time \<Rightarrow> string" where
  "format_ref t =
     (let (y, m, d) = civil_of_day (local_day UTC t); c = local_clock UTC t in
      four_digits y @ two_digits m @ two_digits d @ ''-''
      @ two_digits (c div 3600) @ two_digits (c div 60 mod 60) @ two_digits (c mod 60))"

definition format_rfc3339 :: "time \<Rightarrow> string" where
  "format_rfc3339 t =
     (let (y, m, d) = civil_of_day (local_day UTC t); c = local_clock UTC t in
      four_digits y @ ''-'' @ two_digits m @ ''-'' @ two_digits d @ ''T''
      @ two_digits (c div 3600) @ '':'' @ two_digits (c div 60 mod 60) @ '':'' @ two_digits (c mod 60) @ ''Z'')"

section \<open>Runes\<close>

text \<open>
  A Go string is its bytes. \<open>rune_width\<close> is the number of bytes of the UTF-8 sequence at the front of a
  string; a byte that starts no valid sequence is a rune of its own (U+FFFD).
\<close>

definition byte :: "string \<Rightarrow> nat \<Rightarrow> int" where
  "byte s i = (if i < length s then of_char (s ! i) else 0)"

definition cont :: "string \<Rightarrow> nat \<Rightarrow> bool" where
  "cont s i \<longleftrightarrow> 0x80 \<le> byte s i \<and> byte s i \<le> 0xBF"

definition decode_rune :: "string \<Rightarrow> int \<times> nat" where
  "decode_rune s =
     (let a = byte s 0; b = byte s 1; c = byte s 2; d = byte s 3 in
      if a < 0x80 then (a, 1)
      else if 0xC2 \<le> a \<and> a \<le> 0xDF \<and> cont s 1 then ((a - 0xC0) * 64 + (b - 0x80), 2)
      else if 0xE0 \<le> a \<and> a \<le> 0xEF \<and> cont s 1 \<and> cont s 2 \<and> (a = 0xE0 \<longrightarrow> 0xA0 \<le> b) \<and> (a = 0xED \<longrightarrow> b \<le> 0x9F)
        then ((a - 0xE0) * 4096 + (b - 0x80) * 64 + (c - 0x80), 3)
      else if 0xF0 \<le> a \<and> a \<le> 0xF4 \<and> cont s 1 \<and> cont s 2 \<and> cont s 3 \<and> (a = 0xF0 \<longrightarrow> 0x90 \<le> b) \<and> (a = 0xF4 \<longrightarrow> b \<le> 0x8F)
        then ((a - 0xF0) * 262144 + (b - 0x80) * 4096 + (c - 0x80) * 64 + (d - 0x80), 4)
      else (0xFFFD, 1))"

lemma decode_rune_width: "0 < snd (decode_rune s)"
  by (simp add: decode_rune_def Let_def)

function runes :: "string \<Rightarrow> int list" where
  "runes s = (if s = [] then [] else case decode_rune s of (r, n) \<Rightarrow> r # runes (drop n s))"
  by pat_completeness auto
termination
proof (relation "measure length", simp)
  fix s :: string and r n
  assume "s \<noteq> []" and "(r, n) = decode_rune s"
  then show "(drop n s, s) \<in> measure length"
    using decode_rune_width [of s] by (metis (no_types) diff_less in_measure length_drop length_greater_0_conv snd_conv)
qed

declare runes.simps [simp del]

definition RuneCountInString :: "string \<Rightarrow> nat" where
  "RuneCountInString s = length (runes s)"

definition IsSpace :: "int \<Rightarrow> bool" where
  "IsSpace r \<longleftrightarrow>
     r \<in> {0x09, 0x0A, 0x0B, 0x0C, 0x0D, 0x20, 0x85, 0xA0, 0x1680, 0x2028, 0x2029, 0x202F, 0x205F, 0x3000}
     \<or> (0x2000 \<le> r \<and> r \<le> 0x200A)"

text \<open>\<^verbatim>\<open>strings.TrimSpace(s) == ""\<close>.\<close>

definition blank :: "string \<Rightarrow> bool" where
  "blank s \<longleftrightarrow> list_all IsSpace (runes s)"

end
