(* ===== verification/Schedule_Order.thy ===== *)
theory Schedule_Order
  imports Schedule "HOL-Library.Multiset"
begin

text \<open>
  That the searches of a schedule are exact. The order a zone's wall clock must keep is a locale; zones
  without a change and zones with one daylight saving change satisfy it.
\<close>

section \<open>Zones\<close>

text \<open>The readings of a wall clock stay near the reading that was asked for.\<close>

lemma probe_bounds: "probe loc x limit p = Some q \<Longrightarrow> p \<le> q \<and> q < limit \<and> x \<le> local_secs loc q"
proof (induction loc x limit p rule: probe.induct)
  case (1 loc x limit p)
  show ?case
  proof (cases "p < limit \<and> \<not> x \<le> local_secs loc p")
    case True
    then show ?thesis using 1 by (fastforce simp: probe.simps [of loc x limit p])
  next
    case False
    then show ?thesis using 1 by (auto simp: probe.simps [of loc x limit p] split: if_splits)
  qed
qed

text \<open>Offsets within sixteen hours of each other: no change of the calendar date.\<close>

definition steady_offsets :: "location \<Rightarrow> bool" where
  "steady_offsets loc \<longleftrightarrow> (\<forall>s s'. loc_offset loc s - loc_offset loc s' \<le> 16 * 3600)"

lemma wallClock_near:
  assumes "steady_offsets loc"
  shows "\<bar>wallClock loc dn clk - (dn * 86400 + clk - loc_offset loc s) * second\<bar> \<le> 22 * hour"
proof -
  let ?x = "dn * 86400 + clk" and ?t = "Date dn clk loc"
  obtain s' where t: "?t = (?x - loc_offset loc s') * second"
  proof -
    have "\<exists>s'. Date_secs loc ?x = ?x - loc_offset loc s'"
      by (auto simp: Date_secs_def loc_offset_def Let_def split: prod.splits if_splits)
        (metis diff_zero fst_conv)+
    then show ?thesis using that by (auto simp: Date_def)
  qed
  have off: "\<bar>loc_offset loc s - loc_offset loc s'\<bar> \<le> 16 * 3600"
    using assms unfolding steady_offsets_def by (simp add: abs_le_iff)
  have "?t - 4 * hour \<le> wallClock loc dn clk \<and> wallClock loc dn clk \<le> ?t + 6 * hour"
    using pos_mod_bound [of minute "?t - 3 * hour"]
    by (auto simp: wallClock_def Let_def Truncate_def split: option.split dest!: probe_bounds)
  then show ?thesis using t off by (simp add: abs_le_iff)
qed

text \<open>
  What the searches rely on: a later reading is never an earlier instant, the readings of a day are all after
  the instants of earlier days and not after the instants of later ones.
\<close>

definition reading :: "int \<Rightarrow> bool" where
  "reading clk \<longleftrightarrow> 0 \<le> clk \<and> clk < 86400"

locale zone_order =
  fixes loc :: location
  assumes mono: "reading c \<Longrightarrow> reading c' \<Longrightarrow> dn * 86400 + c \<le> dn' * 86400 + c' \<Longrightarrow> wallClock loc dn c \<le> wallClock loc dn' c'"
    and day_after: "reading c \<Longrightarrow> local_day loc t < dn \<Longrightarrow> t < wallClock loc dn c"
    and day_before: "reading c \<Longrightarrow> dn < local_day loc t \<Longrightarrow> wallClock loc dn c \<le> t"
    and steady: "steady_offsets loc"

section \<open>The times of a schedule\<close>

definition time_key :: "int \<times> int \<Rightarrow> int" where
  "time_key hm = 60 * fst hm + snd hm"

definition time_ok :: "int \<times> int \<Rightarrow> bool" where
  "time_ok hm \<longleftrightarrow> 0 \<le> fst hm \<and> fst hm < 24 \<and> 0 \<le> snd hm \<and> snd hm < 60"

lemma digit_val_range: "is_digit c \<Longrightarrow> 0 \<le> digit_val c \<and> digit_val c \<le> 9"
proof -
  assume "is_digit c"
  then have "48 \<le> int (of_char c :: nat) \<and> int (of_char c :: nat) \<le> 57" unfolding is_digit_def by linarith
  then have "48 \<le> (of_char c :: int) \<and> (of_char c :: int) \<le> 57" by (simp only: of_nat_of_char)
  then show ?thesis by (simp add: digit_val_def)
qed

lemma parseTimeOfDay_ok:
  assumes "parseTimeOfDay s = Some hm"
  shows "time_ok hm"
proof -
  obtain a b c d e where s: "s = [a, b, c, d, e]" using assms by (auto simp: parseTimeOfDay_def split: list.splits)
  have hour: "a = CHR ''0'' \<and> is_digit b \<or> a = CHR ''1'' \<and> is_digit b \<or> a = CHR ''2'' \<and> b \<in> {CHR ''0'', CHR ''1'', CHR ''2'', CHR ''3''}"
    and min: "is_digit d" "digit_val d \<le> 5" "is_digit e"
    and hm: "hm = (10 * digit_val a + digit_val b, 10 * digit_val d + digit_val e)"
    using assms unfolding s parseTimeOfDay_def by (auto split: if_splits)
  have "0 \<le> 10 * digit_val a + digit_val b \<and> 10 * digit_val a + digit_val b < 24"
    using hour digit_val_range [of b] by (auto simp: digit_val_def)
  then show ?thesis using min digit_val_range [of d] digit_val_range [of e] by (simp add: time_ok_def hm)
qed

lemma sortedTimes_ok: "hm \<in> set (sortedTimes s) \<Longrightarrow> time_ok hm"
  by (auto simp: sortedTimes_def map_filter_def intro: parseTimeOfDay_ok)

lemma sortedTimes_sorted: "sorted (map time_key (sortedTimes s))"
proof -
  have "(\<lambda>(h, m). 60 * h + m) = time_key" by (auto simp: time_key_def)
  then show ?thesis unfolding sortedTimes_def using sorted_sort_key by metis
qed

lemma time_ok_reading: "time_ok hm \<Longrightarrow> reading (hms (fst hm) (snd hm) 0)"
  by (auto simp: time_ok_def reading_def hms_def)

definition weekly_at :: "spec \<Rightarrow> location \<Rightarrow> time \<Rightarrow> bool" where
  "weekly_at s loc t \<longleftrightarrow> (\<exists>dn. Weekday dn \<in> set (Weekdays s) \<and> (\<exists>hm \<in> set (sortedTimes s). t = at_time loc dn hm))"

definition every_at :: "spec \<Rightarrow> time \<Rightarrow> location \<Rightarrow> time \<Rightarrow> bool" where
  "every_at s anchor loc t \<longleftrightarrow> (\<exists>k \<ge> 0. t = everyDaysAt s anchor k loc)"

text \<open>The occurrences a schedule saved at \<open>anchor\<close> has.\<close>

definition occurs :: "spec \<Rightarrow> time \<Rightarrow> location \<Rightarrow> time \<Rightarrow> bool" where
  "occurs s anchor loc t \<longleftrightarrow> (if Kind s = KindWeekly then weekly_at s loc t \<and> anchor < t else every_at s anchor loc t)"

section \<open>The searches return occurrences\<close>

lemma newest_time_sound:
  "newest_time loc lower upTo dn L = Some (Some t) \<Longrightarrow> lower < t \<and> t \<le> upTo \<and> (\<exists>hm \<in> set L. t = at_time loc dn hm)"
  by (induction L) (auto simp: Let_def split: if_splits)

lemma latest_from_sound:
  "latest_from loc days L lower upTo flr dn = Some t \<Longrightarrow>
     lower < t \<and> t \<le> upTo \<and> (\<exists>d. Weekday d \<in> set days \<and> (\<exists>hm \<in> set L. t = at_time loc d hm))"
proof (induction loc days L lower upTo flr dn rule: latest_from.induct)
  case (1 loc days L lower upTo flr dn)
  show ?case
  proof (cases "newest_time loc lower upTo dn (rev L)")
    case None
    then show ?thesis using 1 by (auto simp: latest_from.simps [of loc days L lower upTo flr dn] split: if_splits)
  next
    case (Some r)
    then show ?thesis using 1 newest_time_sound [of loc lower upTo dn "rev L" t]
      by (auto simp: latest_from.simps [of loc days L lower upTo flr dn] split: if_splits)
  qed
qed

lemma latest_k_sound:
  "latest_k s anchor after upTo loc ks = Some t \<Longrightarrow> after < t \<and> t \<le> upTo \<and> every_at s anchor loc t"
proof (induction ks)
  case (Cons k ks)
  show ?case
  proof (cases "k < 0 \<or> everyDaysAt s anchor k loc > upTo")
    case True
    then show ?thesis using Cons by (auto simp: Let_def split: if_splits)
  next
    case False
    then have "everyDaysAt s anchor k loc = t \<and> after < t \<and> t \<le> upTo \<and> 0 \<le> k"
      using Cons.prems by (auto simp: Let_def split: if_splits)
    then show ?thesis unfolding every_at_def by blast
  qed
qed simp

lemma valid_kind: "spec_Validate s = Inr () \<Longrightarrow> Kind s = KindWeekly \<or> Kind s = KindEveryDays"
  by (auto simp: spec_Validate_def invalid_spec_def split: kind.splits)

lemma Latest_sound:
  assumes "Latest s anchor after upTo loc = Some t"
  shows "occurs s anchor loc t \<and> after < t \<and> t \<le> upTo"
proof -
  have v: "spec_Validate s = Inr ()" using assms by (auto simp: Latest_def split: if_splits)
  from valid_kind [OF v] show ?thesis
  proof
    assume k: "Kind s = KindWeekly"
    let ?lower = "if anchor > after then anchor else after"
    have "latest_from loc (Weekdays s) (sortedTimes s) ?lower upTo (local_day loc ?lower) (local_day loc upTo) = Some t"
      using assms k by (simp add: Latest_def latestWeekly_def split: if_split_asm)
    from latest_from_sound [OF this] show ?thesis
      unfolding occurs_def weekly_at_def using k by (auto split: if_splits)
  next
    assume k: "Kind s = KindEveryDays"
    then obtain ks where "latest_k s anchor after upTo loc ks = Some t"
      using assms by (auto simp: Latest_def latestEveryDays_def Let_def simp del: latest_k.simps split: if_splits)
    from latest_k_sound [OF this] show ?thesis using k by (simp add: occurs_def)
  qed
qed

section \<open>The latest occurrence\<close>

lemma newest_time_complete:
  assumes "sorted_wrt (\<lambda>a b. at_time loc dn b \<le> at_time loc dn a) L"
  shows "case newest_time loc lower upTo dn L of
      None \<Rightarrow> (\<forall>hm \<in> set L. at_time loc dn hm > upTo)
    | Some None \<Rightarrow> (\<forall>hm \<in> set L. at_time loc dn hm \<le> upTo \<longrightarrow> at_time loc dn hm \<le> lower) \<and> (\<exists>hm \<in> set L. at_time loc dn hm \<le> lower)
    | Some (Some t) \<Rightarrow> (\<forall>hm \<in> set L. at_time loc dn hm \<le> upTo \<longrightarrow> at_time loc dn hm \<le> t)"
  using assms
proof (induction L)
  case (Cons hm L)
  let ?at = "at_time loc dn hm"
  have le: "at_time loc dn x \<le> ?at" if "x \<in> set L" for x using Cons.prems that by simp
  show ?case
  proof (cases "?at > upTo")
    case True
    then show ?thesis using Cons by (auto simp: Let_def split: option.splits)
  next
    case False
    then show ?thesis using le by (force simp: Let_def)
  qed
qed simp

text \<open>No occurrence on the days up to \<open>dn\<close> that is due by \<open>upTo\<close> is later than \<open>b\<close>.\<close>

definition due_bound :: "location \<Rightarrow> int list \<Rightarrow> (int \<times> int) list \<Rightarrow> time \<Rightarrow> int \<Rightarrow> time \<Rightarrow> bool" where
  "due_bound loc days L upTo dn b \<longleftrightarrow>
     (\<forall>d \<le> dn. Weekday d \<in> set days \<longrightarrow> (\<forall>hm \<in> set L. at_time loc d hm \<le> upTo \<longrightarrow> at_time loc d hm \<le> b))"

lemma due_bound_step:
  assumes "due_bound loc days L upTo (dn - 1) b"
    and "\<And>hm. Weekday dn \<in> set days \<Longrightarrow> hm \<in> set L \<Longrightarrow> at_time loc dn hm \<le> upTo \<Longrightarrow> at_time loc dn hm \<le> b"
  shows "due_bound loc days L upTo dn b"
  unfolding due_bound_def
proof (intro allI impI ballI)
  fix d hm assume d: "d \<le> dn" "Weekday d \<in> set days" "hm \<in> set L" "at_time loc d hm \<le> upTo"
  show "at_time loc d hm \<le> b"
  proof (cases "d = dn")
    case False
    then have "d \<le> dn - 1" using d by simp
    then show ?thesis using assms(1) d by (auto simp: due_bound_def)
  qed (use assms(2) d in simp)
qed

context zone_order
begin

lemma at_time_mono:
  assumes "time_ok a" "time_ok b" "dn < dn' \<or> dn = dn' \<and> time_key a \<le> time_key b"
  shows "at_time loc dn a \<le> at_time loc dn' b"
  unfolding at_time_def
proof (rule mono)
  show "dn * 86400 + hms (fst a) (snd a) 0 \<le> dn' * 86400 + hms (fst b) (snd b) 0"
    using assms by (auto simp: time_ok_def time_key_def hms_def)
qed (use assms in \<open>auto intro: time_ok_reading\<close>)

lemma times_descend:
  assumes "list_all time_ok L" and "sorted (map time_key L)"
  shows "sorted_wrt (\<lambda>a b. at_time loc dn b \<le> at_time loc dn a) (rev L)"
  using assms by (induction L) (auto simp: sorted_wrt_append list_all_iff intro: at_time_mono)

lemma latest_from_complete:
  assumes ok: "list_all time_ok L" and so: "sorted (map time_key L)"
  shows "due_bound loc days L upTo dn (case latest_from loc days L lower upTo (local_day loc lower) dn of None \<Rightarrow> lower | Some t \<Rightarrow> t)"
proof (induction "nat (dn - local_day loc lower + 1)" arbitrary: dn rule: less_induct)
  case less
  let ?go = "latest_from loc days L lower upTo (local_day loc lower)" and ?or = "case_option lower (\<lambda>t. t)"
  note go = latest_from.simps [of loc days L lower upTo "local_day loc lower" dn]
  have okD: "time_ok hm" if "hm \<in> set L" for hm using ok that by (simp add: list_all_iff)
  show ?case
  proof (cases "dn < local_day loc lower")
    case True
    have "at_time loc d hm \<le> lower" if "d \<le> dn" "hm \<in> set L" for d hm
      unfolding at_time_def by (rule day_before) (use that True okD time_ok_reading in auto)
    then show ?thesis using True by (simp add: go due_bound_def)
  next
    case False
    then have IH: "due_bound loc days L upTo (dn - 1) (?or (?go (dn - 1)))" by (intro less) simp
    show ?thesis
    proof (cases "Weekday dn \<in> set days")
      case no: False
      then have "?go dn = ?go (dn - 1)" using False by (simp add: go)
      then show ?thesis using IH no by - (rule due_bound_step, simp_all)
    next
      case yes: True
      note n = newest_time_complete [OF times_descend [OF ok so], where dn = dn and lower = lower and upTo = upTo]
      show ?thesis
      proof (cases "newest_time loc lower upTo dn (rev L)")
        case None
        then have "?go dn = ?go (dn - 1)" using False yes by (simp add: go)
        moreover have "upTo < at_time loc dn hm" if "hm \<in> set L" for hm using n None that by simp
        ultimately show ?thesis using IH by - (rule due_bound_step, simp_all, fastforce)
      next
        case (Some r)
        then have r: "?go dn = r" using False yes by (simp add: go)
        have top: "at_time loc dn hm \<le> ?or r" if "hm \<in> set L" "at_time loc dn hm \<le> upTo" for hm
          using n Some that by (auto split: option.splits)
        obtain hm' where hm': "hm' \<in> set L" "at_time loc dn hm' \<le> ?or r"
          using n Some newest_time_sound [of loc lower upTo dn "rev L"] by (cases r) auto
        have "at_time loc d hm \<le> at_time loc dn hm'" if "d < dn" "hm \<in> set L" for d hm
          by (rule at_time_mono) (use that okD hm' in auto)
        then have "due_bound loc days L upTo (dn - 1) (?or r)"
          using hm'(2) unfolding due_bound_def by (meson le_less_trans less_le_trans order_trans zle_diff1_eq)
        then show ?thesis unfolding r by (rule due_bound_step) (rule top)
      qed
    qed
  qed
qed

lemma latestWeekly_complete:
  assumes "weekly_at s loc u" "u \<le> upTo"
  shows "u \<le> (case latestWeekly s lower upTo loc of None \<Rightarrow> lower | Some t \<Rightarrow> t)"
proof -
  obtain d hm where u: "u = at_time loc d hm" "Weekday d \<in> set (Weekdays s)" "hm \<in> set (sortedTimes s)"
    using assms(1) by (auto simp: weekly_at_def)
  have "d \<le> local_day loc upTo"
  proof (rule ccontr)
    assume "\<not> d \<le> local_day loc upTo"
    then have "upTo < u"
      unfolding u at_time_def by (intro day_after) (use u sortedTimes_ok time_ok_reading in auto)
    then show False using assms(2) by simp
  qed
  moreover have "list_all time_ok (sortedTimes s)" using sortedTimes_ok by (auto simp: list_all_iff)
  ultimately show ?thesis
    using latest_from_complete [OF _ sortedTimes_sorted [of s], where days = "Weekdays s" and upTo = upTo and dn = "local_day loc upTo" and lower = lower] u assms(2)
    unfolding latestWeekly_def due_bound_def by blast
qed

end

section \<open>The next occurrence\<close>

lemma check_weekdays_ok: "check_weekdays seen ds = Inr () \<Longrightarrow> distinct ds \<and> set ds \<subseteq> {0..6} \<and> set ds \<inter> set seen = {}"
  by (induction seen ds rule: check_weekdays.induct) (auto simp: invalid_spec_def split: if_splits)

lemma check_times_ok:
  "check_times seen ts = Inr () \<Longrightarrow> distinct ts \<and> list_all (\<lambda>t. parseTimeOfDay t \<noteq> None) ts \<and> set ts \<inter> set seen = {}"
  by (induction seen ts rule: check_times.induct) (auto simp: invalid_spec_def split: if_splits)

lemma valid_weekly:
  assumes "spec_Validate s = Inr ()" "Kind s = KindWeekly"
  shows "Weekdays s \<noteq> [] \<and> set (Weekdays s) \<subseteq> {0..6} \<and> sortedTimes s \<noteq> []"
proof -
  have v: "Weekdays s \<noteq> []" "check_weekdays [] (Weekdays s) = Inr ()" "Times s \<noteq> []" "check_times [] (Times s) = Inr ()"
    using assms by (auto simp: spec_Validate_def invalid_spec_def split: if_splits sum.splits)
  then obtain t hm where "t \<in> set (Times s)" "parseTimeOfDay t = Some hm"
    using check_times_ok [OF v(4)] by (cases "Times s") (auto simp: list_all_iff)
  then have "hm \<in> set (sortedTimes s)" by (force simp: sortedTimes_def map_filter_def)
  then show ?thesis using v(1) check_weekdays_ok [OF v(2)] by auto
qed

lemma valid_every:
  "spec_Validate s = Inr () \<Longrightarrow> Kind s = KindEveryDays \<Longrightarrow> 1 \<le> EveryDays s \<and> EveryDays s \<le> 365"
  by (auto simp: spec_Validate_def invalid_spec_def MaxEveryDays_def split: if_splits)

lemma next_weekday:
  assumes "0 \<le> wd" "wd \<le> 6"
  shows "Weekday (n + 1 + (wd - n - 2) mod 7) = wd"
proof -
  have "Weekday (n + 1 + (wd - n - 2) mod 7) = (n + 2 + (wd - n - 2) mod 7) mod 7" by (simp add: Weekday_def algebra_simps)
  also have "\<dots> = (n + 2 + (wd - n - 2)) mod 7" by (rule mod_add_right_eq)
  also have "\<dots> = wd" using assms by simp
  finally show ?thesis .
qed

lemma next_time_complete:
  assumes "sorted_wrt (\<lambda>a b. at_time loc dn a \<le> at_time loc dn b) L"
  shows "case next_time loc from dn L of
      None \<Rightarrow> \<forall>hm \<in> set L. at_time loc dn hm \<le> from
    | Some t \<Rightarrow> from < t \<and> (\<exists>hm \<in> set L. t = at_time loc dn hm) \<and> (\<forall>hm \<in> set L. from < at_time loc dn hm \<longrightarrow> t \<le> at_time loc dn hm)"
  using assms
proof (induction L)
  case (Cons hm L)
  then show ?case by (cases "at_time loc dn hm > from") (force simp: Let_def split: option.splits)+
qed simp

definition next_bound :: "location \<Rightarrow> int list \<Rightarrow> (int \<times> int) list \<Rightarrow> time \<Rightarrow> int list \<Rightarrow> time option \<Rightarrow> bool" where
  "next_bound loc days L from dns r \<longleftrightarrow>
     (case r of
        None \<Rightarrow> \<forall>d \<in> set dns. Weekday d \<in> set days \<longrightarrow> (\<forall>hm \<in> set L. at_time loc d hm \<le> from)
      | Some t \<Rightarrow> from < t \<and> (\<exists>d \<in> set dns. Weekday d \<in> set days \<and> (\<exists>hm \<in> set L. t = at_time loc d hm))
          \<and> (\<forall>d \<in> set dns. Weekday d \<in> set days \<longrightarrow> (\<forall>hm \<in> set L. from < at_time loc d hm \<longrightarrow> t \<le> at_time loc d hm)))"

context zone_order
begin

lemma times_ascend:
  assumes "list_all time_ok L" and "sorted (map time_key L)"
  shows "sorted_wrt (\<lambda>a b. at_time loc dn a \<le> at_time loc dn b) L"
  using assms by (induction L) (auto simp: list_all_iff intro: at_time_mono)

lemma next_from_complete:
  assumes ok: "list_all time_ok L" and so: "sorted (map time_key L)"
  shows "sorted dns \<Longrightarrow> distinct dns \<Longrightarrow> next_bound loc days L from dns (next_from loc days L from dns)"
proof (induction dns)
  case (Cons dn dns)
  then have IH: "next_bound loc days L from dns (next_from loc days L from dns)" by simp
  have later: "at_time loc dn hm \<le> at_time loc d hm'" if "d \<in> set dns" "hm \<in> set L" "hm' \<in> set L" for d hm hm'
    by (rule at_time_mono) (use that Cons.prems ok in \<open>auto simp: list_all_iff less_le\<close>)
  show ?case
  proof (cases "Weekday dn \<in> set days")
    case False
    then show ?thesis using IH by (auto simp: next_bound_def split: option.splits)
  next
    case True
    note n = next_time_complete [OF times_ascend [OF ok so, of dn], of "from"]
    show ?thesis
    proof (cases "next_time loc from dn L")
      case None
      then show ?thesis using IH True n by (fastforce simp: next_bound_def split: option.splits)
    next
      case (Some t)
      then obtain hm where "hm \<in> set L" "t = at_time loc dn hm" and "from < t"
        "\<forall>hm \<in> set L. from < at_time loc dn hm \<longrightarrow> t \<le> at_time loc dn hm" using n by auto
      then show ?thesis using True Some later by (auto simp: next_bound_def)
    qed
  qed
qed (simp add: next_bound_def)

lemma nextWeekly_exact:
  assumes v: "Weekdays s \<noteq> [] \<and> set (Weekdays s) \<subseteq> {0..6} \<and> sortedTimes s \<noteq> []"
  shows "\<exists>t. nextWeekly s from loc = Some t \<and> weekly_at s loc t \<and> from < t \<and> (\<forall>u. weekly_at s loc u \<longrightarrow> from < u \<longrightarrow> t \<le> u)"
proof -
  let ?D = "local_day loc from" and ?L = "sortedTimes s" and ?days = "Weekdays s"
  let ?dns = "map (\<lambda>k. ?D + k) [0..8]"
  have ok: "list_all time_ok ?L" using sortedTimes_ok by (auto simp: list_all_iff)
  have okD: "time_ok hm" if "hm \<in> set ?L" for hm using sortedTimes_ok that by auto
  have "?dns = [?D, ?D + 1, ?D + 2, ?D + 3, ?D + 4, ?D + 5, ?D + 6, ?D + 7, ?D + 8]" by (simp add: upto_rec1)
  then have sd: "sorted ?dns" "distinct ?dns" by simp_all
  have in_dns: "d \<in> set ?dns \<longleftrightarrow> ?D \<le> d \<and> d \<le> ?D + 8" for d by (auto intro: image_eqI [of _ _ "d - ?D"])
  have bound: "next_bound loc ?days ?L from ?dns (nextWeekly s from loc)"
    unfolding nextWeekly_def by (rule next_from_complete [OF ok sortedTimes_sorted sd])
  obtain wd where wd: "wd \<in> set ?days" "0 \<le> wd" "wd \<le> 6" using v by (cases ?days) auto
  obtain hm where hm: "hm \<in> set ?L" using v by (cases ?L) auto
  define d where "d = ?D + 1 + (wd - ?D - 2) mod 7"
  have d: "Weekday d = wd" "?D < d" "d \<le> ?D + 7" using wd
    using pos_mod_sign [of 7 "wd - ?D - 2"] pos_mod_bound [of 7 "wd - ?D - 2"] by (simp_all add: next_weekday d_def)
  have after: "from < at_time loc d hm" unfolding at_time_def by (rule day_after) (use okD hm d time_ok_reading in auto)
  obtain t where t: "nextWeekly s from loc = Some t"
    using bound after d wd hm in_dns by (fastforce simp: next_bound_def split: option.splits)
  then have t_le: "t \<le> at_time loc d hm" using bound after d wd hm in_dns by (auto simp: next_bound_def)
  have "t \<le> u" if u: "weekly_at s loc u" "from < u" for u
  proof -
    obtain e hm' where e: "Weekday e \<in> set ?days" "hm' \<in> set ?L" "u = at_time loc e hm'" using u by (auto simp: weekly_at_def)
    consider "e < ?D" | "?D \<le> e \<and> e \<le> ?D + 8" | "e > ?D + 8" by linarith
    then show ?thesis
    proof cases
      case 1
      then have "u \<le> from" unfolding e at_time_def by (intro day_before) (use okD e time_ok_reading in auto)
      then show ?thesis using u by simp
    next
      case 2
      then show ?thesis using bound t e u in_dns by (auto simp: next_bound_def)
    next
      case 3
      have "at_time loc d hm \<le> u" unfolding e by (rule at_time_mono) (use okD hm e d 3 in auto)
      then show ?thesis using t_le by simp
    qed
  qed
  moreover have "weekly_at s loc t \<and> from < t" using bound t by (auto simp: next_bound_def weekly_at_def)
  ultimately show ?thesis using t by blast
qed

end

section \<open>Every so many days\<close>

lemma next_k_complete:
  assumes "sorted_wrt (\<lambda>j k. everyDaysAt s anchor j loc \<le> everyDaysAt s anchor k loc) ks"
  shows "case next_k s anchor after loc ks of
      None \<Rightarrow> \<forall>k \<in> set ks. everyDaysAt s anchor k loc \<le> after
    | Some t \<Rightarrow> after < t \<and> (\<exists>k \<in> set ks. t = everyDaysAt s anchor k loc)
        \<and> (\<forall>k \<in> set ks. after < everyDaysAt s anchor k loc \<longrightarrow> t \<le> everyDaysAt s anchor k loc)"
  using assms
proof (induction ks)
  case (Cons k ks)
  then show ?case by (cases "everyDaysAt s anchor k loc > after") (force simp: Let_def split: option.splits)+
qed simp

lemma div_between:
  fixes x P :: int
  assumes "0 < P"
  shows "x div P * P \<le> x" and "x < (x div P + 1) * P"
proof -
  have "x div P * P + x mod P = x" "0 \<le> x mod P" "x mod P < P" using assms by simp_all
  moreover have "(x div P + 1) * P = x div P * P + P" by (simp add: algebra_simps)
  ultimately show "x div P * P \<le> x" and "x < (x div P + 1) * P" by linarith+
qed

lemma estimate_bounds:
  assumes "1 \<le> EveryDays s" "anchor \<le> t" "t - anchor < 2 ^ 63"
  shows "estimate s t anchor * (EveryDays s * day_ns) \<le> t - anchor"
    and "t - anchor < (estimate s t anchor + 1) * (EveryDays s * day_ns)" and "0 \<le> estimate s t anchor"
proof -
  have p: "0 < EveryDays s * day_ns" using assms by simp
  have e: "estimate s t anchor = (t - anchor) div (EveryDays s * day_ns)"
    using assms by (simp add: estimate_def Sub_def mult.commute)
  show "estimate s t anchor * (EveryDays s * day_ns) \<le> t - anchor"
    and "t - anchor < (estimate s t anchor + 1) * (EveryDays s * day_ns)"
    unfolding e by (rule div_between [OF p])+
  show "0 \<le> estimate s t anchor" unfolding e using assms p by (simp add: pos_imp_zdiv_nonneg_iff)
qed

context zone_order
begin

lemma everyDaysAt_near:
  assumes "k \<noteq> 0"
  shows "everyDaysAt s anchor k loc \<le> anchor + k * (EveryDays s * day_ns) + 22 * hour"
    and "anchor + k * (EveryDays s * day_ns) - 23 * hour < everyDaysAt s anchor k loc"
proof -
  let ?dn = "local_day loc anchor + k * EveryDays s" and ?clk = "local_clock loc anchor"
  have "?dn * 86400 + ?clk - loc_offset loc (sec_of anchor) = sec_of anchor + k * EveryDays s * 86400"
    using div_mult_mod_eq [of "local_secs loc anchor" 86400]
    by (simp add: local_day_def local_clock_def local_secs_def algebra_simps)
  then have "\<bar>everyDaysAt s anchor k loc - (sec_of anchor + k * EveryDays s * 86400) * second\<bar> \<le> 22 * hour"
    using wallClock_near [OF steady, of ?dn ?clk "sec_of anchor"] assms by (simp add: everyDaysAt_def)
  moreover have "0 \<le> anchor - sec_of anchor * second" "anchor - sec_of anchor * second < second"
    by (simp_all add: sec_of_def minus_div_mult_eq_mod)
  ultimately show "everyDaysAt s anchor k loc \<le> anchor + k * (EveryDays s * day_ns) + 22 * hour"
    and "anchor + k * (EveryDays s * day_ns) - 23 * hour < everyDaysAt s anchor k loc"
    by (simp_all add: algebra_simps abs_le_iff)
qed

lemma reading_clock: "reading (local_clock loc t)"
  by (simp add: reading_def local_clock_def)

lemma everyDaysAt_mono:
  assumes "1 \<le> EveryDays s" "0 \<le> j" "j \<le> k"
  shows "everyDaysAt s anchor j loc \<le> everyDaysAt s anchor k loc"
proof (cases "j = 0")
  case True
  have "anchor < wallClock loc (local_day loc anchor + k * EveryDays s) (local_clock loc anchor)" if "0 < k"
    by (rule day_after [OF reading_clock]) (use that assms in simp)
  then show ?thesis using True assms by (auto simp: everyDaysAt_def)
next
  case False
  have "j * EveryDays s \<le> k * EveryDays s" using assms by (intro mult_right_mono) auto
  then show ?thesis using False assms
    by (auto simp: everyDaysAt_def intro!: mono reading_clock)
qed

lemma estimate_side:
  assumes n: "1 \<le> EveryDays s" and t: "anchor \<le> t" "t - anchor < 2 ^ 63"
  defines "e \<equiv> estimate s t anchor"
  shows "t < everyDaysAt s anchor (e + 2) loc" and "0 \<le> e" and "0 \<le> k \<Longrightarrow> k \<le> e - 1 \<Longrightarrow> everyDaysAt s anchor k loc \<le> t"
proof -
  note b = estimate_bounds [OF n t, folded e_def]
  define P where "P = EveryDays s * day_ns"
  have p: "day_ns \<le> P" unfolding P_def using n by simp
  note b = b [folded P_def] and near = everyDaysAt_near [where s = s and anchor = anchor, folded P_def]
  show "0 \<le> e" by (rule b)
  have "(e + 2) * P = (e + 1) * P + P" by (simp add: algebra_simps)
  then show "t < everyDaysAt s anchor (e + 2) loc" using near(2) [of "e + 2"] b p by linarith
  have "everyDaysAt s anchor (e - 1) loc \<le> t" if "0 \<le> e - 1"
  proof (cases "e - 1 = 0")
    case True
    then show ?thesis using t by (simp add: everyDaysAt_def)
  next
    case False
    have "e * P = (e - 1) * P + P" by (simp add: algebra_simps)
    then show ?thesis using near(1) [OF False] b p by linarith
  qed
  then show "everyDaysAt s anchor k loc \<le> t" if "0 \<le> k" "k \<le> e - 1"
    using everyDaysAt_mono [OF n that, of anchor] that by simp
qed

lemma latestEveryDays_complete:
  assumes n: "1 \<le> EveryDays s" and t: "upTo - anchor < 2 ^ 63" and u: "every_at s anchor loc u" "u \<le> upTo"
  shows "u \<le> (case latestEveryDays s anchor after upTo loc of None \<Rightarrow> after | Some t \<Rightarrow> t)"
proof -
  let ?at = "\<lambda>k. everyDaysAt s anchor k loc" and ?e = "estimate s upTo anchor"
  obtain k where k: "0 \<le> k" "u = ?at k" using u by (auto simp: every_at_def)
  have "anchor \<le> u" using everyDaysAt_mono [OF n, of 0 k anchor] k by (simp add: everyDaysAt_def)
  then have a: "anchor \<le> upTo" using u by simp
  note side = estimate_side [OF n a t]
  have "k \<le> ?e + 1"
  proof (rule ccontr)
    assume "\<not> k \<le> ?e + 1"
    then have "?at (?e + 2) \<le> ?at k" using everyDaysAt_mono [OF n, of "?e + 2" k anchor] side(2) by simp
    then show False using side(1) k u by simp
  qed
  then consider "k \<le> ?e + 1 \<and> ?at (?e + 1) \<le> upTo" | "k \<le> ?e \<and> upTo < ?at (?e + 1) \<and> ?at ?e \<le> upTo"
    | "k \<le> ?e - 1 \<and> upTo < ?at (?e + 1) \<and> upTo < ?at ?e"
    using k u by (metis add_le_cancel_right diff_add_cancel linorder_not_le order_le_less zle_add1_eq_le zless_imp_add1_zle zle_diff1_eq)
  then show ?thesis
  proof cases
    case 1
    then show ?thesis using a k side(2) everyDaysAt_mono [OF n, of k "?e + 1" anchor] by (simp add: latestEveryDays_def Let_def)
  next
    case 2
    then show ?thesis using a k side(2) everyDaysAt_mono [OF n, of k ?e anchor] by (simp add: latestEveryDays_def Let_def)
  next
    case 3
    then show ?thesis using a k side(2) side(3) [of "?e - 1"] everyDaysAt_mono [OF n, of k "?e - 1" anchor]
      by (simp add: latestEveryDays_def Let_def)
  qed
qed

lemma nextEveryDays_exact:
  assumes n: "1 \<le> EveryDays s" and t: "after - anchor < 2 ^ 63"
  shows "\<exists>t. nextEveryDays s anchor after loc = Some t \<and> every_at s anchor loc t \<and> after < t
    \<and> (\<forall>u. every_at s anchor loc u \<longrightarrow> after < u \<longrightarrow> t \<le> u)"
proof (cases "after < anchor")
  case True
  have "anchor \<le> u" if "every_at s anchor loc u" for u
    using everyDaysAt_mono [OF n, of 0 _ anchor] that by (auto simp: every_at_def everyDaysAt_def)
  moreover have "every_at s anchor loc anchor" unfolding every_at_def by (rule exI [of _ 0]) (simp add: everyDaysAt_def)
  ultimately show ?thesis using True by (simp add: nextEveryDays_def)
next
  case False
  then have a: "anchor \<le> after" by simp
  let ?at = "\<lambda>k. everyDaysAt s anchor k loc" and ?e = "estimate s after anchor"
  let ?ks = "[max (?e - 2) 0..?e + 3]"
  note side = estimate_side [OF n a t]
  have "sorted_wrt (\<lambda>j k. ?at j \<le> ?at k) ?ks"
    by (rule sorted_wrt_mono_rel [OF _ sorted_wrt_upto]) (auto intro!: everyDaysAt_mono n)
  note c = next_k_complete [OF this, of after]
  have e2: "?e + 2 \<in> set ?ks" using side(2) by simp
  have "next_k s anchor after loc ?ks \<noteq> None"
  proof
    assume "next_k s anchor after loc ?ks = None"
    then have "\<forall>k \<in> set ?ks. ?at k \<le> after" using c by (simp only: option.simps)
    from bspec [OF this e2] show False using side(1) by simp
  qed
  then obtain t where r: "next_k s anchor after loc ?ks = Some t" by blast
  with c have t: "after < t" "\<exists>k \<in> set ?ks. t = ?at k" "\<forall>k \<in> set ?ks. after < ?at k \<longrightarrow> t \<le> ?at k" by auto
  have "t \<le> ?at k" if k: "0 \<le> k" "after < ?at k" for k
  proof -
    have "k \<le> ?e - 1 \<or> k \<in> set ?ks \<or> ?e + 3 < k" using k by (auto simp: max_def)
    then consider "k \<le> ?e - 1" | "k \<in> set ?ks" | "?e + 3 < k" by blast
    then show ?thesis
    proof cases
      case 1
      then show ?thesis using side(3) [of k] k by simp
    next
      case 2
      then show ?thesis using t k by blast
    next
      case 3
      then have "?at (?e + 2) \<le> ?at k" using everyDaysAt_mono [OF n, of "?e + 2" k anchor] side(2) by simp
      then show ?thesis using t(3) e2 side(1) by force
    qed
  qed
  moreover have "every_at s anchor loc t" using t(2) by (auto simp: every_at_def)
  ultimately show ?thesis using t(1) r False by (auto simp: nextEveryDays_def Let_def every_at_def)
qed

end

context zone_order
begin

lemma Latest_exact:
  assumes v: "spec_Validate s = Inr ()" and a: "anchor \<noteq> 0" and far: "upTo - anchor < 2 ^ 63"
  shows "case Latest s anchor after upTo loc of
      Some t \<Rightarrow> occurs s anchor loc t \<and> after < t \<and> t \<le> upTo \<and> (\<forall>u. occurs s anchor loc u \<longrightarrow> u \<le> upTo \<longrightarrow> u \<le> t)
    | None \<Rightarrow> \<not> (\<exists>t. occurs s anchor loc t \<and> after < t \<and> t \<le> upTo)"
proof -
  have "u \<le> (case Latest s anchor after upTo loc of None \<Rightarrow> after | Some t \<Rightarrow> t)"
    if "occurs s anchor loc u" "u \<le> upTo" "after < u" for u
    using valid_kind [OF v]
  proof
    assume k: "Kind s = KindWeekly"
    let ?lower = "if anchor > after then anchor else after"
    have "u \<le> (case latestWeekly s ?lower upTo loc of None \<Rightarrow> ?lower | Some t \<Rightarrow> t)"
      by (rule latestWeekly_complete) (use that k in \<open>simp_all add: occurs_def\<close>)
    then show ?thesis using that v a k by (auto simp: Latest_def IsZero_def occurs_def split: option.splits if_splits)
  next
    assume k: "Kind s = KindEveryDays"
    then have "1 \<le> EveryDays s" using valid_every [OF v] by simp
    from latestEveryDays_complete [OF this far] that k show ?thesis
      using v a by (auto simp: Latest_def IsZero_def occurs_def)
  qed
  then show ?thesis using Latest_sound [of s anchor after upTo loc] by (fastforce split: option.splits)
qed

lemma Next_exact:
  assumes v: "spec_Validate s = Inr ()" and a: "anchor \<noteq> 0" and far: "after - anchor < 2 ^ 63"
  shows "\<exists>t. Next s anchor after loc = Some t \<and> occurs s anchor loc t \<and> after < t
    \<and> (\<forall>u. occurs s anchor loc u \<longrightarrow> after < u \<longrightarrow> t \<le> u)"
  using valid_kind [OF v]
proof
  assume k: "Kind s = KindWeekly"
  from nextWeekly_exact [OF valid_weekly [OF v k], of "if anchor > after then anchor else after"]
  show ?thesis using v a k by (auto simp: Next_def IsZero_def occurs_def split: if_splits)
next
  assume k: "Kind s = KindEveryDays"
  then have "1 \<le> EveryDays s" using valid_every [OF v] by simp
  from nextEveryDays_exact [OF this far] show ?thesis using v a k by (auto simp: Next_def IsZero_def occurs_def)
qed

end

section \<open>Zones without a change and with one\<close>

lemma sec_of_mult [simp]: "sec_of (s * second) = s"
  by (simp add: sec_of_def)

lemma less_mult_second: "t < s * second \<longleftrightarrow> sec_of t < s"
  using div_mult_mod_eq [of t second] pos_mod_bound [of second t] pos_mod_sign [of second t] by (auto simp: sec_of_def)

lemma reading_mod: "reading clk \<Longrightarrow> (dn * 86400 + clk) mod 86400 = clk"
  by (simp add: reading_def)

lemma day_bounds:
  fixes x :: int
  shows "x div 86400 < dn \<Longrightarrow> x < dn * 86400" and "dn < x div 86400 \<Longrightarrow> (dn + 1) * 86400 \<le> x"
proof -
  define q r where "q = x div 86400" and "r = x mod 86400"
  have x: "x = q * 86400 + r" "0 \<le> r" "r < 86400" by (simp_all add: q_def r_def)
  show "x < dn * 86400" if "x div 86400 < dn"
    using that x unfolding q_def [symmetric] by linarith
  show "(dn + 1) * 86400 \<le> x" if "dn < x div 86400"
  proof -
    have "dn + 1 \<le> q" using that unfolding q_def by simp
    then have "(dn + 1) * 86400 \<le> q * 86400" by (rule mult_right_mono) simp
    then show ?thesis using x by linarith
  qed
qed

lemma fixed_zone_secs: "local_secs (fixed_zone off) t = sec_of t + off"
  by (simp add: local_secs_def loc_offset_def fixed_zone_def)

lemma wallClock_fixed:
  assumes "reading clk"
  shows "wallClock (fixed_zone off) dn clk = (dn * 86400 + clk - off) * second"
proof -
  have t: "Date dn clk (fixed_zone off) = (dn * 86400 + clk - off) * second"
    by (simp add: Date_def Date_secs_def fixed_zone_def loc_offset_def Let_def)
  have "local_clock (fixed_zone off) ((dn * 86400 + clk - off) * second) = clk"
    unfolding local_clock_def fixed_zone_secs sec_of_mult using reading_mod [OF assms, of dn] by simp
  then show ?thesis unfolding wallClock_def t Let_def by simp
qed

interpretation fixed_zone: zone_order "fixed_zone off" for off
proof
  show "wallClock (fixed_zone off) dn c \<le> wallClock (fixed_zone off) dn' c'"
    if "reading c" "reading c'" "dn * 86400 + c \<le> dn' * 86400 + c'" for dn c dn' c'
    using that by (simp add: wallClock_fixed)
  show "t < wallClock (fixed_zone off) dn c" if "reading c" "local_day (fixed_zone off) t < dn" for t dn c
    using that day_bounds(1) [of "sec_of t + off" dn]
    unfolding local_day_def fixed_zone_secs wallClock_fixed [OF that(1)] less_mult_second by (simp add: reading_def)
  show "wallClock (fixed_zone off) dn c \<le> t" if "reading c" "dn < local_day (fixed_zone off) t" for t dn c
    using that day_bounds(2) [of dn "sec_of t + off"]
    unfolding local_day_def fixed_zone_secs wallClock_fixed [OF that(1)] not_less [symmetric] less_mult_second
    by (simp add: reading_def)
  show "steady_offsets (fixed_zone off)"
    by (simp add: steady_offsets_def loc_offset_def fixed_zone_def)
qed

text \<open>The offset \<open>a\<close> until second \<open>T\<close> and \<open>b\<close> from then on: one daylight saving change.\<close>

definition one_change :: "int \<Rightarrow> int \<Rightarrow> int \<Rightarrow> location" where
  "one_change a b T = (\<lambda>s. if s < T then (a, - (2 ^ 63), T) else (b, T, 2 ^ 63 - 1))"

text \<open>
  The changes the code is written for: on a whole minute, by at most three hours, and with no local midnight
  strictly inside a repeated stretch of the clock.
\<close>

definition dst_change :: "int \<Rightarrow> int \<Rightarrow> int \<Rightarrow> bool" where
  "dst_change a b T \<longleftrightarrow> T mod 60 = 0 \<and> \<bar>b - a\<bar> \<le> 3 * 3600 \<and> \<bar>T\<bar> < 2 ^ 62
     \<and> (T + a - 1) div 86400 * 86400 \<le> T + b"

definition in_gap :: "int \<Rightarrow> int \<Rightarrow> int \<Rightarrow> int \<Rightarrow> bool" where
  "in_gap a b T x \<longleftrightarrow> T + a \<le> x \<and> x < T + b"

lemma one_change_secs: "local_secs (one_change a b T) t = (if sec_of t < T then sec_of t + a else sec_of t + b)"
  by (simp add: local_secs_def loc_offset_def one_change_def)

lemma Date_secs_one_change:
  assumes "dst_change a b T"
  shows "Date_secs (one_change a b T) x =
    (if x < T then (if x - a < T then x - a else x - b) else (if x - b < T then x - a else x - b))"
  using assms by (auto simp: Date_secs_def one_change_def loc_offset_def dst_change_def Let_def)

lemma probe_finds:
  assumes "p \<le> u" "u < limit" "(u - p) mod minute = 0" "\<And>q. q < u \<Longrightarrow> local_secs loc q < x" "x \<le> local_secs loc u"
  shows "probe loc x limit p = Some u"
  using assms
proof (induction loc x limit p rule: probe.induct)
  case (1 loc x limit p)
  show ?case
  proof (cases "p = u")
    case True
    then show ?thesis using "1.prems" by (subst probe.simps) simp
  next
    case False
    then have p: "p < u" using "1.prems" by simp
    have dvd: "minute dvd u - p" using "1.prems"(3) by (simp add: mod_eq_0_iff_dvd)
    from dvd have step: "p + minute \<le> u" using zdvd_imp_le [of minute "u - p"] p by simp
    have "local_secs loc p < x" using "1.prems"(4) p by simp
    moreover have "(u - (p + minute)) mod minute = 0" 
      using dvd_diff [OF dvd dvd_refl] by (simp only: mod_eq_0_iff_dvd diff_diff_eq)
    ultimately have "probe loc x limit (p + minute) = Some u"
      using "1.prems" p step by (intro "1.IH") (simp_all only: not_le)
    then show ?thesis using \<open>local_secs loc p < x\<close> "1.prems"(2) p by (subst probe.simps) simp
  qed
qed

lemma wallClock_one_change:
  fixes dn
  assumes c: "dst_change a b T" and r: "reading clk"
  defines "x \<equiv> dn * 86400 + clk"
  shows "wallClock (one_change a b T) dn clk =
    (if in_gap a b T x then T else Date_secs (one_change a b T) x) * second"
proof -
  let ?loc = "one_change a b T"
  define u where "u = Date_secs ?loc x"
  have t: "Date dn clk ?loc = u * second" by (simp add: Date_def u_def x_def)
  have rd: "local_secs ?loc (u * second) = (if u < T then u + a else u + b)" by (simp add: one_change_secs)
  note u = u_def [unfolded Date_secs_one_change [OF c]]
  have clk: "x mod 86400 = clk" unfolding x_def by (rule reading_mod [OF r])
  show ?thesis
  proof (cases "in_gap a b T x")
    case False
    then have "local_secs ?loc (u * second) = x" using u unfolding rd in_gap_def by (auto split: if_splits)
    then show ?thesis using False clk by (simp add: wallClock_def t local_clock_def u_def)
  next
    case True
    have d: "0 < b - a" "b - a \<le> 10800" using True c by (auto simp: in_gap_def dst_change_def)
    have near: "T - 10800 \<le> u" "u \<le> T + 10800" using u True d unfolding in_gap_def by (auto split: if_splits)
    have off: "local_secs ?loc (u * second) = x - (b - a) \<or> local_secs ?loc (u * second) = x + (b - a)"
      using u True unfolding rd in_gap_def by (auto split: if_splits)
    have "local_clock ?loc (u * second) \<noteq> clk"
    proof
      assume "local_clock ?loc (u * second) = clk"
      then have "86400 dvd local_secs ?loc (u * second) - x" using clk unfolding local_clock_def by (metis mod_eq_dvd_iff)
      then have "86400 dvd b - a" using off by (auto simp: dvd_diff_commute)
      then show False using d zdvd_imp_le [of 86400 "b - a"] by simp
    qed
    moreover have "probe ?loc x (u * second + 6 * hour) (Truncate minute (u * second - 3 * hour)) = Some (T * second)"
    proof (rule probe_finds)
      let ?p = "Truncate minute (u * second - 3 * hour)"
      show "?p \<le> T * second" using near pos_mod_sign [of minute "u * second - 3 * hour"] by (simp add: Truncate_def)
      show "T * second < u * second + 6 * hour" using near by simp
      have "minute dvd T * second" using c by (auto simp: dst_change_def mod_eq_0_iff_dvd dvd_def)
      moreover have "minute dvd ?p" by (simp add: Truncate_def dvd_minus_mod)
      ultimately show "(T * second - ?p) mod minute = 0" by (simp add: mod_eq_0_iff_dvd)
      show "local_secs ?loc q < x" if "q < T * second" for q
        using that True by (auto simp: one_change_secs less_mult_second in_gap_def)
      show "x \<le> local_secs ?loc (T * second)" using True by (simp add: one_change_secs in_gap_def)
    qed
    ultimately show ?thesis using True by (simp add: wallClock_def t x_def)
  qed
qed

lemma no_midnight_inside:
  assumes "dst_change a b T" "D * 86400 < T + a"
  shows "D * 86400 \<le> T + b"
proof -
  have "D \<le> (T + a - 1) div 86400" using assms(2) by (simp add: zdiv_mono1 [of "D * 86400" "T + a - 1" 86400, simplified])
  then show ?thesis using assms(1) by (simp add: dst_change_def)
qed

lemma one_change_zone_order:
  assumes c: "dst_change a b T"
  shows "zone_order (one_change a b T)"
proof
  let ?loc = "one_change a b T"
  note wc = wallClock_one_change [OF c] Date_secs_one_change [OF c] in_gap_def
  show "wallClock ?loc dn p \<le> wallClock ?loc dn' p'"
    if "reading p" "reading p'" "dn * 86400 + p \<le> dn' * 86400 + p'" for dn p dn' p'
    using that by (auto simp: wc)
  show "t < wallClock ?loc dn p" if p: "reading p" and d: "local_day ?loc t < dn" for t dn p
  proof -
    have "(if sec_of t < T then sec_of t + a else sec_of t + b) < dn * 86400"
      using day_bounds(1) [OF d [unfolded local_day_def]] by (simp add: one_change_secs)
    moreover have "0 \<le> p" using p by (simp add: reading_def)
    ultimately show ?thesis using no_midnight_inside [OF c, of dn] by (auto simp: wc p less_mult_second split: if_splits)
  qed
  show "wallClock ?loc dn p \<le> t" if p: "reading p" and d: "dn < local_day ?loc t" for t dn p
  proof -
    have "(dn + 1) * 86400 \<le> (if sec_of t < T then sec_of t + a else sec_of t + b)"
      using day_bounds(2) [OF d [unfolded local_day_def]] by (simp add: one_change_secs)
    moreover have "p < 86400" using p by (simp add: reading_def)
    moreover have "wallClock ?loc dn p \<le> t \<longleftrightarrow> (if in_gap a b T (dn * 86400 + p) then T else Date_secs ?loc (dn * 86400 + p)) \<le> sec_of t"
      using less_mult_second [of t] unfolding wallClock_one_change [OF c p] by (simp add: not_less [symmetric])
    ultimately show ?thesis using no_midnight_inside [OF c, of "dn + 1"]
      by (auto simp: Date_secs_one_change [OF c] in_gap_def split: if_splits)
  qed
  show "steady_offsets ?loc" using c by (auto simp: steady_offsets_def loc_offset_def one_change_def dst_change_def)
qed

section \<open>What the schedule promises\<close>

text \<open>
  C9. In every zone whose wall clock keeps its order, a valid schedule's \<^verbatim>\<open>Latest\<close> is exactly the most
  recent occurrence after \<open>after\<close> and no later than \<open>upTo\<close>: what it returns is an occurrence in that range and
  no due occurrence is later; when it returns nothing there is none. The span from the anchor must fit a
  64-bit duration (292 years).
\<close>

theorem latest_exact:
  assumes "zone_order loc" and "spec_Validate s = Inr ()" and "anchor \<noteq> 0" and "upTo - anchor < 2 ^ 63"
  shows "case Latest s anchor after upTo loc of
      Some t \<Rightarrow> occurs s anchor loc t \<and> after < t \<and> t \<le> upTo \<and> (\<forall>u. occurs s anchor loc u \<longrightarrow> u \<le> upTo \<longrightarrow> u \<le> t)
    | None \<Rightarrow> \<not> (\<exists>t. occurs s anchor loc t \<and> after < t \<and> t \<le> upTo)"
  using assms by (rule zone_order.Latest_exact)

text \<open>Mondays and Thursdays at 02:30 and 14:00, saved on day 739700.\<close>

definition sample_spec :: spec where
  "sample_spec = \<lparr>Kind = KindWeekly, Weekdays = [4, 1], Times = [''14:00'', ''02:30''], EveryDays = 0\<rparr>"

definition on_day :: "int \<Rightarrow> int \<Rightarrow> time" where
  "on_day dn clk = (dn * 86400 + clk) * second"

theorem latest_exact_witness:
  "occurs sample_spec (on_day 739700 0) UTC (on_day 739707 50400)
   \<and> \<not> (\<exists>u. occurs sample_spec (on_day 739700 0) UTC u \<and> on_day 739707 50400 < u \<and> u \<le> on_day 739710 0)"
proof -
  have l: "Latest sample_spec (on_day 739700 0) 0 (on_day 739710 0) UTC = Some (on_day 739707 50400)" by code_simp
  have v: "spec_Validate sample_spec = Inr ()" by code_simp
  show ?thesis using latest_exact [OF fixed_zone.zone_order_axioms v, of "on_day 739700 0" "on_day 739710 0" 0 0] l
    by (auto simp: on_day_def not_le [symmetric])
qed



text \<open>
  Across a daylight saving change the wall clock is right: a reading that exists is read back exactly, a
  reading that is skipped is the first instant after the gap, and the order the searches rely on holds.
\<close>

theorem wall_clock_across_change:
  assumes "dst_change a b T" and "reading clk"
  shows "(if in_gap a b T (dn * 86400 + clk) then wallClock (one_change a b T) dn clk = T * second
          else local_secs (one_change a b T) (wallClock (one_change a b T) dn clk) = dn * 86400 + clk)
     \<and> zone_order (one_change a b T)"
  using one_change_zone_order [OF assms(1)] Date_secs_one_change [OF assms(1)]
  by (auto simp: wallClock_one_change [OF assms] one_change_secs in_gap_def)

text \<open>Berlin on 29 March and 25 October 2026.\<close>

definition berlin_spring :: location where
  "berlin_spring = one_change 3600 7200 (739703 * 86400 + 3600)"

definition berlin_autumn :: location where
  "berlin_autumn = one_change 7200 3600 (739913 * 86400 + 3600)"

theorem wall_clock_across_change_witness:
  "wallClock berlin_spring 739703 (hms 2 30 0) = (739703 * 86400 + 3600) * second"
proof -
  have "dst_change 3600 7200 (739703 * 86400 + 3600)" and "reading (hms 2 30 0)"
    and "in_gap 3600 7200 (739703 * 86400 + 3600) (739703 * 86400 + hms 2 30 0)" by code_simp+
  from wall_clock_across_change [OF this(1,2), of 739703] this(3) show ?thesis unfolding berlin_spring_def by simp
qed

text \<open>
  A reading that happens twice is the later instant in zones east of Greenwich: in Berlin 02:30 on the
  day daylight saving ends is the second one, although the clock read the same an hour before.
\<close>

theorem repeated_hour_is_later:
  "local_secs berlin_autumn (wallClock berlin_autumn 739913 (hms 2 30 0)) = 739913 * 86400 + hms 2 30 0
   \<and> local_secs berlin_autumn (wallClock berlin_autumn 739913 (hms 2 30 0) - hour) = 739913 * 86400 + hms 2 30 0"
  by code_simp

section \<open>Normal form\<close>

lemma sortedTimes_Normalized: "sortedTimes (Normalized s) = sortedTimes s"
proof -
  let ?f = "\<lambda>(h, m). 60 * h + m :: int" and ?m = "List.map_filter parseTimeOfDay"
  have key: "?f = time_key" by (auto simp: time_key_def)
  have eq: "mset (?m ts) = mset (?m us)" if "mset ts = mset us" for ts us
    using that by (simp add: map_filter_def mset_filter)
  have inj: "inj_on time_key (set (?m ts))" for ts
  proof (rule inj_onI)
    fix p q assume "p \<in> set (?m ts)" "q \<in> set (?m ts)" and k: "time_key p = time_key q"
    then have "time_ok p" "time_ok q" by (auto simp: map_filter_def intro: parseTimeOfDay_ok)
    then have "fst p = time_key p div 60" "snd p = time_key p mod 60" "fst q = time_key q div 60" "snd q = time_key q mod 60"
      by (simp_all add: time_key_def time_ok_def)
    then show "p = q" using k by (simp add: prod_eq_iff)
  qed
  have "sort_key time_key (?m (sort (Times s))) = sort_key time_key (?m (Times s))"
    by (rule sort_key_inj_key_eq) (use inj eq [of "sort (Times s)" "Times s"] in simp_all)
  then show ?thesis by (simp add: sortedTimes_def Normalized_def key)
qed

lemma sort_Nil_iff: "sort xs = [] \<longleftrightarrow> xs = []"
  by (metis length_0_conv length_sort)

lemma check_weekdays_iff: "check_weekdays seen ds = Inr () \<longleftrightarrow> distinct ds \<and> set ds \<subseteq> {0..6} \<and> set ds \<inter> set seen = {}"
  by (induction seen ds rule: check_weekdays.induct) (auto simp: invalid_spec_def)

lemma check_times_iff:
  "check_times seen ts = Inr () \<longleftrightarrow> distinct ts \<and> list_all (\<lambda>t. parseTimeOfDay t \<noteq> None) ts \<and> set ts \<inter> set seen = {}"
  by (induction seen ts rule: check_times.induct) (auto simp: invalid_spec_def)

lemma Validate_iff:
  "spec_Validate s = Inr () \<longleftrightarrow>
     (case Kind s of
        KindWeekly \<Rightarrow> EveryDays s = 0 \<and> Weekdays s \<noteq> [] \<and> distinct (Weekdays s) \<and> set (Weekdays s) \<subseteq> {0..6}
          \<and> Times s \<noteq> [] \<and> length (Times s) \<le> 24 \<and> distinct (Times s) \<and> (\<forall>t \<in> set (Times s). parseTimeOfDay t \<noteq> None)
      | KindEveryDays \<Rightarrow> Weekdays s = [] \<and> Times s = [] \<and> 1 \<le> EveryDays s \<and> EveryDays s \<le> 365
      | KindOther _ \<Rightarrow> False)"
proof (cases "Kind s")
  case KindWeekly
  then show ?thesis using check_weekdays_iff [of "[]" "Weekdays s"] check_times_iff [of "[]" "Times s"]
    by (cases "check_weekdays [] (Weekdays s)") (auto simp: spec_Validate_def invalid_spec_def MaxTimesPerDay_def list_all_iff)
qed (auto simp: spec_Validate_def invalid_spec_def MaxEveryDays_def)

text \<open>
  Normalizing keeps a schedule's meaning: it is valid exactly when the original is, has the same latest
  and next occurrences in every zone, and two schedules that list the same days and times in another order
  have the same normal form.
\<close>

theorem normalized_same_schedule:
  "(spec_Validate (Normalized s) = Inr () \<longleftrightarrow> spec_Validate s = Inr ())
   \<and> Latest (Normalized s) = Latest s \<and> Next (Normalized s) = Next s
   \<and> (mset (Weekdays s) = mset (Weekdays s') \<and> mset (Times s) = mset (Times s') \<and> Kind s = Kind s' \<and> EveryDays s = EveryDays s'
      \<longrightarrow> Normalized s = Normalized s')"
proof -
  have kind: "Kind (Normalized s) = Kind s" "EveryDays (Normalized s) = EveryDays s"
    "set (Weekdays (Normalized s)) = set (Weekdays s)" by (simp_all add: Normalized_def)
  have valid: "spec_Validate (Normalized s) = Inr () \<longleftrightarrow> spec_Validate s = Inr ()"
    unfolding Validate_iff by (simp add: Normalized_def sort_Nil_iff split: kind.split)
  have lf: "latest_from loc ds ts lower upTo flr dn = latest_from loc ds' ts lower upTo flr dn" if "set ds = set ds'" for loc ds ds' ts lower upTo flr dn
    using that by (induction loc ds ts lower upTo flr dn rule: latest_from.induct) (subst (1 2) latest_from.simps, auto split: option.splits)
  have nf: "next_from loc ds ts t dns = next_from loc ds' ts t dns" if "set ds = set ds'" for loc ds ds' ts t dns
    using that by (induction dns) (auto split: option.splits)
  have every: "everyDaysAt (Normalized s) = everyDaysAt s" "estimate (Normalized s) = estimate s"
    by (simp_all add: fun_eq_iff everyDaysAt_def estimate_def kind)
  have lk: "latest_k (Normalized s) anchor after upTo loc ks = latest_k s anchor after upTo loc ks" for anchor after upTo loc ks
    by (induction ks) (simp_all add: every Let_def)
  have nk: "next_k (Normalized s) anchor after loc ks = next_k s anchor after loc ks" for anchor after loc ks
    by (induction ks) (simp_all add: every Let_def)
  have "latestWeekly (Normalized s) lower upTo loc = latestWeekly s lower upTo loc" for lower upTo loc
    unfolding latestWeekly_def sortedTimes_Normalized by (rule lf [OF kind(3)])
  moreover have "latestEveryDays (Normalized s) anchor after upTo loc = latestEveryDays s anchor after upTo loc" for anchor after upTo loc
    unfolding latestEveryDays_def every lk ..
  ultimately have "Latest (Normalized s) = Latest s" by (simp add: fun_eq_iff Latest_def valid kind split: kind.split)
  moreover have "nextWeekly (Normalized s) t loc = nextWeekly s t loc" for t loc
    unfolding nextWeekly_def sortedTimes_Normalized by (rule nf [OF kind(3)])
  then have "Next (Normalized s) = Next s"
    by (simp add: fun_eq_iff Next_def valid kind nextEveryDays_def every nk split: kind.split)
  moreover have "Normalized s = Normalized s'" if "mset (Weekdays s) = mset (Weekdays s')" "mset (Times s) = mset (Times s')"
    "Kind s = Kind s'" "EveryDays s = EveryDays s'"
  proof -
    have "sort (Weekdays s) = sort (Weekdays s')" "sort (Times s) = sort (Times s')"
      using that(1,2) by (metis sorted_list_of_multiset_mset)+
    then show ?thesis using that(3,4) by (cases s; cases s') (simp add: Normalized_def)
  qed
  ultimately show ?thesis using valid by blast
qed

theorem normalized_same_schedule_witness:
  "Normalized sample_spec = Normalized (sample_spec\<lparr>Weekdays := [1, 4]\<rparr>)"
  using normalized_same_schedule [of sample_spec "sample_spec\<lparr>Weekdays := [1, 4]\<rparr>"] by (simp add: sample_spec_def)

end
