(* ===== verification/Schedule_Service.thy ===== *)
theory Schedule_Service
  imports Schedule_Order Audit_Log Rbac
begin

text \<open>
  The runner that starts a job when it is owed (internal/schedule/runner.go) and the global time zone
  (internal/schedule/timezone.go, internal/db/schedule_settings.go).
\<close>

section \<open>The time zone\<close>

definition ss_Get :: "schedule_settings res io" where
  "ss_Get = or_return (query (\<lambda>w. Inr (schedule_settings_row w))) (Wrap ''get schedule settings'') ok"

text \<open>The check constraint of the table refuses a blank name.\<close>

definition ss_Update :: "string \<Rightarrow> string option \<Rightarrow> unit res io" where
  "ss_Update timezone updatedBy =
     or_return
       (io_call (\<lambda>w.
          if list_ex (\<lambda>c. c \<noteq> CHR '' '') timezone
          then (Inr (), w\<lparr>schedule_settings_row :=
                  \<lparr>ss_Timezone = timezone, ss_UpdatedBy = updatedBy, ss_UpdatedAt = db_now w\<rparr>\<rparr>)
          else (Inl (ErrIO ''check constraint''), w)))
       (Wrap ''update schedule settings'') ok"

definition settingsAuditObjectID :: string where
  "settingsAuditObjectID = ''00000000-0000-0000-0000-000000000000''"

definition zone_char :: "char \<Rightarrow> bool" where
  "zone_char c \<longleftrightarrow> CHR ''A'' \<le> c \<and> c \<le> CHR ''Z'' \<or> CHR ''a'' \<le> c \<and> c \<le> CHR ''z'' \<or> CHR ''0'' \<le> c \<and> c \<le> CHR ''9''
     \<or> c = CHR ''_'' \<or> c = CHR ''+'' \<or> c = CHR ''-''"

text \<open>One to three non-empty parts.\<close>

definition zoneNamePattern :: "string \<Rightarrow> bool" where
  "zoneNamePattern s \<longleftrightarrow>
     (let parts = split_on (CHR ''/'') s in
      length parts \<le> 3 \<and> list_all (\<lambda>p. p \<noteq> [] \<and> list_all zone_char p) parts)"

text \<open>\<open>zones\<close> is \<^verbatim>\<open>time.LoadLocation\<close>, which reads the zone database.\<close>

type_synonym zone_db = "string \<Rightarrow> location option"

definition ParseTimezone :: "zone_db \<Rightarrow> string \<Rightarrow> location res" where
  "ParseTimezone zones name =
     (if name = [] \<or> name = ''Local'' \<or> length name > 64 \<or> \<not> zoneNamePattern name
      then Inl (Wrap ''not an IANA time zone name such as America/New_York or UTC'' ErrInvalidTimezone)
      else case zones name of
             None \<Rightarrow> Inl (Wrap ''not a time zone this server knows'' ErrInvalidTimezone)
           | Some loc \<Rightarrow> Inr loc)"

definition schedule_Settings :: "actor \<Rightarrow> schedule_settings res io" where
  "schedule_Settings a =
     (if \<not> CanViewSettings a then fail ErrNotPermitted
      else or_return ss_Get (Wrap ''get schedule settings'') ok)"

definition Location :: "zone_db \<Rightarrow> location res io" where
  "Location zones =
     or_return ss_Get (Wrap ''get schedule settings'') (\<lambda>cfg.
       case ParseTimezone zones (ss_Timezone cfg) of
         Inl e \<Rightarrow> fail (Wrap ''stored time zone'' e)
       | Inr loc \<Rightarrow> ok loc)"

definition UpdateTimezone :: "zone_db \<Rightarrow> actor \<Rightarrow> string \<Rightarrow> unit res io" where
  "UpdateTimezone zones a name =
     (if \<not> CanViewSettings a then fail ErrNotPermitted
      else case ParseTimezone zones name of
        Inl e \<Rightarrow> fail e
      | Inr _ \<Rightarrow>
          or_return ss_Get (Wrap ''get current schedule settings'') (\<lambda>current.
          or_return (ss_Update name (actor_id a)) (Wrap ''update schedule settings'') (\<lambda>_.
            audited
              (Record (actor_id a) (IsSuperAdmin a) ''updated_schedule_timezone'' ''schedule_settings'' settingsAuditObjectID
                 (Some [(''timezone'', JStr name), (''previous_timezone'', JStr (ss_Timezone current))]))
              (ss_Update (ss_Timezone current) (ss_UpdatedBy current)) (\<lambda>e. e))))"

section \<open>The runner\<close>

record job_state =
  Enabled :: bool
  JobSpec :: spec
  Anchor :: time
  LastRun :: time

record job =
  Load :: "job_state res io"
  Begin :: "time \<Rightarrow> unit res io"
  Run :: "time \<Rightarrow> unit res io"

text \<open>
  One check: the problem it reports, empty when all went well, and the occurrence whose run it started.
\<close>

definition run_owed :: "job \<Rightarrow> time \<Rightarrow> time \<Rightarrow> (string \<times> time option) io" where
  "run_owed j now occurrence =
     State_Monad.bind (Begin j now) (\<lambda>b. case b of
       Inl e \<Rightarrow> State_Monad.return (''record run start (run skipped): '' @ error_text e, None)
     | Inr _ \<Rightarrow>
         State_Monad.bind (Run j occurrence) (\<lambda>r. State_Monad.return
           (case r of Inl e \<Rightarrow> ''run: '' @ error_text e | Inr _ \<Rightarrow> [], Some occurrence)))"

definition check :: "location res io \<Rightarrow> job \<Rightarrow> (string \<times> time option) io" where
  "check zone j =
     State_Monad.bind (Load j) (\<lambda>s. case s of
       Inl e \<Rightarrow> State_Monad.return (''load schedule: '' @ error_text e, None)
     | Inr st \<Rightarrow>
         if \<not> Enabled st then State_Monad.return ([], None)
         else State_Monad.bind zone (\<lambda>l. case l of
           Inl e \<Rightarrow> State_Monad.return (''time zone: '' @ error_text e, None)
         | Inr loc \<Rightarrow>
             State_Monad.bind time_now (\<lambda>now.
               case Latest (JobSpec st) (Anchor st) (LastRun st) now loc of
                 None \<Rightarrow> State_Monad.return ([], None)
               | Some occurrence \<Rightarrow> run_owed j now occurrence)))"

text \<open>The first checks of \<^verbatim>\<open>Run\<close>, with the occurrences they started; waiting and logging are left out.\<close>

fun run_checks :: "nat \<Rightarrow> location res io \<Rightarrow> job \<Rightarrow> time list io" where
  "run_checks 0 zone j = State_Monad.return []"
| "run_checks (Suc n) zone j =
     State_Monad.bind (check zone j) (\<lambda>(_, occ).
     State_Monad.bind (run_checks n zone j) (\<lambda>rest.
       State_Monad.return ((case occ of None \<Rightarrow> [] | Some t \<Rightarrow> [t]) @ rest)))"

section \<open>Jobs that remember\<close>

text \<open>
  What the runner relies on: loading reports at least the remembered last run, a beginning run is remembered,
  to the microsecond that the database keeps, before it does anything, a run does not forget, and a schedule
  is anchored on a whole microsecond.
\<close>

definition whole_us :: "time \<Rightarrow> bool" where
  "whole_us t \<longleftrightarrow> 1000 dvd t"

lemma whole_us_le: "whole_us t \<Longrightarrow> t \<le> u \<Longrightarrow> t \<le> Truncate 1000 u"
  unfolding whole_us_def Truncate_def by (auto elim!: dvdE simp: minus_mod_eq_mult_div)

lemma probe_minute: "probe loc x limit p = Some q \<Longrightarrow> minute dvd p \<Longrightarrow> minute dvd q"
proof (induction loc x limit p rule: probe.induct)
  case (1 loc x limit p)
  have "minute dvd p + minute" using 1(3) by simp
  then show ?case using 1 by (auto simp: probe.simps [of loc x limit p] split: if_splits)
qed

lemma wallClock_whole: "whole_us (wallClock loc dn clk)"
proof -
  have "minute dvd Truncate minute t" for t by (simp add: Truncate_def dvd_minus_mod)
  then have "1000 dvd q" if "probe loc x limit (Truncate minute t) = Some q" for x limit t q
    using probe_minute [OF that] dvd_trans [of 1000 minute q] by simp
  then show ?thesis
    by (auto simp: whole_us_def wallClock_def Let_def Date_def split: option.split)
qed

lemma Latest_whole:
  assumes "Latest s anchor after upTo loc = Some t" and "whole_us anchor"
  shows "whole_us t"
  using Latest_sound [OF assms(1)] assms(2) wallClock_whole
  by (auto simp: occurs_def weekly_at_def every_at_def at_time_def everyDaysAt_def split: if_splits)

locale remembering_job =
  fixes zone :: "location res io" and j :: job and remembered :: "world \<Rightarrow> time" and inv :: "world \<Rightarrow> bool"
  assumes load: "inv w \<Longrightarrow> run_state (Load j) w = (r, w') \<Longrightarrow> inv w' \<and> remembered w' = remembered w
      \<and> (\<forall>st. r = Inr st \<longrightarrow> Enabled st \<longrightarrow> LastRun st = remembered w \<and> whole_us (Anchor st))"
    and zone: "inv w \<Longrightarrow> run_state zone w = (l, w') \<Longrightarrow> inv w' \<and> remembered w' = remembered w"
    and begin_run: "inv w \<Longrightarrow> run_state (Begin j t) w = (b, w') \<Longrightarrow> inv w' \<and>
      (remembered w' = remembered w \<and> b \<noteq> Inr () \<or> remembered w' = Truncate 1000 t)"
    and run_keeps: "inv w \<Longrightarrow> run_state (Run j t) w = (q, w') \<Longrightarrow> inv w' \<and> remembered w' = remembered w"
    and tick: "inv (w\<lparr>tick := n\<rparr>) = inv w" "remembered (w\<lparr>tick := n\<rparr>) = remembered w"
begin

lemma check_step:
  assumes inv: "inv w" and c: "run_state (check zone j) w = ((problem, occ), w')"
  shows "inv w' \<and> remembered w \<le> remembered w' \<and> (\<forall>t. occ = Some t \<longrightarrow> remembered w < t \<and> t \<le> remembered w')"
proof -
  obtain r w1 where l: "run_state (Load j) w = (r, w1)" by (cases "run_state (Load j) w")
  note L = load [OF inv l]
  obtain q w2 where z: "run_state zone w1 = (q, w2)" by (cases "run_state zone w1")
  note Z = zone [OF conjunct1 [OF L] z]
  show ?thesis
  proof (cases "\<exists>st loc t. r = Inr st \<and> Enabled st \<and> q = Inr loc
      \<and> Latest (JobSpec st) (Anchor st) (LastRun st) (clock w2 (tick w2)) loc = Some t")
    case False
    then have "occ = None \<and> (w' = w1 \<or> w' = w2 \<or> w' = w2\<lparr>tick := Suc (tick w2)\<rparr>)"
      using c l z by (auto simp: check_def run_time_now split: sum.splits option.splits if_splits)
    then show ?thesis using L Z tick by auto
  next
    case True
    let ?now = "clock w2 (tick w2)" and ?w3 = "w2\<lparr>tick := Suc (tick w2)\<rparr>"
    from True obtain st loc t where due: "r = Inr st" "Enabled st" "q = Inr loc"
      and t: "Latest (JobSpec st) (Anchor st) (LastRun st) ?now loc = Some t" by blast
    have last: "LastRun st = remembered w" "whole_us (Anchor st)" using L due by auto
    have now: "remembered w < t" "t \<le> Truncate 1000 ?now"
      using Latest_sound [OF t] Latest_whole [OF t] last whole_us_le by auto
    have run: "run_state (run_owed j ?now t) ?w3 = ((problem, occ), w')"
      using c l z due t by (simp add: check_def run_time_now)
    obtain b w4 where b: "run_state (Begin j ?now) ?w3 = (b, w4)" by (cases "run_state (Begin j ?now) ?w3")
    have "inv ?w3" "remembered ?w3 = remembered w" using L Z tick by auto
    with begin_run [OF _ b] have B: "inv w4" "remembered w4 = remembered w \<and> b \<noteq> Inr () \<or> remembered w4 = Truncate 1000 ?now" by auto
    show ?thesis
    proof (cases b)
      case (Inl e)
      then have "occ = None \<and> w' = w4" using run b by (simp add: run_owed_def)
      then show ?thesis using B now by auto
    next
      case (Inr u)
      obtain q' w5 where q: "run_state (Run j t) w4 = (q', w5)" by (cases "run_state (Run j t) w4")
      have "occ = Some t \<and> w' = w5" using run b q Inr by (simp add: run_owed_def)
      then show ?thesis using B now Inr run_keeps [OF B(1) q] by auto
    qed
  qed
qed

lemma runs_increase:
  "inv w \<Longrightarrow> run_state (run_checks n zone j) w = (ts, w') \<Longrightarrow> sorted_wrt (<) ts \<and> (\<forall>t \<in> set ts. remembered w < t)"
proof (induction n arbitrary: w ts w')
  case (Suc n)
  obtain problem occ w1 where c: "run_state (check zone j) w = ((problem, occ), w1)"
    by (cases "run_state (check zone j) w") auto
  obtain rest w2 where r: "run_state (run_checks n zone j) w1 = (rest, w2)" by (cases "run_state (run_checks n zone j) w1")
  note step = check_step [OF Suc.prems(1) c]
  have ts: "ts = (case occ of None \<Rightarrow> [] | Some t \<Rightarrow> [t]) @ rest" using Suc.prems(2) c r by simp
  show ?case using Suc.IH [OF _ r] step unfolding ts by (fastforce split: option.split)
qed simp

end

section \<open>Changing the time zone\<close>

definition zone_view :: "world \<Rightarrow> string \<times> string option" where
  "zone_view w = (ss_Timezone (schedule_settings_row w), ss_UpdatedBy (schedule_settings_row w))"

definition zone_named :: "string \<Rightarrow> bool" where
  "zone_named z \<longleftrightarrow> list_ex (\<lambda>c. c \<noteq> CHR '' '') z"

lemma run_ss_Update:
  "run_state (ss_Update z who) w =
     (let w1 = w\<lparr>tick := Suc (tick w)\<rparr>;
          w2 = w1\<lparr>schedule_settings_row := \<lparr>ss_Timezone = z, ss_UpdatedBy = who, ss_UpdatedAt = clock w (Suc (tick w))\<rparr>\<rparr>
      in case faults w (tick w) of
           NoFault \<Rightarrow> if zone_named z then (Inr (), w2) else (Inl (Wrap ''update schedule settings'' (ErrIO ''check constraint'')), w1)
         | Lost e \<Rightarrow> (Inl (Wrap ''update schedule settings'' (ErrIO e)), w1)
         | Ambiguous e \<Rightarrow> (Inl (Wrap ''update schedule settings'' (ErrIO e)), if zone_named z then w2 else w1))"
  by (auto simp: ss_Update_def run_simps Let_def db_now_def zone_named_def split: fault.split)

interpretation zone_change: audited_write zone_view "ss_Update z who" "ss_Update z0 who0"
    "\<lambda>w. zone_view w = (z0, who0) \<and> zone_named z0"
  for z who z0 who0
proof
  fix w w' w1 w2 w3 r v u e n and l :: "audit_record list"
  let ?wr = "ss_Update z who"
  show "run_state ?wr w = (r, w') \<Longrightarrow> faults w' = faults w \<and> tick w' = Suc (tick w)"
    and "run_state ?wr w = (r, w') \<Longrightarrow> audit_log w' = audit_log w"
    by (auto simp: run_ss_Update Let_def split: fault.splits if_splits)
  show "zone_view w' = zone_view w" if "one_lost_call w" "zone_view w = (z0, who0) \<and> zone_named z0" "run_state ?wr w = (Inl e, w')"
    using that by (auto simp: run_ss_Update Let_def zone_view_def split: fault.splits if_splits)
  show "zone_view w3 = zone_view w \<and> audit_log w3 = audit_log w2"
    if "zone_view w = (z0, who0) \<and> zone_named z0" "faults w2 (tick w2) = NoFault" "run_state (ss_Update z0 who0) w2 = (v, w3)"
    using that by (auto simp: run_ss_Update Let_def zone_view_def)
qed (simp_all add: zone_view_def)

lemma ParseTimezone_named: "ParseTimezone zones z = Inr loc \<Longrightarrow> zone_named z \<and> zones z = Some loc"
proof -
  assume p: "ParseTimezone zones z = Inr loc"
  then have "z \<noteq> []" "zoneNamePattern z" "zones z = Some loc" by (auto simp: ParseTimezone_def split: if_splits option.splits)
  moreover have "z \<noteq> [] \<Longrightarrow> zoneNamePattern z \<Longrightarrow> zone_named z"
    by (cases z) (auto simp: zoneNamePattern_def zone_named_def zone_char_def Let_def split: if_splits list.splits)
  ultimately show ?thesis by blast
qed

text \<open>
  Changing the time zone, when at most one call fails and had no effect: an error leaves the zone, who set
  it and the audit log as they were; success means an Admin named a zone the server's zone database knows,
  which is then the one every schedule is read in, and exactly one record was appended. Whatever the faults,
  the stored zone is never one the database does not know.
\<close>

theorem timezone_all_or_nothing:
  assumes one: "one_lost_call w" and stored: "ParseTimezone zones (ss_Timezone (schedule_settings_row w)) = Inr loc0"
    and run: "run_state (UpdateTimezone zones a z) w = (r, w')"
  shows "(\<exists>loc. ParseTimezone zones (ss_Timezone (schedule_settings_row w')) = Inr loc) \<and> (case r of
      Inl e \<Rightarrow> zone_view w' = zone_view w \<and> audit_log w' = audit_log w
    | Inr _ \<Rightarrow> CanViewSettings a \<and> zone_view w' = (z, actor_id a)
        \<and> (\<exists>rec. audit_log w' = audit_log w @ [rec] \<and> audit_Action rec = ''updated_schedule_timezone''
            \<and> audit_Detail rec = Some [(''timezone'', JStr z), (''previous_timezone'', JStr (ss_Timezone (schedule_settings_row w)))]))"
proof (cases "CanViewSettings a \<and> (\<exists>loc. ParseTimezone zones z = Inr loc) \<and> faults w (tick w) = NoFault")
  case False
  then have "(w' = w \<or> w' = w\<lparr>tick := Suc (tick w)\<rparr>) \<and> (\<exists>e. r = Inl e)"
    using run by (auto simp: UpdateTimezone_def ss_Get_def run_simps split: if_splits fault.splits sum.splits)
  then show ?thesis using stored by (auto simp: zone_view_def)
next
  case True
  then obtain loc where loc: "ParseTimezone zones z = Inr loc" by blast
  let ?w1 = "w\<lparr>tick := Suc (tick w)\<rparr>" and ?cur = "schedule_settings_row w"
  let ?det = "Some [(''timezone'', JStr z), (''previous_timezone'', JStr (ss_Timezone ?cur))]"
  have one1: "one_lost_call ?w1" using one one_lost_call_cong [of ?w1 w] by simp
  have pre: "zone_view ?w1 = (ss_Timezone ?cur, ss_UpdatedBy ?cur) \<and> zone_named (ss_Timezone ?cur)"
    using ParseTimezone_named [OF stored] by (simp add: zone_view_def)
  have "run_state (or_return (ss_Update z (actor_id a)) (Wrap ''update schedule settings'') (\<lambda>_.
      audited (Record (actor_id a) (IsSuperAdmin a) ''updated_schedule_timezone'' ''schedule_settings'' settingsAuditObjectID ?det)
        (ss_Update (ss_Timezone ?cur) (ss_UpdatedBy ?cur)) (\<lambda>e. e))) ?w1 = (r, w')"
    using run True loc by (simp add: UpdateTimezone_def ss_Get_def run_or_return run_query)
  note all = zone_change.all_or_nothing [OF one1 pre this]
  show ?thesis
  proof (cases r)
    case (Inl e)
    then show ?thesis using all stored by (auto simp: zone_view_def)
  next
    case (Inr u)
    then obtain w2 where w2: "run_state (ss_Update z (actor_id a)) ?w1 = (Inr (), w2)" "zone_view w' = zone_view w2"
      and log: "audit_log w' = audit_log w @ [new_record w2 (actor_id a) (IsSuperAdmin a) ''updated_schedule_timezone'' ''schedule_settings''
          settingsAuditObjectID ?det]"
      using all by auto
    have "zone_view w' = (z, actor_id a)"
      using w2 by (auto simp: run_ss_Update Let_def zone_view_def split: fault.splits if_splits)
    then show ?thesis using Inr True loc log by (auto simp: zone_view_def new_record_def)
  qed
qed

definition utc_only :: zone_db where
  "utc_only name = (if name = ''UTC'' then Some UTC else if name = ''Etc/UTC'' then Some UTC else None)"

definition admin_actor :: actor where
  "admin_actor = \<lparr>IsSuperAdmin = False, UserID = uuid_of 1, Tier = TierAdmin\<rparr>"

theorem timezone_all_or_nothing_witness:
  "zone_view (snd (run_state (UpdateTimezone utc_only admin_actor ''Etc/UTC'') empty_world)) = (''Etc/UTC'', Some (uuid_of 1))"
proof -
  have one: "one_lost_call empty_world" by (simp add: one_lost_call_def empty_world_def)
  have stored: "ParseTimezone utc_only (ss_Timezone (schedule_settings_row empty_world)) = Inr UTC"
    by (simp add: empty_world_def ParseTimezone_def utc_only_def zoneNamePattern_def zone_char_def)
  have ok: "fst (run_state (UpdateTimezone utc_only admin_actor ''Etc/UTC'') empty_world) = Inr ()" by code_simp
  show ?thesis using timezone_all_or_nothing [OF one stored prod.collapse [symmetric], of admin_actor "''Etc/UTC''"] ok
    by (auto simp: actor_id_def admin_actor_def)
qed

section \<open>The audit log\<close>

lemma log_grows_schedule:
  "within log_grows ss_Get" "within log_grows (ss_Update z who)" "within log_grows (UpdateTimezone zones a z)"
proof -
  show upd: "within log_grows (ss_Update z who)" for z who
    unfolding ss_Update_def by (intro log_grows_rules log_grows.within_io_call) (simp add: log_grows_same)
  show get: "within log_grows ss_Get" unfolding ss_Get_def by (intro log_grows_rules)
  show "within log_grows (UpdateTimezone zones a z)"
    unfolding UpdateTimezone_def by (intro log_grows_rules get upd)
qed

end
