(* ===== verification/Stale_Settings.thy ===== *)
theory Stale_Settings
  imports Schedule_Service Agentproto
begin

text \<open>
  The settings of stale container monitoring (internal/db/stale_container_settings.go and the settings part of
  internal/stalecontainers/service.go): the singleton row with its check constraints, the audited change with
  its exact undo, the schedule as JSON, and what the Settings page shows. The lemmas show that a saved schedule
  is read back as it was saved and that a change is all-or-nothing.
\<close>

section \<open>Schedules as JSON\<close>

definition kind_string :: "kind \<Rightarrow> string" where
  "kind_string k = (case k of KindWeekly \<Rightarrow> ''weekly'' | KindEveryDays \<Rightarrow> ''every_days'' | KindOther s \<Rightarrow> s)"

definition kind_of :: "string \<Rightarrow> kind" where
  "kind_of s = (if s = ''weekly'' then KindWeekly else if s = ''every_days'' then KindEveryDays else KindOther s)"

definition opt_ints :: "string \<Rightarrow> int list \<Rightarrow> (string \<times> json) list" where
  "opt_ints n ks = (if ks = [] then [] else [(n, JArr (map JInt ks))])"

definition encode_Spec :: "spec \<Rightarrow> json" where
  "encode_Spec s = JObj
     ([(''kind'', JStr (kind_string (Kind s)))] @ opt_ints ''weekdays'' (Weekdays s)
      @ opt_strs ''times'' (Times s) @ opt_int ''every_days'' (EveryDays s))"

text \<open>\<^verbatim>\<open>json.Unmarshal\<close> ignores members that match no field.\<close>

fun known_fields :: "string list \<Rightarrow> (string \<times> json) list \<Rightarrow> (string \<times> json) list" where
  "known_fields names [] = []"
| "known_fields names ((k, v) # kvs) =
     (case match_field names k of None \<Rightarrow> known_fields names kvs | Some n \<Rightarrow> (n, v) # known_fields names kvs)"

fun conv_ints :: "json list \<Rightarrow> int list option" where
  "conv_ints [] = Some []"
| "conv_ints (v # vs) =
     (case (if v = JNull then Some 0 else conv_int v, conv_ints vs) of
        (Some n, Some ns) \<Rightarrow> Some (n # ns)
      | _ \<Rightarrow> None)"

definition conv_int_list :: "json \<Rightarrow> int list option" where
  "conv_int_list v = (case v of JArr vs \<Rightarrow> conv_ints vs | _ \<Rightarrow> None)"

definition get_ints :: "string \<Rightarrow> (string \<times> json) list \<Rightarrow> int list res" where
  "get_ints n fs = dec_plain (\<lambda>_. conv_int_list) [] (field_values n fs)"

definition read_Spec :: "(string \<times> json) list \<Rightarrow> spec res" where
  "read_Spec fs =
     rbind (get_string ''kind'' fs) (\<lambda>k.
     rbind (get_ints ''weekdays'' fs) (\<lambda>ds.
     rbind (get_strings ''times'' fs) (\<lambda>ts.
     rbind (get_int ''every_days'' fs) (\<lambda>n.
       Inr \<lparr>Kind = kind_of k, Weekdays = ds, Times = ts, EveryDays = n\<rparr>))))"

text \<open>An absent column is an empty document, which is malformed.\<close>

definition decode_Spec :: "json option \<Rightarrow> spec res" where
  "decode_Spec doc =
     (case doc of
        Some JNull \<Rightarrow> read_Spec []
      | Some (JObj kvs) \<Rightarrow> read_Spec (known_fields [''kind'', ''weekdays'', ''times'', ''every_days''] kvs)
      | _ \<Rightarrow> Inl ErrMalformed)"

section \<open>The settings row\<close>

definition mode_string :: "stale_mode \<Rightarrow> string" where
  "mode_string m = (case m of ModeNone \<Rightarrow> ''none'' | ModeReport \<Rightarrow> ''report'' | ModePrune \<Rightarrow> ''prune'' | ModeOther s \<Rightarrow> s)"

definition mode_Valid :: "stale_mode \<Rightarrow> bool" where
  "mode_Valid m \<longleftrightarrow> (case m of ModeOther _ \<Rightarrow> False | _ \<Rightarrow> True)"

record stale_update =
  su_Mode :: stale_mode
  su_Schedule :: "json option"
  su_MinAgeHours :: int
  su_ArchiveLines :: int
  su_UpdatedBy :: "string option"

definition MaxMinAgeHours :: int where "MaxMinAgeHours = 720"
definition MaxArchiveLines :: int where "MaxArchiveLines = 100000"

text \<open>The enumeration of modes and the check constraints of the table.\<close>

definition row_ok :: "stale_settings \<Rightarrow> bool" where
  "row_ok s \<longleftrightarrow> mode_Valid (sc_Mode s) \<and> (sc_Mode s = ModeNone \<or> sc_Schedule s \<noteq> None)
     \<and> 0 \<le> sc_MinAgeHours s \<and> sc_MinAgeHours s \<le> 720 \<and> 0 \<le> sc_ArchiveLines s \<and> sc_ArchiveLines s \<le> 100000"

definition put_row :: "(world \<Rightarrow> stale_settings) \<Rightarrow> unit res io" where
  "put_row f = io_call (\<lambda>w. if row_ok (f w) then (Inr (), w\<lparr>stale_settings_row := f w\<rparr>)
                            else (Inl (ErrIO ''constraint''), w))"

definition sc_Get :: "stale_settings res io" where
  "sc_Get = or_return (query (\<lambda>w. Inr (stale_settings_row w))) (Wrap ''get stale container settings'') ok"

text \<open>
  The row after an update. A new schedule, or switching on from none, restarts the schedule. The database's
  clock and its timestamps have microseconds.
\<close>

definition updated_row :: "stale_update \<Rightarrow> world \<Rightarrow> stale_settings" where
  "updated_row u w =
     (let r = stale_settings_row w;
          restart = sc_Schedule r \<noteq> su_Schedule u \<or> sc_Mode r = ModeNone
      in r\<lparr>sc_ScheduleSetAt := if restart then Truncate 1000 (db_now w) else sc_ScheduleSetAt r,
           sc_LastRunAt := if restart then None else sc_LastRunAt r,
           sc_Mode := su_Mode u, sc_Schedule := su_Schedule u, sc_MinAgeHours := su_MinAgeHours u,
           sc_ArchiveLines := su_ArchiveLines u, sc_UpdatedBy := su_UpdatedBy u, sc_UpdatedAt := Truncate 1000 (db_now w)\<rparr>)"

definition sc_Update :: "stale_update \<Rightarrow> unit res io" where
  "sc_Update u = or_return (put_row (updated_row u)) (Wrap ''update stale container settings'') ok"

definition sc_Restore :: "stale_settings \<Rightarrow> unit res io" where
  "sc_Restore prev =
     or_return
       (put_row (\<lambda>w. prev\<lparr>sc_LastRunSummary := sc_LastRunSummary (stale_settings_row w)\<rparr>))
       (Wrap ''restore stale container settings'') ok"

definition MarkRun :: "time \<Rightarrow> unit res io" where
  "MarkRun startedAt =
     or_return
       (exec (\<lambda>w. ((), w\<lparr>stale_settings_row := (stale_settings_row w)\<lparr>sc_LastRunAt := Some (Truncate 1000 startedAt)\<rparr>\<rparr>)))
       (Wrap ''mark stale container run'') ok"

definition SetLastRunSummary :: "run_summary \<Rightarrow> unit res io" where
  "SetLastRunSummary summ =
     or_return
       (exec (\<lambda>w. ((), w\<lparr>stale_settings_row := (stale_settings_row w)\<lparr>sc_LastRunSummary := Some summ\<rparr>\<rparr>)))
       (Wrap ''set stale container run summary'') ok"

section \<open>Showing and changing the settings\<close>

record settings_view =
  sv_Settings :: stale_settings
  sv_Spec :: "spec option"
  sv_Zone :: "location option"
  sv_NextRun :: "time option"
  sv_LastRun :: "run_summary option"

definition next_run :: "stale_settings \<Rightarrow> spec option \<Rightarrow> location \<Rightarrow> time option io" where
  "next_run cfg spec loc =
     (case spec of
        Some s \<Rightarrow>
          if sc_Mode cfg \<noteq> ModeNone then
            State_Monad.bind time_now (\<lambda>now.
              let lastRun = (case sc_LastRunAt cfg of None \<Rightarrow> 0 | Some t \<Rightarrow> t) in
              State_Monad.return
                (case Latest s (sc_ScheduleSetAt cfg) lastRun now loc of
                   Some _ \<Rightarrow> Some now
                 | None \<Rightarrow> Next s (sc_ScheduleSetAt cfg) now loc))
          else State_Monad.return None
      | None \<Rightarrow> State_Monad.return None)"

text \<open>
  \<open>sv_Zone\<close> stands for the name that \<^verbatim>\<open>loc.String()\<close> returns; without a zone the view has no next run.
\<close>

definition stale_Settings :: "zone_db \<Rightarrow> actor \<Rightarrow> settings_view res io" where
  "stale_Settings zones a =
     (if \<not> CanManageStaleContainers a then fail ErrNotPermitted
      else or_return sc_Get (Wrap ''get stale container settings'') (\<lambda>cfg.
        let spec = (case decode_Spec (sc_Schedule cfg) of
                      Inl _ \<Rightarrow> None
                    | Inr s \<Rightarrow> if spec_Validate s = Inr () then Some s else None)
        in State_Monad.bind (Location zones) (\<lambda>l. case l of
             Inl _ \<Rightarrow> ok \<lparr>sv_Settings = cfg, sv_Spec = spec, sv_Zone = None, sv_NextRun = None, sv_LastRun = sc_LastRunSummary cfg\<rparr>
           | Inr loc \<Rightarrow>
               State_Monad.bind (next_run cfg spec loc) (\<lambda>nxt.
                 ok \<lparr>sv_Settings = cfg, sv_Spec = spec, sv_Zone = Some loc, sv_NextRun = nxt, sv_LastRun = sc_LastRunSummary cfg\<rparr>))))"

record settings_input =
  si_Mode :: stale_mode
  si_Schedule :: spec
  si_HasSchedule :: bool
  si_MinAgeHours :: int
  si_ArchiveLines :: int
  si_ConfirmPrune :: bool

definition trimInvalidSpec :: "error \<Rightarrow> string" where
  "trimInvalidSpec e =
     (case e of Wrap why x \<Rightarrow> if x = ErrInvalidSpec then why else error_text e | _ \<Rightarrow> error_text e)"

text \<open>The document to save.\<close>

definition schedule_doc :: "settings_input \<Rightarrow> stale_settings \<Rightarrow> json option res" where
  "schedule_doc inp prev =
     (if si_Mode inp \<noteq> ModeNone \<or> si_HasSchedule inp then
        (case spec_Validate (si_Schedule inp) of
           Inl e \<Rightarrow> Inl (Wrap (trimInvalidSpec e) ErrInvalidSettings)
         | Inr _ \<Rightarrow> Inr (Some (encode_Spec (Normalized (si_Schedule inp)))))
      else Inr (sc_Schedule prev))"

definition settings_detail :: "settings_input \<Rightarrow> stale_settings \<Rightarrow> json option \<Rightarrow> audit_detail" where
  "settings_detail inp prev doc =
     [(''mode'', JStr (mode_string (si_Mode inp))), (''previous_mode'', JStr (mode_string (sc_Mode prev))),
      (''min_age_hours'', JInt (si_MinAgeHours inp)), (''archive_lines'', JInt (si_ArchiveLines inp)),
      (''confirmed_prune'', JBool (si_ConfirmPrune inp \<and> si_Mode inp = ModePrune))]
     @ (case doc of None \<Rightarrow> [] | Some d \<Rightarrow> [(''schedule'', d)])"

definition UpdateSettings :: "actor \<Rightarrow> settings_input \<Rightarrow> unit res io" where
  "UpdateSettings a inp =
     (if \<not> CanManageStaleContainers a then fail ErrNotPermitted
      else if \<not> mode_Valid (si_Mode inp) then fail (Wrap ''choose None, Report or Prune'' ErrInvalidSettings)
      else if si_MinAgeHours inp < 0 \<or> si_MinAgeHours inp > MaxMinAgeHours
        then fail (Wrap ''the minimum age must be between 0 and 720 hours'' ErrInvalidSettings)
      else if si_ArchiveLines inp < 0 \<or> si_ArchiveLines inp > MaxArchiveLines
        then fail (Wrap ''log lines to keep must be between 0 (all) and 100000'' ErrInvalidSettings)
      else
        or_return sc_Get (Wrap ''get current stale container settings'') (\<lambda>prev.
          case schedule_doc inp prev of
            Inl e \<Rightarrow> fail e
          | Inr doc \<Rightarrow>
              if si_Mode inp = ModePrune \<and> sc_Mode prev \<noteq> ModePrune \<and> \<not> si_ConfirmPrune inp then fail ErrPruneNotConfirmed
              else
                or_return
                  (sc_Update \<lparr>su_Mode = si_Mode inp, su_Schedule = doc, su_MinAgeHours = si_MinAgeHours inp,
                     su_ArchiveLines = si_ArchiveLines inp, su_UpdatedBy = actor_id a\<rparr>)
                  (Wrap ''update stale container settings'') (\<lambda>_.
                audited
                  (Record (actor_id a) (IsSuperAdmin a) ''updated_stale_container_settings'' ''stale_container_settings''
                     settingsAuditObjectID (Some (settings_detail inp prev doc)))
                  (sc_Restore prev) (\<lambda>e. e))))"

section \<open>A saved schedule is read back\<close>

lemma conv_ints_JInt: "list_all in_int64 ks \<Longrightarrow> conv_ints (map JInt ks) = Some ks"
  by (induction ks) (auto simp: conv_int_def)

lemma kind_round [simp]: "k = KindWeekly \<or> k = KindEveryDays \<Longrightarrow> kind_of (kind_string k) = k"
  by (auto simp: kind_of_def kind_string_def)

lemma decode_encode_Spec:
  assumes k: "Kind s = KindWeekly \<or> Kind s = KindEveryDays" and "list_all in_int64 (Weekdays s)" and "in_int64 (EveryDays s)"
  shows "decode_Spec (Some (encode_Spec s)) = Inr s"
  using assms
  by (simp add: decode_Spec_def encode_Spec_def read_Spec_def opt_ints_def opt_strs_def opt_int_def get_string_def get_ints_def
      get_strings_def get_int_def conv_string_def conv_int_list_def conv_ints_JInt conv_int_def)

lemma decode_saved: "spec_Validate s = Inr () \<Longrightarrow> decode_Spec (Some (encode_Spec (Normalized s))) = Inr (Normalized s)"
proof -
  assume "spec_Validate s = Inr ()"
  then have v: "case Kind s of KindWeekly \<Rightarrow> EveryDays s = 0 \<and> list_all (\<lambda>d. 0 \<le> d \<and> d \<le> 6) (Weekdays s)
      | KindEveryDays \<Rightarrow> Weekdays s = [] \<and> 1 \<le> EveryDays s \<and> EveryDays s \<le> 365 | KindOther k \<Rightarrow> False"
    unfolding Validate_iff by (auto simp: list_all_iff MaxEveryDays_def split: kind.splits)
  then have "Kind s = KindWeekly \<or> Kind s = KindEveryDays" by (cases "Kind s") auto
  moreover have "list_all in_int64 (sort (Weekdays s))" "in_int64 (EveryDays s)"
    using v by (auto simp: list_all_iff in_int64_def split: kind.splits)
  ultimately show ?thesis by (intro decode_encode_Spec) (simp_all add: Normalized_def)
qed

section \<open>Changing the settings\<close>

lemma run_put_row:
  "run_state (put_row f) w =
     (let w1 = w\<lparr>tick := Suc (tick w)\<rparr>; w2 = (if row_ok (f w1) then w1\<lparr>stale_settings_row := f w1\<rparr> else w1) in
      case faults w (tick w) of
        NoFault \<Rightarrow> (if row_ok (f w1) then Inr () else Inl (ErrIO ''constraint''), w2)
      | Lost e \<Rightarrow> (Inl (ErrIO e), w1)
      | Ambiguous e \<Rightarrow> (Inl (ErrIO e), w2))"
  by (auto simp: put_row_def run_simps Let_def split: fault.split)

text \<open>Whatever goes wrong, the row keeps its constraints, and a schedule's anchor is a whole microsecond.\<close>

definition settings_ok :: "world \<Rightarrow> bool" where
  "settings_ok w \<longleftrightarrow> row_ok (stale_settings_row w) \<and> whole_us (sc_ScheduleSetAt (stale_settings_row w))"

lemma whole_us_Truncate [simp]: "whole_us (Truncate 1000 t)"
  by (simp add: whole_us_def Truncate_def dvd_minus_mod)

lemma updated_row_anchor: "settings_ok w \<Longrightarrow> whole_us (sc_ScheduleSetAt (updated_row u w))"
  by (simp add: settings_ok_def updated_row_def Let_def)

interpretation settings_change: audited_write stale_settings_row "sc_Update u" "sc_Restore prev"
    "\<lambda>w. stale_settings_row w = prev \<and> row_ok prev"
  for u prev
proof
  fix w w' w1 w2 w3 r v x e n and l :: "audit_record list"
  let ?wr = "sc_Update u"
  show "run_state ?wr w = (r, w') \<Longrightarrow> faults w' = faults w \<and> tick w' = Suc (tick w)"
    and "run_state ?wr w = (r, w') \<Longrightarrow> audit_log w' = audit_log w"
    by (auto simp: sc_Update_def run_or_return run_put_row Let_def split: fault.splits if_splits)
  show "stale_settings_row w' = stale_settings_row w"
    if "one_lost_call w" "stale_settings_row w = prev \<and> row_ok prev" "run_state ?wr w = (Inl e, w')"
    using that by (auto simp: sc_Update_def run_or_return run_put_row Let_def split: fault.splits if_splits)
  show "stale_settings_row w3 = stale_settings_row w \<and> audit_log w3 = audit_log w2"
    if pre: "stale_settings_row w = prev \<and> row_ok prev" and wr: "run_state ?wr w = (Inr x, w1)"
      and same: "stale_settings_row w2 = stale_settings_row w1" and "faults w2 (tick w2) = NoFault" "run_state (sc_Restore prev) w2 = (v, w3)"
  proof -
    have "sc_LastRunSummary (stale_settings_row w1) = sc_LastRunSummary prev"
      using pre wr by (auto simp: sc_Update_def run_or_return run_put_row updated_row_def Let_def split: fault.splits if_splits)
    then have "prev\<lparr>sc_LastRunSummary := sc_LastRunSummary (stale_settings_row w2)\<rparr> = prev" using same by simp
    then show ?thesis using that by (auto simp: sc_Restore_def run_or_return run_put_row Let_def)
  qed
qed simp_all

definition saved_row :: "actor \<Rightarrow> settings_input \<Rightarrow> stale_settings \<Rightarrow> stale_settings \<Rightarrow> bool" where
  "saved_row a inp old new \<longleftrightarrow>
     sc_Mode new = si_Mode inp \<and> sc_MinAgeHours new = si_MinAgeHours inp \<and> sc_ArchiveLines new = si_ArchiveLines inp
     \<and> sc_UpdatedBy new = actor_id a \<and> sc_LastRunSummary new = sc_LastRunSummary old
     \<and> (if si_Mode inp \<noteq> ModeNone \<or> si_HasSchedule inp
        then decode_Spec (sc_Schedule new) = Inr (Normalized (si_Schedule inp))
        else sc_Schedule new = sc_Schedule old)
     \<and> (if sc_Schedule new \<noteq> sc_Schedule old \<or> sc_Mode old = ModeNone then sc_LastRunAt new = None
        else sc_ScheduleSetAt new = sc_ScheduleSetAt old \<and> sc_LastRunAt new = sc_LastRunAt old)"

lemma updated_row_saved:
  assumes "schedule_doc inp (stale_settings_row w) = Inr doc"
    and "u = \<lparr>su_Mode = si_Mode inp, su_Schedule = doc, su_MinAgeHours = si_MinAgeHours inp,
              su_ArchiveLines = si_ArchiveLines inp, su_UpdatedBy = actor_id a\<rparr>"
  shows "saved_row a inp (stale_settings_row w) (updated_row u w)"
  using assms decode_saved [of "si_Schedule inp"]
  by (auto simp: saved_row_def updated_row_def schedule_doc_def Let_def split: if_splits sum.splits)

text \<open>
  Changing the settings of stale container monitoring, when at most one call fails and had no effect: an
  error leaves the settings, the schedule's start, the last run and the audit log exactly as they were; success
  means that an Admin asked, that switching Prune on was confirmed, that what the form said is what is stored
  (with the schedule reading back as its normalized form, restarted exactly when it is new or was off), and that
  exactly one record was appended. The row never breaks its constraints.
\<close>

theorem settings_all_or_nothing:
  assumes one: "one_lost_call w" and ok: "settings_ok w" and run: "run_state (UpdateSettings a inp) w = (r, w')"
  shows "settings_ok w' \<and> (case r of
      Inl e \<Rightarrow> stale_settings_row w' = stale_settings_row w \<and> audit_log w' = audit_log w
    | Inr _ \<Rightarrow> CanManageStaleContainers a
        \<and> (sc_Mode (stale_settings_row w') = ModePrune \<and> sc_Mode (stale_settings_row w) \<noteq> ModePrune \<longrightarrow> si_ConfirmPrune inp)
        \<and> saved_row a inp (stale_settings_row w) (stale_settings_row w')
        \<and> (\<exists>rec. audit_log w' = audit_log w @ [rec] \<and> audit_Action rec = ''updated_stale_container_settings''
             \<and> audit_ActorID rec = actor_id a))"
proof -
  let ?prev = "stale_settings_row w" and ?w1 = "w\<lparr>tick := Suc (tick w)\<rparr>"
  let ?u = "\<lambda>doc. \<lparr>su_Mode = si_Mode inp, su_Schedule = doc, su_MinAgeHours = si_MinAgeHours inp,
              su_ArchiveLines = si_ArchiveLines inp, su_UpdatedBy = actor_id a\<rparr>"
  let ?tail = "\<lambda>doc. or_return (sc_Update (?u doc)) (Wrap ''update stale container settings'') (\<lambda>_. audited
                  (Record (actor_id a) (IsSuperAdmin a) ''updated_stale_container_settings'' ''stale_container_settings''
                     settingsAuditObjectID (Some (settings_detail inp ?prev doc))) (sc_Restore ?prev) (\<lambda>e. e))"
  show ?thesis
  proof (cases "\<exists>doc. CanManageStaleContainers a \<and> faults w (tick w) = NoFault \<and> schedule_doc inp ?prev = Inr doc
      \<and> \<not> (si_Mode inp = ModePrune \<and> sc_Mode ?prev \<noteq> ModePrune \<and> \<not> si_ConfirmPrune inp) \<and> run_state (?tail doc) ?w1 = (r, w')")
    case False
    then have "(w' = w \<or> w' = ?w1) \<and> (\<exists>e. r = Inl e)"
      using run by (auto simp: UpdateSettings_def sc_Get_def run_simps split: if_splits fault.splits sum.splits)
    then show ?thesis using ok by (auto simp: settings_ok_def)
  next
    case True
    then obtain doc where t: "CanManageStaleContainers a" "schedule_doc inp ?prev = Inr doc"
      "\<not> (si_Mode inp = ModePrune \<and> sc_Mode ?prev \<noteq> ModePrune \<and> \<not> si_ConfirmPrune inp)" and tail: "run_state (?tail doc) ?w1 = (r, w')" by blast
    have one1: "one_lost_call ?w1" using one one_lost_call_cong [of ?w1 w] by simp
    have pre: "stale_settings_row ?w1 = ?prev \<and> row_ok ?prev" using ok by (simp add: settings_ok_def)
    note all = settings_change.all_or_nothing [OF one1 pre tail]
    show ?thesis
    proof (cases r)
      case (Inl e)
      then show ?thesis using all ok by (auto simp: settings_ok_def)
    next
      case (Inr x)
      then obtain w2 where w2: "run_state (sc_Update (?u doc)) ?w1 = (Inr (), w2)" "stale_settings_row w' = stale_settings_row w2"
        and log: "audit_log w' = audit_log w @ [new_record w2 (actor_id a) (IsSuperAdmin a) ''updated_stale_container_settings''
            ''stale_container_settings'' settingsAuditObjectID (Some (settings_detail inp ?prev doc))]"
        using all by auto
      let ?w1' = "?w1\<lparr>tick := Suc (Suc (tick w))\<rparr>"
      have row: "stale_settings_row w' = updated_row (?u doc) ?w1'" "row_ok (updated_row (?u doc) ?w1')"
        using w2 by (auto simp: sc_Update_def run_or_return run_put_row Let_def split: fault.splits if_splits)
      moreover have "settings_ok ?w1'" using ok by (simp add: settings_ok_def)
      ultimately have "settings_ok w'" using updated_row_anchor by (simp add: settings_ok_def)
      moreover have "saved_row a inp ?prev (stale_settings_row w')" unfolding row(1)
        using updated_row_saved [of inp ?w1' doc "?u doc" a] t(2) by simp
      ultimately show ?thesis using Inr t log by (auto simp: new_record_def saved_row_def)
    qed
  qed
qed

definition prune_input :: settings_input where
  "prune_input = \<lparr>si_Mode = ModePrune, si_Schedule = sample_spec, si_HasSchedule = True, si_MinAgeHours = 24,
     si_ArchiveLines = 2000, si_ConfirmPrune = True\<rparr>"

theorem settings_all_or_nothing_witness:
  "sc_Mode (stale_settings_row (snd (run_state (UpdateSettings admin_actor prune_input) empty_world))) = ModePrune
   \<and> decode_Spec (sc_Schedule (stale_settings_row (snd (run_state (UpdateSettings admin_actor prune_input) empty_world))))
     = Inr (Normalized sample_spec)"
proof -
  have one: "one_lost_call empty_world" by (simp add: one_lost_call_def empty_world_def)
  have ok: "settings_ok empty_world" by (simp add: settings_ok_def empty_world_def row_ok_def mode_Valid_def whole_us_def)
  have "fst (run_state (UpdateSettings admin_actor prune_input) empty_world) = Inr ()" by code_simp
  then show ?thesis
    using settings_all_or_nothing [OF one ok prod.collapse [symmetric], of admin_actor prune_input]
    by (auto simp: saved_row_def prune_input_def)
qed

section \<open>The audit log\<close>

lemma log_grows_put_row: "within log_grows (put_row f)"
  unfolding put_row_def by (rule log_grows.within_io_call) (simp add: log_grows_same)

lemma log_grows_settings:
  "within log_grows sc_Get" "within log_grows (MarkRun t)" "within log_grows (SetLastRunSummary s)" "within log_grows (UpdateSettings a inp)"
proof -
  show get: "within log_grows sc_Get" unfolding sc_Get_def by (intro log_grows_rules)
  show "within log_grows (MarkRun t)" "within log_grows (SetLastRunSummary s)"
    unfolding MarkRun_def SetLastRunSummary_def by (intro log_grows_rules log_grows_exec; simp)+
  show "within log_grows (UpdateSettings a inp)"
    unfolding UpdateSettings_def sc_Update_def sc_Restore_def by (intro log_grows_rules log_grows_put_row get)
qed

end
