(* ===== verification/Instances.thy ===== *)
theory Instances
  imports Audit_Log
begin

text \<open>
  The running_instances table and its repository (internal/db/running_instances.go), and the lookup of
  a profile by id (internal/db/profiles.go). The lemmas give the effect of each statement and show what
  the lifecycle service relies on: the active-instance lookup fails exactly when the profile has no
  instance that is starting, running or stopping.
\<close>

definition isTerminalRunningInstanceStatus :: "instance_status \<Rightarrow> bool" where
  "isTerminalRunningInstanceStatus s \<longleftrightarrow> s = StatusStopped \<or> s = StatusFailed"

definition active_status :: "instance_status \<Rightarrow> bool" where
  "active_status s \<longleftrightarrow> s \<in> {StatusStarting, StatusRunning, StatusStopping}"

definition scanRunningInstance :: "running_instance option \<Rightarrow> running_instance res" where
  "scanRunningInstance row = (case row of None \<Rightarrow> Inl ErrRunningInstanceNotFound | Some i \<Rightarrow> Inr i)"

definition inst_scan_error :: "error \<Rightarrow> error" where
  "inst_scan_error e = (if e = ErrRunningInstanceNotFound then e else Wrap ''scan running instance'' e)"

text \<open>\<^verbatim>\<open>ORDER BY f DESC LIMIT 1\<close>; of rows with the same key the one inserted first.\<close>

definition latest_by :: "('r \<Rightarrow> int) \<Rightarrow> 'r list \<Rightarrow> 'r option" where
  "latest_by f rows = (case sort_key (\<lambda>r. - f r) rows of [] \<Rightarrow> None | r # _ \<Rightarrow> Some r)"

definition starting_instance :: "world \<Rightarrow> string \<Rightarrow> string \<Rightarrow> string option \<Rightarrow> running_instance" where
  "starting_instance w profileID primaryNodeID startedBy =
     \<lparr>inst_ID = db_uuid w, inst_ProfileID = profileID, inst_Status = StatusStarting,
      inst_PrimaryNodeID = primaryNodeID, inst_ActualPort = None, inst_StartedBy = startedBy,
      inst_StartedAt = db_now w, inst_StoppedAt = None, inst_HealthStatus = HealthUnknown,
      inst_LastHealthCheckAt = None, inst_HealthDetail = None, inst_ErrorMessage = None\<rparr>"

definition inst_Create :: "string \<Rightarrow> string \<Rightarrow> string option \<Rightarrow> running_instance res io" where
  "inst_Create profileID primaryNodeID startedBy =
     or_return
       (io_call (\<lambda>w.
          let i = starting_instance w profileID primaryNodeID startedBy in
          if inst_ID i \<in> inst_ID ` set (running_instances w) then (Inl ErrUniqueViolation, w)
          else (scanRunningInstance (Some i), w\<lparr>running_instances := running_instances w @ [i]\<rparr>)))
       (\<lambda>e. Wrap ''create running instance'' (inst_scan_error e)) ok"

definition inst_FindByID :: "string \<Rightarrow> running_instance res io" where
  "inst_FindByID i =
     or_return (query (\<lambda>w. scanRunningInstance (find_row inst_ID i (running_instances w)))) inst_scan_error ok"

definition is_hex_digit :: "char \<Rightarrow> bool" where
  "is_hex_digit c \<longleftrightarrow>
     CHR ''0'' \<le> c \<and> c \<le> CHR ''9'' \<or> CHR ''a'' \<le> c \<and> c \<le> CHR ''f'' \<or> CHR ''A'' \<le> c \<and> c \<le> CHR ''F''"

fun uuid_shape :: "nat \<Rightarrow> string \<Rightarrow> bool" where
  "uuid_shape i [] = True"
| "uuid_shape i (c # cs) =
     ((if i \<in> {8, 13, 18, 23} then c = CHR ''-'' else is_hex_digit c) \<and> uuid_shape (Suc i) cs)"

definition looksLikeUUID :: "string \<Rightarrow> bool" where
  "looksLikeUUID s \<longleftrightarrow> length s = 36 \<and> uuid_shape 0 s"

text \<open>Two texts that a uuid column reads as the same value.\<close>

definition same_uuid :: "string \<Rightarrow> string \<Rightarrow> bool" where
  "same_uuid a b \<longleftrightarrow> map fold_char a = map fold_char b"

definition inst_FindByIDs :: "string list \<Rightarrow> (string \<times> running_instance) list res io" where
  "inst_FindByIDs ids =
     (let valid = filter looksLikeUUID ids in
      if valid = [] then ok []
      else or_return
        (query (\<lambda>w. Inr (map (\<lambda>i. (inst_ID i, i))
           (filter (\<lambda>i. list_ex (same_uuid (inst_ID i)) valid) (running_instances w)))))
        (Wrap ''find running instances by id'') ok)"

definition inst_FindActiveByProfileID :: "string \<Rightarrow> running_instance res io" where
  "inst_FindActiveByProfileID profileID =
     or_return
       (query (\<lambda>w. scanRunningInstance (latest_by inst_StartedAt
          (filter (\<lambda>i. inst_ProfileID i = profileID \<and> active_status (inst_Status i)) (running_instances w)))))
       inst_scan_error ok"

definition inst_FindActiveByNode :: "string \<Rightarrow> running_instance res io" where
  "inst_FindActiveByNode nodeID =
     or_return
       (query (\<lambda>w. scanRunningInstance (latest_by inst_StartedAt
          (filter (\<lambda>i. inst_PrimaryNodeID i = nodeID \<and> inst_Status i = StatusRunning) (running_instances w)))))
       inst_scan_error ok"

definition inst_ListRunningByNode :: "string \<Rightarrow> running_instance list res io" where
  "inst_ListRunningByNode nodeID =
     or_return
       (query (\<lambda>w. Inr (sort_key inst_StartedAt
          (filter (\<lambda>i. inst_PrimaryNodeID i = nodeID \<and> inst_Status i = StatusRunning) (running_instances w)))))
       (Wrap ''list running instances for node'') ok"

text \<open>The row \<^verbatim>\<open>SetStatus\<close> writes; \<^verbatim>\<open>COALESCE\<close> keeps the port when none is given.\<close>

definition set_status ::
  "time \<Rightarrow> instance_status \<Rightarrow> int option \<Rightarrow> string option \<Rightarrow> running_instance \<Rightarrow> running_instance" where
  "set_status now status actualPort errorMessage i =
     (let j = i\<lparr>inst_Status := status,
                inst_ActualPort := (case actualPort of Some p \<Rightarrow> Some p | None \<Rightarrow> inst_ActualPort i),
                inst_ErrorMessage := errorMessage\<rparr>
      in if isTerminalRunningInstanceStatus status then j\<lparr>inst_StoppedAt := Some now\<rparr> else j)"

definition inst_SetStatus :: "string \<Rightarrow> instance_status \<Rightarrow> int option \<Rightarrow> string option \<Rightarrow> unit res io" where
  "inst_SetStatus i status actualPort errorMessage =
     or_return
       (exec (\<lambda>w. ((), w\<lparr>running_instances :=
          update_row inst_ID i (set_status (db_now w) status actualPort errorMessage) (running_instances w)\<rparr>)))
       (Wrap ''set status for running instance'') ok"

definition set_health ::
  "health_status \<Rightarrow> time \<Rightarrow> (string \<times> json) list option \<Rightarrow> running_instance \<Rightarrow> running_instance" where
  "set_health status checkedAt detail i =
     i\<lparr>inst_HealthStatus := status, inst_LastHealthCheckAt := Some checkedAt, inst_HealthDetail := detail\<rparr>"

definition inst_UpdateHealth ::
  "string \<Rightarrow> health_status \<Rightarrow> time \<Rightarrow> (string \<times> json) list option \<Rightarrow> unit res io" where
  "inst_UpdateHealth i status checkedAt detail =
     or_return
       (exec (\<lambda>w. ((), w\<lparr>running_instances :=
          update_row inst_ID i (set_health status checkedAt detail) (running_instances w)\<rparr>)))
       (Wrap ''update health for running instance'') ok"

definition inst_List :: "running_instance list res io" where
  "inst_List =
     or_return (query (\<lambda>w. Inr (sort_key (\<lambda>i. - inst_StartedAt i) (running_instances w))))
       (Wrap ''list running instances'') ok"

section \<open>Profiles\<close>

definition prof_FindByID :: "string \<Rightarrow> profile res io" where
  "prof_FindByID i =
     or_return
       (query (\<lambda>w. case find_row prof_ID i (model_profiles w) of None \<Rightarrow> Inl ErrProfileNotFound | Some p \<Rightarrow> Inr p))
       (\<lambda>e. if e = ErrProfileNotFound then e else Wrap ''scan model profile'' e) ok"

section \<open>What the statements do\<close>

lemma inst_ID_set_status [simp]: "inst_ID (set_status n s p e i) = inst_ID i"
  by (simp add: set_status_def Let_def)

lemma inst_ID_set_health [simp]: "inst_ID (set_health s c d i) = inst_ID i"
  by (simp add: set_health_def)

lemma inst_Status_set_status [simp]: "inst_Status (set_status n s p e i) = s"
  by (simp add: set_status_def Let_def)

lemma inst_fields_set_status [simp]:
  "inst_ProfileID (set_status n s p e i) = inst_ProfileID i"
  "inst_PrimaryNodeID (set_status n s p e i) = inst_PrimaryNodeID i"
  "inst_HealthStatus (set_status n s p e i) = inst_HealthStatus i"
  "inst_StartedBy (set_status n s p e i) = inst_StartedBy i"
  by (simp_all add: set_status_def Let_def)

lemma latest_by_None [simp]: "latest_by f rows = None \<longleftrightarrow> rows = []"
  by (cases "sort_key (\<lambda>r. - f r) rows") (auto simp: latest_by_def dest: arg_cong [where f = length])

lemma latest_by_Nil [simp]: "latest_by f [] = None"
  by simp

lemma latest_by_in: "latest_by f rows = Some r \<Longrightarrow> r \<in> set rows"
  by (cases "sort_key (\<lambda>r. - f r) rows") (auto simp: latest_by_def dest: arg_cong [where f = set])

lemma latest_by_max: "latest_by f rows = Some r \<Longrightarrow> s \<in> set rows \<Longrightarrow> f s \<le> f r"
proof -
  assume "latest_by f rows = Some r" and s: "s \<in> set rows"
  then obtain rest where sk: "sort_key (\<lambda>r. - f r) rows = r # rest"
    by (auto simp: latest_by_def split: list.splits)
  then have "s \<in> set (r # rest)" using s set_sort [of "\<lambda>r. - f r" rows] by simp
  moreover have "sorted (map (\<lambda>r. - f r) (r # rest))"
    using sorted_sort_key [of "\<lambda>r. - f r" rows] sk by simp
  ultimately show ?thesis by auto
qed

lemma run_inst_FindByID [run_simps]:
  "run_state (inst_FindByID i) w =
     (case faults w (tick w) of
        NoFault \<Rightarrow> scanRunningInstance (find_row inst_ID i (running_instances w))
      | Lost e \<Rightarrow> Inl (Wrap ''scan running instance'' (ErrIO e))
      | Ambiguous e \<Rightarrow> Inl (Wrap ''scan running instance'' (ErrIO e)),
      w\<lparr>tick := Suc (tick w)\<rparr>)"
  by (auto simp: inst_FindByID_def run_simps scanRunningInstance_def inst_scan_error_def
      split: fault.split option.split)

lemma run_prof_FindByID [run_simps]:
  "run_state (prof_FindByID i) w =
     (case faults w (tick w) of
        NoFault \<Rightarrow> (case find_row prof_ID i (model_profiles w) of None \<Rightarrow> Inl ErrProfileNotFound | Some p \<Rightarrow> Inr p)
      | Lost e \<Rightarrow> Inl (Wrap ''scan model profile'' (ErrIO e))
      | Ambiguous e \<Rightarrow> Inl (Wrap ''scan model profile'' (ErrIO e)),
      w\<lparr>tick := Suc (tick w)\<rparr>)"
  by (auto simp: prof_FindByID_def run_simps split: fault.split option.split)

lemma run_inst_FindActive [run_simps]:
  "run_state (inst_FindActiveByProfileID p) w =
     (case faults w (tick w) of
        NoFault \<Rightarrow> scanRunningInstance (latest_by inst_StartedAt
          (filter (\<lambda>i. inst_ProfileID i = p \<and> active_status (inst_Status i)) (running_instances w)))
      | Lost e \<Rightarrow> Inl (Wrap ''scan running instance'' (ErrIO e))
      | Ambiguous e \<Rightarrow> Inl (Wrap ''scan running instance'' (ErrIO e)),
      w\<lparr>tick := Suc (tick w)\<rparr>)"
  by (auto simp: inst_FindActiveByProfileID_def run_simps scanRunningInstance_def inst_scan_error_def
      split: fault.split option.split)

lemma run_inst_SetStatus [run_simps]:
  "run_state (inst_SetStatus i s p e) w =
     (let w1 = w\<lparr>tick := Suc (tick w)\<rparr>;
          w2 = w1\<lparr>running_instances :=
                 update_row inst_ID i (set_status (clock w (Suc (tick w))) s p e) (running_instances w)\<rparr> in
      case faults w (tick w) of
        NoFault \<Rightarrow> (Inr (), w2)
      | Lost m \<Rightarrow> (Inl (Wrap ''set status for running instance'' (ErrIO m)), w1)
      | Ambiguous m \<Rightarrow> (Inl (Wrap ''set status for running instance'' (ErrIO m)), w2))"
  by (simp add: inst_SetStatus_def run_simps db_now_def Let_def split: fault.split)

lemma run_inst_UpdateHealth [run_simps]:
  "run_state (inst_UpdateHealth i s c d) w =
     (let w1 = w\<lparr>tick := Suc (tick w)\<rparr>;
          w2 = w1\<lparr>running_instances := update_row inst_ID i (set_health s c d) (running_instances w)\<rparr> in
      case faults w (tick w) of
        NoFault \<Rightarrow> (Inr (), w2)
      | Lost m \<Rightarrow> (Inl (Wrap ''update health for running instance'' (ErrIO m)), w1)
      | Ambiguous m \<Rightarrow> (Inl (Wrap ''update health for running instance'' (ErrIO m)), w2))"
  by (simp add: inst_UpdateHealth_def run_simps Let_def split: fault.split)

text \<open>The profile's active instances; at most one is what the lifecycle service keeps.\<close>

definition active_of :: "string \<Rightarrow> world \<Rightarrow> running_instance list" where
  "active_of p w = filter (\<lambda>i. inst_ProfileID i = p \<and> active_status (inst_Status i)) (running_instances w)"

lemma FindActive_result:
  "fst (run_state (inst_FindActiveByProfileID p) w) = Inl ErrRunningInstanceNotFound \<longleftrightarrow>
     faults w (tick w) = NoFault \<and> active_of p w = []"
  by (auto simp: run_simps active_of_def scanRunningInstance_def split: fault.split option.split)

lemma log_grows_instances:
  "within log_grows (inst_FindByID i)" "within log_grows (inst_FindActiveByProfileID p)"
  "within log_grows (inst_ListRunningByNode n)" "within log_grows (inst_SetStatus i s q e)"
  "within log_grows (inst_UpdateHealth i h c d)" "within log_grows (inst_Create p n b)"
  "within log_grows (prof_FindByID i)" "within log_grows inst_List"
  unfolding inst_FindByID_def inst_FindActiveByProfileID_def inst_ListRunningByNode_def inst_SetStatus_def
    inst_UpdateHealth_def inst_Create_def prof_FindByID_def inst_List_def
  by (auto intro!: log_grows_rules log_grows_exec log_grows.within_io_call log_grows_same
      simp: Let_def split: if_split)

end
