(* ===== verification/Stale_Classify.thy ===== *)
theory Stale_Classify
  imports Schedule Instances
begin

text \<open>
  The rules that decide which containers may ever be removed (internal/stalecontainers/classify.go). The
  theorem says exactly when a container is stale, in the words of the package comment.
\<close>

datatype verdict = VerdictStale | VerdictRecent | VerdictLive | VerdictOrphanLive | VerdictOther

text \<open>A zero time is one the node did not know.\<close>

record container =
  c_InstanceID :: string
  c_ProfileID :: string
  c_ContainerID :: string
  c_ContainerName :: string
  c_State :: string
  c_Labelled :: bool
  c_ExitCode :: "int option"
  c_OOMKilled :: bool
  c_CreatedAt :: time
  c_FinishedAt :: time

record evaluation =
  ev_Verdict :: verdict
  ev_Reason :: string
  ev_StoppedAt :: time

definition containerRunning :: "string \<Rightarrow> bool" where
  "containerRunning state \<longleftrightarrow> state \<in> {''running'', ''paused'', ''restarting''}"

definition inst_status_string :: "instance_status \<Rightarrow> string" where
  "inst_status_string s =
     (case s of StatusStarting \<Rightarrow> ''starting'' | StatusRunning \<Rightarrow> ''running'' | StatusStopping \<Rightarrow> ''stopping''
      | StatusStopped \<Rightarrow> ''stopped'' | StatusFailed \<Rightarrow> ''failed'')"

definition humanDuration :: "int \<Rightarrow> string" where
  "humanDuration d0 =
     (let d = (if d0 < 0 then 0 else d0) in
      if d \<ge> 48 * hour then int_digits (d div (24 * hour)) @ '' days''
      else if d \<ge> 2 * hour then int_digits (d div hour) @ '' hours''
      else if d \<ge> hour then ''1 hour''
      else if d \<ge> 2 * minute then int_digits (d div minute) @ '' minutes''
      else if d \<ge> minute then ''1 minute''
      else ''less than a minute'')"

text \<open>The moment the container is aged from.\<close>

definition stopped_at :: "container \<Rightarrow> running_instance option \<Rightarrow> time" where
  "stopped_at c inst =
     (let t1 = c_FinishedAt c;
          t2 = (if IsZero t1 then (case inst of Some i \<Rightarrow> (case inst_StoppedAt i of Some t \<Rightarrow> t | None \<Rightarrow> t1) | None \<Rightarrow> t1) else t1)
      in if IsZero t2 then c_CreatedAt c else t2)"

definition verdict_only :: "verdict \<Rightarrow> string \<Rightarrow> evaluation" where
  "verdict_only v why = \<lparr>ev_Verdict = v, ev_Reason = why, ev_StoppedAt = 0\<rparr>"

text \<open>The last part of \<^verbatim>\<open>Classify\<close>, from the container's age on.\<close>

definition by_age :: "time \<Rightarrow> time \<Rightarrow> int \<Rightarrow> evaluation" where
  "by_age stoppedAt now minAge =
     (if IsZero stoppedAt then verdict_only VerdictRecent ''when it stopped is not known''
      else let age = Sub now stoppedAt in
        if age < minAge
        then \<lparr>ev_Verdict = VerdictRecent,
              ev_Reason = ''stopped '' @ humanDuration age @ '' ago, less than the '' @ humanDuration minAge @ '' minimum'',
              ev_StoppedAt = stoppedAt\<rparr>
        else \<lparr>ev_Verdict = VerdictStale, ev_Reason = ''its instance is over and it has been stopped long enough'',
              ev_StoppedAt = stoppedAt\<rparr>)"

definition by_state :: "container \<Rightarrow> running_instance option \<Rightarrow> time \<Rightarrow> int \<Rightarrow> evaluation" where
  "by_state c inst now minAge =
     (if c_State c = ''exited'' then by_age (stopped_at c inst) now minAge
      else if c_State c = ''dead'' \<or> c_State c = ''created'' then
        if \<not> c_Labelled c
        then verdict_only VerdictOther (''an unlabelled container is removed only once it has exited, and this one is '' @ c_State c)
        else by_age (stopped_at c inst) now minAge
      else verdict_only VerdictOther (''the container is '' @ c_State c))"

definition Classify :: "string \<Rightarrow> container \<Rightarrow> running_instance option \<Rightarrow> time \<Rightarrow> int \<Rightarrow> evaluation" where
  "Classify nodeID c inst now minAge =
     (if containerRunning (c_State c) then
        (case inst of
           None \<Rightarrow> verdict_only VerdictOrphanLive (''the container is '' @ c_State c @ '' and Sparky has no record of its instance'')
         | Some _ \<Rightarrow> verdict_only VerdictLive (''the container is '' @ c_State c))
      else case inst of
        None \<Rightarrow> by_state c inst now minAge
      | Some i \<Rightarrow>
          if inst_Status i \<in> {StatusStarting, StatusRunning, StatusStopping}
          then verdict_only VerdictLive (''its instance is '' @ inst_status_string (inst_Status i) @ ''; Unload it from the Dashboard to clear it'')
          else if inst_PrimaryNodeID i \<noteq> nodeID then verdict_only VerdictOther ''its instance record belongs to a different node''
          else by_state c inst now minAge)"

section \<open>What is stale\<close>

text \<open>The instance is over, as far as this node's record says.\<close>

definition instance_over :: "string \<Rightarrow> running_instance option \<Rightarrow> bool" where
  "instance_over nodeID inst \<longleftrightarrow>
     (case inst of None \<Rightarrow> True
      | Some i \<Rightarrow> isTerminalRunningInstanceStatus (inst_Status i) \<and> inst_PrimaryNodeID i = nodeID)"

definition removable_state :: "container \<Rightarrow> bool" where
  "removable_state c \<longleftrightarrow> c_State c = ''exited'' \<or> c_Labelled c \<and> (c_State c = ''dead'' \<or> c_State c = ''created'')"

definition old_enough :: "container \<Rightarrow> running_instance option \<Rightarrow> time \<Rightarrow> int \<Rightarrow> bool" where
  "old_enough c inst now minAge \<longleftrightarrow> stopped_at c inst \<noteq> 0 \<and> minAge \<le> now - stopped_at c inst"

lemma Sub_ge: "in_int64 d \<Longrightarrow> d \<noteq> - (2 ^ 63) \<Longrightarrow> d \<le> Sub t u \<longleftrightarrow> d \<le> t - u"
  by (auto simp: Sub_def in_int64_def)

lemma by_age_stale:
  "0 \<le> minAge \<Longrightarrow> in_int64 minAge \<Longrightarrow>
   ev_Verdict (by_age t now minAge) = VerdictStale \<longleftrightarrow> t \<noteq> 0 \<and> minAge \<le> now - t"
  using Sub_ge [of minAge now t] by (auto simp: by_age_def verdict_only_def IsZero_def Let_def not_less [symmetric])

lemma terminal_iff: "isTerminalRunningInstanceStatus s \<longleftrightarrow> s \<noteq> StatusStarting \<and> s \<noteq> StatusRunning \<and> s \<noteq> StatusStopping"
  by (cases s) (auto simp: isTerminalRunningInstanceStatus_def)

lemma Classify_stale:
  assumes "0 \<le> minAge" "in_int64 minAge"
  shows "ev_Verdict (Classify n c inst now minAge) = VerdictStale \<longleftrightarrow>
     removable_state c \<and> instance_over n inst \<and> old_enough c inst now minAge"
proof -
  have state: "ev_Verdict (by_state c inst now minAge) = VerdictStale \<longleftrightarrow> removable_state c \<and> old_enough c inst now minAge" for inst
    using by_age_stale [OF assms] by (auto simp: by_state_def removable_state_def old_enough_def verdict_only_def)
  have running: "containerRunning (c_State c) \<Longrightarrow> \<not> removable_state c"
    by (auto simp: containerRunning_def removable_state_def)
  show ?thesis
    using state [of inst] running
    by (auto simp: Classify_def instance_over_def terminal_iff verdict_only_def split: option.split)
qed

text \<open>
  C27. A container is stale exactly when all of these hold: it has exited, or is dead or merely created and
  carries Sparky's label; its instance has no record, or the record says stopped or failed on this very node;
  and when it stopped is known and at least the minimum age ago. So a container that is running, paused or
  restarting is never stale whatever the database says, nor is one whose instance is starting, running or
  stopping; and with the same container and record a verdict of stale is kept as time passes.
\<close>

theorem stale_exactly_when:
  assumes "0 \<le> minAge" "in_int64 minAge"
  shows "(ev_Verdict (Classify n c inst now minAge) = VerdictStale \<longleftrightarrow>
            removable_state c \<and> instance_over n inst \<and> old_enough c inst now minAge)
    \<and> (containerRunning (c_State c) \<longrightarrow> ev_Verdict (Classify n c inst now minAge) \<in> {VerdictLive, VerdictOrphanLive})
    \<and> (\<forall>i. inst = Some i \<longrightarrow> active_status (inst_Status i) \<longrightarrow> ev_Verdict (Classify n c inst now minAge) = VerdictLive)
    \<and> (ev_Verdict (Classify n c inst now minAge) = VerdictStale \<longrightarrow> now \<le> later \<longrightarrow>
         ev_Verdict (Classify n c inst later minAge) = VerdictStale)"
proof -
  have "ev_Verdict (Classify n c inst now minAge) \<in> {VerdictLive, VerdictOrphanLive}" if "containerRunning (c_State c)"
    using that by (simp add: Classify_def verdict_only_def split: option.split)
  moreover have "ev_Verdict (Classify n c (Some i) now minAge) = VerdictLive" if "active_status (inst_Status i)" for i
    using that by (auto simp: Classify_def verdict_only_def active_status_def)
  ultimately show ?thesis unfolding Classify_stale [OF assms] by (auto simp: old_enough_def)
qed

definition crashed :: container where
  "crashed = \<lparr>c_InstanceID = uuid_of 7, c_ProfileID = uuid_of 8, c_ContainerID = ''3f2a'', c_ContainerName = ''sparky-qwen'',
     c_State = ''exited'', c_Labelled = True, c_ExitCode = Some 137, c_OOMKilled = True, c_CreatedAt = 1000 * hour, c_FinishedAt = 1001 * hour\<rparr>"

theorem stale_exactly_when_witness:
  "ev_Verdict (Classify (uuid_of 1) crashed None (1025 * hour) (24 * hour)) = VerdictStale
   \<and> ev_Verdict (Classify (uuid_of 1) (crashed\<lparr>c_State := ''running''\<rparr>) None (1025 * hour) (24 * hour)) \<in> {VerdictLive, VerdictOrphanLive}"
proof -
  have d: "(0::int) \<le> 24 * hour" "in_int64 (24 * hour)" by (simp_all add: in_int64_def)
  show ?thesis
    using stale_exactly_when [OF d, of "uuid_of 1" crashed None "1025 * hour" "1025 * hour"]
      stale_exactly_when [OF d, of "uuid_of 1" "crashed\<lparr>c_State := ''running''\<rparr>" None "1025 * hour" "1025 * hour"]
    by (simp add: crashed_def removable_state_def instance_over_def old_enough_def stopped_at_def IsZero_def containerRunning_def)
qed

end
