(* ===== verification/Transfers_Repo.thy ===== *)
theory Transfers_Repo
  imports Audit_Log
begin

text \<open>
  The model_transfers table (internal/db/transfers.go), the inventory of models on nodes
  (internal/db/node_model_inventory.go) and the granted permission overrides (internal/db/permission_overrides.go),
  one definition per statement. The lemmas say which row a statement can change.
\<close>

section \<open>Transfers\<close>

definition isTerminalTransferStatus :: "transfer_status \<Rightarrow> bool" where
  "isTerminalTransferStatus s \<longleftrightarrow> s = TransferCompleted \<or> s = TransferFailed \<or> s = TransferCancelled"

definition scanModelTransfer :: "model_transfer option \<Rightarrow> model_transfer res" where
  "scanModelTransfer row = (case row of None \<Rightarrow> Inl ErrModelTransferNotFound | Some t \<Rightarrow> Inr t)"

definition mt_scan_error :: "error \<Rightarrow> error" where
  "mt_scan_error e = (if e = ErrModelTransferNotFound then e else Wrap ''scan model transfer'' e)"

definition queued_transfer :: "world \<Rightarrow> string \<Rightarrow> string \<Rightarrow> transfer_source_type \<Rightarrow> string option \<Rightarrow> string option \<Rightarrow> string option \<Rightarrow> model_transfer" where
  "queued_transfer w destNodeID modelRef sourceType sourceNodeID quantization requestedBy =
     \<lparr>mt_ID = db_uuid w, mt_DestNodeID = destNodeID, mt_ModelRef = modelRef, mt_SourceType = sourceType,
      mt_SourceNodeID = sourceNodeID, mt_Status = TransferQueued, mt_BytesTransferred = 0, mt_BytesTotal = 0,
      mt_Quantization = quantization, mt_RequestedBy = requestedBy, mt_RequestedAt = db_now w, mt_CompletedAt = None,
      mt_ErrorMessage = None, mt_SourceInterface = None, mt_Format = None\<rparr>"

definition mt_Create ::
  "string \<Rightarrow> string \<Rightarrow> transfer_source_type \<Rightarrow> string option \<Rightarrow> string option \<Rightarrow> string option \<Rightarrow> model_transfer res io" where
  "mt_Create destNodeID modelRef sourceType sourceNodeID quantization requestedBy =
     or_return
       (io_call (\<lambda>w.
          let t = queued_transfer w destNodeID modelRef sourceType sourceNodeID quantization requestedBy in
          if (case sourceType of SourceOther _ \<Rightarrow> True | _ \<Rightarrow> False) then (Inl ErrInvalidEnum, w)
          else if mt_ID t \<in> mt_ID ` set (model_transfers w) then (Inl ErrUniqueViolation, w)
          else (scanModelTransfer (Some t), w\<lparr>model_transfers := model_transfers w @ [t]\<rparr>)))
       (\<lambda>e. Wrap ''create model transfer'' (mt_scan_error e)) ok"

definition mt_FindByID :: "string \<Rightarrow> model_transfer res io" where
  "mt_FindByID i = or_return (query (\<lambda>w. scanModelTransfer (find_row mt_ID i (model_transfers w)))) mt_scan_error ok"

text \<open>An update of the transfer with an id; an unknown id updates no row and is not an error.\<close>

definition update_transfer :: "string \<Rightarrow> (world \<Rightarrow> model_transfer \<Rightarrow> model_transfer) \<Rightarrow> unit res io" where
  "update_transfer i f = exec (\<lambda>w. ((), w\<lparr>model_transfers := update_row mt_ID i (f w) (model_transfers w)\<rparr>))"

definition mt_UpdateProgress :: "string \<Rightarrow> int \<Rightarrow> int \<Rightarrow> unit res io" where
  "mt_UpdateProgress i bytesTransferred bytesTotal =
     or_return (update_transfer i (\<lambda>_ t. t\<lparr>mt_BytesTransferred := bytesTransferred, mt_BytesTotal := bytesTotal\<rparr>))
       (Wrap (''update model transfer progress for '' @ i)) ok"

definition mt_SetSourceInterface :: "string \<Rightarrow> string option \<Rightarrow> unit res io" where
  "mt_SetSourceInterface i interfaceName =
     or_return (update_transfer i (\<lambda>_ t. t\<lparr>mt_SourceInterface := interfaceName\<rparr>))
       (Wrap (''set source interface for model transfer '' @ i)) ok"

text \<open>A value outside a column's enumeration is refused by the database.\<close>

definition mt_SetFormat :: "string \<Rightarrow> model_format option \<Rightarrow> unit res io" where
  "mt_SetFormat i format =
     or_return
       (if (case format of Some (FormatOther _) \<Rightarrow> True | _ \<Rightarrow> False) then query (\<lambda>_. Inl ErrInvalidEnum)
        else update_transfer i (\<lambda>_ t. t\<lparr>mt_Format := format\<rparr>))
       (Wrap (''set format for model transfer '' @ i)) ok"

definition set_transfer_status :: "time \<Rightarrow> transfer_status \<Rightarrow> string option \<Rightarrow> model_transfer \<Rightarrow> model_transfer" where
  "set_transfer_status now status msg t =
     (if isTerminalTransferStatus status
      then t\<lparr>mt_Status := status, mt_ErrorMessage := msg, mt_CompletedAt := Some now\<rparr>
      else t\<lparr>mt_Status := status, mt_ErrorMessage := msg\<rparr>)"

definition mt_SetStatus :: "string \<Rightarrow> transfer_status \<Rightarrow> string option \<Rightarrow> unit res io" where
  "mt_SetStatus i status msg =
     or_return
       (if (case status of TransferOther _ \<Rightarrow> True | _ \<Rightarrow> False) then query (\<lambda>_. Inl ErrInvalidEnum)
        else update_transfer i (\<lambda>w. set_transfer_status (db_now w) status msg))
       (Wrap (''set status for model transfer '' @ i)) ok"

definition mt_List :: "model_transfer list res io" where
  "mt_List =
     or_return (query (\<lambda>w. Inr (sort_key (\<lambda>t. - mt_RequestedAt t) (model_transfers w)))) (Wrap ''list model transfers'') ok"

definition mt_ListByDestNode :: "string \<Rightarrow> model_transfer list res io" where
  "mt_ListByDestNode n =
     or_return
       (query (\<lambda>w. Inr (sort_key (\<lambda>t. - mt_RequestedAt t) (filter (\<lambda>t. mt_DestNodeID t = n) (model_transfers w)))))
       (Wrap (''list model transfers for node '' @ n)) ok"

section \<open>Models on nodes\<close>

type_synonym inventory_key = "string \<times> string \<times> string \<times> model_format"

definition inv_key :: "model_inventory \<Rightarrow> inventory_key" where
  "inv_key i = (mi_NodeID i, mi_ModelRef i, mi_Quantization i, mi_Format i)"

definition scanNodeModelInventory :: "model_inventory option \<Rightarrow> model_inventory res" where
  "scanNodeModelInventory row = (case row of None \<Rightarrow> Inl ErrNodeModelInventoryNotFound | Some i \<Rightarrow> Inr i)"

definition inv_scan_error :: "error \<Rightarrow> error" where
  "inv_scan_error e = (if e = ErrNodeModelInventoryNotFound then e else Wrap ''scan node model inventory'' e)"

text \<open>\<^verbatim>\<open>INSERT ... ON CONFLICT (node_id, model_ref, quantization, format) DO UPDATE\<close>.\<close>

definition placed :: "time \<Rightarrow> inventory_key \<Rightarrow> inventory_status \<Rightarrow> int \<Rightarrow> string \<Rightarrow> model_inventory" where
  "placed now k status sizeBytes placedVia =
     (case k of (n, m, q, f) \<Rightarrow>
        \<lparr>mi_NodeID = n, mi_ModelRef = m, mi_Quantization = q, mi_Format = f, mi_Status = status, mi_SizeBytes = sizeBytes,
         mi_PlacedAt = now, mi_PlacedVia = placedVia\<rparr>)"

definition upsert_row :: "('r \<Rightarrow> 'k) \<Rightarrow> 'r \<Rightarrow> 'r list \<Rightarrow> 'r list" where
  "upsert_row key r t = (if key r \<in> key ` set t then update_row key (key r) (\<lambda>_. r) t else t @ [r])"

text \<open>A format outside the column's enumeration is refused by the database.\<close>

definition bad_format :: "inventory_key \<Rightarrow> bool" where
  "bad_format k = (case k of (_, _, _, FormatOther _) \<Rightarrow> True | _ \<Rightarrow> False)"

definition inv_Upsert :: "inventory_key \<Rightarrow> inventory_status \<Rightarrow> int \<Rightarrow> string \<Rightarrow> model_inventory res io" where
  "inv_Upsert k status sizeBytes placedVia =
     or_return
       (io_call (\<lambda>w.
          if bad_format k then (Inl ErrInvalidEnum, w)
          else let r = placed (db_now w) k status sizeBytes placedVia in
            (scanNodeModelInventory (Some r), w\<lparr>node_model_inventory := upsert_row inv_key r (node_model_inventory w)\<rparr>)))
       (\<lambda>e. Wrap ''upsert node model inventory'' (inv_scan_error e)) ok"

definition inv_Get :: "inventory_key \<Rightarrow> model_inventory res io" where
  "inv_Get k =
     or_return
       (query (\<lambda>w. if bad_format k then Inl ErrInvalidEnum else scanNodeModelInventory (find_row inv_key k (node_model_inventory w))))
       inv_scan_error ok"

definition inv_ListByNode :: "string \<Rightarrow> model_inventory list res io" where
  "inv_ListByNode n =
     or_return (query (\<lambda>w. Inr (sort_key mi_ModelRef (filter (\<lambda>i. mi_NodeID i = n) (node_model_inventory w)))))
       (Wrap (''list node model inventory for node '' @ n)) ok"

definition format_string :: "model_format \<Rightarrow> string" where
  "format_string f = (case f of FormatSafetensors \<Rightarrow> ''safetensors'' | FormatGGUF \<Rightarrow> ''gguf'' | FormatOther s \<Rightarrow> s)"

text \<open>The order of the enumeration is safetensors, gguf.\<close>

definition format_rank :: "model_format \<Rightarrow> nat" where
  "format_rank f = (case f of FormatSafetensors \<Rightarrow> 0 | FormatGGUF \<Rightarrow> 1 | FormatOther _ \<Rightarrow> 2)"

definition inv_List :: "model_inventory list res io" where
  "inv_List =
     or_return
       (query (\<lambda>w. Inr (sort_key mi_ModelRef (sort_key mi_Quantization (sort_key (\<lambda>i. format_rank (mi_Format i))
          (sort_key mi_NodeID (node_model_inventory w)))))))
       (Wrap ''list node model inventory'') ok"

definition inv_SetStatus :: "inventory_key \<Rightarrow> inventory_status \<Rightarrow> unit res io" where
  "inv_SetStatus k status =
     or_return
       (if bad_format k then query (\<lambda>_. Inl ErrInvalidEnum)
        else exec (\<lambda>w. (k \<in> inv_key ` set (node_model_inventory w),
          w\<lparr>node_model_inventory := update_row inv_key k (\<lambda>i. i\<lparr>mi_Status := status\<rparr>) (node_model_inventory w)\<rparr>)))
       (Wrap ''set node model inventory status'')
       (\<lambda>affected. if affected then ok () else fail ErrNodeModelInventoryNotFound)"

section \<open>Permission overrides\<close>

definition po_key :: "permission_override \<Rightarrow> string \<times> capability" where
  "po_key p = (po_UserID p, po_Capability p)"

definition scanPermissionOverride :: "permission_override option \<Rightarrow> permission_override res" where
  "scanPermissionOverride row = (case row of None \<Rightarrow> Inl ErrPermissionOverrideNotFound | Some p \<Rightarrow> Inr p)"

definition po_scan_error :: "error \<Rightarrow> error" where
  "po_scan_error e = (if e = ErrPermissionOverrideNotFound then e else Wrap ''scan permission override'' e)"

definition po_Get :: "string \<Rightarrow> capability \<Rightarrow> permission_override res io" where
  "po_Get u c = or_return (query (\<lambda>w. scanPermissionOverride (find_row po_key (u, c) (permission_overrides w)))) po_scan_error ok"

definition po_Grant :: "string \<Rightarrow> capability \<Rightarrow> string \<Rightarrow> permission_override res io" where
  "po_Grant u c grantedBy =
     or_return
       (io_call (\<lambda>w.
          let p = \<lparr>po_UserID = u, po_Capability = c, po_GrantedBy = grantedBy, po_GrantedAt = db_now w\<rparr> in
          (scanPermissionOverride (Some p), w\<lparr>permission_overrides := upsert_row po_key p (permission_overrides w)\<rparr>)))
       (\<lambda>e. Wrap ''grant permission override'' (po_scan_error e)) ok"

definition po_Revoke :: "string \<Rightarrow> capability \<Rightarrow> unit res io" where
  "po_Revoke u c =
     or_return (exec (\<lambda>w. ((), w\<lparr>permission_overrides := filter (\<lambda>p. po_key p \<noteq> (u, c)) (permission_overrides w)\<rparr>)))
       (Wrap ''revoke permission override'') ok"

section \<open>Which rows a statement changes\<close>

lemma find_upsert:
  "find_row key k (upsert_row key r t) = (if k = key r then Some r else find_row key k t)"
proof (cases "key r \<in> key ` set t")
  case True
  then have "find_row key (key r) (update_row key (key r) (\<lambda>_. r) t) = Some r" by (induction t) auto
  moreover have "k \<noteq> key r \<Longrightarrow> find_row key k (update_row key (key r) (\<lambda>_. r) t) = find_row key k t" by (induction t) auto
  ultimately show ?thesis using True by (auto simp: upsert_row_def)
next
  case False
  then show ?thesis using find_row_None_iff [of key "key r" t]
    by (auto simp: upsert_row_def find_row_append split: option.split)
qed

lemma upsert_key: "primary_key key t \<Longrightarrow> primary_key key (upsert_row key r t)"
proof -
  assume "primary_key key t"
  moreover have "map key (update_row key (key r) (\<lambda>_. r) t) = map key t" by (induction t) auto
  ultimately show ?thesis by (auto simp: upsert_row_def primary_key_def)
qed

lemma set_transfer_status_fields [simp]:
  "mt_ID (set_transfer_status now s m t) = mt_ID t" "mt_Status (set_transfer_status now s m t) = s"
  "mt_DestNodeID (set_transfer_status now s m t) = mt_DestNodeID t" "mt_SourceNodeID (set_transfer_status now s m t) = mt_SourceNodeID t"
  by (simp_all add: set_transfer_status_def)

text \<open>What a transfer is about; no statement changes it.\<close>

definition transfer_job :: "model_transfer \<Rightarrow> string \<times> string \<times> transfer_source_type \<times> string option \<times> string option \<times> string option \<times> time" where
  "transfer_job t = (mt_DestNodeID t, mt_ModelRef t, mt_SourceType t, mt_SourceNodeID t, mt_Quantization t, mt_RequestedBy t, mt_RequestedAt t)"

text \<open>
  Only the row with this id may have changed, and not what it is about; the others, whose ids stay unique, are as
  they were.
\<close>

definition only_transfer :: "string \<Rightarrow> world \<Rightarrow> world \<Rightarrow> bool" where
  "only_transfer i w w' \<longleftrightarrow>
     (\<forall>j. j \<noteq> i \<longrightarrow> find_row mt_ID j (model_transfers w') = find_row mt_ID j (model_transfers w)) \<and>
     map_option transfer_job (find_row mt_ID i (model_transfers w')) = map_option transfer_job (find_row mt_ID i (model_transfers w)) \<and>
     (primary_key mt_ID (model_transfers w) \<longrightarrow> primary_key mt_ID (model_transfers w'))"

interpretation only_transfer: db_step_rel "only_transfer i" for i
  by unfold_locales (auto simp: only_transfer_def)

lemma only_transfer_same: "model_transfers w' = model_transfers w \<Longrightarrow> only_transfer i w w'"
  by (simp add: only_transfer_def)

lemma only_update_transfer:
  assumes "\<And>w t. mt_ID (f w t) = mt_ID t \<and> transfer_job (f w t) = transfer_job t"
  shows "within (only_transfer i) (update_transfer i f)"
  unfolding update_transfer_def
  by (rule only_transfer.within_exec)
    (simp add: only_transfer_def pk_table.fnd_upd pk_table.pk_upd assms option.map_comp comp_def)

lemma only_transfer_writes:
  "within (only_transfer i) (mt_UpdateProgress i a b)" "within (only_transfer i) (mt_SetSourceInterface i nm)"
  "within (only_transfer i) (mt_SetFormat i f)" "within (only_transfer i) (mt_SetStatus i s m)"
  unfolding mt_UpdateProgress_def mt_SetSourceInterface_def mt_SetFormat_def mt_SetStatus_def
  by (intro only_transfer.db_within_rules only_update_transfer; simp add: transfer_job_def set_transfer_status_def)+

lemma run_mt_Create:
  assumes "run_state (mt_Create d m s sn q r) w = (res, w')"
  shows "case res of
      Inr t \<Rightarrow> (\<exists>v. t = queued_transfer v d m s sn q r \<and> model_transfers w' = model_transfers w @ [t]) \<and> mt_ID t \<notin> mt_ID ` set (model_transfers w)
    | Inl e \<Rightarrow> model_transfers w' = model_transfers w \<or>
        (\<exists>t. model_transfers w' = model_transfers w @ [t] \<and> mt_ID t \<notin> mt_ID ` set (model_transfers w) \<and> mt_Status t = TransferQueued)"
  using assms by (auto simp: mt_Create_def run_simps Let_def scanModelTransfer_def queued_transfer_def split: if_splits fault.splits sum.splits)

lemma log_grows_transfers_repo:
  "within log_grows (mt_Create d m s sn q r)" "within log_grows (mt_FindByID i)" "within log_grows (mt_UpdateProgress i a b)"
  "within log_grows (mt_SetSourceInterface i nm)" "within log_grows (mt_SetFormat i f)" "within log_grows (mt_SetStatus i st msg)"
  "within log_grows mt_List" "within log_grows (inv_Upsert k is sz v)" "within log_grows (inv_Get k)" "within log_grows (po_Get u c)"
  unfolding mt_Create_def mt_FindByID_def mt_UpdateProgress_def mt_SetSourceInterface_def mt_SetFormat_def mt_SetStatus_def
    update_transfer_def mt_List_def inv_Upsert_def inv_Get_def po_Get_def
  by (intro log_grows_rules log_grows_exec log_grows.within_io_call; simp add: log_grows_same Let_def)+

end
