(* ===== verification/Nodes_Repo.thy ===== *)
theory Nodes_Repo
  imports Audit_Log
begin

text \<open>
  The nodes table (internal/db/nodes.go) and the reported network interfaces
  (internal/db/node_network_interfaces.go): one definition per statement, with the unique name and the foreign
  key of the interfaces. A name and an id name at most one node in every reachable table.
\<close>

definition scanNode :: "node_credential option \<Rightarrow> node res" where
  "scanNode row = (case row of None \<Rightarrow> Inl ErrNodeNotFound | Some c \<Rightarrow> Inr (cred_Node c))"

definition node_scan_error :: "error \<Rightarrow> error" where
  "node_scan_error e = (if e = ErrNodeNotFound then e else Wrap ''scan node'' e)"

definition cred_id :: "node_credential \<Rightarrow> string" where "cred_id c = node_ID (cred_Node c)"
definition cred_name :: "node_credential \<Rightarrow> string" where "cred_name c = node_Name (cred_Node c)"

record node_registration =
  reg_Name :: string
  reg_Hostname :: string
  reg_IPAddress :: string
  reg_RuntimeBackend :: runtime_backend
  reg_GPUMemoryGB :: float64
  reg_CPUMemoryGB :: float64

definition new_node :: "world \<Rightarrow> node_registration \<Rightarrow> string option \<Rightarrow> node" where
  "new_node w p by =
     \<lparr>node_ID = db_uuid w, node_Name = reg_Name p, node_Hostname = reg_Hostname p, node_IPAddress = reg_IPAddress p,
      node_RuntimeBackend = reg_RuntimeBackend p, node_GPUMemoryGB = reg_GPUMemoryGB p, node_CPUMemoryGB = reg_CPUMemoryGB p,
      node_AgentStatus = AgentOffline, node_LastHeartbeatAt = None, node_RegisteredBy = by, node_RegisteredAt = db_now w,
      node_SSHPublicKey = None, node_SSHHostPublicKey = None, node_DefaultTransferInterface = None,
      node_Comment = None, node_CommentUpdatedBy = None, node_CommentUpdatedAt = None\<rparr>"

definition node_Create :: "node_registration \<Rightarrow> string option \<Rightarrow> string \<Rightarrow> node res io" where
  "node_Create p registeredBy bearerTokenHash =
     or_return
       (io_call (\<lambda>w.
          let n = new_node w p registeredBy in
          if (case reg_RuntimeBackend p of BackendOther _ \<Rightarrow> True | _ \<Rightarrow> False) then (Inl ErrInvalidEnum, w)
          else if node_ID n \<in> cred_id ` set (nodes w) \<or> node_Name n \<in> cred_name ` set (nodes w) then (Inl ErrUniqueViolation, w)
          else (Inr n, w\<lparr>nodes := nodes w @ [\<lparr>cred_Node = n, cred_BearerTokenHash = bearerTokenHash\<rparr>]\<rparr>)))
       (\<lambda>e. Wrap ''create node'' (node_scan_error e)) ok"

definition node_FindByID :: "string \<Rightarrow> node res io" where
  "node_FindByID i = or_return (query (\<lambda>w. scanNode (find_row cred_id i (nodes w)))) node_scan_error ok"

definition FindCredentialByName :: "string \<Rightarrow> node_credential res io" where
  "FindCredentialByName name =
     or_return
       (query (\<lambda>w. case find_row cred_name name (nodes w) of None \<Rightarrow> Inl ErrNodeNotFound | Some c \<Rightarrow> Inr c))
       (\<lambda>e. if e = ErrNodeNotFound then e else Wrap ''find node credential'' e) ok"

text \<open>An update of the node with an id; an unknown id updates no row and is not an error.\<close>

definition update_node :: "string \<Rightarrow> (world \<Rightarrow> node \<Rightarrow> node) \<Rightarrow> unit res io" where
  "update_node i f =
     exec (\<lambda>w. ((), w\<lparr>nodes := update_row cred_id i (\<lambda>c. c\<lparr>cred_Node := f w (cred_Node c)\<rparr>) (nodes w)\<rparr>))"

definition SetAgentStatus :: "string \<Rightarrow> agent_status \<Rightarrow> bool \<Rightarrow> unit res io" where
  "SetAgentStatus i status bumpHeartbeat =
     or_return
       (update_node i (\<lambda>w n.
          if bumpHeartbeat then n\<lparr>node_AgentStatus := status, node_LastHeartbeatAt := Some (db_now w)\<rparr>
          else n\<lparr>node_AgentStatus := status\<rparr>))
       (Wrap (''set agent status for node '' @ i)) ok"

definition node_List :: "node list res io" where
  "node_List =
     or_return (query (\<lambda>w. Inr (map cred_Node (sort_key cred_name (nodes w))))) (Wrap ''list nodes'') ok"

definition UpdateSSHIdentity :: "string \<Rightarrow> string option \<Rightarrow> string option \<Rightarrow> unit res io" where
  "UpdateSSHIdentity i key hostKey =
     or_return (update_node i (\<lambda>_ n. n\<lparr>node_SSHPublicKey := key, node_SSHHostPublicKey := hostKey\<rparr>))
       (Wrap (''update SSH identity for node '' @ i)) ok"

definition repo_SetDefaultTransferInterface :: "string \<Rightarrow> string option \<Rightarrow> unit res io" where
  "repo_SetDefaultTransferInterface i name =
     or_return (update_node i (\<lambda>_ n. n\<lparr>node_DefaultTransferInterface := name\<rparr>))
       (Wrap (''set default transfer interface for node '' @ i)) ok"

definition repo_SetComment :: "string \<Rightarrow> string option \<Rightarrow> string option \<Rightarrow> time \<Rightarrow> unit res io" where
  "repo_SetComment i comment updatedBy updatedAt =
     or_return
       (update_node i (\<lambda>_ n. n\<lparr>node_Comment := comment, node_CommentUpdatedBy := updatedBy, node_CommentUpdatedAt := Some updatedAt\<rparr>))
       (Wrap (''set comment for node '' @ i)) ok"

section \<open>Network interfaces\<close>

text \<open>
  \<^verbatim>\<open>ReplaceForNode\<close> runs in one transaction: every statement can fail, and nothing is stored before the
  commit. The table's key is the node and the interface name, and the node must exist.
\<close>

fun insert_interfaces :: "node_interface list \<Rightarrow> string list \<Rightarrow> unit res io" where
  "insert_interfaces [] seen = ok ()"
| "insert_interfaces (i # is) seen =
     or_return
       (query (\<lambda>w. if ni_InterfaceName i \<in> set seen then Inl ErrUniqueViolation
                   else if ni_NodeID i \<notin> cred_id ` set (nodes w) then Inl (ErrIO ''foreign key'') else Inr ()))
       (\<lambda>e. e) (\<lambda>_. insert_interfaces is (ni_InterfaceName i # seen))"

definition ReplaceForNode :: "string \<Rightarrow> node_interface list \<Rightarrow> unit res io" where
  "ReplaceForNode i interfaces =
     (let wrap = Wrap (''replace node network interfaces for node '' @ i) in
      or_return (query (\<lambda>w. Inr (db_now w))) (Wrap (''begin replace node network interfaces for node '' @ i)) (\<lambda>now.
      or_return (query (\<lambda>w. Inr ())) wrap (\<lambda>_.
      or_return (insert_interfaces (map (\<lambda>x. x\<lparr>ni_NodeID := i\<rparr>) interfaces) []) wrap (\<lambda>_.
      or_return
        (exec (\<lambda>w. ((), w\<lparr>node_network_interfaces :=
             filter (\<lambda>x. ni_NodeID x \<noteq> i) (node_network_interfaces w)
             @ map (\<lambda>x. x\<lparr>ni_NodeID := i, ni_ReportedAt := now\<rparr>) interfaces\<rparr>))) wrap ok))))"

definition ListByNode :: "string \<Rightarrow> node_interface list res io" where
  "ListByNode i =
     or_return
       (query (\<lambda>w. Inr (sort_key ni_InterfaceName (filter (\<lambda>x. ni_NodeID x = i) (node_network_interfaces w)))))
       (Wrap (''list node network interfaces for node '' @ i)) ok"

section \<open>Keys\<close>

definition wf_nodes :: "world \<Rightarrow> bool" where
  "wf_nodes w \<longleftrightarrow> primary_key cred_id (nodes w) \<and> primary_key cred_name (nodes w)"

definition keeps_nodes :: "world \<Rightarrow> world \<Rightarrow> bool" where
  "keeps_nodes w w' \<longleftrightarrow> (wf_nodes w \<longrightarrow> wf_nodes w')"

interpretation keeps_nodes: db_step_rel keeps_nodes
  by unfold_locales (auto simp: keeps_nodes_def wf_nodes_def)

lemma keeps_update_node:
  assumes "\<And>w n. node_ID (f w n) = node_ID n \<and> node_Name (f w n) = node_Name n"
  shows "within keeps_nodes (update_node i f)"
proof -
  have "map cred_id (update_row cred_id i (\<lambda>c. c\<lparr>cred_Node := f w (cred_Node c)\<rparr>) t) = map cred_id t"
    "map cred_name (update_row cred_id i (\<lambda>c. c\<lparr>cred_Node := f w (cred_Node c)\<rparr>) t) = map cred_name t" for w t
    using assms by (induction t) (auto simp: cred_id_def cred_name_def)
  then show ?thesis unfolding update_node_def
    by (intro keeps_nodes.within_exec) (simp add: keeps_nodes_def wf_nodes_def primary_key_def)
qed

lemma keeps_node_writes:
  "within keeps_nodes (node_Create p who h)" "within keeps_nodes (SetAgentStatus i st b)" "within keeps_nodes (UpdateSSHIdentity i k hk)"
  "within keeps_nodes (repo_SetDefaultTransferInterface i nm)" "within keeps_nodes (repo_SetComment i c u t)"
  unfolding node_Create_def SetAgentStatus_def UpdateSSHIdentity_def repo_SetDefaultTransferInterface_def repo_SetComment_def
  by (intro keeps_nodes.db_within_rules keeps_update_node keeps_nodes.within_io_call;
      auto simp: keeps_nodes_def wf_nodes_def primary_key_def Let_def cred_id_def cred_name_def image_iff)+

lemma log_grows_update_node: "within log_grows (update_node i f)"
  unfolding update_node_def by (rule log_grows_exec) simp

lemma log_grows_nodes_repo:
  "within log_grows (node_Create p who h)" "within log_grows (node_FindByID i)" "within log_grows (FindCredentialByName name)"
  "within log_grows (SetAgentStatus i st b)" "within log_grows node_List" "within log_grows (UpdateSSHIdentity i k hk)"
  "within log_grows (repo_SetDefaultTransferInterface i nm)" "within log_grows (repo_SetComment i c u t)" "within log_grows (ListByNode i)"
  unfolding node_Create_def node_FindByID_def FindCredentialByName_def SetAgentStatus_def node_List_def UpdateSSHIdentity_def
    repo_SetDefaultTransferInterface_def repo_SetComment_def ListByNode_def
  by (intro log_grows_rules log_grows_update_node log_grows.within_io_call; simp add: log_grows_same Let_def)+

lemma log_grows_insert_interfaces: "within log_grows (insert_interfaces is seen)"
  by (induction "is" arbitrary: seen) (auto intro!: log_grows_rules)

lemma log_grows_ReplaceForNode: "within log_grows (ReplaceForNode i xs)"
  unfolding ReplaceForNode_def Let_def by (intro log_grows_rules log_grows_insert_interfaces log_grows_exec) simp

end
