(* ===== verification/Agentconn.thy ===== *)
theory Agentconn
  imports Audit_Log
begin

text \<open>
  The registry of live agent connections (internal/agentconn/registry.go). A connection is a number;
  each accepted websocket gets a new one. The refinement lemma says which connection a node has after
  any sequence of registrations and clean-ups.
\<close>

definition Register :: "string \<Rightarrow> conn \<Rightarrow> unit io" where
  "Register nodeID c = poke (\<lambda>w. w\<lparr>conns := AList.update nodeID c (conns w)\<rparr>)"

definition Unregister :: "string \<Rightarrow> conn \<Rightarrow> unit io" where
  "Unregister nodeID c =
     poke (\<lambda>w. if map_of (conns w) nodeID = Some c then w\<lparr>conns := AList.delete nodeID (conns w)\<rparr> else w)"

definition Connected :: "string \<Rightarrow> bool io" where
  "Connected nodeID = peek (\<lambda>w. map_of (conns w) nodeID \<noteq> None)"

text \<open>
  \<^verbatim>\<open>Send\<close>: look the connection up, then write one frame to it. Marshalling an envelope cannot fail.
\<close>

definition Send :: "string \<Rightarrow> envelope \<Rightarrow> unit res io" where
  "Send nodeID env =
     State_Monad.bind (peek (\<lambda>w. map_of (conns w) nodeID)) (\<lambda>c.
       case c of
         None \<Rightarrow> fail ErrNodeNotConnected
       | Some conn \<Rightarrow>
           or_return (exec (\<lambda>w. ((), w\<lparr>sent := sent w @ [(conn, env)]\<rparr>))) (Wrap ''write to node'') ok)"

lemma run_Connected [run_simps]: "run_state (Connected n) w = (map_of (conns w) n \<noteq> None, w)"
  by (simp add: Connected_def run_simps)

lemma run_Send [run_simps]:
  "run_state (Send n env) w =
     (case map_of (conns w) n of
        None \<Rightarrow> (Inl ErrNodeNotConnected, w)
      | Some c \<Rightarrow>
          (let w1 = w\<lparr>tick := Suc (tick w)\<rparr>; w2 = w1\<lparr>sent := sent w @ [(c, env)]\<rparr> in
           case faults w (tick w) of
             NoFault \<Rightarrow> (Inr (), w2)
           | Lost e \<Rightarrow> (Inl (Wrap ''write to node'' (ErrIO e)), w1)
           | Ambiguous e \<Rightarrow> (Inl (Wrap ''write to node'' (ErrIO e)), w2)))"
  by (simp add: Send_def run_simps Let_def split: option.split fault.split)

lemma log_grows_agentconn:
  "within log_grows (Register n c)" "within log_grows (Unregister n c)"
  "within log_grows (Connected n)" "within log_grows (Send n env)"
  unfolding Register_def Unregister_def Connected_def Send_def
  by (auto intro!: log_grows_rules log_grows_exec log_grows_poke)

section \<open>Reconnecting\<close>

datatype reg_event = EvRegister string conn | EvUnregister string conn

fun reg_op :: "reg_event \<Rightarrow> unit io" where
  "reg_op (EvRegister n c) = Register n c"
| "reg_op (EvUnregister n c) = Unregister n c"

text \<open>
  The specification: the connection a node registered last, unless that same connection has been
  cleaned up since.
\<close>

fun registered_last :: "string \<Rightarrow> reg_event list \<Rightarrow> (conn \<times> reg_event list) option" where
  "registered_last n [] = None"
| "registered_last n (e # es) =
     (case registered_last n es of
        Some r \<Rightarrow> Some r
      | None \<Rightarrow> (case e of EvRegister m c \<Rightarrow> if m = n then Some (c, es) else None | _ \<Rightarrow> None))"

definition current_conn :: "string \<Rightarrow> reg_event list \<Rightarrow> conn option" where
  "current_conn n es =
     (case registered_last n es of
        None \<Rightarrow> None
      | Some (c, later) \<Rightarrow> if EvUnregister n c \<in> set later then None else Some c)"

lemma reg_op_Register: "map_of (conns (snd (run_state (Register n c) w))) = (map_of (conns w))(n \<mapsto> c)"
  by (simp add: Register_def run_simps AList.update_conv')

lemma reg_op_Unregister:
  "map_of (conns (snd (run_state (Unregister n c) w))) =
     (if map_of (conns w) n = Some c then (map_of (conns w))(n := None) else map_of (conns w))"
  by (simp add: Unregister_def run_simps AList.delete_conv')

lemma registered_last_snoc:
  "registered_last n (es @ [e]) =
     (case e of EvRegister m c \<Rightarrow> if m = n then Some (c, []) else map_option (\<lambda>(c', l). (c', l @ [e])) (registered_last n es)
      | _ \<Rightarrow> map_option (\<lambda>(c', l). (c', l @ [e])) (registered_last n es))"
  by (induction es) (auto split: reg_event.splits option.splits)

lemma current_conn_snoc:
  "current_conn n (es @ [e]) =
     (case e of
        EvRegister m c \<Rightarrow> if m = n then Some c else current_conn n es
      | EvUnregister m c \<Rightarrow> if m = n \<and> current_conn n es = Some c then None else current_conn n es)"
  by (auto simp: current_conn_def registered_last_snoc split: reg_event.splits option.splits)

text \<open>
  C16. The registry refines its specification: after any sequence of registrations and clean-ups that
  starts from an empty registry, a node's connection is the one it registered last, unless that very
  connection has been cleaned up since; the deferred clean-up of a superseded connection, at whatever
  later moment it runs, never removes the newer one, and other nodes do not interfere.
\<close>

theorem registry_refines:
  assumes "conns w = []"
  shows "map_of (conns (snd (run_state (for_each reg_op es) w))) n = current_conn n es"
proof (induction es rule: rev_induct)
  case Nil
  then show ?case using assms by (simp add: current_conn_def)
next
  case (snoc e es)
  then show ?case
    by (cases e)
      (auto simp: for_each_append reg_op_Register reg_op_Unregister current_conn_snoc split: prod.splits)
qed

theorem registry_refines_witness:
  "map_of (conns (snd (run_state (for_each reg_op
     [EvRegister ''n1'' 1, EvRegister ''n1'' 2, EvUnregister ''n1'' 1]) empty_world))) ''n1'' = Some 2"
proof -
  have "conns empty_world = []" by (simp add: empty_world_def)
  from registry_refines [OF this, of "[EvRegister ''n1'' 1, EvRegister ''n1'' 2, EvUnregister ''n1'' 1]" "''n1''"]
  show ?thesis by (simp add: current_conn_def)
qed

end
