(* ===== verification/Alerts_Repo.thy ===== *)
theory Alerts_Repo
  imports Users
begin

text \<open>
  The alerts tables and their repository (internal/db/alerts.go, internal/db/alert_settings.go): raising
  with deduplication inside a transaction that other sessions can race with, resolving, what a viewer may
  see, and the per-user read and dismissed state. The lemmas show that the partial unique index (at most
  one open alert per dedupe key) is kept by every operation.
\<close>

section \<open>Types\<close>

definition Rank :: "severity \<Rightarrow> int" where
  "Rank s =
     (case s of SeverityInfo \<Rightarrow> 1 | SeverityWarning \<Rightarrow> 2 | SeverityCritical \<Rightarrow> 3 | SeverityOther _ \<Rightarrow> 0)"

datatype alert_list_view = AlertViewUnread | AlertViewAll | AlertViewResolved | AlertViewOther string

type_synonym alert_view = "alert \<times> time option"

record alert_viewer =
  viewer_UserID :: string
  viewer_Tier :: tier

record new_alert =
  na_Kind :: string
  na_Severity :: severity
  na_Title :: string
  na_Body :: string
  na_ObjectType :: "string option"
  na_ObjectID :: "string option"
  na_DedupeKey :: "string option"
  na_Audiences :: "audience list"

record raise_result =
  rr_Alert :: alert
  rr_Created :: bool
  rr_Escalated :: bool

section \<open>Raising\<close>

definition is_open :: "alert \<Rightarrow> bool" where
  "is_open a \<longleftrightarrow> alert_ResolvedAt a = None"

definition open_with_key :: "string \<Rightarrow> alert \<Rightarrow> bool" where
  "open_with_key k a \<longleftrightarrow> alert_DedupeKey a = Some k \<and> is_open a"

text \<open>
  The primary key and the index \<^verbatim>\<open>alerts_open_dedupe_key\<close> of migration 000041: an insert is refused
  when the id is taken or when an open alert has the same key.
\<close>

definition insert_conflict :: "alert \<Rightarrow> alert list \<Rightarrow> bool" where
  "insert_conflict a t \<longleftrightarrow>
     alert_ID a \<in> alert_ID ` set t
     \<or> (is_open a \<and> (case alert_DedupeKey a of None \<Rightarrow> False | Some k \<Rightarrow> list_ex (open_with_key k) t))"

definition other_session :: "unit io" where
  "other_session = poke (\<lambda>w.
     case rivals w (tick w) of
       None \<Rightarrow> w
     | Some a \<Rightarrow> if insert_conflict a (alerts w) then w else w\<lparr>alerts := alerts w @ [a]\<rparr>)"

definition repeated :: "new_alert \<Rightarrow> time \<Rightarrow> alert \<Rightarrow> alert" where
  "repeated inp now a =
     a\<lparr>alert_LastRaisedAt := now, alert_Occurrences := alert_Occurrences a + 1,
       alert_Severity := na_Severity inp, alert_Title := na_Title inp, alert_Body := na_Body inp\<rparr>"

definition first_raised :: "new_alert \<Rightarrow> time \<Rightarrow> string \<Rightarrow> alert" where
  "first_raised inp now i =
     \<lparr>alert_ID = i, alert_Kind = na_Kind inp, alert_Severity = na_Severity inp, alert_Title = na_Title inp,
      alert_Body = na_Body inp, alert_ObjectType = na_ObjectType inp, alert_ObjectID = na_ObjectID inp,
      alert_DedupeKey = na_DedupeKey inp, alert_FirstRaisedAt = now, alert_LastRaisedAt = now,
      alert_Occurrences = 1, alert_ResolvedAt = None, alert_ResolvedBy = None, alert_Resolution = None\<rparr>"

definition audience_row :: "audience \<Rightarrow> unit res" where
  "audience_row aud =
     (case aud of
        AudienceOther s \<Rightarrow> Inl (ErrText ''unknown alert audience type'')
      | AudienceTier t \<Rightarrow> if valid_tier t then Inr () else Inl ErrInvalidEnum
      | _ \<Rightarrow> Inr ())"

fun insert_audiences :: "audience list \<Rightarrow> unit res io" where
  "insert_audiences [] = ok ()"
| "insert_audiences (aud # rest) =
     (case aud of
        AudienceOther s \<Rightarrow> fail (ErrText ''unknown alert audience type'')
      | _ \<Rightarrow> or_return (query (\<lambda>_. audience_row aud)) (Wrap ''insert alert audience'') (\<lambda>_. insert_audiences rest))"

text \<open>\<^verbatim>\<open>ON CONFLICT DO NOTHING\<close>.\<close>

fun add_audiences :: "string \<Rightarrow> audience list \<Rightarrow> (string \<times> audience) list \<Rightarrow> (string \<times> audience) list" where
  "add_audiences i [] t = t"
| "add_audiences i (aud # rest) t = add_audiences i rest (if (i, aud) \<in> set t then t else t @ [(i, aud)])"

definition clear_read :: "string \<Rightarrow> user_state list \<Rightarrow> user_state list" where
  "clear_read i t = update_rows (\<lambda>s. us_AlertID s = i) (\<lambda>s. s\<lparr>us_ReadAt := None\<rparr>) t"

definition check_severity :: "severity \<Rightarrow> unit res" where
  "check_severity s = (if Rank s = 0 then Inl ErrInvalidEnum else Inr ())"

text \<open>
  The statements of the transaction are calls that may fail, after which the deferred rollback leaves the
  tables as they were; what they write becomes visible with the commit. \<^verbatim>\<open>now()\<close> is the start of
  the transaction.
\<close>

definition commit_repeat :: "new_alert \<Rightarrow> time \<Rightarrow> string \<Rightarrow> bool \<Rightarrow> world \<Rightarrow> world" where
  "commit_repeat inp now i esc w =
     w\<lparr>alerts := update_row alert_ID i (repeated inp now) (alerts w),
       alert_user_state := (if esc then clear_read i (alert_user_state w) else alert_user_state w),
       alert_audiences := add_audiences i (na_Audiences inp) (alert_audiences w)\<rparr>"

definition commit_insert :: "new_alert \<Rightarrow> alert \<Rightarrow> world \<Rightarrow> world" where
  "commit_insert inp a w =
     w\<lparr>alerts := alerts w @ [a],
       alert_audiences := add_audiences (alert_ID a) (na_Audiences inp) (alert_audiences w)\<rparr>"

definition raise_repeat :: "new_alert \<Rightarrow> time \<Rightarrow> alert \<Rightarrow> raise_result res io" where
  "raise_repeat inp now ex =
     (let esc = Rank (na_Severity inp) > Rank (alert_Severity ex); i = alert_ID ex in
      or_return (query (\<lambda>_. check_severity (na_Severity inp))) (Wrap ''update open alert'') (\<lambda>_.
      or_return (if esc then query (\<lambda>_. Inr ()) else ok ()) (Wrap ''mark escalated alert unread'') (\<lambda>_.
      or_return (insert_audiences (na_Audiences inp)) (\<lambda>e. e) (\<lambda>_.
      or_return (exec (\<lambda>w. ((), commit_repeat inp now i esc w))) (Wrap ''commit raise alert'') (\<lambda>_.
      ok \<lparr>rr_Alert = repeated inp now ex, rr_Created = False, rr_Escalated = esc\<rparr>)))))"

definition raise_insert :: "new_alert \<Rightarrow> time \<Rightarrow> raise_result res io" where
  "raise_insert inp now =
     State_Monad.bind other_session (\<lambda>_.
     or_return
       (query (\<lambda>w.
          let a = first_raised inp now (db_uuid w) in
          if Rank (na_Severity inp) = 0 then Inl ErrInvalidEnum
          else if insert_conflict a (alerts w) then Inl ErrUniqueViolation
          else Inr a)) (Wrap ''insert alert'') (\<lambda>a.
     or_return (insert_audiences (na_Audiences inp)) (\<lambda>e. e) (\<lambda>_.
     or_return (exec (\<lambda>w. ((), commit_insert inp a w))) (Wrap ''commit raise alert'') (\<lambda>_.
     ok \<lparr>rr_Alert = a, rr_Created = True, rr_Escalated = False\<rparr>))))"

definition raiseOnce :: "new_alert \<Rightarrow> raise_result res io" where
  "raiseOnce inp =
     or_return (query (\<lambda>w. Inr (db_now w))) (Wrap ''begin raise alert'') (\<lambda>now.
     or_return
       (case na_DedupeKey inp of
          None \<Rightarrow> ok None
        | Some k \<Rightarrow> query (\<lambda>w. Inr (find (open_with_key k) (alerts w))))
       (Wrap ''look up open alert by dedupe key'') (\<lambda>found.
     case found of
       Some ex \<Rightarrow> raise_repeat inp now ex
     | None \<Rightarrow> raise_insert inp now))"

fun raise_attempts :: "nat \<Rightarrow> new_alert \<Rightarrow> raise_result res io" where
  "raise_attempts 0 inp = fail (ErrText ''raise alert: lost the dedupe race twice'')"
| "raise_attempts (Suc n) inp =
     State_Monad.bind (raiseOnce inp) (\<lambda>r.
       case r of
         Inl e \<Rightarrow> if na_DedupeKey inp \<noteq> None \<and> isUniqueViolation e then raise_attempts n inp else fail e
       | Inr res \<Rightarrow> ok res)"

definition repo_Raise :: "new_alert \<Rightarrow> raise_result res io" where
  "repo_Raise inp = raise_attempts 2 inp"

section \<open>Resolving\<close>

definition close_cleared :: "time \<Rightarrow> alert \<Rightarrow> alert" where
  "close_cleared now a = a\<lparr>alert_ResolvedAt := Some now, alert_Resolution := Some ResolutionCleared\<rparr>"

text \<open>\<^verbatim>\<open>UPDATE alerts SET resolved_at = now(), resolution = 'cleared' WHERE ... RETURNING id\<close>.\<close>

definition close_where :: "(alert \<Rightarrow> bool) \<Rightarrow> world \<Rightarrow> string list \<times> world" where
  "close_where p w =
     (map alert_ID (filter p (alerts w)),
      w\<lparr>alerts := update_rows p (close_cleared (db_now w)) (alerts w)\<rparr>)"

definition ResolveByDedupeKey :: "string \<Rightarrow> string list res io" where
  "ResolveByDedupeKey dedupeKey =
     or_return (exec (close_where (open_with_key dedupeKey))) (Wrap ''resolve alert by dedupe key'') ok"

definition escapeLike :: "string \<Rightarrow> string" where
  "escapeLike s = concat (map (\<lambda>c. if c \<in> {CHR 0x5C, CHR ''%'', CHR ''_''} then [CHR 0x5C, c] else [c]) s)"

text \<open>The SQL pattern match \<^verbatim>\<open>LIKE\<close> with backslash (\<open>CHR 0x5C\<close>) as escape.\<close>

fun like :: "string \<Rightarrow> string \<Rightarrow> bool" where
  "like [] s = (s = [])"
| "like (p # ps) s =
     (if p = CHR ''%'' then like ps s \<or> (case s of [] \<Rightarrow> False | _ # xs \<Rightarrow> like (p # ps) xs)
      else if p = CHR 0x5C then (case (ps, s) of (q # qs, x # xs) \<Rightarrow> x = q \<and> like qs xs | _ \<Rightarrow> False)
      else case s of [] \<Rightarrow> False | x # xs \<Rightarrow> (p = CHR ''_'' \<or> x = p) \<and> like ps xs)"

definition key_prefix_except :: "string \<Rightarrow> string list \<Rightarrow> alert \<Rightarrow> bool" where
  "key_prefix_except pat keep a =
     (case alert_DedupeKey a of
        None \<Rightarrow> False
      | Some k \<Rightarrow> like (pat @ ''%'') k \<and> is_open a \<and> k \<notin> set keep)"

definition ResolveByKeyPrefixExcept :: "string \<Rightarrow> string list \<Rightarrow> string list res io" where
  "ResolveByKeyPrefixExcept prefix keep =
     or_return (exec (close_where (key_prefix_except (escapeLike prefix) keep)))
       (Wrap ''resolve alerts by key prefix'') ok"

definition close_by :: "string option \<Rightarrow> time \<Rightarrow> alert \<Rightarrow> alert" where
  "close_by who now a =
     a\<lparr>alert_ResolvedAt := Some now, alert_ResolvedBy := who, alert_Resolution := Some ResolutionUser\<rparr>"

definition ResolveByUser :: "string \<Rightarrow> string option \<Rightarrow> bool res io" where
  "ResolveByUser i resolvedBy =
     or_return
       (exec (\<lambda>w. let hit = (\<lambda>a. alert_ID a = i \<and> is_open a) in
          (length (filter hit (alerts w)) = 1,
           w\<lparr>alerts := update_rows hit (close_by resolvedBy (db_now w)) (alerts w)\<rparr>)))
       (Wrap ''resolve alert'') ok"

definition reopened :: "alert \<Rightarrow> alert" where
  "reopened a = a\<lparr>alert_ResolvedAt := None, alert_ResolvedBy := None, alert_Resolution := None\<rparr>"

text \<open>
  The unique index applies to this statement too: it fails when the key has been raised again meanwhile.
\<close>

definition Reopen :: "string \<Rightarrow> unit res io" where
  "Reopen i =
     or_return
       (io_call (\<lambda>w.
          let t = alerts w;
              clash = (\<lambda>a. alert_ID a = i \<and> (case alert_DedupeKey a of None \<Rightarrow> False
                         | Some k \<Rightarrow> list_ex (\<lambda>b. alert_ID b \<noteq> i \<and> open_with_key k b) t))
          in if list_ex clash t then (Inl ErrUniqueViolation, w)
             else (Inr (), w\<lparr>alerts := update_row alert_ID i reopened t\<rparr>)))
       (Wrap ''reopen alert'') ok"

section \<open>What a viewer sees\<close>

definition lower :: "string \<Rightarrow> string" where
  "lower s = map (\<lambda>c. if CHR ''A'' \<le> c \<and> c \<le> CHR ''Z'' then char_of (of_char c + 32 :: nat) else c) s"

definition viewerUserArg :: "alert_viewer \<Rightarrow> string option" where
  "viewerUserArg v = (if viewer_UserID v = [] then None else Some (viewer_UserID v))"

definition in_group :: "world \<Rightarrow> string \<Rightarrow> string \<Rightarrow> bool" where
  "in_group w g u \<longleftrightarrow>
     list_ex (\<lambda>m. m = (g, u)) (app_group_local_members w)
     \<or> list_ex (\<lambda>m. am_GroupID m = g \<and> list_ex (\<lambda>(u', c). u' = u \<and> lower c = lower (am_DN m)) (user_ad_group_membership w))
         (app_group_ad_groups w)"

definition tier_covers :: "tier \<Rightarrow> tier \<Rightarrow> bool" where
  "tier_covers minTier t =
     (case (tier_rank minTier, tier_rank t) of (Some m, Some n) \<Rightarrow> m \<le> n | _ \<Rightarrow> False)"

definition addressed :: "world \<Rightarrow> string option \<Rightarrow> tier \<Rightarrow> audience \<Rightarrow> bool" where
  "addressed w uid t aud =
     (case aud of
        AudienceUser u \<Rightarrow> uid = Some u
      | AudienceTier m \<Rightarrow> tier_covers m t
      | AudienceGroup g \<Rightarrow> (case uid of None \<Rightarrow> False | Some u \<Rightarrow> in_group w g u)
      | AudienceOther _ \<Rightarrow> False)"

definition state_of :: "world \<Rightarrow> string option \<Rightarrow> string \<Rightarrow> user_state option" where
  "state_of w uid i =
     (case uid of
        None \<Rightarrow> None
      | Some u \<Rightarrow> find (\<lambda>s. us_AlertID s = i \<and> us_UserID s = u) (alert_user_state w))"

definition read_at :: "world \<Rightarrow> string option \<Rightarrow> string \<Rightarrow> time option" where
  "read_at w uid i = Option.bind (state_of w uid i) us_ReadAt"

definition dismissed :: "world \<Rightarrow> string option \<Rightarrow> string \<Rightarrow> bool" where
  "dismissed w uid i \<longleftrightarrow> Option.bind (state_of w uid i) us_DismissedAt \<noteq> None"

definition visible_to :: "world \<Rightarrow> alert_viewer \<Rightarrow> alert \<Rightarrow> bool" where
  "visible_to w v a \<longleftrightarrow>
     \<not> dismissed w (viewerUserArg v) (alert_ID a)
     \<and> list_ex (\<lambda>(i, aud). i = alert_ID a \<and> addressed w (viewerUserArg v) (viewer_Tier v) aud) (alert_audiences w)"

definition visibleAlerts :: "alert_viewer \<Rightarrow> world \<Rightarrow> alert_view list res" where
  "visibleAlerts v w =
     (if \<not> valid_tier (viewer_Tier v) then Inl ErrInvalidEnum
      else Inr (map (\<lambda>a. (a, read_at w (viewerUserArg v) (alert_ID a))) (filter (visible_to w v) (alerts w))))"

definition FindVisible :: "alert_viewer \<Rightarrow> string \<Rightarrow> alert_view res io" where
  "FindVisible v i =
     or_return
       (query (\<lambda>w. case visibleAlerts v w of
            Inl e \<Rightarrow> Inl e
          | Inr vs \<Rightarrow> (case find (\<lambda>(a, _). alert_ID a = i) vs of None \<Rightarrow> Inl ErrAlertNotFound | Some x \<Rightarrow> Inr x)))
       (\<lambda>e. if e = ErrAlertNotFound then ErrAlertNotFound else Wrap ''find alert'' e) ok"

definition unread_open :: "alert_view \<Rightarrow> bool" where
  "unread_open v \<longleftrightarrow> is_open (fst v) \<and> snd v = None"

definition view_filter :: "alert_list_view \<Rightarrow> (alert_view \<Rightarrow> bool) res" where
  "view_filter view =
     (case view of
        AlertViewUnread \<Rightarrow> Inr unread_open
      | AlertViewResolved \<Rightarrow> Inr (\<lambda>v. \<not> is_open (fst v))
      | AlertViewAll \<Rightarrow> Inr (\<lambda>_. True)
      | AlertViewOther _ \<Rightarrow> Inl (ErrText ''unknown alert view''))"

definition newest_first :: "alert_view list \<Rightarrow> alert_view list" where
  "newest_first vs = sort_key (\<lambda>v. - alert_LastRaisedAt (fst v)) (sort_key (\<lambda>v. alert_ID (fst v)) vs)"

definition ListVisible :: "alert_viewer \<Rightarrow> alert_list_view \<Rightarrow> int \<Rightarrow> alert_view list res io" where
  "ListVisible v view limit =
     (case view_filter view of
        Inl e \<Rightarrow> fail e
      | Inr p \<Rightarrow>
          or_return
            (query (\<lambda>w. case visibleAlerts v w of
                 Inl e \<Rightarrow> Inl e
               | Inr vs \<Rightarrow> Inr (take (nat limit) (newest_first (filter p vs)))))
            (Wrap ''list alerts'') ok)"

definition CountUnread :: "alert_viewer \<Rightarrow> nat res io" where
  "CountUnread v =
     (if viewer_UserID v = [] then ok 0
      else or_return
        (query (\<lambda>w. case visibleAlerts v w of Inl e \<Rightarrow> Inl e | Inr vs \<Rightarrow> Inr (length (filter unread_open vs))))
        (Wrap ''count unread alerts'') ok)"

definition Audiences :: "string \<Rightarrow> audience list res io" where
  "Audiences i =
     or_return (query (\<lambda>w. Inr (map snd (filter (\<lambda>(j, _). j = i) (alert_audiences w)))))
       (Wrap ''list alert audiences'') ok"

section \<open>Read and dismissed state\<close>

definition is_state :: "string \<Rightarrow> string \<Rightarrow> user_state \<Rightarrow> bool" where
  "is_state i u s \<longleftrightarrow> us_AlertID s = i \<and> us_UserID s = u"

definition no_state :: "string \<Rightarrow> string \<Rightarrow> user_state" where
  "no_state i u = \<lparr>us_AlertID = i, us_UserID = u, us_ReadAt = None, us_DismissedAt = None\<rparr>"

text \<open>
  \<^verbatim>\<open>INSERT ... ON CONFLICT (alert_id, user_id) DO UPDATE SET c = now() WHERE c IS NULL\<close>, with the number
  of rows affected.
\<close>

definition upsert_state ::
  "(user_state \<Rightarrow> time option) \<Rightarrow> (user_state \<Rightarrow> user_state) \<Rightarrow> string \<Rightarrow> string \<Rightarrow>
   user_state list \<Rightarrow> nat \<times> user_state list" where
  "upsert_state col put i u t =
     (if list_ex (is_state i u) t
      then let hit = (\<lambda>s. is_state i u s \<and> col s = None)
           in (length (filter hit t), update_rows hit put t)
      else (1, t @ [put (no_state i u)]))"

definition put_read :: "time option \<Rightarrow> user_state \<Rightarrow> user_state" where
  "put_read v s = s\<lparr>us_ReadAt := v\<rparr>"

definition put_dismissed :: "time option \<Rightarrow> user_state \<Rightarrow> user_state" where
  "put_dismissed v s = s\<lparr>us_DismissedAt := v\<rparr>"

definition repo_MarkRead :: "string \<Rightarrow> string \<Rightarrow> bool res io" where
  "repo_MarkRead u i =
     or_return
       (exec (\<lambda>w. let (n, t) = upsert_state us_ReadAt (put_read (Some (db_now w))) i u (alert_user_state w)
                  in (n = 1, w\<lparr>alert_user_state := t\<rparr>)))
       (Wrap ''mark alert read'') ok"

definition repo_MarkUnread :: "string \<Rightarrow> string \<Rightarrow> bool res io" where
  "repo_MarkUnread u i =
     or_return
       (exec (\<lambda>w. let hit = (\<lambda>s. is_state i u s \<and> us_ReadAt s \<noteq> None) in
          (length (filter hit (alert_user_state w)) = 1,
           w\<lparr>alert_user_state := update_rows hit (put_read None) (alert_user_state w)\<rparr>)))
       (Wrap ''mark alert unread'') ok"

definition repo_Dismiss :: "string \<Rightarrow> string \<Rightarrow> bool res io" where
  "repo_Dismiss u i =
     or_return
       (exec (\<lambda>w. let (n, t) = upsert_state us_DismissedAt (put_dismissed (Some (db_now w))) i u (alert_user_state w)
                  in (n = 1, w\<lparr>alert_user_state := t\<rparr>)))
       (Wrap ''dismiss alert'') ok"

definition RestoreDismissed :: "string \<Rightarrow> string \<Rightarrow> unit res io" where
  "RestoreDismissed u i =
     or_return
       (exec (\<lambda>w. ((), w\<lparr>alert_user_state := update_rows (is_state i u) (put_dismissed None) (alert_user_state w)\<rparr>)))
       (Wrap ''restore dismissed alert'') ok"

fun mark_each :: "time \<Rightarrow> string \<Rightarrow> string list \<Rightarrow> user_state list \<Rightarrow> user_state list" where
  "mark_each now u [] t = t"
| "mark_each now u (i # is) t = mark_each now u is (snd (upsert_state us_ReadAt (put_read (Some now)) i u t))"

definition repo_MarkAllRead :: "alert_viewer \<Rightarrow> string list res io" where
  "repo_MarkAllRead v =
     (if viewer_UserID v = [] then ok []
      else or_return
        (io_call (\<lambda>w.
           case visibleAlerts v w of
             Inl e \<Rightarrow> (Inl e, w)
           | Inr vs \<Rightarrow>
               let ids = map (\<lambda>x. alert_ID (fst x)) (filter unread_open vs) in
               (Inr ids, w\<lparr>alert_user_state := mark_each (db_now w) (viewer_UserID v) ids (alert_user_state w)\<rparr>)))
        (Wrap ''mark all alerts read'') ok)"

definition DeleteOlderThan :: "time \<Rightarrow> nat res io" where
  "DeleteOlderThan cutoff =
     or_return
       (exec (\<lambda>w.
          let old = (\<lambda>a. alert_LastRaisedAt a < cutoff);
              gone = map alert_ID (filter old (alerts w))
          in (length gone,
              w\<lparr>alerts := filter (\<lambda>a. \<not> old a) (alerts w),
                alert_audiences := filter (\<lambda>(i, _). i \<notin> set gone) (alert_audiences w),
                alert_user_state := filter (\<lambda>s. us_AlertID s \<notin> set gone) (alert_user_state w)\<rparr>)))
       (Wrap ''delete expired alerts'') ok"

section \<open>Settings\<close>

definition as_Get :: "alert_settings res io" where
  "as_Get = or_return (query (\<lambda>w. Inr (alert_settings_row w))) (Wrap ''get alert settings'') ok"

text \<open>The check constraint of the table refuses a period outside 1 to 24 months.\<close>

definition as_Update :: "int \<Rightarrow> string option \<Rightarrow> unit res io" where
  "as_Update months updatedBy =
     or_return
       (io_call (\<lambda>w.
          if 0 < months \<and> months \<le> 24
          then (Inr (), w\<lparr>alert_settings_row :=
                  \<lparr>as_RetentionMonths = months, as_UpdatedBy = updatedBy, as_UpdatedAt = db_now w\<rparr>\<rparr>)
          else (Inl (ErrIO ''check constraint''), w)))
       (Wrap ''update alert settings'') ok"

section \<open>The unique index is kept\<close>

definition one_open_per_key :: "alert list \<Rightarrow> bool" where
  "one_open_per_key t \<longleftrightarrow> (\<forall>k. length (filter (open_with_key k) t) \<le> 1)"

definition wf_alerts :: "world \<Rightarrow> bool" where
  "wf_alerts w \<longleftrightarrow> primary_key alert_ID (alerts w) \<and> one_open_per_key (alerts w)"

definition keeps_alerts :: "world \<Rightarrow> world \<Rightarrow> bool" where
  "keeps_alerts w w' \<longleftrightarrow> (wf_alerts w \<longrightarrow> wf_alerts w')"

interpretation keeps_alerts: db_step_rel keeps_alerts
  by unfold_locales (auto simp: keeps_alerts_def wf_alerts_def)

lemma map_id_update_rows:
  "(\<And>a. alert_ID (f a) = alert_ID a) \<Longrightarrow> map alert_ID (update_rows p f t) = map alert_ID t"
  by (induction t) (auto simp: update_rows_def)

lemma filter_update_rows_le:
  "(\<And>a. a \<in> set t \<Longrightarrow> p a \<Longrightarrow> q (f a) \<Longrightarrow> q a) \<Longrightarrow> length (filter q (update_rows p f t)) \<le> length (filter q t)"
  by (induction t) (auto simp: update_rows_def)

lemma length_filter_imp_le: "(\<And>x. x \<in> set t \<Longrightarrow> p x \<Longrightarrow> q x) \<Longrightarrow> length (filter p t) \<le> length (filter q t)"
  by (induction t) (auto simp: le_SucI)

lemma length_filter_filter: "length (filter p (filter q t)) \<le> length (filter p t)"
  by (simp, rule length_filter_imp_le, simp)

lemma wf_update_rows:
  assumes "wf_alerts w" and "\<And>a. alert_ID (f a) = alert_ID a"
    and "\<And>k a. p a \<Longrightarrow> open_with_key k (f a) \<Longrightarrow> open_with_key k a"
  shows "wf_alerts (w\<lparr>alerts := update_rows p f (alerts w)\<rparr>)"
proof -
  have "length (filter (open_with_key k) (update_rows p f (alerts w))) \<le> 1" for k
    using filter_update_rows_le [of "alerts w" p "open_with_key k" f] assms(1,3)
    by (meson le_trans one_open_per_key_def wf_alerts_def)
  then show ?thesis
    using assms(1,2) by (simp add: wf_alerts_def primary_key_def one_open_per_key_def map_id_update_rows)
qed

lemma wf_insert:
  assumes "wf_alerts w" and "\<not> insert_conflict a (alerts w)"
  shows "wf_alerts (w\<lparr>alerts := alerts w @ [a]\<rparr>)"
proof -
  have "length (filter (open_with_key k) (alerts w @ [a])) \<le> 1" for k
  proof (cases "open_with_key k a")
    case True
    then have "filter (open_with_key k) (alerts w) = []"
      using assms(2) by (auto simp: insert_conflict_def open_with_key_def list_ex_iff filter_empty_conv)
    then show ?thesis by simp
  next
    case False
    then show ?thesis using assms(1) by (simp add: wf_alerts_def one_open_per_key_def)
  qed
  then show ?thesis
    using assms by (auto simp: wf_alerts_def primary_key_def one_open_per_key_def insert_conflict_def)
qed

lemma wf_alerts_other_tables [simp]:
  "wf_alerts (w\<lparr>alert_user_state := s\<rparr>) = wf_alerts w"
  "wf_alerts (w\<lparr>alert_audiences := d\<rparr>) = wf_alerts w"
  "wf_alerts (w\<lparr>tick := n\<rparr>) = wf_alerts w"
  "wf_alerts (w\<lparr>published := e\<rparr>) = wf_alerts w"
  by (simp_all add: wf_alerts_def)

lemma open_with_key_repeated [simp]: "open_with_key k (repeated inp now a) = open_with_key k a"
  by (simp add: open_with_key_def is_open_def repeated_def)

lemma alert_ID_changed [simp]:
  "alert_ID (repeated inp now a) = alert_ID a" "alert_ID (close_cleared now a) = alert_ID a"
  "alert_ID (close_by who now a) = alert_ID a" "alert_ID (reopened a) = alert_ID a"
  by (simp_all add: repeated_def close_cleared_def close_by_def reopened_def)

lemma closed_not_open [simp]:
  "\<not> open_with_key k (close_cleared now a)" "\<not> open_with_key k (close_by who now a)"
  by (simp_all add: open_with_key_def is_open_def close_cleared_def close_by_def)

subsection \<open>Raising\<close>

text \<open>Inside the transaction only the call counter moves until the commit.\<close>

lemma insert_audiences_tick:
  "run_state (insert_audiences as) w = (r, w') \<Longrightarrow> \<exists>n. w' = w\<lparr>tick := n\<rparr>"
proof (induction as arbitrary: w)
  case Nil
  then have "w' = w\<lparr>tick := tick w\<rparr>" by simp
  then show ?case ..
next
  case (Cons aud as)
  show ?case
  proof (cases "\<exists>s. aud = AudienceOther s")
    case True
    with Cons.prems have "w' = w\<lparr>tick := tick w\<rparr>" by auto
    then show ?thesis ..
  next
    case False
    then have "run_state (or_return (query (\<lambda>_. audience_row aud)) (Wrap ''insert alert audience'')
        (\<lambda>_. insert_audiences as)) w = (r, w')"
      using Cons.prems by (cases aud) auto
    then show ?thesis
      using Cons.IH [of "w\<lparr>tick := Suc (tick w)\<rparr>"]
      by (auto simp: run_simps split: fault.splits sum.splits)
  qed
qed

lemma wf_other_session: "wf_alerts w \<Longrightarrow> wf_alerts (snd (run_state other_session w))"
  by (auto simp: other_session_def run_simps wf_insert split: option.split)

lemma wf_commit_repeat: "wf_alerts w \<Longrightarrow> wf_alerts (commit_repeat inp now i esc w)"
  using wf_update_rows [of w "repeated inp now" "\<lambda>a. alert_ID a = i"]
  by (simp add: commit_repeat_def update_row_def wf_alerts_def)

lemma wf_commit_insert:
  "wf_alerts w \<Longrightarrow> \<not> insert_conflict a (alerts w) \<Longrightarrow> wf_alerts (commit_insert inp a w)"
  using wf_insert [of w a] by (simp add: commit_insert_def wf_alerts_def)

lemma within_insert_audiences: "within keeps_alerts (insert_audiences as)"
  by (rule withinI) (metis insert_audiences_tick keeps_alerts.rel_tick prod.collapse)

lemma within_raise_repeat: "within keeps_alerts (raise_repeat inp now ex)"
  unfolding raise_repeat_def Let_def
  by (intro keeps_alerts.db_within_rules within_insert_audiences keeps_alerts.within_exec)
    (simp add: keeps_alerts_def wf_commit_repeat)

lemma within_other_session: "within keeps_alerts other_session"
  by (rule withinI) (simp add: keeps_alerts_def wf_other_session)

text \<open>The row that the index admitted is still admitted at the commit: the transaction only counted calls.\<close>

lemma within_raise_insert: "within keeps_alerts (raise_insert inp now)"
  unfolding raise_insert_def
proof (rule keeps_alerts.within_bind [OF within_other_session], rule withinI)
  fix w :: world
  let ?body = "or_return (query (\<lambda>w. let a = first_raised inp now (db_uuid w) in
          if Rank (na_Severity inp) = 0 then Inl ErrInvalidEnum
          else if insert_conflict a (alerts w) then Inl ErrUniqueViolation else Inr a)) (Wrap ''insert alert'') (\<lambda>a.
     or_return (insert_audiences (na_Audiences inp)) (\<lambda>e. e) (\<lambda>_.
     or_return (exec (\<lambda>w. ((), commit_insert inp a w))) (Wrap ''commit raise alert'') (\<lambda>_.
     ok \<lparr>rr_Alert = a, rr_Created = True, rr_Escalated = False\<rparr>)))"
  let ?w1 = "w\<lparr>tick := Suc (tick w)\<rparr>"
  obtain q w2 where ia: "run_state (insert_audiences (na_Audiences inp)) ?w1 = (q, w2)"
    by (cases "run_state (insert_audiences (na_Audiences inp)) ?w1")
  then obtain n where w2: "w2 = w\<lparr>tick := n\<rparr>"
    using insert_audiences_tick by fastforce
  show "keeps_alerts w (snd (run_state ?body w))"
    by (auto simp: run_simps Let_def keeps_alerts_def ia w2 wf_commit_insert split: fault.split sum.split)
qed

lemma within_raiseOnce: "within keeps_alerts (raiseOnce inp)"
  unfolding raiseOnce_def
  by (intro keeps_alerts.db_within_rules within_raise_repeat within_raise_insert)

lemma within_raise_attempts: "within keeps_alerts (raise_attempts n inp)"
  by (induction n) (auto intro!: keeps_alerts.db_within_rules within_raiseOnce)

lemma within_repo_Raise: "within keeps_alerts (repo_Raise inp)"
  unfolding repo_Raise_def by (rule within_raise_attempts)

subsection \<open>The other operations\<close>

lemma wf_close_where: "wf_alerts w \<Longrightarrow> wf_alerts (snd (close_where p w))"
  unfolding close_where_def snd_conv by (rule wf_update_rows) auto

lemma keyed_filter_le: "distinct (map f t) \<Longrightarrow> length (filter (\<lambda>x. f x = c) t) \<le> 1"
  by (induction t) (auto simp: filter_empty_conv intro: rev_image_eqI)

lemma wf_reopen:
  assumes wf: "wf_alerts w"
    and free: "\<And>a b k. a \<in> set (alerts w) \<Longrightarrow> alert_ID a = i \<Longrightarrow> alert_DedupeKey a = Some k \<Longrightarrow>
                b \<in> set (alerts w) \<Longrightarrow> alert_ID b \<noteq> i \<Longrightarrow> \<not> open_with_key k b"
  shows "wf_alerts (w\<lparr>alerts := update_row alert_ID i reopened (alerts w)\<rparr>)"
proof -
  let ?t = "alerts w" and ?t' = "update_row alert_ID i reopened (alerts w)"
  have pk: "distinct (map alert_ID ?t')"
    using wf by (simp add: update_row_def map_id_update_rows wf_alerts_def primary_key_def)
  have "length (filter (open_with_key k) ?t') \<le> 1" for k
  proof (cases "\<exists>a \<in> set ?t. alert_ID a = i \<and> alert_DedupeKey a = Some k")
    case True
    then have "x \<in> set ?t' \<Longrightarrow> open_with_key k x \<Longrightarrow> alert_ID x = i" for x
      using free by (auto simp: update_row_def update_rows_def split: if_splits)
    then have "length (filter (open_with_key k) ?t') \<le> length (filter (\<lambda>x. alert_ID x = i) ?t')"
      by (rule length_filter_imp_le)
    then show ?thesis using keyed_filter_le [OF pk, of i] by linarith
  next
    case False
    then have "length (filter (open_with_key k) ?t') \<le> length (filter (open_with_key k) ?t)"
      unfolding update_row_def
      by (intro filter_update_rows_le) (auto simp: open_with_key_def reopened_def)
    then show ?thesis using wf by (meson le_trans one_open_per_key_def wf_alerts_def)
  qed
  then show ?thesis using pk by (simp add: wf_alerts_def primary_key_def one_open_per_key_def)
qed

lemma within_ResolveByDedupeKey: "within keeps_alerts (ResolveByDedupeKey k)"
  unfolding ResolveByDedupeKey_def
  by (intro keeps_alerts.db_within_rules keeps_alerts.within_exec) (simp add: keeps_alerts_def wf_close_where)

lemma within_ResolveByKeyPrefixExcept: "within keeps_alerts (ResolveByKeyPrefixExcept p keep)"
  unfolding ResolveByKeyPrefixExcept_def
  by (intro keeps_alerts.db_within_rules keeps_alerts.within_exec) (simp add: keeps_alerts_def wf_close_where)

lemma within_ResolveByUser: "within keeps_alerts (ResolveByUser i who)"
  unfolding ResolveByUser_def
  by (intro keeps_alerts.db_within_rules keeps_alerts.within_exec)
    (auto simp: keeps_alerts_def Let_def intro: wf_update_rows)

lemma within_Reopen: "within keeps_alerts (Reopen i)"
  unfolding Reopen_def
  by (intro keeps_alerts.db_within_rules keeps_alerts.within_io_call)
    (fastforce simp: keeps_alerts_def Let_def list_ex_iff intro!: wf_reopen)

lemma wf_delete:
  assumes "wf_alerts w" shows "wf_alerts (w\<lparr>alerts := filter p (alerts w)\<rparr>)"
proof -
  have "length (filter (open_with_key k) (filter p (alerts w))) \<le> 1" for k
    using length_filter_filter [of "open_with_key k" p "alerts w"] assms
    by (meson le_trans one_open_per_key_def wf_alerts_def)
  then show ?thesis
    using assms by (simp add: wf_alerts_def primary_key_def one_open_per_key_def distinct_map_filter)
qed

lemma within_DeleteOlderThan: "within keeps_alerts (DeleteOlderThan c)"
  unfolding DeleteOlderThan_def
  by (intro keeps_alerts.db_within_rules keeps_alerts.within_exec)
    (use wf_delete in \<open>auto simp: keeps_alerts_def Let_def wf_alerts_def\<close>)

lemma within_state_writes:
  "within keeps_alerts (repo_MarkRead u i)" "within keeps_alerts (repo_MarkUnread u i)"
  "within keeps_alerts (repo_Dismiss u i)" "within keeps_alerts (RestoreDismissed u i)"
  unfolding repo_MarkRead_def repo_MarkUnread_def repo_Dismiss_def RestoreDismissed_def
  by (intro keeps_alerts.db_within_rules keeps_alerts.within_exec;
      simp add: keeps_alerts_def Let_def split: prod.split)+

lemma within_repo_MarkAllRead: "within keeps_alerts (repo_MarkAllRead v)"
  unfolding repo_MarkAllRead_def
  by (intro keeps_alerts.db_within_rules keeps_alerts.within_io_call)
    (simp add: keeps_alerts_def Let_def split: sum.split)

context db_step_rel
begin

lemma within_as_Get: "within R as_Get"
  unfolding as_Get_def by (intro db_within_rules)

lemma within_FindVisible: "within R (FindVisible v i)"
  unfolding FindVisible_def by (intro db_within_rules)

lemma within_ListVisible: "within R (ListVisible v view n)"
  unfolding ListVisible_def by (intro db_within_rules)

lemma within_CountUnread: "within R (CountUnread v)"
  unfolding CountUnread_def by (intro db_within_rules)

lemma within_Audiences: "within R (Audiences i)"
  unfolding Audiences_def by (intro db_within_rules)

lemmas alert_read_rules = within_as_Get within_FindVisible within_ListVisible within_CountUnread within_Audiences

end

text \<open>Any mix of repository operations, as the services issue them.\<close>

datatype alert_op =
    OpRaise new_alert
  | OpResolveKey string
  | OpResolvePrefix string "string list"
  | OpResolveUser string "string option"
  | OpReopen string
  | OpRead string string
  | OpUnread string string
  | OpDismiss string string
  | OpRestore string string
  | OpReadAll alert_viewer
  | OpDelete time

definition drop_result :: "'a io \<Rightarrow> unit io" where
  "drop_result m = State_Monad.bind m (\<lambda>_. State_Monad.return ())"

fun alert_step :: "alert_op \<Rightarrow> unit io" where
  "alert_step (OpRaise inp) = drop_result (repo_Raise inp)"
| "alert_step (OpResolveKey k) = drop_result (ResolveByDedupeKey k)"
| "alert_step (OpResolvePrefix p keep) = drop_result (ResolveByKeyPrefixExcept p keep)"
| "alert_step (OpResolveUser i who) = drop_result (ResolveByUser i who)"
| "alert_step (OpReopen i) = drop_result (Reopen i)"
| "alert_step (OpRead u i) = drop_result (repo_MarkRead u i)"
| "alert_step (OpUnread u i) = drop_result (repo_MarkUnread u i)"
| "alert_step (OpDismiss u i) = drop_result (repo_Dismiss u i)"
| "alert_step (OpRestore u i) = drop_result (RestoreDismissed u i)"
| "alert_step (OpReadAll v) = drop_result (repo_MarkAllRead v)"
| "alert_step (OpDelete c) = drop_result (DeleteOlderThan c)"

lemma within_drop_result: "within keeps_alerts m \<Longrightarrow> within keeps_alerts (drop_result m)"
  unfolding drop_result_def by (intro keeps_alerts.within_rules)

lemmas keeps_alerts_ops =
  within_repo_Raise within_ResolveByDedupeKey within_ResolveByKeyPrefixExcept within_ResolveByUser
  within_Reopen within_state_writes within_repo_MarkAllRead within_DeleteOlderThan

lemma within_alert_step: "within keeps_alerts (alert_step p)"
  by (cases p) (auto intro!: within_drop_result keeps_alerts_ops)

definition crash_alert :: new_alert where
  "crash_alert =
     \<lparr>na_Kind = ''instance_dead'', na_Severity = SeverityCritical, na_Title = ''dead'', na_Body = [],
      na_ObjectType = None, na_ObjectID = None, na_DedupeKey = Some ''instance_dead:1'',
      na_Audiences = [AudienceTier TierDeveloper]\<rparr>"

text \<open>A server on which another session raises the same condition just before our first insert (call 2).\<close>

definition raced_world :: world where
  "raced_world = empty_world\<lparr>rivals := (\<lambda>n. if n = 2 then Some (first_raised crash_alert 5 ''rival'') else None)\<rparr>"



section \<open>A raise deduplicates\<close>

lemma set_add_audiences: "set (add_audiences i as t) = set t \<union> Pair i ` set as"
  by (induction i as t rule: add_audiences.induct) auto

lemma filter_update_rows_same:
  "(\<And>a. q (f a) = q a) \<Longrightarrow> filter q (update_rows p f t) = update_rows p f (filter q t)"
  by (induction t) (auto simp: update_rows_def)

lemma find_Some_filter: "find p t = Some x \<Longrightarrow> length (filter p t) \<le> 1 \<Longrightarrow> filter p t = [x]"
  by (induction t) (simp_all split: if_splits)

lemma find_None_filter: "find p t = None \<longleftrightarrow> filter p t = []"
  by (induction t) auto

lemma read_at_clear_read: 
  assumes "alert_user_state w = clear_read i t"
  shows "read_at w u i = None"
proof -
  have cleared: "list_all (\<lambda>s. us_AlertID s = i \<longrightarrow> us_ReadAt s = None) (clear_read i t)"
    by (induction t) (simp_all add: clear_read_def update_rows_def)
  show ?thesis
  proof (cases "state_of w u i")
    case None
    then show ?thesis by (simp add: read_at_def)
  next
    case (Some s)
    then have "s \<in> set (clear_read i t)" and "us_AlertID s = i"
      by (auto simp: state_of_def find_Some_iff simp flip: assms split: option.splits)
    then show ?thesis using cleared Some by (simp add: read_at_def list_all_iff)
  qed
qed

lemma insert_audiences_error:
  "run_state (insert_audiences as) w = (Inl e, w') \<Longrightarrow> \<not> isUniqueViolation e"
proof (induction as arbitrary: w)
  case Nil
  then show ?case by simp
next
  case (Cons aud as)
  then show ?case
    by (cases aud) (auto simp: run_simps isUniqueViolation_def audience_row_def split: fault.splits sum.splits if_splits)
qed

lemma run_raise_repeat_ok:
  assumes "run_state (raise_repeat inp now ex) w = (Inr res, w')"
  shows "\<exists>n. w' = commit_repeat inp now (alert_ID ex) (Rank (na_Severity inp) > Rank (alert_Severity ex)) (w\<lparr>tick := n\<rparr>)
    \<and> res = \<lparr>rr_Alert = repeated inp now ex, rr_Created = False,
             rr_Escalated = (Rank (na_Severity inp) > Rank (alert_Severity ex))\<rparr>"
  using assms
  by (auto simp: raise_repeat_def Let_def run_simps commit_repeat_def
      split: fault.splits sum.splits prod.splits if_splits dest!: insert_audiences_tick)

lemma run_raise_insert_ok:
  assumes "run_state (raise_insert inp now) w = (Inr res, w')"
  shows "\<exists>n i. w' = commit_insert inp (first_raised inp now i) (snd (run_state other_session w)\<lparr>tick := n\<rparr>)
    \<and> \<not> insert_conflict (first_raised inp now i) (alerts (snd (run_state other_session w)))
    \<and> res = \<lparr>rr_Alert = first_raised inp now i, rr_Created = True, rr_Escalated = False\<rparr>"
  using assms
  by (auto simp: raise_insert_def Let_def run_simps commit_insert_def
      split: fault.splits sum.splits prod.splits if_splits dest!: insert_audiences_tick)
    (intro exI conjI, rule refl, simp_all)

lemma other_session_effect:
  "w' = snd (run_state other_session w) \<Longrightarrow>
     (\<exists>t. w' = w\<lparr>alerts := t\<rparr> \<and> (t = alerts w \<or> (\<exists>n a. rivals w n = Some a \<and> t = alerts w @ [a])))"
  by (cases "rivals w (tick w)") (auto simp: other_session_def run_simps intro: exI [of _ "alerts w"])

lemma commit_repeat_open:
  assumes wf: "wf_alerts w" and fnd: "find (open_with_key k) (alerts w) = Some ex"
  shows "filter (open_with_key k) (alerts (commit_repeat inp now (alert_ID ex) esc w)) = [repeated inp now ex]"
proof -
  have "filter (open_with_key k) (alerts w) = [ex]"
    using find_Some_filter [OF fnd] wf by (simp add: wf_alerts_def one_open_per_key_def)
  then show ?thesis
    by (simp add: commit_repeat_def update_row_def filter_update_rows_same) (simp add: update_rows_def)
qed

lemma commit_insert_open:
  "\<not> insert_conflict (first_raised inp now i) (alerts w) \<Longrightarrow> na_DedupeKey inp = Some k \<Longrightarrow>
   filter (open_with_key k) (alerts (commit_insert inp (first_raised inp now i) w)) = [first_raised inp now i]"
  by (auto simp: commit_insert_def insert_conflict_def first_raised_def open_with_key_def is_open_def
      list_ex_iff filter_empty_conv)

text \<open>What one attempt did, when it succeeded.\<close>

definition raised_from :: "new_alert \<Rightarrow> string \<Rightarrow> world \<Rightarrow> raise_result \<Rightarrow> bool" where
  "raised_from inp k w res \<longleftrightarrow>
     (case find (open_with_key k) (alerts w) of
        Some ex \<Rightarrow> (\<exists>now. rr_Alert res = repeated inp now ex) \<and> \<not> rr_Created res
                   \<and> (rr_Escalated res \<longleftrightarrow> Rank (na_Severity inp) > Rank (alert_Severity ex))
      | None \<Rightarrow> rr_Created res \<and> (\<exists>now i. rr_Alert res = first_raised inp now i)
                \<or> (\<exists>n a now. rivals w n = Some a \<and> open_with_key k a \<and> rr_Alert res = repeated inp now a))"

definition raise_effect :: "new_alert \<Rightarrow> string \<Rightarrow> raise_result \<Rightarrow> world \<Rightarrow> bool" where
  "raise_effect inp k res w' \<longleftrightarrow>
     filter (open_with_key k) (alerts w') = [rr_Alert res]
     \<and> (\<forall>aud \<in> set (na_Audiences inp). (alert_ID (rr_Alert res), aud) \<in> set (alert_audiences w'))
     \<and> (rr_Escalated res \<longrightarrow> (\<forall>u. read_at w' u (alert_ID (rr_Alert res)) = None))"

lemma raise_repeat_effect:
  assumes wf: "wf_alerts w" and fnd: "find (open_with_key k) (alerts w) = Some ex"
    and run: "run_state (raise_repeat inp now ex) w = (Inr res, w')"
  shows "raised_from inp k w res \<and> raise_effect inp k res w'"
proof -
  let ?esc = "Rank (na_Severity inp) > Rank (alert_Severity ex)"
  obtain n where w': "w' = commit_repeat inp now (alert_ID ex) ?esc (w\<lparr>tick := n\<rparr>)"
    and res: "res = \<lparr>rr_Alert = repeated inp now ex, rr_Created = False, rr_Escalated = ?esc\<rparr>"
    using run_raise_repeat_ok [OF run] by blast
  have "filter (open_with_key k) (alerts w') = [repeated inp now ex]"
    unfolding w' by (rule commit_repeat_open) (use wf fnd in simp_all)
  moreover have "read_at w' u (alert_ID ex) = None" if ?esc for u
    by (rule read_at_clear_read [where t = "alert_user_state w"]) (use that in \<open>simp add: w' commit_repeat_def\<close>)
  ultimately show ?thesis
    using fnd by (auto simp: raised_from_def raise_effect_def res w' commit_repeat_def set_add_audiences)
qed

lemma raise_insert_effect:
  assumes key: "na_DedupeKey inp = Some k" and none: "find (open_with_key k) (alerts w) = None"
    and run: "run_state (raise_insert inp now) w = (Inr res, w')"
  shows "raised_from inp k w res \<and> raise_effect inp k res w'"
proof -
  obtain n i where w': "w' = commit_insert inp (first_raised inp now i) (snd (run_state other_session w)\<lparr>tick := n\<rparr>)"
    and free: "\<not> insert_conflict (first_raised inp now i) (alerts (snd (run_state other_session w)))"
    and res: "res = \<lparr>rr_Alert = first_raised inp now i, rr_Created = True, rr_Escalated = False\<rparr>"
    using run_raise_insert_ok [OF run] by blast
  have "filter (open_with_key k) (alerts w') = [first_raised inp now i]"
    unfolding w' by (rule commit_insert_open) (use free key in simp_all)
  then show ?thesis
    using none by (auto simp: raised_from_def raise_effect_def res w' commit_insert_def set_add_audiences first_raised_def)
qed

lemma raiseOnce_effect:
  assumes "wf_alerts w" "na_DedupeKey inp = Some k" "run_state (raiseOnce inp) w = (Inr res, w')"
  shows "raised_from inp k w res \<and> raise_effect inp k res w'"
proof -
  let ?w = "w\<lparr>tick := Suc (Suc (tick w))\<rparr>"
  have same: "raised_from inp k ?w res = raised_from inp k w res" by (simp add: raised_from_def split: option.split)
  from assms(3) obtain now where
    "run_state (case find (open_with_key k) (alerts w) of Some ex \<Rightarrow> raise_repeat inp now ex
                | None \<Rightarrow> raise_insert inp now) ?w = (Inr res, w')"
    by (auto simp: raiseOnce_def assms(2) run_simps db_now_def split: fault.splits)
  then show ?thesis
    using raise_repeat_effect [of ?w k _ inp now res w'] raise_insert_effect [of inp k ?w now res w']
      assms(1,2) same by (auto split: option.splits)
qed

text \<open>An attempt lost to the index leaves nothing behind but the other session's alert.\<close>

lemma raise_repeat_error: "run_state (raise_repeat inp now ex) w = (Inl e, w') \<Longrightarrow> \<not> isUniqueViolation e"
  by (auto simp: raise_repeat_def Let_def run_simps isUniqueViolation_def check_severity_def
      split: fault.splits sum.splits prod.splits if_splits dest: insert_audiences_error [unfolded isUniqueViolation_def])

lemma raise_insert_lost:
  assumes "run_state (raise_insert inp now) w = (Inl e, w')" and "isUniqueViolation e"
  shows "\<exists>n. w' = snd (run_state other_session w)\<lparr>tick := n\<rparr>"
  using assms
  by (auto simp: raise_insert_def Let_def run_simps isUniqueViolation_def
      split: fault.splits sum.splits prod.splits if_splits dest: insert_audiences_error [unfolded isUniqueViolation_def])

lemma raiseOnce_lost:
  assumes key: "na_DedupeKey inp = Some k" and run: "run_state (raiseOnce inp) w = (Inl e, w')"
    and uv: "isUniqueViolation e"
  shows "find (open_with_key k) (alerts w) = None \<and>
    (\<exists>n t. w' = w\<lparr>tick := n, alerts := t\<rparr> \<and> (t = alerts w \<or> (\<exists>m a. rivals w m = Some a \<and> t = alerts w @ [a])))"
proof -
  let ?w = "w\<lparr>tick := Suc (Suc (tick w))\<rparr>"
  from run uv obtain now where
    r: "run_state (case find (open_with_key k) (alerts w) of Some ex \<Rightarrow> raise_repeat inp now ex
                | None \<Rightarrow> raise_insert inp now) ?w = (Inl e, w')"
    by (auto simp: raiseOnce_def key run_simps db_now_def isUniqueViolation_def split: fault.splits)
  then have none: "find (open_with_key k) (alerts w) = None"
    using raise_repeat_error uv by (auto split: option.splits)
  then obtain n where w': "w' = snd (run_state other_session ?w)\<lparr>tick := n\<rparr>"
    using raise_insert_lost [OF _ uv, of inp now ?w w'] r by auto
  obtain t where "snd (run_state other_session ?w) = ?w\<lparr>alerts := t\<rparr>"
    and "t = alerts w \<or> (\<exists>m a. rivals w m = Some a \<and> t = alerts w @ [a])"
    using other_session_effect [of _ ?w] by auto
  then have "w' = w\<lparr>tick := n, alerts := t\<rparr> \<and> (t = alerts w \<or> (\<exists>m a. rivals w m = Some a \<and> t = alerts w @ [a]))"
    using w' by simp
  then show ?thesis using none by blast
qed

lemma raise_attempts_effect:
  assumes "na_DedupeKey inp = Some k"
  shows "wf_alerts w \<Longrightarrow> run_state (raise_attempts n inp) w = (Inr res, w') \<Longrightarrow>
           raised_from inp k w res \<and> raise_effect inp k res w'"
proof (induction n arbitrary: w)
  case 0
  then show ?case by simp
next
  case (Suc n)
  obtain q w1 where once: "run_state (raiseOnce inp) w = (q, w1)" by (cases "run_state (raiseOnce inp) w")
  show ?case
  proof (cases q)
    case (Inr res')
    then show ?thesis using Suc.prems once raiseOnce_effect [OF Suc.prems(1) assms] by simp
  next
    case (Inl e)
    then have uv: "isUniqueViolation e" and rest: "run_state (raise_attempts n inp) w1 = (Inr res, w')"
      using Suc.prems(2) once assms by (auto split: if_splits)
    have "wf_alerts w1"
      using withinD [OF within_raiseOnce once] Suc.prems(1) by (simp add: keeps_alerts_def)
    then have "raised_from inp k w1 res \<and> raise_effect inp k res w'" using Suc.IH rest by blast
    moreover obtain t n' where "find (open_with_key k) (alerts w) = None" and "w1 = w\<lparr>tick := n', alerts := t\<rparr>"
      and "t = alerts w \<or> (\<exists>m a. rivals w m = Some a \<and> t = alerts w @ [a])"
      using raiseOnce_lost [OF assms once [unfolded Inl] uv] by auto
    ultimately show ?thesis
      by (auto simp: raised_from_def find_append split: option.splits if_splits) blast+
  qed
qed

text \<open>
  C21. A raise that reports success on a dedupe key leaves exactly one open alert with that key, the one it
  returns: the alert that was open before with one more occurrence, or a new one, or the alert another
  session raised meanwhile with one more occurrence. Every audience named is addressed, and an escalated
  alert is unread for everyone.
\<close>

theorem raise_dedupes:
  assumes "wf_alerts w" and "na_DedupeKey inp = Some k" and "run_state (repo_Raise inp) w = (Inr res, w')"
  shows "raised_from inp k w res \<and> raise_effect inp k res w'"
  using raise_attempts_effect assms unfolding repo_Raise_def by blast

text \<open>Twice on the raced server: the first call loses its insert and counts on the other session's alert.\<close>

theorem raise_dedupes_witness:
  "\<exists>res w'. run_state (repo_Raise crash_alert) raced_world = (Inr res, w')
     \<and> alert_ID (rr_Alert res) = ''rival'' \<and> alert_Occurrences (rr_Alert res) = 2
     \<and> raised_from crash_alert ''instance_dead:1'' raced_world res \<and> raise_effect crash_alert ''instance_dead:1'' res w'"
proof -
  have wf: "wf_alerts raced_world" and k: "na_DedupeKey crash_alert = Some ''instance_dead:1''"
    by (simp_all add: wf_alerts_def raced_world_def empty_world_def primary_key_def one_open_per_key_def crash_alert_def)
  have "case fst (run_state (repo_Raise crash_alert) raced_world) of
          Inr res \<Rightarrow> alert_ID (rr_Alert res) = ''rival'' \<and> alert_Occurrences (rr_Alert res) = 2 | Inl _ \<Rightarrow> False"
    by (simp add: repo_Raise_def numeral_2_eq_2 raiseOnce_def raise_insert_def raise_repeat_def other_session_def
        run_simps raced_world_def empty_world_def crash_alert_def first_raised_def repeated_def Rank_def
        check_severity_def insert_conflict_def open_with_key_def is_open_def isUniqueViolation_def
        audience_row_def valid_tier_def tier_rank_def db_uuid_def uuid_of_def)
  then obtain res w' where "run_state (repo_Raise crash_alert) raced_world = (Inr res, w')"
    "alert_ID (rr_Alert res) = ''rival''" "alert_Occurrences (rr_Alert res) = 2"
    by (cases "run_state (repo_Raise crash_alert) raced_world") (auto split: sum.splits)
  then show ?thesis using raise_dedupes [OF wf k] by blast
qed

section \<open>A raise is never lost to a race\<close>

definition fresh_uuids :: "world \<Rightarrow> bool" where
  "fresh_uuids w \<longleftrightarrow>
     (\<forall>n. uuids w n \<notin> alert_ID ` set (alerts w) \<and> (\<forall>m a. rivals w m = Some a \<longrightarrow> uuids w n \<noteq> alert_ID a))"

definition acceptable :: "new_alert \<Rightarrow> bool" where
  "acceptable inp \<longleftrightarrow> Rank (na_Severity inp) \<noteq> 0 \<and> list_all (\<lambda>a. audience_row a = Inr ()) (na_Audiences inp)"

lemma insert_audiences_ok:
  "(\<And>n. faults w n = NoFault) \<Longrightarrow> list_all (\<lambda>a. audience_row a = Inr ()) as \<Longrightarrow>
   \<exists>n. run_state (insert_audiences as) w = (Inr (), w\<lparr>tick := n\<rparr>)"
proof (induction as arbitrary: w)
  case Nil
  have "run_state (insert_audiences []) w = (Inr (), w\<lparr>tick := tick w\<rparr>)" by simp
  then show ?case ..
next
  case (Cons aud as)
  then obtain n where "run_state (insert_audiences as) (w\<lparr>tick := Suc (tick w)\<rparr>) = (Inr (), w\<lparr>tick := n\<rparr>)"
    using Cons.IH [of "w\<lparr>tick := Suc (tick w)\<rparr>"] by auto
  then have "run_state (insert_audiences (aud # as)) w = (Inr (), w\<lparr>tick := n\<rparr>)"
    using Cons.prems by (cases aud) (auto simp: run_simps audience_row_def split: if_splits)
  then show ?case ..
qed

lemma raise_repeat_progress:
  assumes nf: "\<And>n. faults w n = NoFault" and "acceptable inp"
  shows "\<exists>res w'. run_state (raise_repeat inp now ex) w = (Inr res, w')"
proof -
  let ?esc = "Rank (na_Severity inp) > Rank (alert_Severity ex)"
  let ?n = "if ?esc then Suc (Suc (tick w)) else Suc (tick w)"
  obtain m where "run_state (insert_audiences (na_Audiences inp)) (w\<lparr>tick := ?n\<rparr>) = (Inr (), w\<lparr>tick := m\<rparr>)"
    using insert_audiences_ok [of "w\<lparr>tick := ?n\<rparr>" "na_Audiences inp"] assms by (auto simp: acceptable_def)
  then show ?thesis
    using assms by (auto simp: raise_repeat_def Let_def run_simps acceptable_def check_severity_def split: if_splits)
qed

lemma raise_insert_progress:
  assumes nf: "\<And>n. faults w n = NoFault" and acc: "acceptable inp" and fresh: "fresh_uuids w"
    and run: "run_state (raise_insert inp now) w = (Inl e, w')"
  shows "isUniqueViolation e \<and> (\<exists>k. na_DedupeKey inp = Some k \<and> find (open_with_key k) (alerts w') \<noteq> None)
    \<and> faults w' = faults w"
proof -
  obtain w1 where os: "run_state other_session w = ((), w1)" by (cases "run_state other_session w") auto
  then obtain t where w1: "w1 = w\<lparr>alerts := t\<rparr>" and t: "t = alerts w \<or> (\<exists>n a. rivals w n = Some a \<and> t = alerts w @ [a])"
    using other_session_effect [of w1 w] by auto
  obtain m where ia: "run_state (insert_audiences (na_Audiences inp)) (w1\<lparr>tick := Suc (tick w)\<rparr>) = (Inr (), w1\<lparr>tick := m\<rparr>)"
    using insert_audiences_ok [of "w1\<lparr>tick := Suc (tick w)\<rparr>" "na_Audiences inp"] nf acc w1 by (auto simp: acceptable_def)
  let ?a = "first_raised inp now (db_uuid (w1\<lparr>tick := Suc (tick w)\<rparr>))"
  have e: "e = Wrap ''insert alert'' ErrUniqueViolation \<and> insert_conflict ?a t \<and> w' = w1\<lparr>tick := Suc (tick w)\<rparr>"
    using run nf acc ia by (auto simp: raise_insert_def run_simps os w1 Let_def acceptable_def split: if_splits)
  have "uuids w (Suc (tick w)) \<notin> alert_ID ` set t"
    using fresh t by (auto simp: fresh_uuids_def image_iff)
  then obtain k where "na_DedupeKey inp = Some k" and "list_ex (open_with_key k) t"
    using e by (auto simp: insert_conflict_def first_raised_def db_uuid_def w1 split: option.splits)
  then show ?thesis using e w1 by (auto simp: isUniqueViolation_def find_None_iff list_ex_iff)
qed

lemma run_raiseOnce:
  assumes "\<And>n. faults w n = NoFault"
  shows "\<exists>now n. run_state (raiseOnce inp) w =
    run_state (case Option.bind (na_DedupeKey inp) (\<lambda>k. find (open_with_key k) (alerts w)) of
        Some ex \<Rightarrow> raise_repeat inp now ex | None \<Rightarrow> raise_insert inp now) (w\<lparr>tick := n\<rparr>)"
  using assms by (cases "na_DedupeKey inp") (auto simp: raiseOnce_def run_simps)

lemma repo_Raise_progress:
  assumes nf: "\<And>n. faults w n = NoFault" and fresh: "fresh_uuids w" and acc: "acceptable inp"
  shows "\<exists>res w'. run_state (repo_Raise inp) w = (Inr res, w')"
proof -
  obtain q w1 where once: "run_state (raiseOnce inp) w = (q, w1)" by (cases "run_state (raiseOnce inp) w")
  show ?thesis
  proof (cases q)
    case (Inr res)
    then show ?thesis using once by (simp add: repo_Raise_def numeral_2_eq_2)
  next
    case (Inl e)
    have nf': "faults (w\<lparr>tick := n\<rparr>) m = NoFault" for n m using nf by simp
    have repeat: "run_state (raise_repeat inp now ex) (w\<lparr>tick := n\<rparr>) \<noteq> (Inl e, w1)" for now ex n
      using raise_repeat_progress [of "w\<lparr>tick := n\<rparr>", OF nf' acc, of now ex] by auto
    obtain now n where "run_state (case Option.bind (na_DedupeKey inp) (\<lambda>k. find (open_with_key k) (alerts w)) of
        Some ex \<Rightarrow> raise_repeat inp now ex | None \<Rightarrow> raise_insert inp now) (w\<lparr>tick := n\<rparr>) = (Inl e, w1)"
      using run_raiseOnce [OF nf, of inp] once Inl by metis
    then have "run_state (raise_insert inp now) (w\<lparr>tick := n\<rparr>) = (Inl e, w1)"
      by (auto simp: repeat split: option.splits)
    then obtain k where uv: "isUniqueViolation e" and k: "na_DedupeKey inp = Some k"
      and there: "find (open_with_key k) (alerts w1) \<noteq> None" and nf1: "\<And>m. faults w1 m = NoFault"
      using raise_insert_progress [of "w\<lparr>tick := n\<rparr>" inp now e w1] nf acc fresh by (auto simp: fresh_uuids_def)
    obtain res w2 where "run_state (raiseOnce inp) w1 = (Inr res, w2)"
    proof -
      obtain ex where ex: "find (open_with_key k) (alerts w1) = Some ex" using there by auto
      obtain now m where "run_state (raiseOnce inp) w1 = run_state (raise_repeat inp now ex) (w1\<lparr>tick := m\<rparr>)"
        using run_raiseOnce [OF nf1, of inp] k ex by auto
      moreover have "faults (w1\<lparr>tick := m\<rparr>) j = NoFault" for j using nf1 by simp
      ultimately show ?thesis using raise_repeat_progress [OF _ acc, of "w1\<lparr>tick := m\<rparr>" now ex] that by auto
    qed
    then show ?thesis using once Inl uv k by (simp add: repo_Raise_def numeral_2_eq_2)
  qed
qed

text \<open>
  C22. Without faults, and with database ids that are fresh, a raise of a valid alert succeeds whatever other
  sessions insert between its lookup and its insert: the second attempt always finds the alert that beat
  the first, so the loop never reports a race lost twice.
\<close>

theorem raise_wins_race:
  assumes nf: "\<And>n. faults w n = NoFault" and fresh: "fresh_uuids w" and acc: "acceptable inp"
  shows "\<exists>res w'. run_state (repo_Raise inp) w = (Inr res, w')"
  using assms by (rule repo_Raise_progress)

theorem raise_wins_race_witness:
  "\<exists>res w'. run_state (repo_Raise crash_alert) raced_world = (Inr res, w')"
proof (rule raise_wins_race)
  show "faults raced_world n = NoFault" for n by (simp add: raced_world_def empty_world_def)
  show "fresh_uuids raced_world"
    by (auto simp: fresh_uuids_def raced_world_def empty_world_def first_raised_def uuid_of_def split: if_splits)
  show "acceptable crash_alert" by (simp add: acceptable_def crash_alert_def Rank_def audience_row_def valid_tier_def tier_rank_def)
qed

section \<open>Closing by prefix\<close>

lemma like_percent: "like ''%'' s"
  by (induction s) auto

lemma like_escape: "like (escapeLike p @ ''%'') s \<longleftrightarrow> take (length p) s = p"
proof (induction p arbitrary: s)
  case Nil
  then show ?case using like_percent by (simp add: escapeLike_def)
next
  case (Cons c p)
  then show ?case by (cases s) (auto simp: escapeLike_def)
qed

definition starts_with :: "string \<Rightarrow> string option \<Rightarrow> bool" where
  "starts_with p k = (case k of None \<Rightarrow> False | Some s \<Rightarrow> take (length p) s = p)"

lemma key_prefix_except_iff:
  "key_prefix_except (escapeLike p) keep a \<longleftrightarrow>
     starts_with p (alert_DedupeKey a) \<and> is_open a \<and> alert_DedupeKey a \<notin> Some ` set keep"
  by (auto simp: key_prefix_except_def like_escape starts_with_def split: option.split)

text \<open>
  Closing by prefix matches the prefix literally, wildcards in it included: on a run without faults
  exactly the open alerts whose key starts with the prefix and is not kept are closed and returned, and
  every other alert is untouched.
\<close>

theorem prefix_close_exact:
  assumes "faults w (tick w) = NoFault"
  shows "\<exists>w'. run_state (ResolveByKeyPrefixExcept p keep) w =
           (Inr [alert_ID a. a \<leftarrow> alerts w, starts_with p (alert_DedupeKey a) \<and> is_open a
                                  \<and> alert_DedupeKey a \<notin> Some ` set keep], w')
     \<and> alerts w' =
         [if starts_with p (alert_DedupeKey a) \<and> is_open a \<and> alert_DedupeKey a \<notin> Some ` set keep
          then close_cleared (clock w (Suc (tick w))) a else a. a \<leftarrow> alerts w]"
proof -
  have "map f (filter q t) = concat (map (\<lambda>a. if q a then [f a] else []) t)" for q and f :: "alert \<Rightarrow> string" and t
    by (induction t) auto
  then show ?thesis
    using assms by (simp add: ResolveByKeyPrefixExcept_def run_simps close_where_def key_prefix_except_iff
        update_rows_def db_now_def)
qed

theorem prefix_close_exact_witness:
  "\<exists>w'. run_state (ResolveByKeyPrefixExcept ''a_'' []) (empty_world\<lparr>alerts :=
      [first_raised (crash_alert\<lparr>na_DedupeKey := Some ''a_1''\<rparr>) 1 ''1'', first_raised (crash_alert\<lparr>na_DedupeKey := Some ''ab1''\<rparr>) 1 ''2'']\<rparr>)
    = (Inr [''1''], w')"
proof -
  let ?w = "empty_world\<lparr>alerts :=
      [first_raised (crash_alert\<lparr>na_DedupeKey := Some ''a_1''\<rparr>) 1 ''1'', first_raised (crash_alert\<lparr>na_DedupeKey := Some ''ab1''\<rparr>) 1 ''2'']\<rparr>"
  have "faults ?w (tick ?w) = NoFault" by (simp add: empty_world_def)
  from prefix_close_exact [OF this, of "''a_''" "[]"] show ?thesis
    by (auto simp: first_raised_def starts_with_def is_open_def)
qed

end
