(* ===== verification/Alerts.thy ===== *)
theory Alerts
  imports Alerts_Repo Gotime
begin

text \<open>
  The alert inbox (internal/alerts): what producers may raise, what an actor sees and does, and retention.
  The lemmas show that read, dismiss and resolve are all-or-nothing with their audit record and touch
  nothing but what they name, that only an Admin or the sole addressee closes an alert, and what retention
  deletes. In the server both the event broker and the notifier are set, so neither is optional here.
\<close>

section \<open>Producers\<close>

definition EventAlertsChanged :: string where "EventAlertsChanged = ''alerts_changed''"
definition MaxTitleLen :: nat where "MaxTitleLen = 200"
definition MaxBodyLen :: nat where "MaxBodyLen = 2000"
definition DefaultListLimit :: int where "DefaultListLimit = 100"
definition MaxListLimit :: int where "MaxListLimit = 200"
definition zeroUUID :: string where "zeroUUID = ''00000000-0000-0000-0000-000000000000''"

definition slug_char :: "char \<Rightarrow> bool" where
  "slug_char c \<longleftrightarrow> CHR ''a'' \<le> c \<and> c \<le> CHR ''z'' \<or> CHR ''0'' \<le> c \<and> c \<le> CHR ''9'' \<or> c = CHR ''_''"

text \<open>The pattern \<^verbatim>\<open>^[a-z][a-z0-9_]{0,n}$\<close>.\<close>

definition slug :: "nat \<Rightarrow> string \<Rightarrow> bool" where
  "slug n s = (case s of [] \<Rightarrow> False | c # cs \<Rightarrow> CHR ''a'' \<le> c \<and> c \<le> CHR ''z'' \<and> length cs \<le> n \<and> list_all slug_char cs)"

definition kindPattern :: "string \<Rightarrow> bool" where "kindPattern = slug 63"
definition objectTypePattern :: "string \<Rightarrow> bool" where "objectTypePattern = slug 31"

definition hex_char :: "char \<Rightarrow> bool" where
  "hex_char c \<longleftrightarrow> CHR ''0'' \<le> c \<and> c \<le> CHR ''9'' \<or> CHR ''a'' \<le> c \<and> c \<le> CHR ''f'' \<or> CHR ''A'' \<le> c \<and> c \<le> CHR ''F''"

definition uuidPattern :: "string \<Rightarrow> bool" where
  "uuidPattern s \<longleftrightarrow>
     (let parts = split_on (CHR ''-'') s in
      map length parts = [8, 4, 4, 4, 12] \<and> list_all (list_all hex_char) parts)"

record raise_params =
  rp_Kind :: string
  rp_Severity :: severity
  rp_Title :: string
  rp_Body :: string
  rp_ObjectType :: string
  rp_ObjectID :: string
  rp_DedupeKey :: string
  rp_Audiences :: "audience list"

definition invalid_alert :: "string \<Rightarrow> unit res" where
  "invalid_alert why = Inl (Wrap why ErrInvalidAlert)"

fun check_audiences :: "audience list \<Rightarrow> unit res" where
  "check_audiences [] = Inr ()"
| "check_audiences (a # rest) =
     (case a of
        AudienceUser u \<Rightarrow> if \<not> uuidPattern u then invalid_alert ''user audience needs a user id'' else check_audiences rest
      | AudienceGroup g \<Rightarrow> if \<not> uuidPattern g then invalid_alert ''group audience needs a group id'' else check_audiences rest
      | AudienceTier t \<Rightarrow>
          (case t of TierOther _ \<Rightarrow> invalid_alert ''unknown tier'' | _ \<Rightarrow> check_audiences rest)
      | AudienceOther _ \<Rightarrow> invalid_alert ''unknown audience type'')"

definition alert_Validate :: "raise_params \<Rightarrow> unit res" where
  "alert_Validate p =
     (if \<not> kindPattern (rp_Kind p) then invalid_alert ''kind must be a lowercase slug''
      else if Rank (rp_Severity p) = 0 then invalid_alert ''unknown severity''
      else if blank (rp_Title p) \<or> RuneCountInString (rp_Title p) > MaxTitleLen
        then invalid_alert ''title must be 1 to 200 characters''
      else if RuneCountInString (rp_Body p) > MaxBodyLen then invalid_alert ''body must be at most 2000 characters''
      else if (rp_ObjectType p = []) \<noteq> (rp_ObjectID p = []) then invalid_alert ''object type and id go together''
      else if rp_ObjectType p \<noteq> [] \<and> (\<not> objectTypePattern (rp_ObjectType p) \<or> length (rp_ObjectID p) > 64)
        then invalid_alert ''malformed object reference''
      else if length (rp_DedupeKey p) > 200 then invalid_alert ''dedupe key is too long''
      else if rp_Audiences p = [] then invalid_alert ''an alert needs at least one audience''
      else check_audiences (rp_Audiences p))"

definition optional :: "string \<Rightarrow> string option" where
  "optional s = (if s = [] then None else Some s)"

definition changed :: "unit io" where
  "changed = poke (\<lambda>w. w\<lparr>published := published w @ [EventAlertsChanged]\<rparr>)"

definition AlertRaised :: "alert \<Rightarrow> bool \<Rightarrow> unit io" where
  "AlertRaised a escalated = poke (\<lambda>w. w\<lparr>notified := notified w @ [(a, escalated)]\<rparr>)"

definition new_alert_of :: "raise_params \<Rightarrow> new_alert" where
  "new_alert_of p =
     \<lparr>na_Kind = rp_Kind p, na_Severity = rp_Severity p, na_Title = rp_Title p, na_Body = rp_Body p,
      na_ObjectType = optional (rp_ObjectType p), na_ObjectID = optional (rp_ObjectID p),
      na_DedupeKey = optional (rp_DedupeKey p), na_Audiences = rp_Audiences p\<rparr>"

definition Raise :: "raise_params \<Rightarrow> raise_result res io" where
  "Raise p =
     (case alert_Validate p of
        Inl e \<Rightarrow> fail e
      | Inr _ \<Rightarrow>
          or_return (repo_Raise (new_alert_of p)) (Wrap ''raise alert'') (\<lambda>res.
            State_Monad.bind
              (if rr_Created res \<or> rr_Escalated res
               then State_Monad.bind changed (\<lambda>_. AlertRaised (rr_Alert res) (rr_Escalated res))
               else State_Monad.return ())
              (\<lambda>_. ok res)))"

definition changed_if :: "bool \<Rightarrow> unit io" where
  "changed_if b = (if b then changed else State_Monad.return ())"

definition ResolveCondition :: "string \<Rightarrow> nat res io" where
  "ResolveCondition dedupeKey =
     or_return (ResolveByDedupeKey dedupeKey) (Wrap ''resolve alert condition'') (\<lambda>ids.
       State_Monad.bind (changed_if (ids \<noteq> [])) (\<lambda>_. ok (length ids)))"

definition ResolveConditionsExcept :: "string \<Rightarrow> string list \<Rightarrow> nat res io" where
  "ResolveConditionsExcept prefix keep =
     (if prefix = [] then fail (Wrap ''a key prefix is required'' ErrInvalidAlert)
      else or_return (ResolveByKeyPrefixExcept prefix keep) (Wrap ''resolve alert conditions'') (\<lambda>ids.
        State_Monad.bind (changed_if (ids \<noteq> [])) (\<lambda>_. ok (length ids))))"

section \<open>The inbox of an actor\<close>

definition viewerOf :: "actor \<Rightarrow> alert_viewer" where
  "viewerOf a =
     (if IsSuperAdmin a then \<lparr>viewer_UserID = [], viewer_Tier = TierAdmin\<rparr>
      else \<lparr>viewer_UserID = UserID a, viewer_Tier = Tier a\<rparr>)"

record item =
  item_Alert :: alert
  item_Read :: bool

definition itemOf :: "actor \<Rightarrow> alert_view \<Rightarrow> item" where
  "itemOf a v = \<lparr>item_Alert = fst v, item_Read = (IsSuperAdmin a \<or> snd v \<noteq> None)\<rparr>"

definition alert_List :: "actor \<Rightarrow> alert_list_view \<Rightarrow> int \<Rightarrow> item list res io" where
  "alert_List a view limit =
     (let view' = (case view of AlertViewOther _ \<Rightarrow> AlertViewUnread | _ \<Rightarrow> view);
          l1 = (if limit \<le> 0 then DefaultListLimit else limit);
          l2 = (if l1 > MaxListLimit then MaxListLimit else l1)
      in if IsSuperAdmin a \<and> view' = AlertViewUnread then ok []
         else or_return (ListVisible (viewerOf a) view' l2) (Wrap ''list alerts'') (\<lambda>vs. ok (map (itemOf a) vs)))"

definition UnreadCount :: "actor \<Rightarrow> nat res io" where
  "UnreadCount a = or_return (CountUnread (viewerOf a)) (Wrap ''count unread alerts'') ok"

definition visible :: "actor \<Rightarrow> string \<Rightarrow> alert_view res io" where
  "visible a i =
     (if \<not> uuidPattern i then fail ErrNotFound
      else or_return (FindVisible (viewerOf a) i)
        (\<lambda>e. if errors_is e ErrAlertNotFound then ErrNotFound else Wrap ''find alert'' e) ok)"

definition mayResolve :: "actor \<Rightarrow> string \<Rightarrow> bool res io" where
  "mayResolve a alertID =
     (if CanResolveAnyAlert a then ok True
      else if IsSuperAdmin a then ok False
      else or_return (Audiences alertID) (Wrap ''look up alert audiences'') (\<lambda>auds.
        ok (auds = [AudienceUser (UserID a)])))"

record detail =
  detail_Item :: item
  detail_CanResolve :: bool

definition alert_Get :: "actor \<Rightarrow> string \<Rightarrow> detail res io" where
  "alert_Get a i =
     or_return (visible a i) (\<lambda>e. e) (\<lambda>v.
       if is_open (fst v)
       then or_return (mayResolve a (alert_ID (fst v))) (\<lambda>e. e) (\<lambda>c.
         ok \<lparr>detail_Item = itemOf a v, detail_CanResolve = c\<rparr>)
       else ok \<lparr>detail_Item = itemOf a v, detail_CanResolve = False\<rparr>)"

definition record_action :: "actor \<Rightarrow> string \<Rightarrow> string \<Rightarrow> string \<Rightarrow> audit_detail option \<Rightarrow> unit res io" where
  "record_action a action objectType objectID det =
     Record (actor_id a) (IsSuperAdmin a) action objectType objectID det"

definition userStateChange ::
  "actor \<Rightarrow> string \<Rightarrow> string \<Rightarrow> (string \<Rightarrow> string \<Rightarrow> bool res io) \<Rightarrow> (string \<Rightarrow> string \<Rightarrow> unit res io) \<Rightarrow> bool res io" where
  "userStateChange a i action app revert =
     or_return (visible a i) (\<lambda>e. e) (\<lambda>v.
       if IsSuperAdmin a then ok False
       else or_return (app (UserID a) (alert_ID (fst v))) (\<lambda>e. e) (\<lambda>ch.
         if \<not> ch then ok False
         else or_return
           (audited (record_action a action ''alert'' (alert_ID (fst v)) (Some [(''kind'', JStr (alert_Kind (fst v)))]))
              (revert (UserID a) (alert_ID (fst v))) (\<lambda>e. e))
           (\<lambda>e. e) (\<lambda>_. State_Monad.bind changed (\<lambda>_. ok True))))"

definition discard :: "bool res io \<Rightarrow> unit res io" where
  "discard m = or_return m (\<lambda>e. e) (\<lambda>_. ok ())"

definition MarkRead :: "actor \<Rightarrow> string \<Rightarrow> bool res io" where
  "MarkRead a i = userStateChange a i ''read_alert'' repo_MarkRead (\<lambda>u j. discard (repo_MarkUnread u j))"

definition MarkUnread :: "actor \<Rightarrow> string \<Rightarrow> bool res io" where
  "MarkUnread a i = userStateChange a i ''marked_alert_unread'' repo_MarkUnread (\<lambda>u j. discard (repo_MarkRead u j))"

definition Dismiss :: "actor \<Rightarrow> string \<Rightarrow> bool res io" where
  "Dismiss a i = userStateChange a i ''dismissed_alert'' repo_Dismiss RestoreDismissed"

text \<open>The revert loop of \<^verbatim>\<open>MarkAllRead\<close> keeps the last error.\<close>

fun unread_each :: "string \<Rightarrow> string list \<Rightarrow> error option \<Rightarrow> error option io" where
  "unread_each u [] err = State_Monad.return err"
| "unread_each u (i # is) err =
     State_Monad.bind (repo_MarkUnread u i) (\<lambda>r. unread_each u is (case r of Inl e \<Rightarrow> Some e | Inr _ \<Rightarrow> err))"

definition MarkAllRead :: "actor \<Rightarrow> nat res io" where
  "MarkAllRead a =
     (if IsSuperAdmin a then ok 0
      else or_return (repo_MarkAllRead (viewerOf a)) (Wrap ''mark all alerts read'') (\<lambda>ids.
        if ids = [] then ok 0
        else or_return
          (audited
             (record_action a ''marked_all_alerts_read'' ''alert'' zeroUUID (Some [(''count'', JInt (int (length ids)))]))
             (State_Monad.bind (unread_each (UserID a) ids None) (\<lambda>r. case r of Some e \<Rightarrow> fail e | None \<Rightarrow> ok ()))
             (\<lambda>e. e))
          (\<lambda>e. e) (\<lambda>_. State_Monad.bind changed (\<lambda>_. ok (length ids)))))"

definition ResolveAlert :: "actor \<Rightarrow> string \<Rightarrow> bool res io" where
  "ResolveAlert a i =
     or_return (visible a i) (\<lambda>e. e) (\<lambda>v.
     or_return (mayResolve a (alert_ID (fst v))) (\<lambda>e. e) (\<lambda>may.
       if \<not> may then fail ErrNotPermitted
       else or_return (ResolveByUser (alert_ID (fst v)) (actor_id a)) (\<lambda>e. e) (\<lambda>ch.
         if \<not> ch then ok False
         else or_return
           (audited (record_action a ''resolved_alert'' ''alert'' (alert_ID (fst v)) (Some [(''kind'', JStr (alert_Kind (fst v)))]))
              (Reopen (alert_ID (fst v))) (\<lambda>e. e))
           (\<lambda>e. e) (\<lambda>_. State_Monad.bind changed (\<lambda>_. ok True)))))"

section \<open>Retention\<close>

definition MinRetentionMonths :: int where "MinRetentionMonths = 1"
definition MaxRetentionMonths :: int where "MaxRetentionMonths = 24"

definition alert_Settings :: "actor \<Rightarrow> alert_settings res io" where
  "alert_Settings a =
     (if \<not> CanViewSettings a then fail ErrNotPermitted
      else or_return as_Get (Wrap ''get alert settings'') ok)"

definition UpdateRetention :: "actor \<Rightarrow> int \<Rightarrow> unit res io" where
  "UpdateRetention a months =
     (if \<not> CanViewSettings a then fail ErrNotPermitted
      else if months < MinRetentionMonths \<or> months > MaxRetentionMonths
        then fail (Wrap ''keep alerts between 1 and 24 months'' ErrInvalidRetention)
      else or_return as_Get (Wrap ''get current alert settings'') (\<lambda>current.
        or_return (as_Update months (actor_id a)) (Wrap ''update alert settings'') (\<lambda>_.
          audited
            (Record (actor_id a) (IsSuperAdmin a) ''updated_alert_retention'' ''alert_settings'' zeroUUID
               (Some [(''retention_months'', JInt months), (''previous_retention_months'', JInt (as_RetentionMonths current))]))
            (as_Update (as_RetentionMonths current) (as_UpdatedBy current)) (\<lambda>e. e))))"

text \<open>\<open>loc\<close> is the time zone of the server process.\<close>

definition ExpireOnce :: "location \<Rightarrow> (nat \<times> error option) io" where
  "ExpireOnce loc =
     State_Monad.bind as_Get (\<lambda>r. case r of
       Inl e \<Rightarrow> State_Monad.return (0, Some (Wrap ''get alert settings'' e))
     | Inr cfg \<Rightarrow>
         State_Monad.bind time_now (\<lambda>now.
         let cutoff = AddMonths loc (- as_RetentionMonths cfg) now in
         State_Monad.bind (DeleteOlderThan cutoff) (\<lambda>d. case d of
           Inl e \<Rightarrow> State_Monad.return (0, Some e)
         | Inr n \<Rightarrow>
             if n = 0 then State_Monad.return (0, None)
             else State_Monad.bind changed (\<lambda>_.
               State_Monad.bind
                 (Record None False ''expired_alerts'' ''alert'' zeroUUID
                    (Some [(''deleted'', JInt (int n)), (''retention_months'', JInt (as_RetentionMonths cfg)),
                           (''older_than'', JStr (format_rfc3339 cutoff))]))
                 (\<lambda>a. State_Monad.return
                    (n, case a of Inl e \<Rightarrow> Some (Wrap ''record audit for expired alerts'' e) | Inr _ \<Rightarrow> None))))))"

section \<open>Read and dismissed state\<close>

text \<open>
  What the services' state changes are about: the alerts, who they are addressed to, and for every user and
  alert whether it is read and whether it is dismissed.
\<close>

definition inbox :: "world \<Rightarrow> alert list \<times> (string \<times> audience) list \<times> (string \<Rightarrow> string \<Rightarrow> bool \<times> bool)" where
  "inbox w = (alerts w, alert_audiences w, \<lambda>u i. (read_at w (Some u) i \<noteq> None, dismissed w (Some u) i))"

definition wf_states :: "world \<Rightarrow> bool" where
  "wf_states w \<longleftrightarrow> primary_key (\<lambda>s. (us_AlertID s, us_UserID s)) (alert_user_state w)"

definition flags :: "user_state option \<Rightarrow> bool \<times> bool" where
  "flags s = (Option.bind s us_ReadAt \<noteq> None, Option.bind s us_DismissedAt \<noteq> None)"

lemma inbox_eq:
  "inbox w = (alerts w, alert_audiences w, \<lambda>u i. flags (find (is_state i u) (alert_user_state w)))"
  by (simp add: inbox_def flags_def read_at_def dismissed_def state_of_def is_state_def [abs_def])

lemma is_state_put [simp]:
  "is_state i u (put_read v s) = is_state i u s" "is_state i u (put_dismissed v s) = is_state i u s"
  by (simp_all add: is_state_def put_read_def put_dismissed_def)

lemma is_state_no_state [simp]: "is_state i u (no_state j v) \<longleftrightarrow> j = i \<and> v = u"
  by (simp add: is_state_def no_state_def)

lemma find_state_update:
  "(\<And>s. is_state i u (f s) = is_state i u s) \<Longrightarrow>
   find (is_state i u) (update_rows p f t) = map_option (\<lambda>s. if p s then f s else s) (find (is_state i u) t)"
  by (induction t) (auto simp: update_rows_def)

lemma one_state:
  "primary_key (\<lambda>s. (us_AlertID s, us_UserID s)) t \<Longrightarrow>
   length (filter (\<lambda>s. is_state i u s \<and> q s) t) = (case find (is_state i u) t of Some s \<Rightarrow> if q s then 1 else 0 | None \<Rightarrow> 0)"
proof (induction t)
  case (Cons s t)
  have "filter (\<lambda>s. is_state i u s \<and> q s) t = []" if "is_state i u s"
    using Cons.prems that by (auto simp: primary_key_def is_state_def filter_empty_conv image_iff)
  then show ?case using Cons by (auto simp: primary_key_def)
qed simp

definition only_state :: "string \<Rightarrow> string \<Rightarrow> world \<Rightarrow> world \<Rightarrow> bool" where
  "only_state u i w w' \<longleftrightarrow>
     alerts w' = alerts w \<and> alert_audiences w' = alert_audiences w
     \<and> (\<forall>v j. (v, j) \<noteq> (u, i) \<longrightarrow> snd (snd (inbox w')) v j = snd (snd (inbox w)) v j)"

text \<open>
  The three writes and their reverts as functions on the table. Each entry of the list is the write, its
  revert, and the flags of the row afterwards.
\<close>

lemma find_SomeD: "find p t = Some x \<Longrightarrow> x \<in> set t \<and> p x"
  by (induction t) (auto split: if_splits)

lemma list_ex_find: "list_ex p t \<longleftrightarrow> find p t \<noteq> None"
  by (induction t) auto

lemma found_state: "find (is_state j v) t = Some s \<Longrightarrow> is_state i u s \<longleftrightarrow> (j, v) = (i, u)"
  by (auto simp: is_state_def dest!: find_SomeD)

lemma update_find:
  assumes "\<And>s i u. is_state i u (put s) = is_state i u s"
  shows "find (is_state j v) (update_rows (\<lambda>s. is_state i u s \<and> q s) put t) =
    (if (j, v) = (i, u) then map_option (\<lambda>s. if q s then put s else s) (find (is_state i u) t) else find (is_state j v) t)"
proof (cases "find (is_state j v) t")
  case None
  then show ?thesis using assms by (auto simp: find_state_update)
next
  case (Some s)
  then show ?thesis using assms found_state [OF Some, of i u] by (auto simp: find_state_update)
qed

lemma upsert_find:
  assumes "\<And>s i u. is_state i u (put s) = is_state i u s"
  shows "find (is_state j v) (snd (upsert_state col put i u t)) =
    (if (j, v) = (i, u)
     then Some (case find (is_state i u) t of None \<Rightarrow> put (no_state i u) | Some s \<Rightarrow> if col s = None then put s else s)
     else find (is_state j v) t)"
proof (cases "find (is_state i u) t")
  case None
  then show ?thesis using assms by (auto simp: upsert_state_def list_ex_find find_append split: option.split)
next
  case (Some s)
  then show ?thesis using assms update_find [of put j v i u "\<lambda>s. col s = None" t]
    by (simp add: upsert_state_def list_ex_find Let_def)
qed

lemma upsert_count:
  "primary_key (\<lambda>s. (us_AlertID s, us_UserID s)) t \<Longrightarrow>
   fst (upsert_state col put i u t) = (case find (is_state i u) t of Some s \<Rightarrow> if col s = None then 1 else 0 | None \<Rightarrow> 1)"
  using one_state [of t i u "\<lambda>s. col s = None"]
  by (auto simp: upsert_state_def Let_def list_ex_find split: option.splits)

definition state_write :: "world \<Rightarrow> (time \<Rightarrow> user_state list \<Rightarrow> bool \<times> user_state list) \<Rightarrow> string \<Rightarrow> bool res \<times> world" where
  "state_write w f msg =
     (let w1 = w\<lparr>tick := Suc (tick w)\<rparr>; p = f (clock w (Suc (tick w))) (alert_user_state w) in
      case faults w (tick w) of
        NoFault \<Rightarrow> (Inr (fst p), w1\<lparr>alert_user_state := snd p\<rparr>)
      | Lost e \<Rightarrow> (Inl (Wrap msg (ErrIO e)), w1)
      | Ambiguous e \<Rightarrow> (Inl (Wrap msg (ErrIO e)), w1\<lparr>alert_user_state := snd p\<rparr>))"

definition read_op :: "string \<Rightarrow> string \<Rightarrow> time \<Rightarrow> user_state list \<Rightarrow> bool \<times> user_state list" where
  "read_op u i now t = (let p = upsert_state us_ReadAt (put_read (Some now)) i u t in (fst p = 1, snd p))"

definition unread_op :: "string \<Rightarrow> string \<Rightarrow> time \<Rightarrow> user_state list \<Rightarrow> bool \<times> user_state list" where
  "unread_op u i now t =
     (length (filter (\<lambda>s. is_state i u s \<and> us_ReadAt s \<noteq> None) t) = 1,
      update_rows (\<lambda>s. is_state i u s \<and> us_ReadAt s \<noteq> None) (put_read None) t)"

definition dismiss_op :: "string \<Rightarrow> string \<Rightarrow> time \<Rightarrow> user_state list \<Rightarrow> bool \<times> user_state list" where
  "dismiss_op u i now t = (let p = upsert_state us_DismissedAt (put_dismissed (Some now)) i u t in (fst p = 1, snd p))"

definition restore_op :: "string \<Rightarrow> string \<Rightarrow> time \<Rightarrow> user_state list \<Rightarrow> bool \<times> user_state list" where
  "restore_op u i now t = (True, update_rows (is_state i u) (put_dismissed None) t)"

lemma run_state_writes:
  "run_state (repo_MarkRead u i) w = state_write w (read_op u i) ''mark alert read''"
  "run_state (repo_MarkUnread u i) w = state_write w (unread_op u i) ''mark alert unread''"
  "run_state (repo_Dismiss u i) w = state_write w (dismiss_op u i) ''dismiss alert''"
  "run_state (RestoreDismissed u i) w =
     (map_sum id (\<lambda>_. ()) (fst (state_write w (restore_op u i) ''restore dismissed alert'')),
      snd (state_write w (restore_op u i) ''restore dismissed alert''))"
  by (simp_all add: repo_MarkRead_def repo_MarkUnread_def repo_Dismiss_def RestoreDismissed_def state_write_def
      read_op_def unread_op_def dismiss_op_def restore_op_def run_simps Let_def db_now_def split: fault.split prod.split)

text \<open>How a write changes the row of its user and alert.\<close>

definition op_changes ::
  "(time \<Rightarrow> user_state list \<Rightarrow> bool \<times> user_state list) \<Rightarrow> string \<Rightarrow> string \<Rightarrow>
   (time \<Rightarrow> user_state option \<Rightarrow> bool) \<Rightarrow> (time \<Rightarrow> user_state option \<Rightarrow> user_state option) \<Rightarrow> bool" where
  "op_changes f u i hit chg \<longleftrightarrow>
     (\<forall>now t. primary_key (\<lambda>s. (us_AlertID s, us_UserID s)) t \<longrightarrow>
        (fst (f now t) \<longleftrightarrow> hit now (find (is_state i u) t))) \<and>
     (\<forall>now t j v. find (is_state j v) (snd (f now t)) =
        (if (j, v) = (i, u) then chg now (find (is_state i u) t) else find (is_state j v) t))"

lemma read_op_changes:
  "op_changes (read_op u i) u i (\<lambda>_ s. case s of None \<Rightarrow> True | Some s \<Rightarrow> us_ReadAt s = None)
     (\<lambda>now s. Some (case s of None \<Rightarrow> put_read (Some now) (no_state i u)
                    | Some s \<Rightarrow> if us_ReadAt s = None then put_read (Some now) s else s))"
  by (auto simp: op_changes_def read_op_def Let_def upsert_find upsert_count split: option.splits)

lemma unread_op_changes:
  "op_changes (unread_op u i) u i (\<lambda>_ s. case s of None \<Rightarrow> False | Some s \<Rightarrow> us_ReadAt s \<noteq> None)
     (\<lambda>_. map_option (\<lambda>s. if us_ReadAt s \<noteq> None then put_read None s else s))"
  by (auto simp: op_changes_def unread_op_def update_find one_state [where q = "\<lambda>s. us_ReadAt s \<noteq> None"]
      simp del: not_None_eq split: option.splits)

lemma dismiss_op_changes:
  "op_changes (dismiss_op u i) u i (\<lambda>_ s. case s of None \<Rightarrow> True | Some s \<Rightarrow> us_DismissedAt s = None)
     (\<lambda>now s. Some (case s of None \<Rightarrow> put_dismissed (Some now) (no_state i u)
                    | Some s \<Rightarrow> if us_DismissedAt s = None then put_dismissed (Some now) s else s))"
  by (auto simp: op_changes_def dismiss_op_def Let_def upsert_find upsert_count split: option.splits)

lemma restore_op_changes:
  "op_changes (restore_op u i) u i (\<lambda>_ _. True) (\<lambda>_. map_option (put_dismissed None))"
  using update_find [of "put_dismissed None" _ _ i u "\<lambda>_. True"] by (auto simp: op_changes_def restore_op_def)

text \<open>
  The contract of a per-user change: it is reversible, does nothing when it reports no change, and touches
  only the row of its user and alert when it does.
\<close>

locale inbox_change =
  fixes app :: "string \<Rightarrow> string \<Rightarrow> bool res io"
    and rev :: "string \<Rightarrow> string \<Rightarrow> unit res io"
  assumes app_reversible: "reversible_write inbox (app u i) (rev u i) wf_states (\<lambda>b. b)"
    and app_idle: "wf_states w \<Longrightarrow> run_state (app u i) w = (Inr False, w') \<Longrightarrow> inbox w' = inbox w"
    and app_only: "run_state (app u i) w = (Inr True, w') \<Longrightarrow> only_state u i w w'"

lemma op_reversible:
  assumes f: "op_changes f u i hit chg" and g: "op_changes g u i hit' chg'"
    and undo: "\<And>now now' s s2. hit now s \<Longrightarrow> flags s2 = flags (chg now s) \<Longrightarrow> flags (chg' now' s2) = flags s"
    and idle: "\<And>now s. \<not> hit now s \<Longrightarrow> flags (chg now s) = flags s"
    and app: "\<And>w. run_state app w = state_write w f m"
    and rev: "\<And>w. snd (run_state rv w) = snd (state_write w g m')"
  shows "reversible_write inbox app rv wf_states (\<lambda>b. b)"
    and "wf_states w \<Longrightarrow> run_state app w = (Inr False, w') \<Longrightarrow> inbox w' = inbox w"
    and "run_state app w = (Inr True, w') \<Longrightarrow> only_state u i w w'"
proof -
  have same: "flags (find (is_state j v) (snd (f now t))) =
      (if (j, v) = (i, u) then flags (chg now (find (is_state i u) t)) else flags (find (is_state j v) t))" for j v now t
    using f by (auto simp: op_changes_def)
  show "run_state app w = (Inr True, w') \<Longrightarrow> only_state u i w w'"
    by (auto simp: app state_write_def only_state_def inbox_eq Let_def same split: fault.splits)
  show "inbox w' = inbox w" if "wf_states w" "run_state app w = (Inr False, w')"
    using that f idle by (auto simp: app state_write_def inbox_eq Let_def same op_changes_def wf_states_def fun_eq_iff split: fault.splits)
  show "reversible_write inbox app rv wf_states (\<lambda>b. b)"
  proof
    fix w w' w1 w2 w3 r v x e n and l :: "audit_record list"
    show "run_state app w = (r, w') \<Longrightarrow> faults w' = faults w \<and> tick w' = Suc (tick w)"
      and "run_state app w = (r, w') \<Longrightarrow> audit_log w' = audit_log w"
      and "one_lost_call w \<Longrightarrow> wf_states w \<Longrightarrow> run_state app w = (Inl e, w') \<Longrightarrow> inbox w' = inbox w"
      by (auto simp: app state_write_def Let_def inbox_eq split: fault.splits)
    assume wf: "wf_states w" and ch: "run_state app w = (Inr x, w1)" "x" and w2: "inbox w2 = inbox w1"
      and nf: "faults w2 (tick w2) = NoFault" and rv: "run_state rv w2 = (v, w3)"
    have w3: "w3 = snd (state_write w2 g m')" using rv rev [of w2] by simp
    have hits: "hit now (find (is_state i u) (alert_user_state w))" if "now = clock w (Suc (tick w))" for now
      using ch f wf that by (auto simp: app state_write_def Let_def op_changes_def wf_states_def split: fault.splits)
    have w1: "w1 = w\<lparr>tick := Suc (tick w), alert_user_state := snd (f (clock w (Suc (tick w))) (alert_user_state w))\<rparr>"
      using ch by (auto simp: app state_write_def Let_def split: fault.splits)
    have rows2: "flags (find (is_state j v) (alert_user_state w2)) =
        (if (j, v) = (i, u) then flags (chg (clock w (Suc (tick w))) (find (is_state i u) (alert_user_state w)))
         else flags (find (is_state j v) (alert_user_state w)))" for j v
      using w2 by (auto simp: inbox_eq w1 same fun_eq_iff)
    have undone: "flags (find (is_state j v) (snd (g now (alert_user_state w2)))) = flags (find (is_state j v) (alert_user_state w))"
      for j v now
      using g rows2 undo [OF hits [OF refl] rows2 [of i u, simplified]] by (auto simp: op_changes_def)
    show "inbox w3 = inbox w \<and> audit_log w3 = audit_log w2"
      using w2 nf by (auto simp: w3 state_write_def Let_def inbox_eq undone w1)
  qed (simp_all add: inbox_eq)
qed

lemma flags_eq:
  "flags None = (False, False)"
  "flags (Some s) = (us_ReadAt s \<noteq> None, us_DismissedAt s \<noteq> None)"
  by (simp_all add: flags_def)

lemma flags_put [simp]:
  "us_ReadAt (put_read v s) = v" "us_DismissedAt (put_read v s) = us_DismissedAt s"
  "us_ReadAt (put_dismissed v s) = us_ReadAt s" "us_DismissedAt (put_dismissed v s) = v"
  "us_ReadAt (no_state i u) = None" "us_DismissedAt (no_state i u) = None"
  by (simp_all add: put_read_def put_dismissed_def no_state_def)

lemma snd_run_discard: "snd (run_state (discard m) w) = snd (run_state m w)"
  by (auto simp: discard_def run_simps split: prod.splits sum.splits)

lemma op_inbox_change:
  assumes "\<And>u i. op_changes (f u i) u i hit (chg u i)" and "\<And>u i. op_changes (g u i) u i hit' (chg' u i)"
    and "\<And>u i now now' s s2. hit now s \<Longrightarrow> flags s2 = flags (chg u i now s) \<Longrightarrow> flags (chg' u i now' s2) = flags s"
    and "\<And>u i now s. \<not> hit now s \<Longrightarrow> flags (chg u i now s) = flags s"
    and "\<And>u i w. run_state (app u i) w = state_write w (f u i) m"
    and "\<And>u i w. snd (run_state (rv u i) w) = snd (state_write w (g u i) m')"
  shows "inbox_change app rv"
proof (rule inbox_change.intro)
  fix u i w w'
  note op = op_reversible [where f = "f u i" and u = u and i = i and g = "g u i" and hit = hit and chg = "chg u i"
      and hit' = hit' and chg' = "chg' u i" and app = "app u i" and rv = "rv u i" and m = m and m' = m',
      OF assms(1,2) assms(3) assms(4) assms(5,6)]
  show "reversible_write inbox (app u i) (rv u i) wf_states (\<lambda>b. b)" by (rule op(1))
  show "wf_states w \<Longrightarrow> run_state (app u i) w = (Inr False, w') \<Longrightarrow> inbox w' = inbox w" by (rule op(2))
  show "run_state (app u i) w = (Inr True, w') \<Longrightarrow> only_state u i w w'" by (rule op(3))
qed

interpretation mark_read: inbox_change repo_MarkRead "\<lambda>u i. discard (repo_MarkUnread u i)"
proof (rule op_inbox_change [OF read_op_changes unread_op_changes, where m = "''mark alert read''" and m' = "''mark alert unread''"], goal_cases)
  case (1 u i now now' s s2)
  then show ?case by (cases s; cases s2; auto simp: flags_eq)
next
  case (2 u i now s)
  then show ?case by (cases s) (auto simp: flags_eq)
qed (simp_all add: run_state_writes snd_run_discard)

interpretation mark_unread: inbox_change repo_MarkUnread "\<lambda>u i. discard (repo_MarkRead u i)"
proof (rule op_inbox_change [OF unread_op_changes read_op_changes, where m = "''mark alert unread''" and m' = "''mark alert read''"], goal_cases)
  case (1 u i now now' s s2)
  then show ?case by (cases s; cases s2; auto simp: flags_eq)
next
  case (2 u i now s)
  then show ?case by (cases s) (auto simp: flags_eq)
qed (simp_all add: run_state_writes snd_run_discard)

interpretation dismissal: inbox_change repo_Dismiss RestoreDismissed
proof (rule op_inbox_change [OF dismiss_op_changes restore_op_changes, where m = "''dismiss alert''" and m' = "''restore dismissed alert''"], goal_cases)
  case (1 u i now now' s s2)
  then show ?case by (cases s; cases s2; auto simp: flags_eq)
next
  case (2 u i now s)
  then show ?case by (cases s) (auto simp: flags_eq)
qed (simp_all add: run_state_writes)

section \<open>Acting on an alert\<close>

lemma visible_tick: "run_state (visible a i) w = (r, w') \<Longrightarrow> \<exists>n. w' = w\<lparr>tick := n\<rparr>"
  by (auto simp: visible_def FindVisible_def run_simps split: if_splits fault.splits sum.splits option.splits
      intro: exI [of _ "tick w"])

lemma in_group_tick [simp]: "in_group (w\<lparr>tick := n\<rparr>) g u = in_group w g u"
  by (simp add: in_group_def)

lemma addressed_tick [simp]: "addressed (w\<lparr>tick := n\<rparr>) u t aud = addressed w u t aud"
  by (simp add: addressed_def split: audience.split option.split)

lemma visible_to_tick [simp]: "visible_to (w\<lparr>tick := n\<rparr>) = visible_to w"
  by (auto simp: visible_to_def dismissed_def state_of_def fun_eq_iff split: option.split)

lemma visible_found:
  "run_state (visible a i) w = (Inr v, w') \<Longrightarrow>
     alert_ID (fst v) = i \<and> fst v \<in> set (alerts w) \<and> visible_to w (viewerOf a) (fst v)"
  by (auto simp: visible_def FindVisible_def run_simps visibleAlerts_def
      split: if_splits fault.splits sum.splits option.splits dest!: find_SomeD)

lemma inbox_env [simp]:
  "inbox (w\<lparr>tick := n\<rparr>) = inbox w" "inbox (w\<lparr>published := p\<rparr>) = inbox w"
  by (simp_all add: inbox_eq)

lemma wf_states_tick [simp]: "wf_states (w\<lparr>tick := n\<rparr>) = wf_states w"
  by (simp add: wf_states_def)

lemma only_state_cong: "inbox u1 = inbox u2 \<Longrightarrow> inbox w1 = inbox w2 \<Longrightarrow> only_state u i u1 w1 \<Longrightarrow> only_state u i u2 w2"
  by (simp add: only_state_def inbox_eq)

context inbox_change
begin

lemma userStateChange_all_or_nothing:
  assumes one: "one_lost_call w" and wf: "wf_states w"
    and run: "run_state (userStateChange a i action app rev) w = (r, w')"
  shows "case r of
      Inl e \<Rightarrow> inbox w' = inbox w \<and> audit_log w' = audit_log w
    | Inr False \<Rightarrow> inbox w' = inbox w \<and> audit_log w' = audit_log w
    | Inr True \<Rightarrow> \<not> IsSuperAdmin a \<and> only_state (UserID a) i w w'
        \<and> (\<exists>v. v \<in> set (alerts w) \<and> alert_ID v = i \<and> visible_to w (viewerOf a) v)
        \<and> (\<exists>rec. audit_log w' = audit_log w @ [rec] \<and> audit_Action rec = action
              \<and> audit_ActorID rec = Some (UserID a) \<and> audit_ObjectID rec = i)"
proof -
  obtain q w1 where vis: "run_state (visible a i) w = (q, w1)" by (cases "run_state (visible a i) w")
  then obtain n where w1: "w1 = w\<lparr>tick := n\<rparr>" using visible_tick by blast
  show ?thesis
  proof (cases "\<exists>v. q = Inr v \<and> \<not> IsSuperAdmin a")
    case False
    then show ?thesis using run vis w1 by (auto simp: userStateChange_def run_simps split: sum.splits if_splits)
  next
    case True
    then obtain v where q: "q = Inr v" and sa: "\<not> IsSuperAdmin a" by blast
    note v = visible_found [OF vis [unfolded q]]
    obtain p w2 where ap: "run_state (app (UserID a) i) w1 = (p, w2)" by (cases "run_state (app (UserID a) i) w1")
    note rw = app_reversible [of "UserID a" i]
    have one1: "one_lost_call w1" using one w1 one_lost_call_cong [of w1 w] by simp
    have wf1: "wf_states w1" using wf w1 by simp
    have base: "inbox w1 = inbox w" "audit_log w1 = audit_log w" by (simp_all add: w1)
    show ?thesis
    proof (cases "p = Inr True")
      case False
      have "inbox w2 = inbox w1"
      proof (cases p)
        case (Inl e)
        then show ?thesis using reversible_write.wr_lost [OF rw one1 wf1] ap by blast
      next
        case (Inr b)
        then have "p = Inr False" using False by (cases b) simp_all
        then show ?thesis using app_idle [OF wf1] ap by blast
      qed
      moreover have "audit_log w2 = audit_log w1" by (rule reversible_write.wr_log [OF rw ap])
      moreover have "w' = w2 \<and> r \<noteq> Inr True"
        using run vis q sa v ap False
        by (cases p) (auto simp: userStateChange_def run_or_return)
      ultimately show ?thesis using base by (auto split: sum.split bool.split)
    next
      case True
      let ?rec = "Record (Some (UserID a)) False action ''alert'' i (Some [(''kind'', JStr (alert_Kind (fst v)))])"
      obtain z w3 where au: "run_state (audited ?rec (rev (UserID a) i) (\<lambda>e. e)) w2 = (z, w3)"
        by (cases "run_state (audited ?rec (rev (UserID a) i) (\<lambda>e. e)) w2")
      note tail = reversible_write.audited_tail [OF rw one1 wf1 ap [unfolded True] TrueI au]
      have "run_state (userStateChange a i action app rev) w =
          (case z of Inl e \<Rightarrow> (Inl e, w3) | Inr _ \<Rightarrow> (Inr True, w3\<lparr>published := published w3 @ [EventAlertsChanged]\<rparr>))"
        using vis q sa v ap True au
        by (simp add: userStateChange_def run_or_return record_action_def actor_id_def changed_def run_poke split: sum.split)
      moreover have "only_state (UserID a) i w w3" if "inbox w3 = inbox w2"
        using only_state_cong [OF base(1) that [symmetric] app_only [OF ap [unfolded True]]] .
      moreover have pub: "only_state (UserID a) i w (w3\<lparr>published := l\<rparr>) = only_state (UserID a) i w w3" for l
        by (simp add: only_state_def)
      ultimately show ?thesis
        using run tail base v sa by (cases z) (auto simp: new_record_def)
    qed
  qed
qed

end

text \<open>An account with two alerts: one for Developers and above, one for another user alone.\<close>

definition inbox_world :: world where
  "inbox_world = empty_world
     \<lparr>alerts := [first_raised crash_alert 5 (uuid_of 1), first_raised (crash_alert\<lparr>na_DedupeKey := None\<rparr>) 6 (uuid_of 2)],
      alert_audiences := [(uuid_of 1, AudienceTier TierDeveloper), (uuid_of 2, AudienceUser (uuid_of 9))]\<rparr>"

definition dev :: actor where
  "dev = \<lparr>IsSuperAdmin = False, UserID = uuid_of 7, Tier = TierDeveloper\<rparr>"

lemmas inbox_defs =
  inbox_world_def empty_world_def dev_def first_raised_def crash_alert_def uuid_of_def



text \<open>
  C24. An alert that an actor may not see is out of reach and indistinguishable from one that does not exist:
  reading its details, marking it read or unread, dismissing and resolving it all return
  \<^verbatim>\<open>ErrNotFound\<close> and change nothing but the count of calls.
\<close>

theorem hidden_alert_untouchable:
  assumes "faults w (tick w) = NoFault" and "valid_tier (viewer_Tier (viewerOf a))" and "uuidPattern i"
    and "\<forall>v \<in> set (alerts w). alert_ID v = i \<longrightarrow> \<not> visible_to w (viewerOf a) v"
  shows "run_state (alert_Get a i) w = (Inl ErrNotFound, w\<lparr>tick := Suc (tick w)\<rparr>)
    \<and> run_state (MarkRead a i) w = (Inl ErrNotFound, w\<lparr>tick := Suc (tick w)\<rparr>)
    \<and> run_state (MarkUnread a i) w = (Inl ErrNotFound, w\<lparr>tick := Suc (tick w)\<rparr>)
    \<and> run_state (Dismiss a i) w = (Inl ErrNotFound, w\<lparr>tick := Suc (tick w)\<rparr>)
    \<and> run_state (ResolveAlert a i) w = (Inl ErrNotFound, w\<lparr>tick := Suc (tick w)\<rparr>)"
proof -
  have "find (\<lambda>(v, _). alert_ID v = i)
      (map (\<lambda>v. (v, read_at (w\<lparr>tick := Suc (tick w)\<rparr>) (viewerUserArg (viewerOf a)) (alert_ID v)))
        (filter (visible_to w (viewerOf a)) (alerts w))) = None"
    using assms(4) by (auto simp: find_None_iff)
  then have "run_state (visible a i) w = (Inl ErrNotFound, w\<lparr>tick := Suc (tick w)\<rparr>)"
    using assms(1,2,3) by (simp add: visible_def FindVisible_def visibleAlerts_def run_simps)
  then show ?thesis
    by (simp add: alert_Get_def MarkRead_def MarkUnread_def Dismiss_def userStateChange_def ResolveAlert_def run_or_return)
qed

theorem hidden_alert_untouchable_witness:
  "run_state (ResolveAlert dev (uuid_of 2)) inbox_world = (Inl ErrNotFound, inbox_world\<lparr>tick := 1\<rparr>)"
proof -
  have "faults inbox_world (tick inbox_world) = NoFault" and "tick inbox_world = 0"
    by (simp_all add: inbox_world_def empty_world_def)
  moreover have "valid_tier (viewer_Tier (viewerOf dev))"
    by (simp add: viewerOf_def dev_def valid_tier_def tier_rank_def)
  moreover have "uuidPattern (uuid_of 2)" by code_simp
  moreover have "\<forall>v \<in> set (alerts inbox_world). alert_ID v = uuid_of 2 \<longrightarrow> \<not> visible_to inbox_world (viewerOf dev) v"
    by (simp add: visible_to_def addressed_def viewerOf_def viewerUserArg_def inbox_defs)
  ultimately show ?thesis using hidden_alert_untouchable [of inbox_world dev "uuid_of 2"] by simp
qed

section \<open>Resolving\<close>

definition clean_open :: "world \<Rightarrow> bool" where
  "clean_open w \<longleftrightarrow> list_all (\<lambda>a. is_open a \<longrightarrow> alert_ResolvedBy a = None \<and> alert_Resolution a = None) (alerts w)"

lemma run_ResolveByUser:
  "run_state (ResolveByUser i who) w =
     (let w1 = w\<lparr>tick := Suc (tick w)\<rparr>; hit = (\<lambda>a. alert_ID a = i \<and> is_open a);
          w2 = w1\<lparr>alerts := update_rows hit (close_by who (clock w (Suc (tick w)))) (alerts w)\<rparr>
      in case faults w (tick w) of
           NoFault \<Rightarrow> (Inr (length (filter hit (alerts w)) = 1), w2)
         | Lost e \<Rightarrow> (Inl (Wrap ''resolve alert'' (ErrIO e)), w1)
         | Ambiguous e \<Rightarrow> (Inl (Wrap ''resolve alert'' (ErrIO e)), w2))"
  by (simp add: ResolveByUser_def run_simps Let_def db_now_def split: fault.split)

lemma update_rows_idle: "(\<And>a. a \<in> set t \<Longrightarrow> \<not> p a) \<Longrightarrow> update_rows p f t = t"
  by (induction t) (auto simp: update_rows_def)

lemma update_rows_Cons: "update_rows p f (a # t) = (if p a then f a else a) # update_rows p f t"
  by (simp add: update_rows_def)

lemma close_reopen: "is_open a \<Longrightarrow> alert_ResolvedBy a = None \<Longrightarrow> alert_Resolution a = None \<Longrightarrow> reopened (close_by who now a) = a"
  by (cases a) (simp add: reopened_def close_by_def is_open_def)

text \<open>Closing the open alert with an id and reopening that id restores the table, since ids are unique.\<close>

lemma reopen_restores:
  assumes pk: "primary_key alert_ID t" and clean: "list_all (\<lambda>a. is_open a \<longrightarrow> alert_ResolvedBy a = None \<and> alert_Resolution a = None) t"
    and hit: "length (filter (\<lambda>a. alert_ID a = i \<and> is_open a) t) = 1"
  shows "update_row alert_ID i reopened (update_rows (\<lambda>a. alert_ID a = i \<and> is_open a) (close_by who now) t) = t"
  using assms
proof (induction t)
  case (Cons a t)
  show ?case
  proof (cases "alert_ID a = i")
    case True
    then have none: "i \<notin> alert_ID ` set t" using Cons.prems(1) by (auto simp: primary_key_def)
    then have "filter (\<lambda>a. alert_ID a = i \<and> is_open a) t = []" by (auto simp: filter_empty_conv)
    then have "is_open a" using Cons.prems(3) by (simp split: if_splits)
    moreover have "update_rows (\<lambda>a. alert_ID a = i \<and> is_open a) (close_by who now) t = t"
      by (rule update_rows_idle) (use none in auto)
    ultimately show ?thesis
      using True Cons.prems(2) none close_reopen [of a who now]
      by (simp add: update_rows_Cons update_row_absent)
  next
    case False
    then show ?thesis using Cons by (simp add: update_rows_Cons primary_key_def)
  qed
qed simp

lemma closed_row:
  "a \<in> set (update_rows p (close_by who now) t) \<Longrightarrow>
   \<exists>b \<in> set t. alert_ID b = alert_ID a \<and> alert_DedupeKey b = alert_DedupeKey a \<and> (\<forall>k. open_with_key k a \<longrightarrow> open_with_key k b)"
  by (induction t) (auto simp: update_rows_Cons update_rows_def [of _ _ "[]"] close_by_def open_with_key_def is_open_def split: if_splits)

lemma Reopen_undoes:
  assumes wf: "wf_alerts w" and clean: "clean_open w"
    and hit: "length (filter (\<lambda>a. alert_ID a = i \<and> is_open a) (alerts w)) = 1"
    and w2: "alerts w2 = update_rows (\<lambda>a. alert_ID a = i \<and> is_open a) (close_by who now) (alerts w)"
    and nf: "faults w2 (tick w2) = NoFault"
  shows "run_state (Reopen i) w2 = (Inr (), w2\<lparr>tick := Suc (tick w2), alerts := alerts w\<rparr>)"
proof -
  let ?t = "alerts w" and ?hit = "\<lambda>a. alert_ID a = i \<and> is_open a"
  obtain x where x: "filter ?hit ?t = [x]" using hit by (auto simp: length_Suc_conv)
  then have "x \<in> set (filter ?hit ?t)" by simp
  then have xin: "x \<in> set ?t" "alert_ID x = i" "is_open x" by simp_all
  have only: "alert_ID a = i \<Longrightarrow> a \<in> set ?t \<Longrightarrow> a = x" for a
    using find_row_unique [of alert_ID ?t a] find_row_unique [of alert_ID ?t x] wf xin by (simp add: wf_alerts_def)
  have "\<not> open_with_key k b" if "alert_DedupeKey x = Some k" "b \<in> set ?t" "alert_ID b \<noteq> i" for k b
  proof
    assume b: "open_with_key k b"
    have "open_with_key k x" using that(1) xin by (simp add: open_with_key_def)
    then have "{x, b} \<subseteq> set (filter (open_with_key k) ?t)" using b that xin by auto
    moreover have "length (filter (open_with_key k) ?t) \<le> 1" using wf by (simp add: wf_alerts_def one_open_per_key_def)
    ultimately have "x = b" by (cases "filter (open_with_key k) ?t") auto
    then show False using that xin by simp
  qed
  then have free: "\<not> (alert_ID a = i \<and> alert_DedupeKey a = Some k \<and> alert_ID b \<noteq> i \<and> open_with_key k b)"
    if "a \<in> set (alerts w2)" "b \<in> set (alerts w2)" for a b k
    using closed_row [of a _ who now ?t] closed_row [of b _ who now ?t] that only unfolding w2 by metis
  then have "\<not> list_ex (\<lambda>a. alert_ID a = i \<and> (case alert_DedupeKey a of None \<Rightarrow> False
      | Some k \<Rightarrow> list_ex (\<lambda>b. alert_ID b \<noteq> i \<and> open_with_key k b) (alerts w2))) (alerts w2)"
    unfolding list_ex_iff by (auto split: option.splits)
  then show ?thesis
    using nf reopen_restores [of ?t i who now] wf clean hit
    by (simp add: Reopen_def run_simps Let_def w2 wf_alerts_def clean_open_def cong: option.case_cong)
qed

interpretation resolution: reversible_write alerts "ResolveByUser i who" "Reopen i" "\<lambda>w. wf_alerts w \<and> clean_open w" "\<lambda>b. b"
  for i who
proof
  fix w w' w1 w2 w3 r v u e n and l :: "audit_record list"
  show "run_state (ResolveByUser i who) w = (r, w') \<Longrightarrow> faults w' = faults w \<and> tick w' = Suc (tick w)"
    and "run_state (ResolveByUser i who) w = (r, w') \<Longrightarrow> audit_log w' = audit_log w"
    and "one_lost_call w \<Longrightarrow> wf_alerts w \<and> clean_open w \<Longrightarrow> run_state (ResolveByUser i who) w = (Inl e, w') \<Longrightarrow> alerts w' = alerts w"
    by (auto simp: run_ResolveByUser Let_def split: fault.splits)
  show "alerts w3 = alerts w \<and> audit_log w3 = audit_log w2"
    if "wf_alerts w \<and> clean_open w" "run_state (ResolveByUser i who) w = (Inr u, w1)" "u" "alerts w2 = alerts w1"
      "faults w2 (tick w2) = NoFault" "run_state (Reopen i) w2 = (v, w3)"
  proof -
    note prems = that
    have "alerts w2 = update_rows (\<lambda>a. alert_ID a = i \<and> is_open a) (close_by who (clock w (Suc (tick w)))) (alerts w)"
      and "length (filter (\<lambda>a. alert_ID a = i \<and> is_open a) (alerts w)) = 1"
      using prems(2,3,4) by (auto simp: run_ResolveByUser Let_def split: fault.splits)
    then show ?thesis using Reopen_undoes prems(1,5,6) by fastforce
  qed
qed simp_all

text \<open>A resolution that reports an error or no change has left the table alone.\<close>

lemma resolve_idle:
  assumes one: "one_lost_call w" and pre: "wf_alerts w \<and> clean_open w"
    and rs: "run_state (ResolveByUser i who) w = (p, w')" and p: "p \<noteq> Inr True"
  shows "alerts w' = alerts w"
proof (cases p)
  case (Inl e)
  then show ?thesis using resolution.wr_lost [OF one pre] rs by blast
next
  case (Inr b)
  let ?hit = "\<lambda>a. alert_ID a = i \<and> is_open a"
  have "length (filter ?hit (alerts w)) \<noteq> 1" and
    w': "alerts w' = update_rows ?hit (close_by who (clock w (Suc (tick w)))) (alerts w)"
    using rs p Inr by (auto simp: run_ResolveByUser Let_def split: fault.splits)
  moreover have "length (filter ?hit (alerts w)) \<le> 1"
    using pre keyed_filter_le [of alert_ID "alerts w" i]
      length_filter_imp_le [of "alerts w" ?hit "\<lambda>a. alert_ID a = i"]
    by (simp add: wf_alerts_def primary_key_def)
  ultimately have "filter ?hit (alerts w) = []" by (simp add: le_Suc_eq)
  then show ?thesis unfolding w' by (intro update_rows_idle) (auto simp: filter_empty_conv)
qed

lemma mayResolve_run:
  "run_state (mayResolve a i) w = (r, w') \<Longrightarrow>
     (\<exists>n. w' = w\<lparr>tick := n\<rparr>) \<and>
     (r = Inr True \<longrightarrow> CanResolveAnyAlert a \<or> map snd (filter (\<lambda>(j, _). j = i) (alert_audiences w)) = [AudienceUser (UserID a)])"
  by (auto simp: mayResolve_def Audiences_def run_simps split: if_splits fault.splits sum.splits
      intro: exI [of _ "tick w"])

text \<open>
  Resolving: when at most one call fails and had no effect, an error and a report of no change leave the
  alerts table and the audit log as they were. A report of change means the actor sees the alert and is an
  Admin or its sole addressee, exactly that alert was closed, in the actor's name, and exactly one record
  was appended.
\<close>

theorem resolve_all_or_nothing:
  assumes one: "one_lost_call w" and wf: "wf_alerts w" and clean: "clean_open w"
    and run: "run_state (ResolveAlert a i) w = (r, w')"
  shows "case r of
      Inl e \<Rightarrow> alerts w' = alerts w \<and> audit_log w' = audit_log w
    | Inr False \<Rightarrow> alerts w' = alerts w \<and> audit_log w' = audit_log w
    | Inr True \<Rightarrow>
        (CanResolveAnyAlert a \<or> map snd (filter (\<lambda>(j, _). j = i) (alert_audiences w)) = [AudienceUser (UserID a)])
        \<and> (\<exists>v now rec. v \<in> set (alerts w) \<and> alert_ID v = i \<and> visible_to w (viewerOf a) v
              \<and> alerts w' = update_rows (\<lambda>a. alert_ID a = i \<and> is_open a) (close_by (actor_id a) now) (alerts w)
              \<and> audit_log w' = audit_log w @ [rec] \<and> audit_Action rec = ''resolved_alert''
              \<and> audit_ActorID rec = actor_id a \<and> audit_ObjectID rec = i)"
proof -
  obtain q w1 where vis: "run_state (visible a i) w = (q, w1)" by (cases "run_state (visible a i) w")
  then obtain n1 where w1: "w1 = w\<lparr>tick := n1\<rparr>" using visible_tick by blast
  obtain m w2 where may: "run_state (mayResolve a i) w1 = (m, w2)" by (cases "run_state (mayResolve a i) w1")
  then obtain n2 where w2: "w2 = w\<lparr>tick := n2\<rparr>"
    and perm: "m = Inr True \<longrightarrow> CanResolveAnyAlert a \<or> map snd (filter (\<lambda>(j, _). j = i) (alert_audiences w)) = [AudienceUser (UserID a)]"
    using mayResolve_run [of a i w1 m w2] w1 by auto
  show ?thesis
  proof (cases "\<exists>v. q = Inr v \<and> m = Inr True")
    case False
    then have "(w' = w1 \<or> w' = w2) \<and> (\<exists>e. r = Inl e)"
      using run vis may visible_found [of a i w] by (cases q; cases m) (auto simp: ResolveAlert_def run_or_return)
    then show ?thesis using w1 w2 by auto
  next
    case True
    then obtain v where q: "q = Inr v" and m: "m = Inr True" by blast
    note v = visible_found [OF vis [unfolded q]]
    have pre: "wf_alerts w2 \<and> clean_open w2" using wf clean w2 by (simp add: wf_alerts_def clean_open_def)
    have one2: "one_lost_call w2" using one w2 one_lost_call_cong [of w2 w] by simp
    obtain p w3 where rs: "run_state (ResolveByUser i (actor_id a)) w2 = (p, w3)"
      by (cases "run_state (ResolveByUser i (actor_id a)) w2")
    show ?thesis
    proof (cases "p = Inr True")
      case False
      have "alerts w3 = alerts w2" by (rule resolve_idle [OF one2 pre rs False])
      moreover have "w' = w3 \<and> r \<noteq> Inr True"
        using run vis may q m v rs False by (cases p) (auto simp: ResolveAlert_def run_or_return)
      ultimately show ?thesis using resolution.wr_log [OF rs] w2 by (auto split: sum.split bool.split)
    next
      case True
      let ?rec = "Record (actor_id a) (IsSuperAdmin a) ''resolved_alert'' ''alert'' i (Some [(''kind'', JStr (alert_Kind (fst v)))])"
      obtain z w4 where au: "run_state (audited ?rec (Reopen i) (\<lambda>e. e)) w3 = (z, w4)"
        by (cases "run_state (audited ?rec (Reopen i) (\<lambda>e. e)) w3")
      note tail = resolution.audited_tail [OF one2 pre rs [unfolded True] TrueI au]
      have "run_state (ResolveAlert a i) w =
          (case z of Inl e \<Rightarrow> (Inl e, w4) | Inr _ \<Rightarrow> (Inr True, w4\<lparr>published := published w4 @ [EventAlertsChanged]\<rparr>))"
        using vis q m v may rs True au
        by (simp add: ResolveAlert_def run_or_return record_action_def changed_def run_poke split: sum.split)
      moreover have "alerts w3 = update_rows (\<lambda>a. alert_ID a = i \<and> is_open a) (close_by (actor_id a) (clock w2 (Suc (tick w2)))) (alerts w)"
        using rs True w2 by (auto simp: run_ResolveByUser Let_def split: fault.splits)
      ultimately show ?thesis
        using run tail w2 v perm m by (cases z) (auto simp: new_record_def)
    qed
  qed
qed

definition boss :: actor where
  "boss = \<lparr>IsSuperAdmin = False, UserID = uuid_of 8, Tier = TierAdmin\<rparr>"

theorem resolve_all_or_nothing_witness:
  "\<exists>now. alerts (snd (run_state (ResolveAlert boss (uuid_of 1)) inbox_world)) =
     update_rows (\<lambda>a. alert_ID a = uuid_of 1 \<and> is_open a) (close_by (Some (uuid_of 8)) now) (alerts inbox_world)"
proof -
  have pre: "one_lost_call inbox_world" "clean_open inbox_world"
    by (simp_all add: one_lost_call_def clean_open_def inbox_world_def empty_world_def first_raised_def)
  have wf: "wf_alerts inbox_world"
    by (auto simp: wf_alerts_def primary_key_def one_open_per_key_def open_with_key_def inbox_defs)
  obtain r w' where run: "run_state (ResolveAlert boss (uuid_of 1)) inbox_world = (r, w')"
    by (cases "run_state (ResolveAlert boss (uuid_of 1)) inbox_world")
  have "fst (run_state (ResolveAlert boss (uuid_of 1)) inbox_world) = Inr True" by code_simp
  then have "r = Inr True" using run by simp
  moreover have "actor_id boss = Some (uuid_of 8)" by (simp add: boss_def actor_id_def)
  ultimately show ?thesis
    using resolve_all_or_nothing [OF pre(1) wf pre(2) run] run by auto
qed

section \<open>Raising through the service\<close>

lemma check_audiences_ok: "check_audiences as = Inr () \<Longrightarrow> list_all (\<lambda>a. audience_row a = Inr ()) as"
proof (induction as)
  case (Cons a as)
  then show ?case
    by (cases a) (auto simp: invalid_alert_def audience_row_def valid_tier_def tier_rank_def split: if_splits tier.splits)
qed simp

lemma check_audiences_error: "check_audiences as = Inl e \<Longrightarrow> errors_is e ErrInvalidAlert"
proof (induction as)
  case (Cons a as)
  then show ?case by (cases a) (auto simp: invalid_alert_def split: if_splits tier.splits)
qed simp

lemma Validate_error: "alert_Validate p = Inl e \<Longrightarrow> errors_is e ErrInvalidAlert"
  by (auto simp: alert_Validate_def invalid_alert_def split: if_splits dest: check_audiences_error)

lemma Validate_acceptable: "alert_Validate p = Inr () \<Longrightarrow> acceptable (new_alert_of p)"
  by (auto simp: alert_Validate_def invalid_alert_def acceptable_def new_alert_of_def split: if_splits dest: check_audiences_ok)

text \<open>
  The service refuses a malformed alert with \<^verbatim>\<open>ErrInvalidAlert\<close> before it touches anything, and without
  faults and with fresh ids every alert it accepts is stored, whatever other sessions raise meanwhile;
  browsers and the notifier are told exactly when the alert is new or got more severe.
\<close>

theorem accepted_alert_is_raised:
  assumes nf: "\<And>n. faults w n = NoFault" and fresh: "fresh_uuids w"
  shows "case alert_Validate p of
      Inl e \<Rightarrow> errors_is e ErrInvalidAlert \<and> run_state (Raise p) w = (Inl e, w)
    | Inr _ \<Rightarrow> \<exists>res w1. run_state (repo_Raise (new_alert_of p)) w = (Inr res, w1)
        \<and> run_state (Raise p) w = (Inr res,
            if rr_Created res \<or> rr_Escalated res
            then w1\<lparr>published := published w1 @ [EventAlertsChanged],
                    notified := notified w1 @ [(rr_Alert res, rr_Escalated res)]\<rparr>
            else w1)"
proof (cases "alert_Validate p")
  case (Inl e)
  then show ?thesis using Validate_error by (simp add: Raise_def)
next
  case (Inr u)
  then have acc: "acceptable (new_alert_of p)" using Validate_acceptable by simp
  from repo_Raise_progress [OF nf fresh acc] obtain res w1 where r: "run_state (repo_Raise (new_alert_of p)) w = (Inr res, w1)"
    by blast
  have "run_state (Raise p) w = (Inr res, if rr_Created res \<or> rr_Escalated res
            then w1\<lparr>published := published w1 @ [EventAlertsChanged],
                    notified := notified w1 @ [(rr_Alert res, rr_Escalated res)]\<rparr> else w1)"
    by (simp add: Raise_def Inr run_or_return r changed_def AlertRaised_def run_poke)
  then show ?thesis using r by (simp add: Inr)
qed

definition crash_params :: raise_params where
  "crash_params =
     \<lparr>rp_Kind = ''instance_dead'', rp_Severity = SeverityCritical, rp_Title = ''dead'', rp_Body = [],
      rp_ObjectType = [], rp_ObjectID = [], rp_DedupeKey = ''instance_dead:1'', rp_Audiences = [AudienceTier TierDeveloper]\<rparr>"

theorem accepted_alert_is_raised_witness:
  "\<exists>res w1. run_state (Raise crash_params) raced_world = (Inr res, w1)"
proof -
  have nf: "faults raced_world n = NoFault" for n by (simp add: raced_world_def empty_world_def)
  have fresh: "fresh_uuids raced_world"
    by (auto simp: fresh_uuids_def raced_world_def empty_world_def first_raised_def uuid_of_def split: if_splits)
  have "alert_Validate crash_params = Inr ()" by code_simp
  then show ?thesis using accepted_alert_is_raised [OF nf fresh, of crash_params] by auto
qed

section \<open>Retention\<close>

definition retention_view :: "world \<Rightarrow> int \<times> string option" where
  "retention_view w = (as_RetentionMonths (alert_settings_row w), as_UpdatedBy (alert_settings_row w))"

definition months_ok :: "int \<Rightarrow> bool" where
  "months_ok m \<longleftrightarrow> 0 < m \<and> m \<le> 24"

lemma run_as_Update:
  "run_state (as_Update m who) w =
     (let w1 = w\<lparr>tick := Suc (tick w)\<rparr>;
          w2 = w1\<lparr>alert_settings_row := \<lparr>as_RetentionMonths = m, as_UpdatedBy = who, as_UpdatedAt = clock w (Suc (tick w))\<rparr>\<rparr>
      in case faults w (tick w) of
           NoFault \<Rightarrow> if months_ok m then (Inr (), w2) else (Inl (Wrap ''update alert settings'' (ErrIO ''check constraint'')), w1)
         | Lost e \<Rightarrow> (Inl (Wrap ''update alert settings'' (ErrIO e)), w1)
         | Ambiguous e \<Rightarrow> (Inl (Wrap ''update alert settings'' (ErrIO e)), if months_ok m then w2 else w1))"
  by (auto simp: as_Update_def run_simps Let_def db_now_def months_ok_def split: fault.split)

interpretation retention_change: audited_write retention_view "as_Update m who" "as_Update m0 who0"
    "\<lambda>w. retention_view w = (m0, who0) \<and> months_ok m0"
  for m who m0 who0
proof
  fix w w' w1 w2 w3 r v u e n and l :: "audit_record list"
  let ?wr = "as_Update m who"
  show "run_state ?wr w = (r, w') \<Longrightarrow> faults w' = faults w \<and> tick w' = Suc (tick w)"
    and "run_state ?wr w = (r, w') \<Longrightarrow> audit_log w' = audit_log w"
    by (auto simp: run_as_Update Let_def split: fault.splits if_splits)
  show "retention_view w' = retention_view w" if "one_lost_call w" "retention_view w = (m0, who0) \<and> months_ok m0"
      "run_state ?wr w = (Inl e, w')"
    using that by (auto simp: run_as_Update Let_def retention_view_def split: fault.splits if_splits)
  show "retention_view w3 = retention_view w \<and> audit_log w3 = audit_log w2"
    if "retention_view w = (m0, who0) \<and> months_ok m0" "faults w2 (tick w2) = NoFault" "run_state (as_Update m0 who0) w2 = (v, w3)"
    using that by (auto simp: run_as_Update Let_def retention_view_def)
qed (simp_all add: retention_view_def)

text \<open>
  Changing the retention period: when at most one call fails and had no effect, an error leaves the period,
  who set it, and the audit log as they were; success means an Admin set a period of 1 to 24 months and
  exactly one record with the old and the new period was appended. So the stored period always stays
  between 1 and 24.
\<close>

theorem retention_all_or_nothing:
  assumes one: "one_lost_call w" and stored: "months_ok (as_RetentionMonths (alert_settings_row w))"
    and run: "run_state (UpdateRetention a m) w = (r, w')"
  shows "months_ok (as_RetentionMonths (alert_settings_row w')) \<and> (case r of
      Inl e \<Rightarrow> retention_view w' = retention_view w \<and> audit_log w' = audit_log w
    | Inr _ \<Rightarrow> CanViewSettings a \<and> 1 \<le> m \<and> m \<le> 24 \<and> retention_view w' = (m, actor_id a)
        \<and> (\<exists>rec. audit_log w' = audit_log w @ [rec] \<and> audit_Action rec = ''updated_alert_retention''
            \<and> audit_Detail rec = Some [(''retention_months'', JInt m),
                 (''previous_retention_months'', JInt (as_RetentionMonths (alert_settings_row w)))]))"
proof (cases "CanViewSettings a \<and> 1 \<le> m \<and> m \<le> 24 \<and> faults w (tick w) = NoFault")
  case False
  then have "(w' = w \<or> w' = w\<lparr>tick := Suc (tick w)\<rparr>) \<and> (\<exists>e. r = Inl e)"
    using run by (auto simp: UpdateRetention_def as_Get_def run_simps MinRetentionMonths_def MaxRetentionMonths_def
        split: if_splits fault.splits)
  then show ?thesis using stored by (auto simp: retention_view_def)
next
  case True
  let ?w1 = "w\<lparr>tick := Suc (tick w)\<rparr>" and ?cur = "alert_settings_row w"
  let ?det = "Some [(''retention_months'', JInt m), (''previous_retention_months'', JInt (as_RetentionMonths ?cur))]"
  have one1: "one_lost_call ?w1" using one one_lost_call_cong [of ?w1 w] by simp
  have pre: "retention_view ?w1 = (as_RetentionMonths ?cur, as_UpdatedBy ?cur) \<and> months_ok (as_RetentionMonths ?cur)"
    using stored by (simp add: retention_view_def)
  have "run_state (or_return (as_Update m (actor_id a)) (Wrap ''update alert settings'') (\<lambda>_.
      audited (Record (actor_id a) (IsSuperAdmin a) ''updated_alert_retention'' ''alert_settings'' zeroUUID ?det)
        (as_Update (as_RetentionMonths ?cur) (as_UpdatedBy ?cur)) (\<lambda>e. e))) ?w1 = (r, w')"
    using run True by (simp add: UpdateRetention_def as_Get_def run_or_return run_query MinRetentionMonths_def MaxRetentionMonths_def)
  note all = retention_change.all_or_nothing [OF one1 pre this]
  then show ?thesis
    using True stored pre
    by (cases r) (auto simp: retention_view_def run_as_Update Let_def new_record_def months_ok_def split: fault.splits if_splits)
qed

theorem retention_all_or_nothing_witness:
  "months_ok (as_RetentionMonths (alert_settings_row (snd (run_state (UpdateRetention boss 24) empty_world))))
   \<and> fst (run_state (UpdateRetention boss 24) empty_world) = Inr ()"
proof -
  have "one_lost_call empty_world" and "months_ok (as_RetentionMonths (alert_settings_row empty_world))"
    by (simp_all add: one_lost_call_def empty_world_def months_ok_def)
  from retention_all_or_nothing [OF this prod.collapse [symmetric], of boss 24]
  have "months_ok (as_RetentionMonths (alert_settings_row (snd (run_state (UpdateRetention boss 24) empty_world))))" by blast
  moreover have "fst (run_state (UpdateRetention boss 24) empty_world) = Inr ()" by code_simp
  ultimately show ?thesis by blast
qed

text \<open>
  An expiry run without faults deletes exactly the alerts last raised before the cutoff, the start of the
  run moved back by the retention period, with their audiences and per-user state, and returns how many. It
  keeps every other row. A run that deletes something appends exactly one record, by the system (no actor,
  not the break-glass account), and a run that deletes nothing appends none.
\<close>

theorem expiry_exact:
  assumes nf: "\<And>n. faults w n = NoFault" and run: "run_state (ExpireOnce loc) w = ((n, err), w')"
  defines "cutoff \<equiv> AddMonths loc (- as_RetentionMonths (alert_settings_row w)) (clock w (Suc (tick w)))"
  defines "gone \<equiv> alert_ID ` {a \<in> set (alerts w). alert_LastRaisedAt a < cutoff}"
  shows "err = None \<and> n = length (filter (\<lambda>a. alert_LastRaisedAt a < cutoff) (alerts w))
    \<and> alerts w' = filter (\<lambda>a. cutoff \<le> alert_LastRaisedAt a) (alerts w)
    \<and> alert_audiences w' = filter (\<lambda>(i, _). i \<notin> gone) (alert_audiences w)
    \<and> alert_user_state w' = filter (\<lambda>s. us_AlertID s \<notin> gone) (alert_user_state w)
    \<and> (if n = 0 then audit_log w' = audit_log w
       else \<exists>rec. audit_log w' = audit_log w @ [rec] \<and> audit_Action rec = ''expired_alerts''
              \<and> audit_ActorID rec = None \<and> \<not> audit_IsSuperAdminAction rec)"
proof -
  have keep: "filter (\<lambda>a. \<not> alert_LastRaisedAt a < c) t = filter (\<lambda>a. c \<le> alert_LastRaisedAt a) t" for c t
    by (simp add: not_less)
  have "set (map alert_ID (filter (\<lambda>a. alert_LastRaisedAt a < cutoff) (alerts w))) = gone"
    by (auto simp: gone_def)
  then show ?thesis
    using run nf
    by (auto simp: ExpireOnce_def as_Get_def DeleteOlderThan_def run_simps Let_def keep changed_def new_record_def
        split: if_splits simp flip: cutoff_def)
qed

theorem expiry_exact_witness:
  "map alert_ID (alerts (snd (run_state (ExpireOnce UTC)
     (inbox_world\<lparr>alerts := [first_raised crash_alert 5 ''old'', first_raised crash_alert 63890000000000000000 ''new'']\<rparr>)))) = [''new'']"
proof -
  let ?w = "inbox_world\<lparr>alerts := [first_raised crash_alert 5 ''old'', first_raised crash_alert 63890000000000000000 ''new'']\<rparr>"
  have nf: "faults ?w n = NoFault" for n by (simp add: inbox_world_def empty_world_def)
  have cut: "AddMonths UTC (- as_RetentionMonths (alert_settings_row ?w)) (clock ?w (Suc (tick ?w))) = 63868464000000000001"
    by code_simp
  obtain p w' where run: "run_state (ExpireOnce UTC) ?w = (p, w')" by (cases "run_state (ExpireOnce UTC) ?w")
  then have "run_state (ExpireOnce UTC) ?w = ((fst p, snd p), w')" by simp
  from expiry_exact [OF nf this, unfolded cut] run show ?thesis by (simp add: first_raised_def)
qed

section \<open>The audit log only grows\<close>

text \<open>
  What raising and closing do to the rest of the server: nothing. A relation that holds whenever only the alert
  tables and what was published about them differ holds of these operations.
\<close>

locale alerts_outside = db_step_rel R for R +
  assumes alerts_only:
    "w' = w\<lparr>alerts := alerts w', alert_audiences := alert_audiences w', alert_user_state := alert_user_state w',
        published := published w', notified := notified w'\<rparr> \<Longrightarrow> R w w'"
begin

lemma within_changed: "within R changed"
  unfolding changed_def by (rule within_poke) (simp add: alerts_only)

lemma outside_audiences: "within R (insert_audiences as)"
  by (rule withinI) (metis insert_audiences_tick rel_tick prod.collapse)

lemma outside_raiseOnce: "within R (raiseOnce inp)"
  unfolding raiseOnce_def raise_repeat_def raise_insert_def other_session_def Let_def
  by (intro db_within_rules outside_audiences within_exec within_poke alerts_only)
    (auto simp: commit_repeat_def commit_insert_def split: option.split)

lemma outside_attempts: "within R (raise_attempts n inp)"
  by (induction n) (auto intro!: db_within_rules outside_raiseOnce)

lemma within_Raise: "within R (Raise p)"
  unfolding Raise_def repo_Raise_def AlertRaised_def
  by (intro db_within_rules outside_attempts within_changed within_poke alerts_only) simp

lemma within_ResolveCondition: "within R (ResolveCondition k)"
  unfolding ResolveCondition_def ResolveByDedupeKey_def changed_if_def
  by (intro db_within_rules within_changed within_exec alerts_only) (simp add: close_where_def)

lemma within_ResolveConditionsExcept: "within R (ResolveConditionsExcept prefix keep)"
  unfolding ResolveConditionsExcept_def ResolveByKeyPrefixExcept_def changed_if_def
  by (intro db_within_rules within_changed within_exec alerts_only) (simp add: close_where_def)

lemmas alert_rules = within_Raise within_ResolveCondition within_ResolveConditionsExcept

end

interpretation log_grows: alerts_outside log_grows
proof
  fix w w' :: world
  assume eq: "w' = w\<lparr>alerts := alerts w', alert_audiences := alert_audiences w', alert_user_state := alert_user_state w',
        published := published w', notified := notified w'\<rparr>"
  have "audit_log w' = audit_log w" using arg_cong [OF eq, of audit_log] by simp
  then show "log_grows w w'" by (rule log_grows_same)
qed

lemma log_grows_visible: "within log_grows (visible a i)"
  unfolding visible_def by (intro log_grows_rules log_grows.alert_read_rules)

lemma log_grows_state_writes:
  "within log_grows (repo_MarkRead u i)" "within log_grows (repo_MarkUnread u i)"
  "within log_grows (repo_Dismiss u i)" "within log_grows (RestoreDismissed u i)"
  unfolding repo_MarkRead_def repo_MarkUnread_def repo_Dismiss_def RestoreDismissed_def
  by (intro log_grows_rules log_grows_exec; simp add: Let_def split: prod.split)+

lemma log_grows_userStateChange:
  assumes "\<And>u j. within log_grows (app u j)" and "\<And>u j. within log_grows (rv u j)"
  shows "within log_grows (userStateChange a i action app rv)"
  unfolding userStateChange_def record_action_def
  by (intro log_grows_rules log_grows_visible log_grows.within_changed assms)

lemma log_grows_inbox:
  "within log_grows (MarkRead a i)" "within log_grows (MarkUnread a i)" "within log_grows (Dismiss a i)"
  unfolding MarkRead_def MarkUnread_def Dismiss_def discard_def
  by (intro log_grows_userStateChange log_grows_state_writes log_grows_rules)+

lemma log_grows_unread_each: "within log_grows (unread_each u is err)"
  by (induction "is" arbitrary: err) (auto intro!: log_grows_rules log_grows_state_writes)

lemma log_grows_MarkAllRead: "within log_grows (MarkAllRead a)"
  unfolding MarkAllRead_def record_action_def repo_MarkAllRead_def
  by (intro log_grows_rules log_grows.within_changed log_grows_unread_each log_grows.within_io_call)
    (simp add: log_grows_same Let_def split: sum.split)

lemma log_grows_ResolveAlert: "within log_grows (ResolveAlert a i)"
  unfolding ResolveAlert_def record_action_def mayResolve_def ResolveByUser_def Reopen_def
  by (intro log_grows_rules log_grows_visible log_grows.within_changed log_grows.alert_read_rules log_grows_exec log_grows.within_io_call)
    (auto simp: Let_def log_grows_same)

lemma log_grows_retention: "within log_grows (UpdateRetention a m)" "within log_grows (ExpireOnce loc)"
  unfolding UpdateRetention_def ExpireOnce_def as_Update_def DeleteOlderThan_def Let_def
  by (intro log_grows_rules log_grows.within_changed log_grows.alert_read_rules log_grows_exec log_grows.within_io_call;
      simp add: log_grows_same)+

lemmas log_grows_alerts =
  log_grows.alert_rules log_grows_inbox log_grows_MarkAllRead log_grows_ResolveAlert log_grows_retention

end
