(* ===== verification/Sha256.thy ===== *)
theory Sha256
  imports Prelude "HOL-Library.Word"
begin

text \<open>
  The part of Go's standard library that node tokens use: SHA-256 (crypto/sha256) on 32-bit words, and
  hexadecimal text (encoding/hex).
\<close>

unbundle bit_operations_syntax

section \<open>Hexadecimal\<close>

definition nibble :: "nat \<Rightarrow> char" where
  "nibble k = (if k < 10 then char_of (48 + k) else char_of (87 + k))"

definition hex_encode :: "string \<Rightarrow> string" where
  "hex_encode s = concat (map (\<lambda>c. [nibble (of_char c div 16), nibble (of_char c mod 16)]) s)"

section \<open>SHA-256\<close>

text \<open>
  The constants are the first 32 bits of the fractional parts of the cube roots of the first 64 primes and of the
  square roots of the first eight; \<open>int_root k x b 0\<close> is the \<open>k\<close>-th root of \<open>x\<close>, rounded down, if it has \<open>b\<close> bits.
\<close>

fun int_root :: "nat \<Rightarrow> nat \<Rightarrow> nat \<Rightarrow> nat \<Rightarrow> nat" where
  "int_root k x 0 r = r"
| "int_root k x (Suc b) r = int_root k x b (if (r + 2 ^ b) ^ k \<le> x then r + 2 ^ b else r)"

definition sha_primes :: "nat list" where
  "sha_primes = filter (\<lambda>p. list_all (\<lambda>d. p mod d \<noteq> 0) [2..<p]) [2..<312]"

definition sha_k :: "32 word list" where
  "sha_k = map (\<lambda>p. of_nat (int_root 3 (p * 2 ^ 96) 36 0)) sha_primes"

definition sha_init :: "32 word list" where
  "sha_init = map (\<lambda>p. of_nat (int_root 2 (p * 2 ^ 64) 36 0)) (take 8 sha_primes)"

definition rotr :: "nat \<Rightarrow> 32 word \<Rightarrow> 32 word" where
  "rotr n x = (drop_bit n x) OR (push_bit (32 - n) x)"

text \<open>The message schedule, newest word first.\<close>

fun schedule_words :: "nat \<Rightarrow> 32 word list \<Rightarrow> 32 word list" where
  "schedule_words 0 ws = ws"
| "schedule_words (Suc n) ws =
     (let a = ws ! 14; b = ws ! 1;
          s0 = rotr 7 a XOR rotr 18 a XOR drop_bit 3 a;
          s1 = rotr 17 b XOR rotr 19 b XOR drop_bit 10 b
      in schedule_words n ((ws ! 15 + s0 + ws ! 6 + s1) # ws))"

fun sha_round :: "32 word list \<Rightarrow> 32 word \<times> 32 word \<Rightarrow> 32 word list" where
  "sha_round [a, b, c, d, e, f, g, h] (k, w) =
     (let s1 = rotr 6 e XOR rotr 11 e XOR rotr 25 e;
          ch = (e AND f) XOR (NOT e AND g);
          t1 = h + s1 + ch + k + w;
          s0 = rotr 2 a XOR rotr 13 a XOR rotr 22 a;
          maj = (a AND b) XOR (a AND c) XOR (b AND c);
          t2 = s0 + maj
      in [t1 + t2, a, b, c, d + t1, e, f, g])"
| "sha_round st _ = st"

definition word_of_bytes :: "string \<Rightarrow> 32 word" where
  "word_of_bytes bs = foldl (\<lambda>x c. push_bit 8 x OR word_of_nat (of_char c)) 0 bs"

fun chunks :: "nat \<Rightarrow> 'a list \<Rightarrow> nat \<Rightarrow> 'a list list" where
  "chunks k xs 0 = []"
| "chunks k xs (Suc n) = take k xs # chunks k (drop k xs) n"

definition sha_block :: "32 word list \<Rightarrow> string \<Rightarrow> 32 word list" where
  "sha_block st block =
     (let ws = rev (schedule_words 48 (rev (map word_of_bytes (chunks 4 block 16))))
      in map2 (+) st (foldl sha_round st (zip sha_k ws)))"

definition nat_bytes :: "nat \<Rightarrow> nat \<Rightarrow> string" where
  "nat_bytes k n = map (\<lambda>i. char_of (n div 256 ^ (k - 1 - i))) [0..<k]"

text \<open>A one bit, zeros, and the length in bits, to a multiple of 64 bytes.\<close>

definition sha_pad :: "string \<Rightarrow> string" where
  "sha_pad m = m @ [CHR 0x80] @ replicate ((119 - length m mod 64) mod 64) (CHR 0x00) @ nat_bytes 8 (8 * length m)"

definition Sum256 :: "string \<Rightarrow> string" where
  "Sum256 m =
     (let p = sha_pad m in
      concat (map (\<lambda>x. nat_bytes 4 (unat x)) (foldl sha_block sha_init (chunks 64 p (length p div 64)))))"

end
