(* ===== verification/Nodes.thy ===== *)
theory Nodes
  imports Nodes_Repo Agentconn Agentproto Alerts Password Sha256 Schedule
begin

text \<open>
  The node registry (internal/nodes/nodes.go, service.go, auth.go) and node tokens (internal/auth/nodetoken.go):
  registration, authentication of a connecting agent, reported network interfaces, comments, and the choice of the
  interface a peer transfer pulls from. The theorems show that exactly the token handed out at registration
  authenticates a node, what a report stores, and which interface is chosen.
\<close>

section \<open>Tokens\<close>

text \<open>\<^verbatim>\<open>base64.RawURLEncoding\<close> is the standard alphabet with two other characters.\<close>

definition b64url_encode :: "string \<Rightarrow> string" where
  "b64url_encode s = map (\<lambda>c. if c = CHR ''+'' then CHR ''-'' else if c = CHR ''/'' then CHR ''_'' else c) (b64_encode s)"

definition nodeTokenPrefix :: string where "nodeTokenPrefix = ''spk_''"

definition nodeTokenRandomBytes :: nat where "nodeTokenRandomBytes = 32"

definition GenerateNodeToken :: "string res io" where
  "GenerateNodeToken =
     or_return (query (\<lambda>w. Inr (take nodeTokenRandomBytes (entropy w (tick w))))) (Wrap ''generate node token'') (\<lambda>buf. ok (nodeTokenPrefix @ b64url_encode buf))"

definition HashNodeToken :: "string \<Rightarrow> string" where
  "HashNodeToken token = hex_encode (Sum256 token)"

definition VerifyNodeToken :: "string \<Rightarrow> string \<Rightarrow> bool" where
  "VerifyNodeToken token h \<longleftrightarrow> HashNodeToken token = h"

section \<open>Registration\<close>

text \<open>\<^verbatim>\<open>x <= 0\<close> of a \<^verbatim>\<open>float64\<close>; every comparison with NaN is false.\<close>

definition le_zero :: "float64 \<Rightarrow> bool" where
  "le_zero x \<longleftrightarrow> (case x of NaN \<Rightarrow> False | PosInf \<Rightarrow> False | NegInf \<Rightarrow> True | Finite m e \<Rightarrow> m \<le> 0)"

definition invalid_node :: "string \<Rightarrow> unit res" where
  "invalid_node why = Inl (Wrap why ErrInvalidNode)"

definition reg_validate :: "node_registration \<Rightarrow> unit res" where
  "reg_validate p =
     (if reg_Name p = [] then invalid_node ''name is required''
      else if reg_Hostname p = [] then invalid_node ''hostname is required''
      else if reg_IPAddress p = [] then invalid_node ''ip_address is required''
      else if (case reg_RuntimeBackend p of BackendOther _ \<Rightarrow> True | _ \<Rightarrow> False) then invalid_node ''unknown runtime_backend''
      else if le_zero (reg_GPUMemoryGB p) then invalid_node ''gpu_memory_gb must be positive''
      else if le_zero (reg_CPUMemoryGB p) then invalid_node ''cpu_memory_gb must be positive''
      else Inr ())"

definition backend_string :: "runtime_backend \<Rightarrow> string" where
  "backend_string b = (case b of BackendDocker \<Rightarrow> ''docker'' | BackendPodman \<Rightarrow> ''podman'' | BackendBareMetal \<Rightarrow> ''bare-metal'' | BackendOther s \<Rightarrow> s)"

definition RegisterNode :: "actor \<Rightarrow> node_registration \<Rightarrow> (node \<times> string) res io" where
  "RegisterNode a p =
     (if \<not> CanManageNodes a then fail ErrNotPermitted
      else case reg_validate p of
        Inl e \<Rightarrow> fail e
      | Inr _ \<Rightarrow>
          or_return GenerateNodeToken (Wrap ''generate bearer token'') (\<lambda>token.
          or_return (node_Create p (actor_id a) (HashNodeToken token)) (Wrap ''create node'') (\<lambda>n.
          or_return
            (Record (actor_id a) (IsSuperAdmin a) ''registered_node'' ''node'' (node_ID n)
               (Some [(''name'', JStr (node_Name n)), (''runtime_backend'', JStr (backend_string (node_RuntimeBackend n)))]))
            (Wrap ''record audit'') (\<lambda>_. ok (n, token)))))"

definition Authenticate :: "string \<Rightarrow> string \<Rightarrow> node res io" where
  "Authenticate name token =
     State_Monad.bind (FindCredentialByName name) (\<lambda>r. case r of
       Inl e \<Rightarrow> if errors_is e ErrNodeNotFound then fail ErrInvalidCredentials else fail (Wrap ''find node credential'' e)
     | Inr c \<Rightarrow> if \<not> VerifyNodeToken token (cred_BearerTokenHash c) then fail ErrInvalidCredentials else ok (cred_Node c))"

definition ListNodes :: "node list res io" where
  "ListNodes = or_return node_List (Wrap ''list nodes'') ok"

definition GetNode :: "string \<Rightarrow> node res io" where
  "GetNode i = or_return (node_FindByID i) (\<lambda>e. e) ok"

definition ListInterfaces :: "string \<Rightarrow> node_interface list res io" where
  "ListInterfaces i = or_return (ListByNode i) (Wrap (''list interfaces for node '' @ i)) ok"

section \<open>IP addresses\<close>

text \<open>
  \<^verbatim>\<open>net.ParseIP\<close> and \<^verbatim>\<open>IP.String\<close>. An address is its eight 16-bit groups; an IPv4 address is
  \<open>::ffff:a.b.c.d\<close>. An octet has no leading zero; a group has one to four hexadecimal digits; \<open>::\<close> stands for
  at least one group of zeros; the last two groups may be written as an IPv4 address.
\<close>

definition parse_octet :: "string \<Rightarrow> nat option" where
  "parse_octet s =
     (if s \<noteq> [] \<and> length s \<le> 3 \<and> list_all is_digit s \<and> (length s = 1 \<or> hd s \<noteq> CHR ''0'') \<and> digits_val s \<le> 255
      then Some (nat (digits_val s)) else None)"

fun all_some :: "'a option list \<Rightarrow> 'a list option" where
  "all_some [] = Some []"
| "all_some (x # xs) = (case (x, all_some xs) of (Some y, Some ys) \<Rightarrow> Some (y # ys) | _ \<Rightarrow> None)"

definition parse_v4 :: "string \<Rightarrow> nat list option" where
  "parse_v4 s =
     (case all_some (map parse_octet (split_on (CHR ''.'') s)) of
        Some [a, b, c, d] \<Rightarrow> Some [a * 256 + b, c * 256 + d]
      | _ \<Rightarrow> None)"

definition hex_val :: "char \<Rightarrow> nat" where
  "hex_val c = (let n = of_char c :: nat in if n \<le> 57 then n - 48 else if n \<le> 70 then n - 55 else n - 87)"

definition parse_group :: "string \<Rightarrow> nat option" where
  "parse_group s =
     (if s \<noteq> [] \<and> length s \<le> 4 \<and> list_all hex_char s then Some (foldl (\<lambda>n c. 16 * n + hex_val c) 0 s) else None)"

text \<open>Groups separated by colons, the last of which may be an IPv4 address.\<close>

definition parse_groups :: "string \<Rightarrow> nat list option" where
  "parse_groups s =
     (let ps = split_on (CHR '':'') s in
      case (all_some (map parse_group (butlast ps)), if CHR ''.'' \<in> set (last ps) then parse_v4 (last ps) else map_option (\<lambda>g. [g]) (parse_group (last ps))) of
        (Some gs, Some ls) \<Rightarrow> Some (gs @ ls)
      | _ \<Rightarrow> None)"

text \<open>The text before and after the first \<open>::\<close>.\<close>

fun at_ellipsis :: "string \<Rightarrow> (string \<times> string) option" where
  "at_ellipsis (a # b # s) =
     (if a = CHR '':'' \<and> b = CHR '':'' then Some ([], s)
      else map_option (\<lambda>(l, r). (a # l, r)) (at_ellipsis (b # s)))"
| "at_ellipsis s = None"

definition parse_v6 :: "string \<Rightarrow> nat list option" where
  "parse_v6 s =
     (case at_ellipsis s of
        None \<Rightarrow> (case parse_groups s of Some gs \<Rightarrow> if length gs = 8 then Some gs else None | None \<Rightarrow> None)
      | Some (l, r) \<Rightarrow>
          if at_ellipsis r \<noteq> None \<or> CHR ''.'' \<in> set l then None
          else (case (if l = [] then Some [] else parse_groups l, if r = [] then Some [] else parse_groups r) of
                  (Some ls, Some rs) \<Rightarrow>
                    if length ls + length rs \<le> 7 then Some (ls @ replicate (8 - length ls - length rs) 0 @ rs) else None
                | _ \<Rightarrow> None))"

definition ParseIP :: "string \<Rightarrow> nat list option" where
  "ParseIP s =
     (case find (\<lambda>c. c = CHR ''.'' \<or> c = CHR '':'' \<or> c = CHR ''%'') s of
        None \<Rightarrow> None
      | Some c \<Rightarrow>
          if c = CHR ''.'' then map_option (\<lambda>v. [0, 0, 0, 0, 0, 65535] @ v) (parse_v4 s)
          else if c = CHR '':'' then parse_v6 s else None)"

fun hex_digits :: "nat \<Rightarrow> string" where
  "hex_digits n = (if n < 16 then [nibble n] else hex_digits (n div 16) @ [nibble (n mod 16)])"

declare hex_digits.simps [simp del]

text \<open>Start and length of the first longest run of at least two zero groups.\<close>

fun zero_runs :: "nat \<Rightarrow> nat list \<Rightarrow> (nat \<times> nat) list" where
  "zero_runs i [] = []"
| "zero_runs i (g # gs) = (i, length (takeWhile (\<lambda>x. x = 0) (g # gs))) # zero_runs (Suc i) gs"

definition longest_zeros :: "nat list \<Rightarrow> (nat \<times> nat) option" where
  "longest_zeros gs =
     (case sort_key (\<lambda>(i, n). - int n) (filter (\<lambda>(i, n). n \<ge> 2) (zero_runs 0 gs)) of [] \<Rightarrow> None | r # _ \<Rightarrow> Some r)"

definition ip_String :: "nat list \<Rightarrow> string" where
  "ip_String gs =
     (if take 6 gs = [0, 0, 0, 0, 0, 65535]
      then join ''.'' (map nat_digits [gs ! 6 div 256, gs ! 6 mod 256, gs ! 7 div 256, gs ! 7 mod 256])
      else case longest_zeros gs of
        None \<Rightarrow> join '':'' (map hex_digits gs)
      | Some (i, n) \<Rightarrow> join '':'' (map hex_digits (take i gs)) @ ''::'' @ join '':'' (map hex_digits (drop (i + n) gs)))"

section \<open>Interfaces\<close>

definition TypeReportInterfaces :: string where "TypeReportInterfaces = ''report_interfaces''"
definition TypeRescanInterfaces :: string where "TypeRescanInterfaces = ''rescan_interfaces''"

record network_interface =
  nw_Name :: string
  nw_IPAddress :: string
  nw_LinkSpeedMbps :: "int option"

definition conv_interface :: "json \<Rightarrow> network_interface option" where
  "conv_interface v =
     (case rbind (decode_object [''name'', ''ip_address'', ''link_speed_mbps''] (RawJson v)) (\<lambda>fs.
        rbind (get_string ''name'' fs) (\<lambda>name.
        rbind (get_string ''ip_address'' fs) (\<lambda>ip.
        rbind (dec_ptr conv_int None (field_values ''link_speed_mbps'' fs)) (\<lambda>speed.
          Inr \<lparr>nw_Name = name, nw_IPAddress = ip, nw_LinkSpeedMbps = speed\<rparr>)))) of
        Inl _ \<Rightarrow> None
      | Inr x \<Rightarrow> Some x)"

definition decode_ReportInterfaces :: "envelope \<Rightarrow> network_interface list res" where
  "decode_ReportInterfaces = decode_payload [''interfaces'']
     (\<lambda>fs. dec_plain (\<lambda>_ v. case v of JArr vs \<Rightarrow> all_some (map conv_interface vs) | _ \<Rightarrow> None) [] (field_values ''interfaces'' fs))"

definition maxReportedInterfaces :: nat where "maxReportedInterfaces = 64"
definition maxInterfaceNameLen :: nat where "maxInterfaceNameLen = 64"

definition interface_char :: "char \<Rightarrow> bool" where
  "interface_char c \<longleftrightarrow> CHR ''A'' \<le> c \<and> c \<le> CHR ''Z'' \<or> CHR ''a'' \<le> c \<and> c \<le> CHR ''z'' \<or> is_digit c \<or> c \<in> set ''._:@-''"

definition interfaceNamePattern :: "string \<Rightarrow> bool" where
  "interfaceNamePattern s \<longleftrightarrow> s \<noteq> [] \<and> list_all interface_char s"

text \<open>The loop over the reported entries; \<open>seen\<close> and \<open>valid\<close> are the code's variables.\<close>

fun valid_interfaces :: "string \<Rightarrow> network_interface list \<Rightarrow> string list \<Rightarrow> node_interface list \<Rightarrow> node_interface list" where
  "valid_interfaces n [] seen valid = valid"
| "valid_interfaces n (i # is) seen valid =
     (if length valid \<ge> maxReportedInterfaces then valid
      else if nw_Name i = [] \<or> length (nw_Name i) > maxInterfaceNameLen \<or> \<not> interfaceNamePattern (nw_Name i)
      then valid_interfaces n is seen valid
      else case ParseIP (nw_IPAddress i) of
        None \<Rightarrow> valid_interfaces n is seen valid
      | Some ip \<Rightarrow>
          if nw_Name i \<in> set seen then valid_interfaces n is seen valid
          else
            let speed = (case nw_LinkSpeedMbps i of Some k \<Rightarrow> if k \<le> 0 then None else Some k | None \<Rightarrow> None) in
            valid_interfaces n is (nw_Name i # seen)
              (valid @ [\<lparr>ni_NodeID = n, ni_InterfaceName = nw_Name i, ni_IPAddress = ip_String ip, ni_LinkSpeedMbps = speed, ni_ReportedAt = 0\<rparr>]))"

definition HandleReportInterfaces :: "string \<Rightarrow> envelope \<Rightarrow> unit io" where
  "HandleReportInterfaces n env =
     (if env_Type env \<noteq> TypeReportInterfaces then State_Monad.return ()
      else case decode_ReportInterfaces env of
        Inl _ \<Rightarrow> State_Monad.return ()
      | Inr report \<Rightarrow> State_Monad.bind (ReplaceForNode n (valid_interfaces n report [] [])) (\<lambda>_. State_Monad.return ()))"

text \<open>\<^verbatim>\<open>nodes.ErrNodeNotConnected\<close>, a value of its own.\<close>

definition RescanInterfaces :: "actor \<Rightarrow> string \<Rightarrow> unit res io" where
  "RescanInterfaces a n =
     (if \<not> CanManageNodes a then fail ErrNotPermitted
      else State_Monad.bind (Connected n) (\<lambda>c.
        if \<not> c then fail (ErrText ''node is not connected'')
        else or_return (Send n (NewEnvelope TypeRescanInterfaces [] (JObj [])))
          (Wrap (''dispatch rescan_interfaces to node '' @ n)) ok))"

definition set_interface :: "actor \<Rightarrow> string \<Rightarrow> string \<Rightarrow> string option \<Rightarrow> unit res io" where
  "set_interface a n interfaceName name =
     or_return (repo_SetDefaultTransferInterface n name) (Wrap ''set default transfer interface'') (\<lambda>_.
     or_return
       (Record (actor_id a) (IsSuperAdmin a) ''set_default_transfer_interface'' ''node'' n
          (Some [(''default_transfer_interface'', JStr interfaceName)]))
       (Wrap ''record audit'') ok)"

definition SetDefaultTransferInterface :: "actor \<Rightarrow> string \<Rightarrow> string \<Rightarrow> unit res io" where
  "SetDefaultTransferInterface a n interfaceName =
     (if \<not> CanManageNodes a then fail ErrNotPermitted
      else or_return (node_FindByID n) (\<lambda>e. e) (\<lambda>_.
        if interfaceName = [] then set_interface a n interfaceName None
        else or_return (ListByNode n) (Wrap (''list interfaces for node '' @ n)) (\<lambda>ifaces.
          if \<not> list_ex (\<lambda>i. ni_InterfaceName i = interfaceName) ifaces then fail ErrUnknownInterface
          else set_interface a n interfaceName (Some interfaceName))))"

text \<open>\<^verbatim>\<open>strings.TrimSpace\<close>.\<close>

function rune_tokens :: "string \<Rightarrow> (int \<times> string) list" where
  "rune_tokens s = (if s = [] then [] else case decode_rune s of (r, k) \<Rightarrow> (r, take k s) # rune_tokens (drop k s))"
  by pat_completeness auto
termination
proof (relation "measure length", simp)
  fix s :: string and r k
  assume "s \<noteq> []" and "(r, k) = decode_rune s"
  then show "(drop k s, s) \<in> measure length"
    using decode_rune_width [of s] by (metis (no_types) diff_less in_measure length_drop length_greater_0_conv snd_conv)
qed

declare rune_tokens.simps [simp del]

definition TrimSpace :: "string \<Rightarrow> string" where
  "TrimSpace s =
     concat (map snd (rev (dropWhile (IsSpace \<circ> fst) (rev (dropWhile (IsSpace \<circ> fst) (rune_tokens s))))))"

definition maxCommentLen :: nat where "maxCommentLen = 500"

definition ErrCommentTooLong :: error where
  "ErrCommentTooLong = Wrap ''comment exceeds 500 characters'' ErrInvalidNode"

definition SetComment :: "actor \<Rightarrow> string \<Rightarrow> string \<Rightarrow> unit res io" where
  "SetComment a n text =
     (if \<not> CanEditNodeComment a then fail ErrNotPermitted
      else or_return (node_FindByID n) (\<lambda>e. e) (\<lambda>_.
        let comment = TrimSpace text in
        if length comment > maxCommentLen then fail ErrCommentTooLong
        else State_Monad.bind time_now (\<lambda>now.
          or_return (repo_SetComment n (if comment \<noteq> [] then Some comment else None) (actor_id a) now)
            (Wrap (''set comment for node '' @ n)) (\<lambda>_.
          or_return (Record (actor_id a) (IsSuperAdmin a) ''set_node_comment'' ''node'' n (Some [(''comment'', JStr comment)]))
            (Wrap ''record audit'') ok))))"

section \<open>Which interface to pull from\<close>

record transfer_source =
  ts_Name :: string
  ts_IPAddress :: string

definition pick :: "node_interface \<Rightarrow> transfer_source" where
  "pick i = \<lparr>ts_Name = ni_InterfaceName i, ts_IPAddress = ni_IPAddress i\<rparr>"

fun fastest_of :: "node_interface list \<Rightarrow> node_interface option \<Rightarrow> node_interface option" where
  "fastest_of [] best = best"
| "fastest_of (i # is) best =
     (case ni_LinkSpeedMbps i of
        None \<Rightarrow> fastest_of is best
      | Some k \<Rightarrow>
          fastest_of is (case best of
            None \<Rightarrow> Some i
          | Some b \<Rightarrow> if k > (case ni_LinkSpeedMbps b of Some m \<Rightarrow> m | None \<Rightarrow> 0) then Some i else best))"

definition choose_interface :: "node_interface list \<Rightarrow> string \<Rightarrow> string option \<Rightarrow> transfer_source res" where
  "choose_interface ifs override dflt =
     (let fnd = \<lambda>name. find (\<lambda>i. ni_InterfaceName i = name) ifs in
      if override \<noteq> [] then (case fnd override of Some i \<Rightarrow> Inr (pick i) | None \<Rightarrow> Inl ErrUnknownInterface)
      else case Option.bind dflt fnd of
        Some i \<Rightarrow> Inr (pick i)
      | None \<Rightarrow> (case fastest_of ifs None of Some i \<Rightarrow> Inr (pick i) | None \<Rightarrow> Inr (pick (hd ifs))))"

definition ResolveTransferSource :: "string \<Rightarrow> string \<Rightarrow> transfer_source res io" where
  "ResolveTransferSource n override =
     or_return (node_FindByID n) (\<lambda>e. e) (\<lambda>node.
     or_return (ListByNode n) (Wrap (''list interfaces for node '' @ n)) (\<lambda>ifaces.
       if ifaces = [] then fail ErrNoInterfaces
       else State_Monad.return (choose_interface (sort_key ni_InterfaceName ifaces) override (node_DefaultTransferInterface node))))"

section \<open>Tokens authenticate their node\<close>

lemma run_RegisterNode:
  assumes "run_state (RegisterNode a p) w = (Inr (n, token), w')"
  shows "CanManageNodes a \<and> reg_validate p = Inr () \<and> reg_Name p \<notin> cred_name ` set (nodes w) \<and> node_Name n = reg_Name p
    \<and> nodes w' = nodes w @ [\<lparr>cred_Node = n, cred_BearerTokenHash = HashNodeToken token\<rparr>]
    \<and> (\<exists>rec. audit_log w' = audit_log w @ [rec] \<and> audit_ObjectID rec = node_ID n)"
  using assms
  by (auto simp: RegisterNode_def GenerateNodeToken_def node_Create_def run_simps Let_def new_node_def new_record_def
      split: if_splits sum.splits fault.splits)

lemma run_Authenticate:
  "faults w (tick w) = NoFault \<Longrightarrow>
   fst (run_state (Authenticate name token) w) =
     (case find_row cred_name name (nodes w) of
        None \<Rightarrow> Inl ErrInvalidCredentials
      | Some c \<Rightarrow> if HashNodeToken token = cred_BearerTokenHash c then Inr (cred_Node c) else Inl ErrInvalidCredentials)"
  by (auto simp: Authenticate_def FindCredentialByName_def VerifyNodeToken_def run_simps split: option.split)

text \<open>
  C31. Registering a node stores it once, under a name that no other node has, with one audit record, and keeps of
  its token only the SHA-256 hash. From then on, as long as the table holds that row and the lookup works, the
  token authenticates the node under its name, another token does only if it has the same hash, and a wrong token
  is answered exactly like an unknown name.
\<close>

theorem registered_token_authenticates:
  assumes run: "run_state (RegisterNode a p) w = (Inr (n, token), w')"
    and later: "nodes w2 = nodes w' @ added" and up: "faults w2 (tick w2) = NoFault"
  shows "nodes w' = nodes w @ [\<lparr>cred_Node = n, cred_BearerTokenHash = HashNodeToken token\<rparr>]
    \<and> reg_Name p \<notin> cred_name ` set (nodes w) \<and> (\<exists>rec. audit_log w' = audit_log w @ [rec] \<and> audit_ObjectID rec = node_ID n)
    \<and> fst (run_state (Authenticate (reg_Name p) token) w2) = Inr n
    \<and> fst (run_state (Authenticate (reg_Name p) other) w2) =
        (if HashNodeToken other = HashNodeToken token then Inr n else Inl ErrInvalidCredentials)
    \<and> (unknown \<notin> cred_name ` set (nodes w2) \<longrightarrow> fst (run_state (Authenticate unknown other) w2) = Inl ErrInvalidCredentials)"
proof -
  note R = run_RegisterNode [OF run]
  have "find_row cred_name (reg_Name p) (nodes w2) = Some \<lparr>cred_Node = n, cred_BearerTokenHash = HashNodeToken token\<rparr>"
    using R find_row_None_iff [of cred_name "reg_Name p" "nodes w"] by (simp add: later find_row_append cred_name_def)
  moreover have "unknown \<notin> cred_name ` set (nodes w2) \<Longrightarrow> find_row cred_name unknown (nodes w2) = None"
    by (simp add: find_row_None_iff)
  ultimately show ?thesis using R by (simp add: run_Authenticate [OF up])
qed

definition spark_registration :: node_registration where
  "spark_registration = \<lparr>reg_Name = ''spark-1'', reg_Hostname = ''spark-1'', reg_IPAddress = ''10.0.0.1'',
     reg_RuntimeBackend = BackendDocker, reg_GPUMemoryGB = Finite 128 0, reg_CPUMemoryGB = Finite 128 0\<rparr>"

definition root_actor :: actor where
  "root_actor = \<lparr>IsSuperAdmin = True, UserID = [], Tier = TierReadOnly\<rparr>"

theorem registered_token_authenticates_witness:
  "\<exists>n token w'. run_state (RegisterNode root_actor spark_registration) empty_world = (Inr (n, token), w')
     \<and> fst (run_state (Authenticate ''spark-1'' token) w') = Inr n"
proof -
  obtain n token where r: "fst (run_state (RegisterNode root_actor spark_registration) empty_world) = Inr (n, token)"
    by (simp add: RegisterNode_def GenerateNodeToken_def node_Create_def run_simps Let_def new_node_def spark_registration_def root_actor_def
        empty_world_def CanManageNodes_def reg_validate_def le_zero_def)
  define w' where "w' = snd (run_state (RegisterNode root_actor spark_registration) empty_world)"
  have run: "run_state (RegisterNode root_actor spark_registration) empty_world = (Inr (n, token), w')"
    using r unfolding w'_def by (metis prod.collapse)
  have "faults w' = (\<lambda>_. NoFault)"
    by (simp add: w'_def RegisterNode_def GenerateNodeToken_def node_Create_def run_simps Let_def new_node_def spark_registration_def
        root_actor_def empty_world_def CanManageNodes_def reg_validate_def le_zero_def)
  then show ?thesis using registered_token_authenticates [OF run, of w' "[]" token "[]"] run
    by (auto simp: spark_registration_def)
qed

text \<open>Not a number is not at most zero, so a registration with it passes the check for a positive size.\<close>

lemma nan_memory_accepted: "reg_validate (spark_registration\<lparr>reg_GPUMemoryGB := NaN, reg_CPUMemoryGB := PosInf\<rparr>) = Inr ()"
  by (simp add: reg_validate_def spark_registration_def le_zero_def)

section \<open>The interface of a transfer\<close>

definition best_so_far :: "node_interface list \<Rightarrow> node_interface \<Rightarrow> bool" where
  "best_so_far is b \<longleftrightarrow> (\<exists>k. ni_LinkSpeedMbps b = Some k \<and>
     (\<forall>j \<in> set is. \<forall>m. ni_LinkSpeedMbps j = Some m \<longrightarrow> m < k \<or> m = k \<and> ni_InterfaceName b \<le> ni_InterfaceName j))"

lemma fastest_of_best:
  assumes "sorted (map ni_InterfaceName (seen @ is))"
    and "case best of None \<Rightarrow> \<forall>j \<in> set seen. ni_LinkSpeedMbps j = None | Some b \<Rightarrow> b \<in> set seen \<and> best_so_far seen b"
  shows "case fastest_of is best of None \<Rightarrow> \<forall>j \<in> set (seen @ is). ni_LinkSpeedMbps j = None
    | Some b \<Rightarrow> b \<in> set (seen @ is) \<and> best_so_far (seen @ is) b"
  using assms
proof (induction "is" best arbitrary: "seen" rule: fastest_of.induct)
  case (2 i "is" best)
  show ?case
  proof (cases "ni_LinkSpeedMbps i")
    case None
    have "case best of None \<Rightarrow> \<forall>j \<in> set (seen @ [i]). ni_LinkSpeedMbps j = None | Some b \<Rightarrow> b \<in> set (seen @ [i]) \<and> best_so_far (seen @ [i]) b"
      using 2(4) None by (auto simp: best_so_far_def split: option.splits)
    then show ?thesis using 2(1) [of "seen @ [i]"] 2(3) None by (simp cong: option.case_cong)
  next
    case (Some k)
    let ?best = "case best of None \<Rightarrow> Some i | Some b \<Rightarrow> if k > (case ni_LinkSpeedMbps b of Some m \<Rightarrow> m | None \<Rightarrow> 0) then Some i else best"
    have "case ?best of None \<Rightarrow> \<forall>j \<in> set (seen @ [i]). ni_LinkSpeedMbps j = None | Some b \<Rightarrow> b \<in> set (seen @ [i]) \<and> best_so_far (seen @ [i]) b"
      using 2(3,4) Some by (fastforce simp: best_so_far_def sorted_append split: option.splits if_splits)
    then show ?thesis using 2(2) [OF Some, of "seen @ [i]"] 2(3) Some by (simp cong: option.case_cong)
  qed
qed (auto split: option.splits)

text \<open>What the choice among the reported interfaces has to be.\<close>

definition right_choice :: "node_interface list \<Rightarrow> string \<Rightarrow> string option \<Rightarrow> transfer_source res \<Rightarrow> bool" where
  "right_choice ifs override dflt r \<longleftrightarrow>
     (if override \<noteq> [] then
        (if override \<in> ni_InterfaceName ` set ifs
         then \<exists>i \<in> set ifs. ni_InterfaceName i = override \<and> r = Inr (pick i) else r = Inl ErrUnknownInterface)
      else if \<exists>d. dflt = Some d \<and> d \<in> ni_InterfaceName ` set ifs
      then \<exists>i \<in> set ifs. dflt = Some (ni_InterfaceName i) \<and> r = Inr (pick i)
      else if \<exists>i \<in> set ifs. ni_LinkSpeedMbps i \<noteq> None
      then \<exists>i \<in> set ifs. best_so_far ifs i \<and> r = Inr (pick i)
      else \<exists>i \<in> set ifs. (\<forall>j \<in> set ifs. ni_InterfaceName i \<le> ni_InterfaceName j) \<and> r = Inr (pick i))"

lemma right_choice_set: "set xs = set ys \<Longrightarrow> right_choice xs override dflt r = right_choice ys override dflt r"
  by (simp only: right_choice_def best_so_far_def)

lemma find_name:
  "case find (\<lambda>i. ni_InterfaceName i = x) ifs of
     None \<Rightarrow> x \<notin> ni_InterfaceName ` set ifs | Some i \<Rightarrow> i \<in> set ifs \<and> ni_InterfaceName i = x"
  by (induction ifs) (auto split: option.splits)

lemma choose_right:
  assumes sorted: "sorted (map ni_InterfaceName ifs)" and ne: "ifs \<noteq> []"
  shows "right_choice ifs override dflt (choose_interface ifs override dflt)"
proof -
  note F = fastest_of_best [of "[]" ifs None, simplified, OF sorted]
  have first: "\<forall>j \<in> set ifs. ni_InterfaceName (hd ifs) \<le> ni_InterfaceName j" using sorted ne by (cases ifs) auto
  show ?thesis
  proof (cases "override \<noteq> []")
    case True
    then show ?thesis using find_name [of override ifs]
      by (cases "find (\<lambda>i. ni_InterfaceName i = override) ifs") (auto simp: right_choice_def choose_interface_def Let_def)
  next
    case False
    show ?thesis
    proof (cases "\<exists>d. dflt = Some d \<and> d \<in> ni_InterfaceName ` set ifs")
      case True
      then obtain d where d: "dflt = Some d" "d \<in> ni_InterfaceName ` set ifs" by blast
      obtain i where i: "find (\<lambda>i. ni_InterfaceName i = d) ifs = Some i" "i \<in> set ifs" "ni_InterfaceName i = d"
        using find_name [of d ifs] d(2) by (auto split: option.splits)
      then have "choose_interface ifs override dflt = Inr (pick i)" using False d(1) by (simp add: choose_interface_def Let_def)
      then show ?thesis using False True i d(1) unfolding right_choice_def by auto
    next
      case none: False
      then have "Option.bind dflt (\<lambda>name. find (\<lambda>i. ni_InterfaceName i = name) ifs) = None"
        using find_name by (cases dflt) (force split: option.splits)+
      then have c: "choose_interface ifs override dflt =
          (case fastest_of ifs None of Some i \<Rightarrow> Inr (pick i) | None \<Rightarrow> Inr (pick (hd ifs)))"
        using False by (simp add: choose_interface_def Let_def)
      show ?thesis
      proof (cases "fastest_of ifs None")
        case None
        then show ?thesis using F c False none first ne by (auto simp: right_choice_def)
      next
        case (Some b)
        then have "b \<in> set ifs" "best_so_far ifs b" using F by auto
        then show ?thesis using Some c False none by (auto simp: right_choice_def best_so_far_def)
      qed
    qed
  qed
qed

text \<open>
  C32. The interface that a peer transfer pulls from, among those the node reports: the one asked for, which is an
  error when it is not reported and never replaced by another; else the node's default if it is reported; else the
  fastest one with a known speed, of several equally fast ones the first by name; else the first by name. A node
  that reports none is an error, and a successful choice is one of its own interfaces.
\<close>

theorem transfer_source_choice:
  assumes node: "find_row cred_id n (nodes w) = Some c" and up: "faults w (tick w) = NoFault" "faults w (Suc (tick w)) = NoFault"
  shows "(if filter (\<lambda>i. ni_NodeID i = n) (node_network_interfaces w) = []
     then fst (run_state (ResolveTransferSource n override) w) = Inl ErrNoInterfaces
     else right_choice (filter (\<lambda>i. ni_NodeID i = n) (node_network_interfaces w)) override
       (node_DefaultTransferInterface (cred_Node c)) (fst (run_state (ResolveTransferSource n override) w)))"
proof -
  let ?ifs = "filter (\<lambda>i. ni_NodeID i = n) (node_network_interfaces w)"
  let ?sorted = "sort_key ni_InterfaceName (sort_key ni_InterfaceName ?ifs)"
  have sort_empty: "sort_key ni_InterfaceName xs = [] \<longleftrightarrow> xs = []" for xs by (metis length_0_conv length_sort)
  have run: "fst (run_state (ResolveTransferSource n override) w) =
     (if ?ifs = [] then Inl ErrNoInterfaces else choose_interface ?sorted override (node_DefaultTransferInterface (cred_Node c)))"
    using assms sort_empty by (auto simp: ResolveTransferSource_def node_FindByID_def ListByNode_def run_simps scanNode_def)
  show ?thesis
  proof (cases "?ifs = []")
    case True
    then show ?thesis using run by simp
  next
    case False
    then have "right_choice ?sorted override d (choose_interface ?sorted override d)" for d
      by (intro choose_right) (simp_all add: sort_empty)
    then show ?thesis using run False right_choice_set [of ?sorted ?ifs] by simp
  qed
qed

definition reported :: "string \<Rightarrow> int option \<Rightarrow> node_interface" where
  "reported name speed = \<lparr>ni_NodeID = ''n1'', ni_InterfaceName = name, ni_IPAddress = ''10.0.0.1'', ni_LinkSpeedMbps = speed, ni_ReportedAt = 0\<rparr>"

definition two_links_world :: world where
  "two_links_world = empty_world\<lparr>
     nodes := [\<lparr>cred_Node = (new_node empty_world spark_registration None)\<lparr>node_ID := ''n1''\<rparr>, cred_BearerTokenHash = []\<rparr>],
     node_network_interfaces := [reported ''eth0'' (Some 1000), reported ''ib0'' (Some 200000), reported ''ib1'' (Some 200000)]\<rparr>"

theorem transfer_source_choice_witness:
  "fst (run_state (ResolveTransferSource ''n1'' []) two_links_world) = Inr (pick (reported ''ib0'' (Some 200000)))"
proof -
  let ?c = "hd (nodes two_links_world)"
  have node: "find_row cred_id ''n1'' (nodes two_links_world) = Some ?c"
    by (simp add: two_links_world_def find_row_def cred_id_def)
  have up: "faults two_links_world k = NoFault" for k by (simp add: two_links_world_def empty_world_def)
  have ifs: "filter (\<lambda>i. ni_NodeID i = ''n1'') (node_network_interfaces two_links_world) =
      [reported ''eth0'' (Some 1000), reported ''ib0'' (Some 200000), reported ''ib1'' (Some 200000)]"
    by (simp add: two_links_world_def reported_def)
  have dflt: "node_DefaultTransferInterface (cred_Node ?c) = None" by (simp add: two_links_world_def new_node_def)
  show ?thesis
    using transfer_source_choice [OF node up up, of "[]"]
    by (auto simp: ifs dflt right_choice_def best_so_far_def reported_def)
qed

section \<open>The audit log\<close>

lemma log_grows_set_interface: "within log_grows (set_interface a n i nm)"
  unfolding set_interface_def by (intro log_grows_rules log_grows_nodes_repo)

lemma log_grows_nodes:
  "within log_grows (RegisterNode a p)" "within log_grows (Authenticate name token)"
  "within log_grows (HandleReportInterfaces n env)" "within log_grows (RescanInterfaces a n)"
  "within log_grows (SetDefaultTransferInterface a n i)" "within log_grows (SetComment a n c)"
  unfolding RegisterNode_def GenerateNodeToken_def Authenticate_def HandleReportInterfaces_def RescanInterfaces_def
    SetDefaultTransferInterface_def SetComment_def Let_def
  by (intro log_grows_rules log_grows_nodes_repo log_grows_ReplaceForNode log_grows_agentconn log_grows_set_interface)+

end
