(* ===== verification/Transfers.thy ===== *)
theory Transfers
  imports Transfers_Repo Nodes
begin

text \<open>
  Model transfers (internal/transfers/transfers.go, service.go, peer.go): starting a download or a pull from another
  node, cancelling, retrying, the agents' reports, the authorization of a pull by the source node, and connectivity
  checks, with the messages used (internal/agentproto/agentproto.go).
\<close>

section \<open>Messages\<close>

definition TypeStartTransfer :: string where "TypeStartTransfer = ''start_transfer''"
definition TypeTransferProgress :: string where "TypeTransferProgress = ''transfer_progress''"
definition TypeCancelTransfer :: string where "TypeCancelTransfer = ''cancel_transfer''"
definition TypeAuthorizePeerPull :: string where "TypeAuthorizePeerPull = ''authorize_peer_pull''"
definition TypePeerAuthorizeResult :: string where "TypePeerAuthorizeResult = ''peer_authorize_result''"
definition TypeStartPeerTransfer :: string where "TypeStartPeerTransfer = ''start_peer_transfer''"
definition TypeRevokePeerPull :: string where "TypeRevokePeerPull = ''revoke_peer_pull''"
definition TypeCheckPeerConnectivity :: string where "TypeCheckPeerConnectivity = ''check_peer_connectivity''"
definition TypeConnectivityCheckResult :: string where "TypeConnectivityCheckResult = ''connectivity_check_result''"

definition encode_StartTransfer :: "string \<Rightarrow> string \<Rightarrow> string \<Rightarrow> json" where
  "encode_StartTransfer transferID modelRef quantization = JObj
     ([(''transfer_id'', JStr transferID), (''model_ref'', JStr modelRef)] @ opt_str ''quantization'' quantization)"

definition encode_CancelTransfer :: "string \<Rightarrow> json" where
  "encode_CancelTransfer transferID = JObj [(''transfer_id'', JStr transferID)]"

definition encode_RevokePeerPull :: "string \<Rightarrow> json" where
  "encode_RevokePeerPull transferID = JObj [(''transfer_id'', JStr transferID)]"

record transfer_progress =
  tg_TransferID :: string
  tg_BytesTransferred :: int
  tg_BytesTotal :: int
  tg_Status :: string
  tg_ErrorMessage :: string

definition decode_TransferProgress :: "envelope \<Rightarrow> transfer_progress res" where
  "decode_TransferProgress = decode_payload [''transfer_id'', ''bytes_transferred'', ''bytes_total'', ''status'', ''error_message'']
     (\<lambda>fs.
       rbind (get_string ''transfer_id'' fs) (\<lambda>transferID.
       rbind (get_int ''bytes_transferred'' fs) (\<lambda>transferred.
       rbind (get_int ''bytes_total'' fs) (\<lambda>tot.
       rbind (get_string ''status'' fs) (\<lambda>status.
       rbind (get_string ''error_message'' fs) (\<lambda>msg.
         Inr \<lparr>tg_TransferID = transferID, tg_BytesTransferred = transferred, tg_BytesTotal = tot, tg_Status = status, tg_ErrorMessage = msg\<rparr>))))))"

record authorize_peer_pull =
  ap_TransferID :: string
  ap_DestPublicKey :: string
  ap_DestIPAddress :: string
  ap_ModelRef :: string
  ap_Quantization :: string
  ap_Format :: string

definition encode_AuthorizePeerPull :: "authorize_peer_pull \<Rightarrow> json" where
  "encode_AuthorizePeerPull m = JObj
     ([(''transfer_id'', JStr (ap_TransferID m)), (''dest_public_key'', JStr (ap_DestPublicKey m)),
       (''dest_ip_address'', JStr (ap_DestIPAddress m)), (''model_ref'', JStr (ap_ModelRef m))]
      @ opt_str ''quantization'' (ap_Quantization m) @ [(''format'', JStr (ap_Format m))])"

record peer_authorize_result =
  pr_TransferID :: string
  pr_Accepted :: bool
  pr_Reason :: string

definition decode_PeerAuthorizeResult :: "envelope \<Rightarrow> peer_authorize_result res" where
  "decode_PeerAuthorizeResult = decode_payload [''transfer_id'', ''accepted'', ''reason'']
     (\<lambda>fs.
       rbind (get_string ''transfer_id'' fs) (\<lambda>transferID.
       rbind (get_bool ''accepted'' fs) (\<lambda>accepted.
       rbind (get_string ''reason'' fs) (\<lambda>reason.
         Inr \<lparr>pr_TransferID = transferID, pr_Accepted = accepted, pr_Reason = reason\<rparr>))))"

record start_peer_transfer =
  sp_TransferID :: string
  sp_SourceNodeID :: string
  sp_SourceHost :: string
  sp_SourceSSHPort :: int
  sp_SourceHostPublicKey :: string
  sp_ModelRef :: string
  sp_Quantization :: string
  sp_Format :: string

definition encode_StartPeerTransfer :: "start_peer_transfer \<Rightarrow> json" where
  "encode_StartPeerTransfer m = JObj
     ([(''transfer_id'', JStr (sp_TransferID m)), (''source_node_id'', JStr (sp_SourceNodeID m)),
       (''source_host'', JStr (sp_SourceHost m)), (''source_ssh_port'', JInt (sp_SourceSSHPort m)),
       (''source_host_public_key'', JStr (sp_SourceHostPublicKey m)), (''model_ref'', JStr (sp_ModelRef m))]
      @ opt_str ''quantization'' (sp_Quantization m) @ [(''format'', JStr (sp_Format m))])"

definition encode_CheckPeerConnectivity :: "string \<Rightarrow> string \<Rightarrow> int \<Rightarrow> json" where
  "encode_CheckPeerConnectivity checkID host port = JObj
     [(''check_id'', JStr checkID), (''source_host'', JStr host), (''source_ssh_port'', JInt port)]"

record connectivity_check_result =
  cc_CheckID :: string
  cc_Reachable :: bool
  cc_LatencyMs :: int
  cc_Reason :: string

definition decode_ConnectivityCheckResult :: "envelope \<Rightarrow> connectivity_check_result res" where
  "decode_ConnectivityCheckResult = decode_payload [''check_id'', ''reachable'', ''latency_ms'', ''reason'']
     (\<lambda>fs.
       rbind (get_string ''check_id'' fs) (\<lambda>checkID.
       rbind (get_bool ''reachable'' fs) (\<lambda>reachable.
       rbind (get_int ''latency_ms'' fs) (\<lambda>latency.
       rbind (get_string ''reason'' fs) (\<lambda>reason.
         Inr \<lparr>cc_CheckID = checkID, cc_Reachable = reachable, cc_LatencyMs = latency, cc_Reason = reason\<rparr>)))))"

section \<open>Requests\<close>

record transfer_params =
  tp_DestNodeID :: string
  tp_ModelRef :: string
  tp_SourceType :: transfer_source_type
  tp_SourceNodeID :: string
  tp_Format :: model_format
  tp_SourceInterface :: string
  tp_RetryOf :: string
  tp_Quantization :: string

definition tp_validate :: "transfer_params \<Rightarrow> unit res" where
  "tp_validate p =
     (if tp_DestNodeID p = [] then Inl (Detail ErrInvalidTransfer ''dest_node_id is required'')
      else if tp_ModelRef p = [] then Inl (Detail ErrInvalidTransfer ''model_ref is required'')
      else if tp_SourceType p = SourceOther [] \<or> tp_SourceType p = SourceInternet then Inr ()
      else if tp_SourceType p = SourcePeerNode then
        if tp_SourceNodeID p = [] then Inl (Detail ErrInvalidTransfer ''source_node_id is required for a peer transfer'')
        else if tp_SourceNodeID p = tp_DestNodeID p then Inl (Detail ErrInvalidTransfer ''source and destination must be different nodes'')
        else if tp_Format p \<noteq> FormatSafetensors \<and> tp_Format p \<noteq> FormatGGUF
          then Inl (Detail ErrInvalidTransfer ''format must be safetensors or gguf for a peer transfer'')
        else Inr ()
      else Inl (Detail ErrInvalidTransfer ''unknown source_type''))"

definition opt_text :: "string \<Rightarrow> string option" where
  "opt_text s = (if s \<noteq> [] then Some s else None)"

definition isTerminal :: "transfer_status \<Rightarrow> bool" where
  "isTerminal s \<longleftrightarrow> s = TransferCompleted \<or> s = TransferFailed \<or> s = TransferCancelled"

definition status_string :: "transfer_status \<Rightarrow> string" where
  "status_string s =
     (case s of TransferQueued \<Rightarrow> ''queued'' | TransferTransferring \<Rightarrow> ''transferring'' | TransferCompleted \<Rightarrow> ''completed''
      | TransferFailed \<Rightarrow> ''failed'' | TransferCancelled \<Rightarrow> ''cancelled'' | TransferOther t \<Rightarrow> t)"

definition status_of_string :: "string \<Rightarrow> transfer_status" where
  "status_of_string t =
     (if t = ''queued'' then TransferQueued else if t = ''transferring'' then TransferTransferring
      else if t = ''completed'' then TransferCompleted else if t = ''failed'' then TransferFailed
      else if t = ''cancelled'' then TransferCancelled else TransferOther t)"

definition canManageModelStore :: "actor \<Rightarrow> bool res io" where
  "canManageModelStore a =
     (if \<not> IsSuperAdmin a \<and> Tier a = TierPowerDev then
        State_Monad.bind (po_Get (UserID a) CapabilityManageModelStore) (\<lambda>r. case r of
          Inr _ \<Rightarrow> ok (CanManageModelStore a True)
        | Inl e \<Rightarrow>
            if errors_is e ErrPermissionOverrideNotFound then ok (CanManageModelStore a False)
            else fail (Wrap ''check manage_model_store override'' e))
      else ok (CanManageModelStore a False))"

definition CanInitiateTransfer :: "actor \<Rightarrow> bool res io" where
  "CanInitiateTransfer = canManageModelStore"

text \<open>Best effort messages: a failure is only logged.\<close>

definition best_effort :: "string \<Rightarrow> envelope \<Rightarrow> unit io" where
  "best_effort nodeID env =
     State_Monad.bind (Connected nodeID) (\<lambda>c.
       if \<not> c then State_Monad.return ()
       else State_Monad.bind (Send nodeID env) (\<lambda>_. State_Monad.return ()))"

definition sendCancel :: "string \<Rightarrow> string \<Rightarrow> unit io" where
  "sendCancel nodeID transferID = best_effort nodeID (NewEnvelope TypeCancelTransfer [] (encode_CancelTransfer transferID))"

definition revokePeer :: "model_transfer \<Rightarrow> unit io" where
  "revokePeer t =
     (if mt_SourceType t \<noteq> SourcePeerNode then State_Monad.return ()
      else case mt_SourceNodeID t of
        None \<Rightarrow> State_Monad.return ()
      | Some src \<Rightarrow> best_effort src (NewEnvelope TypeRevokePeerPull [] (encode_RevokePeerPull (mt_ID t))))"

definition failPeer :: "model_transfer \<Rightarrow> string \<Rightarrow> unit io" where
  "failPeer t message =
     State_Monad.bind (mt_SetStatus (mt_ID t) TransferFailed (Some message)) (\<lambda>_. revokePeer t)"

section \<open>Pulls from another node\<close>

definition peerSSHPort :: int where "peerSSHPort = 22"
definition maxDestIPs :: nat where "maxDestIPs = 16"

record peer_plan =
  pl_dest :: node
  pl_source :: node
  pl_src :: transfer_source
  pl_destIPs :: string

text \<open>\<^verbatim>\<open>add\<close>: the addresses kept so far are also the ones seen.\<close>

definition add_ip :: "string list \<Rightarrow> string \<Rightarrow> string list" where
  "add_ip ips raw =
     (case ParseIP raw of
        None \<Rightarrow> ips
      | Some ip \<Rightarrow> if ip_String ip \<in> set ips \<or> length ips \<ge> maxDestIPs then ips else ips @ [ip_String ip])"

definition no_text :: "string option \<Rightarrow> bool" where
  "no_text s \<longleftrightarrow> s = None \<or> s = Some []"

text \<open>\<^verbatim>\<open>%q\<close> of a name of printable characters without quotes or backslashes.\<close>

definition quoted :: "string \<Rightarrow> string" where
  "quoted s = CHR 0x22 # s @ [CHR 0x22]"

definition planPeer :: "string \<Rightarrow> string \<Rightarrow> string \<Rightarrow> peer_plan res io" where
  "planPeer destNodeID sourceNodeID override =
     or_return (GetNode destNodeID) (Wrap ''look up destination node'') (\<lambda>dest.
     or_return (GetNode sourceNodeID) (Wrap ''look up source node'') (\<lambda>source.
       if no_text (node_SSHPublicKey dest)
       then fail (Detail ErrPeerNotReady (''destination node '' @ quoted (node_Name dest)
         @ '' has not reported an SSH identity (run sparky-agent setup and restart the agent)''))
       else if no_text (node_SSHHostPublicKey source)
       then fail (Detail ErrPeerNotReady (''source node '' @ quoted (node_Name source) @ '' has not reported an sshd host key''))
       else
         or_return (ResolveTransferSource sourceNodeID override)
           (\<lambda>e. if errors_is e ErrNoInterfaces \<or> errors_is e ErrUnknownInterface
                then Detail ErrPeerNotReady (''source node '' @ quoted (node_Name source) @ '': '' @ error_text e)
                else Wrap ''resolve source interface'' e) (\<lambda>src.
         or_return (ListInterfaces destNodeID) (Wrap ''list destination interfaces'') (\<lambda>ifaces.
           let ips = add_ip (foldl add_ip [] (map ni_IPAddress ifaces)) (node_IPAddress dest) in
           if ips = [] then fail (Detail ErrPeerNotReady (''destination node '' @ quoted (node_Name dest) @ '' has no known IP address''))
           else ok \<lparr>pl_dest = dest, pl_source = source, pl_src = src, pl_destIPs = join '','' ips\<rparr>))))"

definition retry_detail :: "transfer_params \<Rightarrow> audit_detail" where
  "retry_detail p = (if tp_RetryOf p \<noteq> [] then [(''retry_of'', JStr (tp_RetryOf p))] else [])"

definition authorize_message :: "transfer_params \<Rightarrow> peer_plan \<Rightarrow> model_transfer \<Rightarrow> envelope" where
  "authorize_message p plan t =
     NewEnvelope TypeAuthorizePeerPull [] (encode_AuthorizePeerPull
       \<lparr>ap_TransferID = mt_ID t, ap_DestPublicKey = the (node_SSHPublicKey (pl_dest plan)), ap_DestIPAddress = pl_destIPs plan,
        ap_ModelRef = mt_ModelRef t, ap_Quantization = tp_Quantization p, ap_Format = format_string (tp_Format p)\<rparr>)"

text \<open>
  The row is created, then completed; \<open>or_fail\<close> is an early return that marks the transfer as failed first. Go's
  local copy of the row differs from the stored one in format and interface only, which the rest does not read.
\<close>

definition or_fail :: "unit res io \<Rightarrow> (error \<Rightarrow> error) \<Rightarrow> model_transfer \<Rightarrow> string \<Rightarrow> 'b res io \<Rightarrow> 'b res io" where
  "or_fail m h t message k =
     State_Monad.bind m (\<lambda>r. case r of
       Inl e \<Rightarrow> State_Monad.bind (failPeer t message) (\<lambda>_. fail (h e))
     | Inr _ \<Rightarrow> k)"

definition peer_dispatch :: "actor \<Rightarrow> transfer_params \<Rightarrow> peer_plan \<Rightarrow> model_transfer \<Rightarrow> model_transfer res io" where
  "peer_dispatch a p plan t =
     or_fail (mt_SetFormat (mt_ID t) (Some (tp_Format p))) (Wrap ''record transfer format'') t ''could not record transfer format''
     (or_fail (if tp_SourceInterface p \<noteq> [] then mt_SetSourceInterface (mt_ID t) (Some (tp_SourceInterface p)) else ok ())
       (Wrap ''record source interface'') t ''could not record source interface''
     (or_fail (Send (tp_SourceNodeID p) (authorize_message p plan t))
       (Wrap (''dispatch authorize_peer_pull to node '' @ tp_SourceNodeID p)) t ''could not reach the source node''
     (or_return
       (Record (actor_id a) (IsSuperAdmin a) ''initiated_transfer'' ''model_transfer'' (mt_ID t)
         (Some ([(''dest_node_id'', JStr (mt_DestNodeID t)), (''model_ref'', JStr (mt_ModelRef t)), (''source_type'', JStr ''peer_node''),
                 (''source_node_id'', JStr (tp_SourceNodeID p)), (''quantization'', JStr (tp_Quantization p)),
                 (''format'', JStr (format_string (tp_Format p)))] @ retry_detail p)))
       (Wrap ''record audit'')
       (\<lambda>_. ok (t\<lparr>mt_Format := Some (tp_Format p),
          mt_SourceInterface := (if tp_SourceInterface p \<noteq> [] then Some (tp_SourceInterface p) else mt_SourceInterface t)\<rparr>)))))"

definition initiatePeer :: "actor \<Rightarrow> transfer_params \<Rightarrow> model_transfer res io" where
  "initiatePeer a p =
     State_Monad.bind (Connected (tp_DestNodeID p)) (\<lambda>destUp.
     if \<not> destUp then fail ErrDestNodeOffline
     else State_Monad.bind (Connected (tp_SourceNodeID p)) (\<lambda>sourceUp.
     if \<not> sourceUp then fail ErrSourceNodeOffline
     else or_return (inv_Get (tp_SourceNodeID p, tp_ModelRef p, tp_Quantization p, tp_Format p))
       (\<lambda>e. if errors_is e ErrNodeModelInventoryNotFound then ErrSourceNotPresent else Wrap ''check source inventory'' e) (\<lambda>entry.
     if mi_Status entry \<noteq> InvPresent then fail ErrSourceNotPresent
     else or_return (planPeer (tp_DestNodeID p) (tp_SourceNodeID p) (tp_SourceInterface p)) (\<lambda>e. e) (\<lambda>plan.
     or_return
       (mt_Create (tp_DestNodeID p) (tp_ModelRef p) SourcePeerNode (Some (tp_SourceNodeID p)) (opt_text (tp_Quantization p)) (actor_id a))
       (Wrap ''create model transfer'') (peer_dispatch a p plan)))))"

section \<open>Starting, cancelling, retrying\<close>

definition start_message :: "model_transfer \<Rightarrow> envelope" where
  "start_message t =
     NewEnvelope TypeStartTransfer []
       (encode_StartTransfer (mt_ID t) (mt_ModelRef t) (case mt_Quantization t of None \<Rightarrow> [] | Some q \<Rightarrow> q))"

definition InitiateTransfer :: "actor \<Rightarrow> transfer_params \<Rightarrow> model_transfer res io" where
  "InitiateTransfer a p =
     or_return (canManageModelStore a) (\<lambda>e. e) (\<lambda>permitted.
       if \<not> permitted then fail ErrNotPermitted
       else case tp_validate p of
         Inl e \<Rightarrow> fail e
       | Inr _ \<Rightarrow>
           if tp_SourceType p = SourcePeerNode then initiatePeer a p
           else State_Monad.bind (Connected (tp_DestNodeID p)) (\<lambda>up.
             if \<not> up then fail ErrDestNodeOffline
             else
               or_return
                 (mt_Create (tp_DestNodeID p) (tp_ModelRef p) SourceInternet None (opt_text (tp_Quantization p)) (actor_id a))
                 (Wrap ''create model transfer'') (\<lambda>t.
               or_return (Send (tp_DestNodeID p) (start_message t)) (Wrap (''dispatch start_transfer to node '' @ tp_DestNodeID p)) (\<lambda>_.
               or_return
                 (Record (actor_id a) (IsSuperAdmin a) ''initiated_transfer'' ''model_transfer'' (mt_ID t)
                    (Some ([(''dest_node_id'', JStr (mt_DestNodeID t)), (''model_ref'', JStr (mt_ModelRef t))] @ retry_detail p)))
                 (Wrap ''record audit'') (\<lambda>_. ok t)))))"

definition inventoryKey :: "model_transfer \<Rightarrow> string \<times> model_format" where
  "inventoryKey t =
     (let quantization = (case mt_Quantization t of None \<Rightarrow> [] | Some q \<Rightarrow> q);
          format = (if quantization \<noteq> [] then FormatGGUF else FormatSafetensors)
      in (quantization, case mt_Format t of None \<Rightarrow> format | Some f \<Rightarrow> f))"

definition transfer_key :: "string \<Rightarrow> model_transfer \<Rightarrow> inventory_key" where
  "transfer_key n t = (n, mt_ModelRef t, fst (inventoryKey t), snd (inventoryKey t))"

definition recordIncomplete :: "model_transfer \<Rightarrow> int \<Rightarrow> unit io" where
  "recordIncomplete t bytes =
     (let k = transfer_key (mt_DestNodeID t) t;
          upsert = State_Monad.bind (inv_Upsert k InvIncomplete bytes (mt_ID t)) (\<lambda>_. State_Monad.return ())
      in State_Monad.bind (inv_Get k) (\<lambda>r. case r of
           Inr existing \<Rightarrow>
             if mi_Status existing = InvPresent \<or> mi_Status existing = InvStale then State_Monad.return () else upsert
         | Inl e \<Rightarrow> if \<not> errors_is e ErrNodeModelInventoryNotFound then State_Monad.return () else upsert))"

definition cancel_found :: "actor \<Rightarrow> model_transfer \<Rightarrow> unit res io" where
  "cancel_found a t =
     (if isTerminal (mt_Status t) then fail ErrNotCancelable
      else or_return (mt_SetStatus (mt_ID t) TransferCancelled None) (Wrap ''mark transfer cancelled'') (\<lambda>_.
        State_Monad.bind (sendCancel (mt_DestNodeID t) (mt_ID t)) (\<lambda>_.
        State_Monad.bind (revokePeer t) (\<lambda>_.
        State_Monad.bind
          (if mt_Status t = TransferTransferring then recordIncomplete t (mt_BytesTransferred t) else State_Monad.return ()) (\<lambda>_.
        or_return
          (Record (actor_id a) (IsSuperAdmin a) ''cancelled_transfer'' ''model_transfer'' (mt_ID t)
             (Some [(''dest_node_id'', JStr (mt_DestNodeID t)), (''model_ref'', JStr (mt_ModelRef t)),
                    (''previous_status'', JStr (status_string (mt_Status t)))]))
          (Wrap ''record audit'') ok)))))"

definition CancelTransfer :: "actor \<Rightarrow> string \<Rightarrow> unit res io" where
  "CancelTransfer a transferID =
     or_return (canManageModelStore a) (\<lambda>e. e) (\<lambda>permitted.
       if \<not> permitted then fail ErrNotPermitted
       else or_return (mt_FindByID transferID) (\<lambda>e. e) (cancel_found a))"

definition retry_params :: "model_transfer \<Rightarrow> transfer_params res" where
  "retry_params t =
     (let p = \<lparr>tp_DestNodeID = mt_DestNodeID t, tp_ModelRef = mt_ModelRef t, tp_SourceType = mt_SourceType t, tp_SourceNodeID = [],
               tp_Format = FormatOther [], tp_SourceInterface = [], tp_RetryOf = mt_ID t,
               tp_Quantization = (case mt_Quantization t of None \<Rightarrow> [] | Some q \<Rightarrow> q)\<rparr>
      in if mt_SourceType t = SourcePeerNode then
           (case (mt_SourceNodeID t, mt_Format t) of
              (Some src, Some f) \<Rightarrow>
                Inr (p\<lparr>tp_SourceNodeID := src, tp_Format := f,
                       tp_SourceInterface := (case mt_SourceInterface t of None \<Rightarrow> [] | Some i \<Rightarrow> i)\<rparr>)
            | _ \<Rightarrow> Inl (Detail ErrInvalidTransfer ''the failed transfer has no recorded source or format''))
         else Inr p)"

definition RetryTransfer :: "actor \<Rightarrow> string \<Rightarrow> model_transfer res io" where
  "RetryTransfer a transferID =
     or_return (canManageModelStore a) (\<lambda>e. e) (\<lambda>permitted.
       if \<not> permitted then fail ErrNotPermitted
       else or_return (mt_FindByID transferID) (\<lambda>e. e) (\<lambda>t.
         if mt_Status t \<noteq> TransferFailed then fail ErrNotRetryable
         else case retry_params t of Inl e \<Rightarrow> fail e | Inr p \<Rightarrow> InitiateTransfer a p))"

definition ListTransfers :: "model_transfer list res io" where
  "ListTransfers = or_return mt_List (Wrap ''list transfers'') ok"

section \<open>What agents report\<close>

text \<open>The handler after its lookup of the row, and what it does with a row that is not finished.\<close>

definition apply_progress :: "string \<Rightarrow> transfer_progress \<Rightarrow> model_transfer \<Rightarrow> unit io" where
  "apply_progress nodeID g t =
     (let status = status_of_string (tg_Status g) in
      State_Monad.bind (mt_UpdateProgress (tg_TransferID g) (tg_BytesTransferred g) (tg_BytesTotal g)) (\<lambda>_.
      State_Monad.bind (mt_SetStatus (tg_TransferID g) status (opt_text (tg_ErrorMessage g))) (\<lambda>r. case r of
        Inl _ \<Rightarrow> State_Monad.return ()
      | Inr _ \<Rightarrow>
          State_Monad.bind (if isTerminal status then revokePeer t else State_Monad.return ()) (\<lambda>_.
          State_Monad.bind
            (if status = TransferFailed \<and> tg_BytesTransferred g > 0 then recordIncomplete t (tg_BytesTransferred g)
             else State_Monad.return ()) (\<lambda>_.
          if status \<noteq> TransferCompleted then State_Monad.return ()
          else State_Monad.bind (inv_Upsert (transfer_key nodeID t) InvPresent (tg_BytesTotal g) (mt_ID t)) (\<lambda>_.
            State_Monad.return ()))))))"

definition progress_found :: "string \<Rightarrow> transfer_progress \<Rightarrow> model_transfer \<Rightarrow> unit io" where
  "progress_found nodeID g t =
     (if mt_DestNodeID t \<noteq> nodeID then State_Monad.return ()
      else if isTerminal (mt_Status t) then
        if mt_Status t = TransferCancelled \<and> status_of_string (tg_Status g) = TransferTransferring
        then sendCancel nodeID (mt_ID t) else State_Monad.return ()
      else apply_progress nodeID g t)"

definition HandleTransferProgress :: "string \<Rightarrow> envelope \<Rightarrow> unit io" where
  "HandleTransferProgress nodeID env =
     (if env_Type env \<noteq> TypeTransferProgress then State_Monad.return ()
      else case decode_TransferProgress env of
        Inl _ \<Rightarrow> State_Monad.return ()
      | Inr g \<Rightarrow>
          State_Monad.bind (mt_FindByID (tg_TransferID g)) (\<lambda>r. case r of
            Inl _ \<Rightarrow> State_Monad.return ()
          | Inr t \<Rightarrow> progress_found nodeID g t))"

definition boundedReason :: "string \<Rightarrow> string" where
  "boundedReason s = (if length s > 200 then take 200 s else s)"

definition start_peer_message :: "string \<Rightarrow> peer_plan \<Rightarrow> model_transfer \<Rightarrow> envelope" where
  "start_peer_message nodeID plan t =
     NewEnvelope TypeStartPeerTransfer [] (encode_StartPeerTransfer
       \<lparr>sp_TransferID = mt_ID t, sp_SourceNodeID = nodeID, sp_SourceHost = ts_IPAddress (pl_src plan), sp_SourceSSHPort = peerSSHPort,
        sp_SourceHostPublicKey = the (node_SSHHostPublicKey (pl_source plan)), sp_ModelRef = mt_ModelRef t,
        sp_Quantization = (case mt_Quantization t of None \<Rightarrow> [] | Some q \<Rightarrow> q), sp_Format = format_string (the (mt_Format t))\<rparr>)"

text \<open>
  An accepted pull; the source node is \<open>nodeID\<close>. Dereferencing the format of a row without one panics in Go: that
  connection's read loop ends, and nothing more is done.
\<close>

definition start_peer :: "string \<Rightarrow> model_transfer \<Rightarrow> unit io" where
  "start_peer nodeID t =
     State_Monad.bind (planPeer (mt_DestNodeID t) nodeID (case mt_SourceInterface t of None \<Rightarrow> [] | Some i \<Rightarrow> i)) (\<lambda>r. case r of
       Inl e \<Rightarrow> failPeer t (error_text e)
     | Inr plan \<Rightarrow>
         State_Monad.bind (Connected (mt_DestNodeID t)) (\<lambda>up.
           if \<not> up then failPeer t ''destination node disconnected before the transfer could start''
           else if mt_Format t = None then State_Monad.return ()
           else State_Monad.bind (Send (mt_DestNodeID t) (start_peer_message nodeID plan t)) (\<lambda>s. case s of
             Inl _ \<Rightarrow> failPeer t ''could not reach the destination node''
           | Inr _ \<Rightarrow> State_Monad.return ())))"

definition authorize_found :: "string \<Rightarrow> peer_authorize_result \<Rightarrow> model_transfer \<Rightarrow> unit io" where
  "authorize_found nodeID result t =
     (if mt_SourceType t \<noteq> SourcePeerNode \<or> mt_SourceNodeID t \<noteq> Some nodeID \<or> mt_Status t \<noteq> TransferQueued
      then State_Monad.return ()
      else if \<not> pr_Accepted result
      then failPeer t (''source node declined the pull: '' @ boundedReason (pr_Reason result))
      else start_peer nodeID t)"

definition HandlePeerAuthorizeResult :: "string \<Rightarrow> envelope \<Rightarrow> unit io" where
  "HandlePeerAuthorizeResult nodeID env =
     (if env_Type env \<noteq> TypePeerAuthorizeResult then State_Monad.return ()
      else case decode_PeerAuthorizeResult env of
        Inl _ \<Rightarrow> State_Monad.return ()
      | Inr result \<Rightarrow>
          State_Monad.bind (mt_FindByID (pr_TransferID result)) (\<lambda>r. case r of
            Inl _ \<Rightarrow> State_Monad.return ()
          | Inr t \<Rightarrow> authorize_found nodeID result t))"

section \<open>Connectivity checks\<close>

definition checkRetention :: int where "checkRetention = 10 * 60 * 1000000000"

definition checks_add :: "string \<Rightarrow> string \<Rightarrow> unit io" where
  "checks_add checkID destNodeID =
     State_Monad.bind time_now (\<lambda>now.
       poke (\<lambda>w. w\<lparr>connectivity_checks :=
         AList.update checkID \<lparr>pc_destNodeID = destNodeID, pc_created = now, pc_result = None\<rparr>
           (filter (\<lambda>(_, c). \<not> now - pc_created c > checkRetention) (connectivity_checks w))\<rparr>))"

definition checks_complete :: "string \<Rightarrow> string \<Rightarrow> connectivity_result \<Rightarrow> bool io" where
  "checks_complete checkID fromNodeID res =
     State_Monad.bind (peek (\<lambda>w. map_of (connectivity_checks w) checkID)) (\<lambda>c. case c of
       None \<Rightarrow> State_Monad.return False
     | Some c \<Rightarrow>
         if pc_destNodeID c \<noteq> fromNodeID \<or> pc_result c \<noteq> None then State_Monad.return False
         else State_Monad.bind
           (poke (\<lambda>w. w\<lparr>connectivity_checks := AList.update checkID (c\<lparr>pc_result := Some res\<rparr>) (connectivity_checks w)\<rparr>))
           (\<lambda>_. State_Monad.return True))"

definition GetConnectivityResult :: "string \<Rightarrow> (connectivity_result option \<times> bool) io" where
  "GetConnectivityResult checkID =
     peek (\<lambda>w. case map_of (connectivity_checks w) checkID of None \<Rightarrow> (None, False) | Some c \<Rightarrow> (pc_result c, True))"

definition CheckConnectivity :: "actor \<Rightarrow> string \<Rightarrow> string \<Rightarrow> string \<Rightarrow> string res io" where
  "CheckConnectivity a destNodeID sourceNodeID sourceInterface =
     or_return (canManageModelStore a) (\<lambda>e. e) (\<lambda>permitted.
       if \<not> permitted then fail ErrNotPermitted
       else if destNodeID = [] \<or> sourceNodeID = [] \<or> destNodeID = sourceNodeID
       then fail (Detail ErrInvalidTransfer ''a destination and a different source node are required'')
       else State_Monad.bind (Connected destNodeID) (\<lambda>up.
         if \<not> up then fail ErrDestNodeOffline
         else
           or_return (ResolveTransferSource sourceNodeID sourceInterface)
             (\<lambda>e. if errors_is e ErrNoInterfaces \<or> errors_is e ErrUnknownInterface then Detail ErrPeerNotReady (error_text e)
                  else Wrap ''resolve source interface'' e) (\<lambda>src.
           or_return (query (\<lambda>w. Inr (hex_encode (take 16 (entropy w (tick w)))))) (Wrap ''generate check id'') (\<lambda>checkID.
           State_Monad.bind (checks_add checkID destNodeID) (\<lambda>_.
           or_return
             (Send destNodeID (NewEnvelope TypeCheckPeerConnectivity []
                (encode_CheckPeerConnectivity checkID (ts_IPAddress src) peerSSHPort)))
             (Wrap (''dispatch check_peer_connectivity to node '' @ destNodeID)) (\<lambda>_. ok checkID))))))"

definition HandleConnectivityCheckResult :: "string \<Rightarrow> envelope \<Rightarrow> unit io" where
  "HandleConnectivityCheckResult nodeID env =
     (if env_Type env \<noteq> TypeConnectivityCheckResult then State_Monad.return ()
      else case decode_ConnectivityCheckResult env of
        Inl _ \<Rightarrow> State_Monad.return ()
      | Inr r \<Rightarrow>
          State_Monad.bind
            (checks_complete (cc_CheckID r) nodeID
               \<lparr>cr_Reachable = cc_Reachable r, cr_LatencyMs = cc_LatencyMs r, cr_Reason = boundedReason (cc_Reason r)\<rparr>)
            (\<lambda>_. State_Monad.return ()))"

end
