(* ===== verification/Filepath.thy ===== *)
theory Filepath
  imports Schedule
begin

text \<open>
  The paths of a node's model store (agent/modelpath/modelpath.go), with the functions of Go's
  \<^verbatim>\<open>path/filepath\<close> that it uses, on Unix. The result: whatever reference arrives over the wire, a
  resolved directory lies strictly inside the store.
\<close>

section \<open>filepath\<close>

definition IsAbs :: "string \<Rightarrow> bool" where
  "IsAbs p \<longleftrightarrow> p \<noteq> [] \<and> hd p = CHR ''/''"

definition clean_step :: "bool \<Rightarrow> string list \<Rightarrow> string \<Rightarrow> string list" where
  "clean_step rooted out e =
     (if e = [] \<or> e = ''.'' then out
      else if e = ''..'' then
        if out \<noteq> [] \<and> last out \<noteq> ''..'' then butlast out else if rooted then out else out @ [''..'']
      else out @ [e])"

definition elements :: "string \<Rightarrow> string list" where
  "elements p = foldl (clean_step (IsAbs p)) [] (split_on (CHR ''/'') p)"

definition path_of :: "bool \<Rightarrow> string list \<Rightarrow> string" where
  "path_of rooted es = (if rooted then ''/'' @ join ''/'' es else if es = [] then ''.'' else join ''/'' es)"

definition Clean :: "string \<Rightarrow> string" where
  "Clean p = path_of (IsAbs p) (elements p)"

text \<open>\<^verbatim>\<open>filepath.Join\<close> of two elements that are not empty.\<close>

definition path_Join :: "string \<Rightarrow> string \<Rightarrow> string" where
  "path_Join a b = Clean (a @ ''/'' @ b)"

fun strip_common :: "'a list \<Rightarrow> 'a list \<Rightarrow> 'a list \<times> 'a list" where
  "strip_common (x # xs) (y # ys) = (if x = y then strip_common xs ys else (x # xs, y # ys))"
| "strip_common xs ys = (xs, ys)"

definition Rel :: "string \<Rightarrow> string \<Rightarrow> string res" where
  "Rel base targ =
     (if Clean targ = Clean base then Inr ''.''
      else if IsAbs base \<noteq> IsAbs targ then Inl (ErrText ''Rel: can't make targ relative to base'')
      else case strip_common (elements base) (elements targ) of
        ([], rest) \<Rightarrow> Inr (join ''/'' rest)
      | (b # bs, rest) \<Rightarrow>
          if b = ''..'' \<and> rest \<noteq> [] then Inl (ErrText ''Rel: can't make targ relative to base'')
          else Inr (join ''/'' (replicate (length (b # bs)) ''..'' @ rest)))"

section \<open>modelpath\<close>

definition has_prefix :: "string \<Rightarrow> string \<Rightarrow> bool" where
  "has_prefix p s \<longleftrightarrow> take (length p) s = p"

definition outside_storage :: "string \<Rightarrow> error" where
  "outside_storage modelRef = ErrText (''model_ref '' @ [CHR 0x22] @ modelRef @ [CHR 0x22] @ '' resolves outside model storage'')"

definition Resolve :: "string \<Rightarrow> string \<Rightarrow> string res" where
  "Resolve root0 modelRef =
     (if modelRef = [] then Inl (ErrText ''empty model_ref'')
      else if IsAbs modelRef \<or> has_prefix ''/'' modelRef then Inl (outside_storage modelRef)
      else
        let root = Clean root0; dir = path_Join root modelRef in
        case Rel root dir of
          Inl _ \<Rightarrow> Inl (outside_storage modelRef)
        | Inr rel \<Rightarrow>
            if rel = ''.'' \<or> rel = ''..'' \<or> has_prefix ''../'' rel then Inl (outside_storage modelRef) else Inr dir)"

section \<open>Clean paths\<close>

definition name_ok :: "string \<Rightarrow> bool" where
  "name_ok e \<longleftrightarrow> e \<noteq> [] \<and> CHR ''/'' \<notin> set e \<and> e \<noteq> ''.'' \<and> e \<noteq> ''..''"

text \<open>The elements of a clean path: names, after any number of \<^verbatim>\<open>..\<close> in a relative path.\<close>

fun clean_elements :: "bool \<Rightarrow> string list \<Rightarrow> bool" where
  "clean_elements rooted [] = True"
| "clean_elements rooted (e # es) = (if e = ''..'' then \<not> rooted \<and> clean_elements rooted es else list_all name_ok (e # es))"

lemma split_on_chars: "e \<in> set (split_on c s) \<Longrightarrow> c \<notin> set e"
  by (induction s arbitrary: e) (auto split: if_splits list.splits)

lemma split_on_glue: "split_on c (s @ c # t) = split_on c s @ split_on c t"
  by (induction s) (auto split: list.splits)

lemma clean_elements_names: "list_all name_ok es \<Longrightarrow> clean_elements rooted es"
  by (cases es) (auto simp: name_ok_def)

lemma clean_elements_snoc:
  "clean_elements rooted es \<Longrightarrow> name_ok e \<Longrightarrow> clean_elements rooted (es @ [e])"
  by (induction es) (auto simp: name_ok_def)

lemma clean_elements_butlast: "clean_elements rooted es \<Longrightarrow> clean_elements rooted (butlast es)"
  by (induction es) (auto simp: clean_elements_names dest: in_set_butlastD simp: list_all_iff)

lemma clean_elements_up: "clean_elements False es \<Longrightarrow> es = [] \<or> last es = ''..'' \<Longrightarrow> clean_elements False (es @ [''..''])"
proof (induction es)
  case (Cons e es)
  show ?case
  proof (cases "e = ''..''")
    case True
    with Cons show ?thesis by (cases es) auto
  next
    case False
    with Cons.prems have "list_all name_ok (e # es)" by simp
    moreover have "last (e # es) = ''..''" using Cons.prems by simp
    ultimately show ?thesis using last_in_set [of "e # es"] by (auto simp: list_all_iff name_ok_def simp del: last.simps)
  qed
qed simp

lemma clean_step_clean:
  "clean_elements rooted out \<Longrightarrow> CHR ''/'' \<notin> set e \<Longrightarrow> clean_elements rooted (clean_step rooted out e)"
  using clean_elements_snoc [of rooted out e] clean_elements_butlast [of rooted out] clean_elements_up [of out]
  by (auto simp: clean_step_def name_ok_def)

lemma foldl_clean:
  "clean_elements rooted out \<Longrightarrow> (\<And>e. e \<in> set es \<Longrightarrow> CHR ''/'' \<notin> set e) \<Longrightarrow> clean_elements rooted (foldl (clean_step rooted) out es)"
  by (induction es arbitrary: out) (auto simp: clean_step_clean)

lemma elements_clean: "clean_elements (IsAbs p) (elements p)"
  unfolding elements_def by (rule foldl_clean) (auto dest: split_on_chars)

lemma foldl_step_id: "clean_elements rooted (out @ es) \<Longrightarrow> foldl (clean_step rooted) out es = out @ es"
proof (induction es arbitrary: out)
  case (Cons e es)
  have "clean_step rooted out e = out @ [e]"
    using Cons.prems
  proof (induction out)
    case Nil
    then show ?case by (auto simp: clean_step_def name_ok_def)
  next
    case (Cons x out)
    then show ?case by (auto simp: clean_step_def name_ok_def split: if_splits)
  qed
  then show ?case using Cons by simp
qed simp


lemma join_Cons: "es \<noteq> [] \<Longrightarrow> join sep (e # es) = e @ sep @ join sep es"
  by (cases es) auto

lemma join_append: "es \<noteq> [] \<Longrightarrow> fs \<noteq> [] \<Longrightarrow> join sep (es @ fs) = join sep es @ sep @ join sep fs"
proof (induction es)
  case (Cons e es)
  then show ?case by (cases "es = []") (auto simp: join_Cons)
qed simp

lemma split_join_path:
  "es \<noteq> [] \<Longrightarrow> (\<And>e. e \<in> set es \<Longrightarrow> CHR ''/'' \<notin> set e) \<Longrightarrow> split_on (CHR ''/'') (join ''/'' es) = es"
proof (induction es)
  case (Cons e es)
  then show ?case
    by (cases "es = []") (auto simp: split_on_absent join_Cons split_on_append)
qed simp

lemma clean_elements_chars: "clean_elements rooted es \<Longrightarrow> e \<in> set es \<Longrightarrow> e \<noteq> [] \<and> CHR ''/'' \<notin> set e"
  by (induction es) (auto simp: name_ok_def list_all_iff split: if_splits)

lemma join_first: "es \<noteq> [] \<Longrightarrow> hd es \<noteq> [] \<Longrightarrow> join sep es \<noteq> [] \<and> hd (join sep es) = hd (hd es)"
  by (cases es; cases "tl es") auto

text \<open>A clean path has its own elements.\<close>

lemma elements_path_of:
  assumes "clean_elements rooted es"
  shows "IsAbs (path_of rooted es) = rooted" "elements (path_of rooted es) = es"
proof -
  have chars: "e \<in> set es \<Longrightarrow> e \<noteq> [] \<and> CHR ''/'' \<notin> set e" for e using clean_elements_chars [OF assms] by blast
  have first: "es \<noteq> [] \<Longrightarrow> hd (join ''/'' es) \<noteq> CHR ''/'' \<and> join ''/'' es \<noteq> []"
    using chars [of "hd es"] join_first [of es "''/''"] hd_in_set [of es] hd_in_set [of "hd es"] by metis
  show abs: "IsAbs (path_of rooted es) = rooted" using first by (auto simp: path_of_def IsAbs_def)
  have id: "foldl (clean_step rooted) [] es = es" using foldl_step_id [of rooted "[]" es] assms by simp
  show "elements (path_of rooted es) = es"
  proof (cases "es = []")
    case True
    then show ?thesis by (simp add: path_of_def elements_def IsAbs_def clean_step_def)
  next
    case False
    have "split_on (CHR ''/'') (join ''/'' es) = es" using split_join_path [OF False] chars by blast
    then have "split_on (CHR ''/'') (path_of rooted es) = (if rooted then [] # es else es)" using False by (simp add: path_of_def)
    then show ?thesis unfolding elements_def abs using id by (cases rooted) (simp_all add: clean_step_def)
  qed
qed

lemma Clean_elements: "IsAbs (Clean p) = IsAbs p" "elements (Clean p) = elements p"
  unfolding Clean_def using elements_path_of [OF elements_clean [of p]] by simp_all

lemma Clean_same: "IsAbs p = IsAbs q \<Longrightarrow> elements p = elements q \<Longrightarrow> Clean p = Clean q"
  by (simp add: Clean_def)

text \<open>Joining continues the cleaning of the first path with the elements of the second.\<close>

lemma IsAbs_append: "p \<noteq> [] \<Longrightarrow> IsAbs (p @ q) = IsAbs p"
  by (simp add: IsAbs_def)

lemma Clean_nonempty: "Clean p \<noteq> []"
  using join_first [of "elements p" "''/''"] clean_elements_chars [OF elements_clean, of "hd (elements p)" p]
  by (auto simp: Clean_def path_of_def)

lemma elements_Join:
  assumes "p \<noteq> []"
  shows "IsAbs (path_Join p q) = IsAbs p" "elements (path_Join p q) = foldl (clean_step (IsAbs p)) (elements p) (split_on (CHR ''/'') q)"
proof -
  show "IsAbs (path_Join p q) = IsAbs p" using assms by (simp add: path_Join_def Clean_elements IsAbs_append)
  have "elements (path_Join p q) = elements (p @ CHR ''/'' # q)" by (simp add: path_Join_def Clean_elements)
  also have "\<dots> = foldl (clean_step (IsAbs p)) (elements p) (split_on (CHR ''/'') q)"
    using assms by (simp add: elements_def IsAbs_append split_on_glue)
  finally show "elements (path_Join p q) = foldl (clean_step (IsAbs p)) (elements p) (split_on (CHR ''/'') q)" .
qed

lemma strip_common_Nil: "strip_common xs ys = ([], rest) \<Longrightarrow> ys = xs @ rest"
  by (induction xs ys rule: strip_common.induct) (auto split: if_splits)

text \<open>In a clean path no \<^verbatim>\<open>..\<close> follows a name.\<close>

lemma clean_rest_names:
  "clean_elements rooted (es @ fs) \<Longrightarrow> fs \<noteq> [] \<Longrightarrow> hd fs \<noteq> ''..'' \<Longrightarrow> list_all name_ok fs"
proof (induction es)
  case Nil
  then show ?case by (cases fs) auto
qed (auto split: if_splits)

lemma has_prefix_append: "has_prefix p (p @ s)" by (simp add: has_prefix_def)

text \<open>
  C37. A reference that resolves names a directory strictly inside the store: its clean path is the store's own
  followed by at least one name, and none of these names is empty, \<^verbatim>\<open>.\<close> or \<^verbatim>\<open>..\<close>, or
  holds a slash. So nothing that is removed, served or written under a resolved directory lies outside the store.
\<close>

theorem resolved_inside:
  assumes "Resolve root ref = Inr dir"
  shows "\<exists>names. names \<noteq> [] \<and> list_all name_ok names \<and> dir = path_of (IsAbs root) (elements root @ names)"
proof -
  let ?r = "Clean root"
  let ?dir = "path_Join ?r ref"
  obtain rel where dir: "dir = ?dir" and rel: "Rel ?r ?dir = Inr rel" "rel \<noteq> ''.''" "rel \<noteq> ''..''" "\<not> has_prefix ''../'' rel"
    using assms by (auto simp: Resolve_def Let_def split: if_splits sum.splits)
  have abs: "IsAbs ?dir = IsAbs root" using elements_Join(1) [OF Clean_nonempty] by (simp add: Clean_elements)
  have same: "Clean ?dir = ?dir"
    unfolding path_Join_def by (simp add: Clean_def [of "Clean p" for p] Clean_elements) (simp add: Clean_def)
  obtain names where names: "elements ?dir = elements root @ names" "names \<noteq> []" "hd names \<noteq> ''..''"
  proof (cases "strip_common (elements root) (elements ?dir)")
    case (Pair left rest)
    have ne: "Clean ?dir \<noteq> Clean ?r" using rel by (auto simp: Rel_def)
    show thesis
    proof (cases left)
      case Nil
      have "elements ?dir = elements root @ rest" using strip_common_Nil Pair Nil by blast
      moreover have "rest \<noteq> []" using ne calculation abs Clean_same [of ?dir ?r] Clean_elements [of root] by auto
      moreover have "rel = join ''/'' rest" using rel(1) ne Pair Nil abs by (simp add: Rel_def Clean_elements)
      then have "hd rest \<noteq> ''..''" using rel(3,4) \<open>rest \<noteq> []\<close>
        by (cases rest; cases "tl rest") (auto simp: has_prefix_def)
      ultimately show thesis by (rule that)
    next
      case (Cons b bs)
      then have "rel = join ''/'' (replicate (length (b # bs)) ''..'' @ rest)"
        using rel(1) ne Pair abs by (simp add: Rel_def Clean_elements split: if_splits)
      then have "rel = ''..'' \<or> has_prefix ''../'' rel"
        by (cases "replicate (length bs) ''..'' @ rest") (auto simp: has_prefix_def)
      then show thesis using rel by blast
    qed
  qed
  have "clean_elements (IsAbs ?dir) (elements root @ names)" using elements_clean [of ?dir] names by simp
  then have "list_all name_ok names" using clean_rest_names names(2,3) by blast
  moreover have "?dir = path_of (IsAbs root) (elements root @ names)" 
    using trans [OF same [symmetric] Clean_def [of ?dir]] unfolding names(1) abs .
  ultimately show ?thesis using dir names(2) by blast
qed

theorem resolved_inside_witness:
  "Resolve ''/models'' ''org/../x/./m'' = Inr ''/models/x/m''
   \<and> (\<exists>names. names \<noteq> [] \<and> list_all name_ok names \<and> ''/models/x/m'' = path_of True (elements ''/models'' @ names))
   \<and> Resolve ''/models'' ''a/../../etc'' = Inl (outside_storage ''a/../../etc'')"
proof -
  have r: "Resolve ''/models'' ''org/../x/./m'' = Inr ''/models/x/m''" by code_simp
  moreover have "Resolve ''/models'' ''a/../../etc'' = Inl (outside_storage ''a/../../etc'')" by code_simp
  ultimately show ?thesis using resolved_inside [OF r] by (simp add: IsAbs_def)
qed

end
