(* ===== verification/Model_Store.thy ===== *)
theory Model_Store
  imports Filepath
begin

text \<open>
  What an agent does with its model store: the scan for model copies (agent/modelscan/modelscan.go,
  agent/connection/scanmodels.go) and the removal of one (agent/connection/deletemodel.go). The store is a tree of
  directories and regular files. Links, which the scan never follows, are not part of it.
\<close>

section \<open>The store\<close>

text \<open>
  \<open>Dir r es\<close> is a directory whose entries are \<open>es\<close>, in the order of \<^verbatim>\<open>os.ReadDir\<close>; it can be listed when
  \<open>r\<close> holds. \<open>Reg n\<close> is a regular file of \<open>n\<close> bytes.
\<close>

datatype fsnode = Reg int | Dir bool "(string \<times> fsnode) list"

definition is_reg :: "fsnode \<Rightarrow> bool" where
  "is_reg t \<longleftrightarrow> (case t of Reg _ \<Rightarrow> True | Dir _ _ \<Rightarrow> False)"

fun lookup :: "fsnode \<Rightarrow> string list \<Rightarrow> fsnode option" where
  "lookup t [] = Some t"
| "lookup (Dir r es) (n # ns) = (case map_of es n of None \<Rightarrow> None | Some c \<Rightarrow> lookup c ns)"
| "lookup (Reg k) (n # ns) = None"

text \<open>The tree after the node at a path is replaced, or removed.\<close>

fun put_at :: "string list \<Rightarrow> fsnode option \<Rightarrow> fsnode \<Rightarrow> fsnode" where
  "put_at [] x t = (case x of Some u \<Rightarrow> u | None \<Rightarrow> t)"
| "put_at (n # ns) x (Reg k) = Reg k"
| "put_at (n # ns) x (Dir r es) =
     (if ns = [] \<and> x = None then Dir r (filter (\<lambda>e. fst e \<noteq> n) es)
      else Dir r (map (\<lambda>e. if fst e = n then (fst e, put_at ns x (snd e)) else e) es))"

text \<open>
  \<^verbatim>\<open>os.RemoveAll\<close> removes what it can. The paths that cannot be removed are given; a directory that cannot be listed,
  or that still holds something, stays too.
\<close>

fun survivors :: "(string list \<Rightarrow> bool) \<Rightarrow> string list \<Rightarrow> fsnode \<Rightarrow> fsnode option"
  and surviving :: "(string list \<Rightarrow> bool) \<Rightarrow> string list \<Rightarrow> (string \<times> fsnode) list \<Rightarrow> (string \<times> fsnode) list" where
  "survivors stuck p (Reg k) = (if stuck p then Some (Reg k) else None)"
| "survivors stuck p (Dir r es) =
     (if \<not> r \<and> es \<noteq> [] then Some (Dir r es)
      else let rest = surviving stuck p es in if rest = [] \<and> \<not> stuck p then None else Some (Dir r rest))"
| "surviving stuck p [] = []"
| "surviving stuck p ((n, c) # es) =
     (case survivors stuck (p @ [n]) c of None \<Rightarrow> surviving stuck p es | Some d \<Rightarrow> (n, d) # surviving stuck p es)"

definition RemoveAll :: "(string list \<Rightarrow> bool) \<Rightarrow> string list \<Rightarrow> fsnode \<Rightarrow> bool \<times> fsnode" where
  "RemoveAll stuck p t =
     (case lookup t p of
        None \<Rightarrow> (True, t)
      | Some node \<Rightarrow> (survivors stuck p node = None, put_at p (survivors stuck p node) t))"

section \<open>Names\<close>

definition has_suffix :: "string \<Rightarrow> string \<Rightarrow> bool" where
  "has_suffix x s \<longleftrightarrow> length x \<le> length s \<and> drop (length s - length x) s = x"

definition trim_suffix :: "string \<Rightarrow> string \<Rightarrow> string" where
  "trim_suffix x s = (if has_suffix x s then take (length s - length x) s else s)"

fun contains :: "string \<Rightarrow> string \<Rightarrow> bool" where
  "contains q [] \<longleftrightarrow> q = []"
| "contains q (c # s) \<longleftrightarrow> has_prefix q (c # s) \<or> contains q s"

text \<open>\<^verbatim>\<open>strings.ToLower\<close> of ASCII text.\<close>

definition ToLower :: "string \<Rightarrow> string" where
  "ToLower s = map fold_char s"

definition hidden :: "string \<Rightarrow> bool" where
  "hidden n \<longleftrightarrow> has_prefix ''.'' n"

definition alnum :: "char \<Rightarrow> bool" where
  "alnum c \<longleftrightarrow> is_digit c \<or> CHR ''A'' \<le> c \<and> c \<le> CHR ''Z'' \<or> CHR ''a'' \<le> c \<and> c \<le> CHR ''z''"

definition no_newline :: "string \<Rightarrow> bool" where
  "no_newline s \<longleftrightarrow> CHR 0x0A \<notin> set s"

text \<open>\<^verbatim>\<open>^\.(.+\.(?:gguf|safetensors))\.[A-Za-z0-9]{6}$\<close>\<close>

definition rsyncTempRe :: "string \<Rightarrow> bool" where
  "rsyncTempRe s \<longleftrightarrow>
     hidden s \<and> length s \<ge> 8 \<and> s ! (length s - 7) = CHR ''.'' \<and> list_all alnum (drop (length s - 6) s) \<and>
     (let mid = drop 1 (take (length s - 7) s) in
      no_newline mid \<and> (has_suffix ''.gguf'' mid \<and> length mid > 5 \<or> has_suffix ''.safetensors'' mid \<and> length mid > 12))"

text \<open>\<^verbatim>\<open>^(.+)-(\d{5})-of-(\d{5})\.gguf$\<close>: the base name and the index.\<close>

definition shardRe :: "string \<Rightarrow> (string \<times> string) option" where
  "shardRe s =
     (let k = length s - 20; base = take k s; rest = drop k s in
      if length s > 20 \<and> no_newline base \<and> take 1 rest = ''-'' \<and> list_all is_digit (take 5 (drop 1 rest)) \<and>
         take 4 (drop 6 rest) = ''-of-'' \<and> list_all is_digit (take 5 (drop 10 rest)) \<and> drop 15 rest = ''.gguf''
      then Some (base, take 5 (drop 1 rest)) else None)"

text \<open>
  \<^verbatim>\<open>(?i)(?:^|[-_.])((?:IQ|Q)\d(?:_[A-Z0-9]+)*|BF16|FP16|F16|F32|MXFP4|NVFP4|FP8)(?:$|[-_.])\<close> on names of ASCII
  characters: at the first place where it matches, the first alternative that does, the repetition as long as
  possible.
\<close>

definition sep :: "char \<Rightarrow> bool" where
  "sep c \<longleftrightarrow> c = CHR ''-'' \<or> c = CHR ''_'' \<or> c = CHR ''.''"

definition at_end :: "string \<Rightarrow> bool" where
  "at_end s \<longleftrightarrow> s = [] \<or> sep (hd s)"

definition fold_prefix :: "string \<Rightarrow> string \<Rightarrow> bool" where
  "fold_prefix lit s \<longleftrightarrow> length lit \<le> length s \<and> map fold_char (take (length lit) s) = map fold_char lit"

text \<open>The lengths that \<^verbatim>\<open>(?:_[A-Z0-9]+)*\<close> can take, the longest first.\<close>

fun group_lengths :: "nat \<Rightarrow> string \<Rightarrow> nat list" where
  "group_lengths used [] = [used]"
| "group_lengths used (c # s) =
     (if c = CHR ''_'' \<and> s \<noteq> [] \<and> alnum (hd s) then group_lengths (used + 2) (tl s) @ [used]
      else if used > 0 \<and> alnum c then group_lengths (used + 1) s @ [used]
      else [used])"

definition quant_at :: "string \<Rightarrow> string option" where
  "quant_at s =
     (let q = (if fold_prefix ''IQ'' s then 2 else if fold_prefix ''Q'' s then 1 else 0);
          lens = (if q > 0 \<and> drop q s \<noteq> [] \<and> is_digit (s ! q) then map (\<lambda>k. q + 1 + k) (group_lengths 0 (drop (q + 1) s)) else []);
          fixed = map length (filter (\<lambda>lit. fold_prefix lit s) [''BF16'', ''FP16'', ''F16'', ''F32'', ''MXFP4'', ''NVFP4'', ''FP8''])
      in map_option (\<lambda>k. take k s) (find (\<lambda>k. at_end (drop k s)) (lens @ fixed)))"

fun quant_after :: "string \<Rightarrow> string option" where
  "quant_after [] = None"
| "quant_after (c # s) = (case (if sep c then quant_at s else None) of Some q \<Rightarrow> Some q | None \<Rightarrow> quant_after s)"

definition UnknownQuantization :: string where "UnknownQuantization = ''UNKNOWN''"

definition quantizationFromName :: "string \<Rightarrow> string" where
  "quantizationFromName base =
     (case quant_at base of
        Some q \<Rightarrow> q
      | None \<Rightarrow> (case quant_after base of Some q \<Rightarrow> q | None \<Rightarrow> UnknownQuantization))"


section \<open>Scanning\<close>

definition MaxCandidates :: nat where "MaxCandidates = 500"
definition maxDepth :: nat where "maxDepth = 6"

record scanner =
  sn_out :: "scanned_model list"
  sn_truncated :: bool

definition full :: "scanner \<Rightarrow> bool" where
  "full s \<longleftrightarrow> length (sn_out s) \<ge> MaxCandidates"

text \<open>\<^verbatim>\<open>if s.full() { return }\<close>, which notes that the listing is cut off.\<close>

definition unless_full :: "(scanner \<Rightarrow> scanner) \<Rightarrow> scanner \<Rightarrow> scanner" where
  "unless_full f s = (if full s then s\<lparr>sn_truncated := True\<rparr> else f s)"

definition weights :: "string \<times> fsnode \<Rightarrow> bool" where
  "weights e \<longleftrightarrow> is_reg (snd e) \<and> \<not> hidden (fst e) \<and> (has_suffix ''.gguf'' (fst e) \<or> has_suffix ''.safetensors'' (fst e))"

definition hasWeights :: "(string \<times> fsnode) list \<Rightarrow> bool" where
  "hasWeights es = list_ex weights es"

text \<open>\<^verbatim>\<open>utf8.ValidString\<close> and \<^verbatim>\<open>unicode.IsControl\<close>. An encoded U+FFFD is three bytes long.\<close>

function ValidString :: "string \<Rightarrow> bool" where
  "ValidString s = (if s = [] then True else case decode_rune s of (r, n) \<Rightarrow> if r = 0xFFFD \<and> n \<noteq> 3 then False else ValidString (drop n s))"
  by pat_completeness auto
termination
proof (relation "measure length", simp)
  fix s :: string and r n
  assume "s \<noteq> []" and "(r, n) = decode_rune s"
  then show "(drop n s, s) \<in> measure length"
    using decode_rune_width [of s] by (metis (no_types) diff_less in_measure length_drop length_greater_0_conv snd_conv)
qed

declare ValidString.simps [simp del]

definition IsControl :: "int \<Rightarrow> bool" where
  "IsControl r \<longleftrightarrow> 0 \<le> r \<and> r < 0x20 \<or> 0x7F \<le> r \<and> r < 0xA0"

definition validRef :: "string \<Rightarrow> string \<Rightarrow> bool" where
  "validRef root rel \<longleftrightarrow>
     ValidString rel \<and> \<not> list_ex IsControl (runes rel) \<and> Resolve root rel = Inr (path_Join root rel)"

text \<open>The gguf files of a directory by base name: the total size and the representative file.\<close>

record gguf_group =
  gg_key :: string
  gg_size :: int
  gg_first :: string

definition gguf_key :: "string \<Rightarrow> string" where
  "gguf_key n = (case shardRe n of Some (base, _) \<Rightarrow> base | None \<Rightarrow> trim_suffix ''.gguf'' n)"

definition add_gguf :: "string \<Rightarrow> int \<Rightarrow> gguf_group list \<Rightarrow> gguf_group list" where
  "add_gguf n k gs =
     (let key = gguf_key n; first = (case shardRe n of Some (_, i) \<Rightarrow> i = ''00001'' | None \<Rightarrow> False) in
      if key \<notin> gg_key ` set gs then gs @ [\<lparr>gg_key = key, gg_size = k, gg_first = n\<rparr>]
      else map (\<lambda>g. if gg_key g = key then g\<lparr>gg_size := gg_size g + k, gg_first := (if first then n else gg_first g)\<rparr> else g) gs)"

fun dir_contents :: "(string \<times> fsnode) list \<Rightarrow> bool \<times> bool \<times> gguf_group list \<Rightarrow> bool \<times> bool \<times> gguf_group list" where
  "dir_contents [] acc = acc"
| "dir_contents ((n, Dir _ _) # es) acc = dir_contents es acc"
| "dir_contents ((n, Reg k) # es) (hasST, incomplete, gs) =
     (if rsyncTempRe n then dir_contents es (hasST, True, gs)
      else if hidden n then dir_contents es (hasST, incomplete, gs)
      else if has_suffix ''.safetensors'' n then dir_contents es (True, incomplete, gs)
      else if has_suffix ''.gguf'' n then dir_contents es (hasST, incomplete, add_gguf n k gs)
      else dir_contents es (hasST, incomplete, gs))"

fun wholeRepoSize :: "fsnode \<Rightarrow> int" and repo_sizes :: "(string \<times> fsnode) list \<Rightarrow> int" where
  "wholeRepoSize (Reg k) = k"
| "wholeRepoSize (Dir r es) = (if r then repo_sizes es else 0)"
| "repo_sizes [] = 0"
| "repo_sizes ((n, c) # es) =
     (case c of
        Reg k \<Rightarrow> (if has_suffix ''.gguf'' n \<or> rsyncTempRe n then 0 else k)
      | Dir _ _ \<Rightarrow> wholeRepoSize c) + repo_sizes es"

fun add_groups :: "string \<Rightarrow> bool \<Rightarrow> gguf_group list \<Rightarrow> scanner \<Rightarrow> scanner" where
  "add_groups rel incomplete [] s = s"
| "add_groups rel incomplete (g # gs) s =
     unless_full (\<lambda>s. add_groups rel incomplete gs (s\<lparr>sn_out := sn_out s @
       [\<lparr>sm_ModelRef = rel, sm_Quantization = quantizationFromName (gg_key g), sm_Format = ''gguf'', sm_SizeBytes = gg_size g,
         sm_FileName = gg_first g, sm_PossiblyIncomplete = incomplete\<rparr>]\<rparr>)) s"

definition addModelDir :: "string \<Rightarrow> string \<Rightarrow> (string \<times> fsnode) list \<Rightarrow> scanner \<Rightarrow> scanner" where
  "addModelDir root rel es s =
     (if \<not> validRef root rel then s
      else case dir_contents es (False, False, []) of
        (hasST, incomplete, gs) \<Rightarrow>
          add_groups rel incomplete (sort_key gg_key gs)
            (if hasST then
               unless_full (\<lambda>s. s\<lparr>sn_out := sn_out s @
                 [\<lparr>sm_ModelRef = rel, sm_Quantization = [], sm_Format = ''safetensors'', sm_SizeBytes = wholeRepoSize (Dir True es),
                   sm_FileName = [], sm_PossiblyIncomplete = incomplete\<rparr>]\<rparr>) s
             else s))"

text \<open>\<open>p\<close> are the names on the way from the root of the store.\<close>

fun walk :: "string \<Rightarrow> string list \<Rightarrow> nat \<Rightarrow> fsnode \<Rightarrow> scanner \<Rightarrow> scanner"
  and walk_entries :: "string \<Rightarrow> string list \<Rightarrow> nat \<Rightarrow> (string \<times> fsnode) list \<Rightarrow> scanner \<Rightarrow> scanner" where
  "walk root p depth (Reg k) s = s"
| "walk root p depth (Dir r es) s =
     (if \<not> r then s
      else if p \<noteq> [] \<and> hasWeights es then addModelDir root (join ''/'' p) es s
      else if depth \<ge> maxDepth then s
      else walk_entries root p depth es s)"
| "walk_entries root p depth [] s = s"
| "walk_entries root p depth ((n, c) # es) s =
     (if full s then s\<lparr>sn_truncated := True\<rparr>
      else walk_entries root p depth es (if is_reg c \<or> hidden n then s else walk root (p @ [n]) (depth + 1) c s))"

definition Scan :: "string \<Rightarrow> fsnode option \<Rightarrow> (scanned_model list \<times> bool) res" where
  "Scan root store =
     (case store of
        None \<Rightarrow> Inl (ErrText ''model storage: no such directory'')
      | Some (Reg _) \<Rightarrow> Inl (ErrText ''model storage is not a directory'')
      | Some (Dir r es) \<Rightarrow>
          if \<not> r then Inl (ErrText ''read model storage: permission denied'')
          else
            let s = walk (Clean root) [] 0 (Dir r es) \<lparr>sn_out = [], sn_truncated = False\<rparr> in
            Inr (sort_key sm_ModelRef (sort_key sm_Format (sort_key sm_Quantization (sn_out s))), sn_truncated s))"

section \<open>Glob\<close>

text \<open>
  \<^verbatim>\<open>filepath.Match\<close> on the code points of pattern and name. A malformed pattern matches nothing; the callers drop the
  error.
\<close>

datatype glob_tok = TStar | TAny | TClass bool "(int \<times> int) list" | TLit int

fun get_esc :: "int list \<Rightarrow> (int \<times> int list) option" where
  "get_esc [] = None"
| "get_esc (c # cs) =
     (if c = 0x2D \<or> c = 0x5D then None
      else if c = 0x5C then (case cs of d # (e # ds) \<Rightarrow> Some (d, e # ds) | _ \<Rightarrow> None)
      else if cs = [] then None else Some (c, cs))"

lemma get_esc_shorter: "get_esc cs = Some (c, ds) \<Longrightarrow> length ds < length cs"
  by (cases cs) (auto split: if_splits list.splits)

function class_ranges :: "(int \<times> int) list \<Rightarrow> int list \<Rightarrow> ((int \<times> int) list \<times> int list) option" where
  "class_ranges rs cs =
     (if rs \<noteq> [] \<and> cs \<noteq> [] \<and> hd cs = 0x5D then Some (rs, tl cs)
      else case get_esc cs of
        None \<Rightarrow> None
      | Some (lo, ds) \<Rightarrow>
          if ds \<noteq> [] \<and> hd ds = 0x2D then
            (case get_esc (tl ds) of None \<Rightarrow> None | Some (hi, es) \<Rightarrow> class_ranges (rs @ [(lo, hi)]) es)
          else class_ranges (rs @ [(lo, lo)]) ds)"
  by pat_completeness auto
termination
  by (relation "measure (length \<circ> snd)") (auto dest!: get_esc_shorter)

declare class_ranges.simps [simp del]

lemma class_ranges_shorter: "class_ranges rs cs = Some (qs, ds) \<Longrightarrow> length ds < length cs"
proof (induction rs cs rule: class_ranges.induct)
  case (1 rs cs)
  note run = "1.prems" [unfolded class_ranges.simps [of rs cs]]
  show ?case
  proof (cases "rs \<noteq> [] \<and> cs \<noteq> [] \<and> hd cs = 0x5D")
    case True
    then show ?thesis using run by (cases cs) auto
  next
    case False
    then obtain lo es where lo: "get_esc cs = Some (lo, es)" using run by (auto split: option.splits)
    show ?thesis
    proof (cases "es \<noteq> [] \<and> hd es = 0x2D")
      case True
      then obtain hi fs where hi: "get_esc (tl es) = Some (hi, fs)" using run False lo by (auto split: option.splits)
      have "length ds < length fs" using "1.IH"(1) [OF False lo refl True hi refl] run False lo True hi by simp
      then show ?thesis using get_esc_shorter [OF lo] get_esc_shorter [OF hi] by simp
    next
      case els: False
      have "length ds < length es" using "1.IH"(2) [OF False lo refl els] run False lo els by auto
      then show ?thesis using get_esc_shorter [OF lo] by simp
    qed
  qed
qed

function glob_tokens :: "int list \<Rightarrow> glob_tok list option" where
  "glob_tokens [] = Some []"
| "glob_tokens (c # cs) =
     (if c = 0x2A then map_option ((#) TStar) (glob_tokens cs)
      else if c = 0x3F then map_option ((#) TAny) (glob_tokens cs)
      else if c = 0x5B then
        (let neg = (cs \<noteq> [] \<and> hd cs = 0x5E) in
         case class_ranges [] (if neg then tl cs else cs) of
           None \<Rightarrow> None
         | Some (rs, ds) \<Rightarrow> map_option ((#) (TClass neg rs)) (glob_tokens ds))
      else if c = 0x5C then (case cs of [] \<Rightarrow> None | d # ds \<Rightarrow> map_option ((#) (TLit d)) (glob_tokens ds))
      else map_option ((#) (TLit c)) (glob_tokens cs))"
  by pat_completeness auto
termination
proof (relation "measure length")
  fix c :: int and cs neg ranges rs ds
  assume neg: "neg = (cs \<noteq> [] \<and> hd cs = 0x5E)" and some: "class_ranges [] (if neg then tl cs else cs) = Some ranges" "(rs, ds) = ranges"
  then have "length ds < length (if neg then tl cs else cs)" using class_ranges_shorter by (metis (no_types, lifting))
  then show "(ds, c # cs) \<in> measure length" by (auto split: if_splits)
qed auto

fun tokens_match :: "glob_tok list \<Rightarrow> int list \<Rightarrow> bool" where
  "tokens_match [] xs \<longleftrightarrow> xs = []"
| "tokens_match (TStar # ts) [] \<longleftrightarrow> tokens_match ts []"
| "tokens_match (TStar # ts) (x # xs) \<longleftrightarrow> tokens_match ts (x # xs) \<or> x \<noteq> 0x2F \<and> tokens_match (TStar # ts) xs"
| "tokens_match (t # ts) [] \<longleftrightarrow> False"
| "tokens_match (TAny # ts) (x # xs) \<longleftrightarrow> x \<noteq> 0x2F \<and> tokens_match ts xs"
| "tokens_match (TClass neg rs # ts) (x # xs) \<longleftrightarrow>
     x \<noteq> 0x2F \<and> list_ex (\<lambda>(lo, hi). lo \<le> x \<and> x \<le> hi) rs \<noteq> neg \<and> tokens_match ts xs"
| "tokens_match (TLit c # ts) (x # xs) \<longleftrightarrow> c = x \<and> tokens_match ts xs"

definition path_Match :: "string \<Rightarrow> string \<Rightarrow> bool" where
  "path_Match pat name = (case glob_tokens (runes pat) of None \<Rightarrow> False | Some ts \<Rightarrow> tokens_match ts (runes name))"

definition hasMeta :: "string \<Rightarrow> bool" where
  "hasMeta s \<longleftrightarrow> (\<exists>c \<in> set s. c = CHR ''*'' \<or> c = CHR ''?'' \<or> c = CHR ''['' \<or> c = CHR 0x5C)"

text \<open>
  \<^verbatim>\<open>filepath.Glob\<close> for a pattern below the root of the store, element by element; the root itself has no special
  characters. An element without them is a plain name.
\<close>

fun glob_below :: "string list \<Rightarrow> fsnode \<Rightarrow> string list list" where
  "glob_below [] t = [[]]"
| "glob_below (c # cs) (Reg k) = []"
| "glob_below (c # cs) (Dir r es) =
     (if hasMeta c then
        if r then concat (map (\<lambda>e. if path_Match c (fst e) then map ((#) (fst e)) (glob_below cs (snd e)) else []) es) else []
      else case map_of es c of None \<Rightarrow> [] | Some x \<Rightarrow> map ((#) c) (glob_below cs x))"

definition Glob :: "string list \<Rightarrow> fsnode \<Rightarrow> string list list" where
  "Glob pat t = (if list_all (\<lambda>c. glob_tokens (runes c) \<noteq> None) pat then glob_below pat t else [])"

section \<open>Removing a copy\<close>

text \<open>The names below the root of a path inside of it.\<close>

definition names_below :: "string \<Rightarrow> string \<Rightarrow> string list" where
  "names_below root dir = drop (length (elements root)) (elements dir)"

text \<open>The loop over the directory's entries, with the number of files removed.\<close>

fun remove_matching :: "(string list \<Rightarrow> bool) \<Rightarrow> string list \<Rightarrow> string \<Rightarrow> (string \<times> fsnode) list \<Rightarrow> nat \<Rightarrow> fsnode \<Rightarrow> (error + nat) \<times> fsnode" where
  "remove_matching stuck p q [] removed t = (Inr removed, t)"
| "remove_matching stuck p q ((n, c) # es) removed t =
     (if \<not> is_reg c \<or> \<not> contains q n then remove_matching stuck p q es removed t
      else if stuck (p @ [n]) then (Inl (ErrText (''remove '' @ n)), t)
      else remove_matching stuck p q es (removed + 1) (put_at (p @ [n]) None t))"

definition removeModel :: "(string list \<Rightarrow> bool) \<Rightarrow> string \<Rightarrow> string \<Rightarrow> string \<Rightarrow> string \<Rightarrow> fsnode \<Rightarrow> unit res \<times> fsnode" where
  "removeModel stuck root modelRef quantization format t =
     (case Resolve root modelRef of
        Inl e \<Rightarrow> (Inl e, t)
      | Inr dir \<Rightarrow>
          let p = names_below root dir;
              all = (\<lambda>t. case RemoveAll stuck p t of (done, t') \<Rightarrow> (if done then Inr () else Inl (ErrText (''remove '' @ dir)), t'))
          in case lookup t p of
            None \<Rightarrow> (Inr (), t)
          | Some node \<Rightarrow>
              if format \<noteq> ''gguf'' \<or> quantization = [] \<or> quantization = ''UNKNOWN'' then all t
              else case node of
                Reg _ \<Rightarrow> (Inl (ErrText (''read '' @ dir)), t)
              | Dir r es \<Rightarrow>
                  if \<not> r then (Inl (ErrText (''read '' @ dir)), t)
                  else case remove_matching stuck p quantization es 0 t of
                    (Inl e, t') \<Rightarrow> (Inl e, t')
                  | (Inr removed, t') \<Rightarrow>
                      if removed = 0 then (Inr (), t')
                      else if Glob (p @ [''*.gguf'']) t' = [] then all t' else (Inr (), t'))"

end
