(* ===== verification/Engines.thy ===== *)
theory Engines
  imports World
begin

text \<open>
  Engine adapters (internal/engines): the model id rule, the recognised engine parameters of llama.cpp
  and vLLM, their validation and the launch specification built from them. The lemmas show that
  parameters that were accepted always build a launch, that the served model name is always passed on,
  and where the shared memory size is exact.
\<close>

section \<open>Decimal text\<close>

fun show_nat :: "nat \<Rightarrow> string" where
  "show_nat n = (if n < 10 then [char_of (48 + n)] else show_nat (n div 10) @ [char_of (48 + n mod 10)])"

declare show_nat.simps [simp del]

definition itoa :: "int \<Rightarrow> string" where
  "itoa n = (if n < 0 then ''-'' @ show_nat (nat (- n)) else show_nat (nat n))"

text \<open>
  A \<^verbatim>\<open>float64\<close> parameter is the decimal number its literal denotes, \<open>\<plusminus> man * 10 ^ ex\<close>. Rounding to
  the nearest double is not modelled; it does not change a literal of at most fifteen significant digits.
\<close>

record decimal =
  dneg :: bool
  dman :: nat
  dex :: int

fun nat_of_digits :: "nat \<Rightarrow> string \<Rightarrow> nat" where
  "nat_of_digits acc [] = acc"
| "nat_of_digits acc (c # cs) = nat_of_digits (10 * acc + (of_char c - 48)) cs"

definition parse_exp :: "string \<Rightarrow> int" where
  "parse_exp s =
     (case s of
        [] \<Rightarrow> 0
      | _ # CHR ''-'' # ds \<Rightarrow> - int (nat_of_digits 0 ds)
      | _ # CHR ''+'' # ds \<Rightarrow> int (nat_of_digits 0 ds)
      | _ # ds \<Rightarrow> int (nat_of_digits 0 ds))"

definition parse_decimal :: "string \<Rightarrow> decimal" where
  "parse_decimal s =
     (let neg = (take 1 s = ''-'');
          s1 = (if neg then drop 1 s else s);
          ip = takeWhile is_digit s1;
          s2 = dropWhile is_digit s1;
          fp = (if take 1 s2 = ''.'' then takeWhile is_digit (drop 1 s2) else []);
          s3 = (if take 1 s2 = ''.'' then dropWhile is_digit (drop 1 s2) else s2)
      in \<lparr>dneg = neg, dman = nat_of_digits 0 (ip @ fp), dex = parse_exp s3 - int (length fp)\<rparr>)"

definition conv_float :: "json \<Rightarrow> decimal option" where
  "conv_float v =
     (case v of
        JInt n \<Rightarrow> Some \<lparr>dneg = (n < 0), dman = nat \<bar>n\<bar>, dex = 0\<rparr>
      | JDec s \<Rightarrow> Some (parse_decimal s)
      | _ \<Rightarrow> None)"

definition not_positive :: "decimal \<Rightarrow> bool" where
  "not_positive d \<longleftrightarrow> dneg d \<or> dman d = 0"

definition greater_one :: "decimal \<Rightarrow> bool" where
  "greater_one d \<longleftrightarrow>
     \<not> dneg d \<and> (if dex d \<ge> 0 then dman d * 10 ^ nat (dex d) > 1 else dman d > 10 ^ nat (- dex d))"

text \<open>\<^verbatim>\<open>strconv.FormatFloat(f, 'f', -1, 64)\<close>: no exponent, no trailing zeros.\<close>

definition format_float :: "decimal \<Rightarrow> string" where
  "format_float d =
     (let ds = show_nat (dman d);
          frac = nat (- dex d);
          padded = replicate (Suc frac - length ds) (CHR ''0'') @ ds;
          ip = take (length padded - frac) padded;
          fp = rev (dropWhile (\<lambda>c. c = CHR ''0'') (rev (drop (length padded - frac) padded)))
      in (if dneg d then ''-'' else '''')
         @ (if dex d \<ge> 0 then (if dman d = 0 then ''0'' else ds @ replicate (nat (dex d)) (CHR ''0''))
            else ip @ (if fp = [] then '''' else ''.'' @ fp)))"

section \<open>Model ids\<close>

definition MaxModelIDLength :: nat where "MaxModelIDLength = 64"

definition is_alnum :: "char \<Rightarrow> bool" where
  "is_alnum c \<longleftrightarrow> CHR ''A'' \<le> c \<and> c \<le> CHR ''Z'' \<or> CHR ''a'' \<le> c \<and> c \<le> CHR ''z'' \<or> CHR ''0'' \<le> c \<and> c \<le> CHR ''9''"

definition is_id_char :: "char \<Rightarrow> bool" where
  "is_id_char c \<longleftrightarrow> is_alnum c \<or> c = CHR ''.'' \<or> c = CHR ''_'' \<or> c = CHR '':'' \<or> c = CHR ''-''"

text \<open>The pattern \<^verbatim>\<open>^seg(/seg)*$\<close>: \<open>fresh\<close> holds at the start of a segment.\<close>

fun match_id :: "bool \<Rightarrow> string \<Rightarrow> bool" where
  "match_id fresh [] = (\<not> fresh)"
| "match_id True (c # cs) = (is_alnum c \<and> match_id False cs)"
| "match_id False (c # cs) = (if c = CHR ''/'' then match_id True cs else is_id_char c \<and> match_id False cs)"

definition ValidModelID :: "string \<Rightarrow> bool" where
  "ValidModelID name \<longleftrightarrow> length name \<le> MaxModelIDLength \<and> match_id True name"

definition CheckModelID :: "string \<Rightarrow> unit res" where
  "CheckModelID name =
     (if name = '''' then Inl (ErrText ''name is required'')
      else if length name > MaxModelIDLength then Inl (ErrText ''name is too long'')
      else if ValidModelID name then Inr ()
      else if list_ex (\<lambda>c. c \<in> {CHR '' '', CHR 0x09, CHR 0x0D, CHR 0x0A}) name
        then Inl (ErrText ''name contains whitespace'')
      else if CHR '','' \<in> set name then Inl (ErrText ''name contains a comma'')
      else Inl (ErrText ''name is not a valid model id''))"

section \<open>Launch specifications\<close>

record launch_spec =
  ls_Image :: string
  ls_Args :: "string list"
  ls_ShmSizeBytes :: int
  ls_IPCMode :: string

definition unmarshalParamsObject :: "string list \<Rightarrow> ((string \<times> json) list \<Rightarrow> 'a res) \<Rightarrow> raw_json \<Rightarrow> 'a res" where
  "unmarshalParamsObject names rd params =
     (if params = RawEmpty then Inl (Wrap ''engine_params must not be empty'' ErrInvalidParams)
      else case decode_object names params of
        Inl e \<Rightarrow> Inl (Wrap ''malformed'' ErrInvalidParams)
      | Inr fs \<Rightarrow> (case rd fs of Inl e \<Rightarrow> Inl (Wrap ''malformed'' ErrInvalidParams) | Inr p \<Rightarrow> Inr p))"

definition ptr_field :: "(json \<Rightarrow> 'a option) \<Rightarrow> string \<Rightarrow> (string \<times> json) list \<Rightarrow> ('a option \<Rightarrow> 'b res) \<Rightarrow> 'b res" where
  "ptr_field conv n fs k = (case dec_ptr conv None (field_values n fs) of Inl e \<Rightarrow> Inl e | Inr v \<Rightarrow> k v)"

definition flag :: "string \<Rightarrow> ('a \<Rightarrow> string) \<Rightarrow> 'a option \<Rightarrow> string list" where
  "flag n sh v = (case v of None \<Rightarrow> [] | Some x \<Rightarrow> [n, sh x])"

definition below :: "int \<Rightarrow> int option \<Rightarrow> bool" where
  "below lo v = (case v of None \<Rightarrow> False | Some n \<Rightarrow> n < lo)"

subsection \<open>llama.cpp\<close>

definition llamaCPPImage :: string where "llamaCPPImage = ''ghcr.io/ggml-org/llama.cpp:server''"

record llamacpp_params =
  lp_NGPULayers :: "int option"
  lp_CtxSize :: "int option"
  lp_Threads :: "int option"

definition llamacpp_fields :: "string list" where
  "llamacpp_fields = [''n_gpu_layers'', ''ctx_size'', ''threads'']"

definition read_llamacpp :: "raw_json \<Rightarrow> llamacpp_params res" where
  "read_llamacpp = unmarshalParamsObject llamacpp_fields (\<lambda>fs.
     ptr_field conv_int ''n_gpu_layers'' fs (\<lambda>g.
     ptr_field conv_int ''ctx_size'' fs (\<lambda>c.
     ptr_field conv_int ''threads'' fs (\<lambda>t.
     Inr \<lparr>lp_NGPULayers = g, lp_CtxSize = c, lp_Threads = t\<rparr>))))"

definition llamacpp_ValidateParams :: "raw_json \<Rightarrow> unit res" where
  "llamacpp_ValidateParams params =
     (case read_llamacpp params of
        Inl e \<Rightarrow> Inl e
      | Inr p \<Rightarrow>
          if below 0 (lp_NGPULayers p) then Inl (Wrap ''n_gpu_layers must not be negative'' ErrInvalidParams)
          else if below 1 (lp_CtxSize p) then Inl (Wrap ''ctx_size must be positive'' ErrInvalidParams)
          else if below 1 (lp_Threads p) then Inl (Wrap ''threads must be positive'' ErrInvalidParams)
          else Inr ())"

definition llamacpp_BuildLaunchSpec :: "raw_json \<Rightarrow> string \<Rightarrow> launch_spec res" where
  "llamacpp_BuildLaunchSpec params servedModelName =
     (case read_llamacpp params of
        Inl e \<Rightarrow> Inl e
      | Inr p \<Rightarrow>
          Inr \<lparr>ls_Image = llamaCPPImage,
               ls_Args = flag ''--gpu-layers'' itoa (lp_NGPULayers p)
                 @ flag ''--ctx-size'' itoa (lp_CtxSize p)
                 @ flag ''--threads'' itoa (lp_Threads p)
                 @ (if servedModelName \<noteq> '''' then [''--alias'', servedModelName] else []),
               ls_ShmSizeBytes = 0, ls_IPCMode = ''''\<rparr>)"

subsection \<open>vLLM\<close>

definition vllmImage :: string where "vllmImage = ''vllm/vllm-openai:latest''"

record vllm_params =
  vp_TensorParallelSize :: "int option"
  vp_GPUMemoryUtilization :: "decimal option"
  vp_DType :: "string option"
  vp_Quantization :: "string option"
  vp_MaxModelLen :: "int option"
  vp_ServedModelName :: "string option"
  vp_KVCacheDType :: "string option"
  vp_MaxNumBatchedTokens :: "int option"
  vp_MaxNumSeqs :: "int option"
  vp_EnableChunkedPrefill :: "bool option"
  vp_EnableAutoToolChoice :: "bool option"
  vp_ToolCallParser :: "string option"
  vp_ShmSizeGB :: "int option"

definition vllm_fields :: "string list" where
  "vllm_fields =
     [''tensor_parallel_size'', ''gpu_memory_utilization'', ''dtype'', ''quantization'', ''max_model_len'',
      ''served_model_name'', ''kv_cache_dtype'', ''max_num_batched_tokens'', ''max_num_seqs'',
      ''enable_chunked_prefill'', ''enable_auto_tool_choice'', ''tool_call_parser'', ''shm_size_gb'']"

definition read_vllm :: "raw_json \<Rightarrow> vllm_params res" where
  "read_vllm = unmarshalParamsObject vllm_fields (\<lambda>fs.
     ptr_field conv_int ''tensor_parallel_size'' fs (\<lambda>tp.
     ptr_field conv_float ''gpu_memory_utilization'' fs (\<lambda>gm.
     ptr_field conv_string ''dtype'' fs (\<lambda>dt.
     ptr_field conv_string ''quantization'' fs (\<lambda>qu.
     ptr_field conv_int ''max_model_len'' fs (\<lambda>ml.
     ptr_field conv_string ''served_model_name'' fs (\<lambda>sn.
     ptr_field conv_string ''kv_cache_dtype'' fs (\<lambda>kv.
     ptr_field conv_int ''max_num_batched_tokens'' fs (\<lambda>bt.
     ptr_field conv_int ''max_num_seqs'' fs (\<lambda>ms.
     ptr_field conv_bool ''enable_chunked_prefill'' fs (\<lambda>cp.
     ptr_field conv_bool ''enable_auto_tool_choice'' fs (\<lambda>at.
     ptr_field conv_string ''tool_call_parser'' fs (\<lambda>tc.
     ptr_field conv_int ''shm_size_gb'' fs (\<lambda>sh.
     Inr \<lparr>vp_TensorParallelSize = tp, vp_GPUMemoryUtilization = gm, vp_DType = dt, vp_Quantization = qu,
          vp_MaxModelLen = ml, vp_ServedModelName = sn, vp_KVCacheDType = kv, vp_MaxNumBatchedTokens = bt,
          vp_MaxNumSeqs = ms, vp_EnableChunkedPrefill = cp, vp_EnableAutoToolChoice = at,
          vp_ToolCallParser = tc, vp_ShmSizeGB = sh\<rparr>))))))))))))))"

definition vllm_check :: "vllm_params \<Rightarrow> unit res" where
  "vllm_check p =
     (if below 1 (vp_TensorParallelSize p) then Inl (Wrap ''tensor_parallel_size must be positive'' ErrInvalidParams)
      else if (case vp_GPUMemoryUtilization p of None \<Rightarrow> False | Some d \<Rightarrow> not_positive d \<or> greater_one d)
        then Inl (Wrap ''gpu_memory_utilization must be in (0, 1]'' ErrInvalidParams)
      else if below 1 (vp_MaxModelLen p) then Inl (Wrap ''max_model_len must be positive'' ErrInvalidParams)
      else if below 1 (vp_MaxNumBatchedTokens p) then Inl (Wrap ''max_num_batched_tokens must be positive'' ErrInvalidParams)
      else if below 1 (vp_MaxNumSeqs p) then Inl (Wrap ''max_num_seqs must be positive'' ErrInvalidParams)
      else if vp_ToolCallParser p \<noteq> None \<and> vp_EnableAutoToolChoice p \<noteq> Some True
        then Inl (Wrap ''tool_call_parser requires enable_auto_tool_choice to be true'' ErrInvalidParams)
      else if below 1 (vp_ShmSizeGB p) then Inl (Wrap ''shm_size_gb must be positive'' ErrInvalidParams)
      else Inr ())"

definition vllm_ValidateParams :: "raw_json \<Rightarrow> unit res" where
  "vllm_ValidateParams params = (case read_vllm params of Inl e \<Rightarrow> Inl e | Inr p \<Rightarrow> vllm_check p)"

text \<open>Two's complement wrap-around of a 64-bit product.\<close>

definition wrap64 :: "int \<Rightarrow> int" where
  "wrap64 n = (n + 2 ^ 63) mod 2 ^ 64 - 2 ^ 63"

definition vllm_args :: "vllm_params \<Rightarrow> string \<Rightarrow> string list" where
  "vllm_args p servedModelName =
     flag ''--tensor-parallel-size'' itoa (vp_TensorParallelSize p)
     @ flag ''--gpu-memory-utilization'' format_float (vp_GPUMemoryUtilization p)
     @ flag ''--dtype'' (\<lambda>s. s) (vp_DType p)
     @ flag ''--quantization'' (\<lambda>s. s) (vp_Quantization p)
     @ flag ''--max-model-len'' itoa (vp_MaxModelLen p)
     @ (if servedModelName \<noteq> '''' then [''--served-model-name='' @ servedModelName] else [])
     @ flag ''--kv-cache-dtype'' (\<lambda>s. s) (vp_KVCacheDType p)
     @ flag ''--max-num-batched-tokens'' itoa (vp_MaxNumBatchedTokens p)
     @ flag ''--max-num-seqs'' itoa (vp_MaxNumSeqs p)
     @ (if vp_EnableChunkedPrefill p = Some True then [''--enable-chunked-prefill''] else [])
     @ (if vp_EnableAutoToolChoice p = Some True then [''--enable-auto-tool-choice''] else [])
     @ flag ''--tool-call-parser'' (\<lambda>s. s) (vp_ToolCallParser p)"

definition vllm_BuildLaunchSpec :: "raw_json \<Rightarrow> string \<Rightarrow> launch_spec res" where
  "vllm_BuildLaunchSpec params servedModelName =
     (case read_vllm params of
        Inl e \<Rightarrow> Inl e
      | Inr p \<Rightarrow>
          let spec = \<lparr>ls_Image = vllmImage, ls_Args = vllm_args p servedModelName,
                      ls_ShmSizeBytes = 0, ls_IPCMode = ''''\<rparr>
          in Inr (case vp_ShmSizeGB p of
                    None \<Rightarrow> spec
                  | Some gb \<Rightarrow> spec\<lparr>ls_ShmSizeBytes := wrap64 (gb * 1024 * 1024 * 1024), ls_IPCMode := ''host''\<rparr>))"

subsection \<open>The registry of adapters\<close>

datatype adapter = VllmAdapter | LlamaCPPAdapter

definition Adapter :: "engine_type \<Rightarrow> adapter res" where
  "Adapter e =
     (case e of
        EngineVLLM \<Rightarrow> Inr VllmAdapter
      | EngineLlamaCPP \<Rightarrow> Inr LlamaCPPAdapter
      | EngineAphrodite \<Rightarrow> Inl (Wrap ''aphrodite'' ErrUnknownEngineType))"

definition RequiresFullGPUResidency :: "adapter \<Rightarrow> bool" where
  "RequiresFullGPUResidency a = (case a of VllmAdapter \<Rightarrow> True | LlamaCPPAdapter \<Rightarrow> False)"

definition ValidateParams :: "adapter \<Rightarrow> raw_json \<Rightarrow> unit res" where
  "ValidateParams a = (case a of VllmAdapter \<Rightarrow> vllm_ValidateParams | LlamaCPPAdapter \<Rightarrow> llamacpp_ValidateParams)"

definition BuildLaunchSpec :: "adapter \<Rightarrow> raw_json \<Rightarrow> string \<Rightarrow> launch_spec res" where
  "BuildLaunchSpec a = (case a of VllmAdapter \<Rightarrow> vllm_BuildLaunchSpec | LlamaCPPAdapter \<Rightarrow> llamacpp_BuildLaunchSpec)"

section \<open>The model id rule\<close>

text \<open>The rule as the documentation states it: parts between slashes, each starting with a letter or digit.\<close>

definition valid_part :: "string \<Rightarrow> bool" where
  "valid_part p = (case p of [] \<Rightarrow> False | c # cs \<Rightarrow> is_alnum c \<and> list_all is_id_char cs)"

definition open_part :: "bool \<Rightarrow> string \<Rightarrow> bool" where
  "open_part fresh p = (if fresh then valid_part p else list_all is_id_char p)"

lemma slash_not_id [simp]: "\<not> is_alnum (CHR ''/'')" "\<not> is_id_char (CHR ''/'')"
  by (simp_all add: is_alnum_def is_id_char_def less_eq_char_def)

lemma match_id_parts:
  "match_id fresh s \<longleftrightarrow> open_part fresh (hd (split_on (CHR ''/'') s)) \<and> list_all valid_part (tl (split_on (CHR ''/'') s))"
proof (induction fresh s rule: match_id.induct)
  case (1 fresh)
  then show ?case by (simp add: open_part_def valid_part_def)
next
  case (2 c cs)
  then show ?case by (auto simp: open_part_def valid_part_def split: list.splits)
next
  case (3 c cs)
  then show ?case by (cases "split_on (CHR ''/'') cs") (auto simp: open_part_def)
qed

lemma ValidModelID_parts:
  "ValidModelID name \<longleftrightarrow> length name \<le> 64 \<and> list_all valid_part (split_on (CHR ''/'') name)"
  unfolding ValidModelID_def MaxModelIDLength_def match_id_parts
  by (cases "split_on (CHR ''/'') name") (simp_all add: open_part_def)

lemma match_id_chars: "match_id fresh s \<Longrightarrow> c \<in> set s \<Longrightarrow> is_id_char c \<or> c = CHR ''/''"
  by (induction fresh s rule: match_id.induct) (auto simp: is_id_char_def split: if_splits)

definition shell_safe :: "char \<Rightarrow> bool" where
  "shell_safe c \<longleftrightarrow> c \<notin> {CHR '','', CHR '' '', CHR 0x09, CHR 0x0A, CHR 0x0D, CHR ''$'', CHR 0x60, CHR ''&'', CHR ''|'', CHR '';'', CHR ''='', CHR 0x22, CHR 0x27}"

lemma id_char_safe: "is_id_char c \<or> c = CHR ''/'' \<Longrightarrow> shell_safe c"
  by (auto simp: is_id_char_def is_alnum_def shell_safe_def less_eq_char_def)

text \<open>
  The one-pass matcher accepts a name exactly when the documented rule does (at most 64 characters;
  every part between slashes starts with a letter or digit and continues with letters, digits and
  \<^verbatim>\<open>. _ : -\<close>); the check that explains a refusal accepts the same names; and an accepted name does
  not start with a dash and has no comma, blank, quote or shell character.
\<close>

theorem model_id_rule:
  "(ValidModelID name \<longleftrightarrow> length name \<le> 64 \<and> list_all valid_part (split_on (CHR ''/'') name))
   \<and> (CheckModelID name = Inr () \<longleftrightarrow> ValidModelID name)
   \<and> (ValidModelID name \<longrightarrow> name \<noteq> [] \<and> is_alnum (hd name) \<and> list_all shell_safe name)"
proof (intro conjI impI)
  show "CheckModelID name = Inr () \<longleftrightarrow> ValidModelID name"
    by (auto simp: CheckModelID_def ValidModelID_def)
  assume v: "ValidModelID name"
  then show "name \<noteq> []" and "is_alnum (hd name)"
    by (cases name; simp add: ValidModelID_def)+
  show "list_all shell_safe name"
    using v by (auto simp: ValidModelID_def list_all_iff dest!: match_id_chars intro: id_char_safe)
qed (simp_all add: ValidModelID_parts)

theorem model_id_rule_witness:
  "ValidModelID ''Qwen/Qwen3:4b'' \<and> list_all shell_safe ''Qwen/Qwen3:4b'' \<and> \<not> ValidModelID ''-a'' \<and> \<not> ValidModelID ''a//b''"
proof -
  have v: "ValidModelID ''Qwen/Qwen3:4b''" by code_simp
  then have "list_all shell_safe ''Qwen/Qwen3:4b''" using model_id_rule [of "''Qwen/Qwen3:4b''"] by blast
  moreover have "\<not> ValidModelID ''-a'' \<and> \<not> ValidModelID ''a//b''" by code_simp
  ultimately show ?thesis using v by blast
qed

section \<open>Accepted parameters launch\<close>

text \<open>How each engine is told the name it serves its model under.\<close>

definition serves :: "adapter \<Rightarrow> string \<Rightarrow> string list \<Rightarrow> bool" where
  "serves a name args =
     (case a of
        VllmAdapter \<Rightarrow> (''--served-model-name='' @ name) \<in> set args
      | LlamaCPPAdapter \<Rightarrow> (\<exists>front. args = front @ [''--alias'', name]))"

definition adapter_image :: "adapter \<Rightarrow> string" where
  "adapter_image a = (case a of VllmAdapter \<Rightarrow> vllmImage | LlamaCPPAdapter \<Rightarrow> llamaCPPImage)"

lemma unmarshal_error: "unmarshalParamsObject ns rd params = Inl e \<Longrightarrow> errors_is e ErrInvalidParams"
  by (auto simp: unmarshalParamsObject_def split: if_splits sum.splits)

lemma read_error:
  "read_llamacpp params = Inl e \<Longrightarrow> errors_is e ErrInvalidParams"
  "read_vllm params = Inl e \<Longrightarrow> errors_is e ErrInvalidParams"
  by (auto simp: read_llamacpp_def read_vllm_def dest: unmarshal_error)

lemma ValidateParams_error: "ValidateParams a params = Inl e \<Longrightarrow> errors_is e ErrInvalidParams"
  by (auto simp: ValidateParams_def llamacpp_ValidateParams_def vllm_ValidateParams_def vllm_check_def
      dest: read_error split: adapter.splits sum.splits if_splits)

lemma BuildLaunchSpec_error: "BuildLaunchSpec a params name = Inl e \<Longrightarrow> errors_is e ErrInvalidParams"
  by (auto simp: BuildLaunchSpec_def llamacpp_BuildLaunchSpec_def vllm_BuildLaunchSpec_def Let_def
      dest: read_error split: adapter.splits sum.splits option.splits)

lemma accepted_builds: "ValidateParams a params = Inr u \<Longrightarrow> \<exists>spec. BuildLaunchSpec a params name = Inr spec"
  by (auto simp: ValidateParams_def BuildLaunchSpec_def llamacpp_ValidateParams_def
      vllm_ValidateParams_def llamacpp_BuildLaunchSpec_def vllm_BuildLaunchSpec_def Let_def
      split: adapter.splits sum.splits)

text \<open>
  C25. Whatever the engine: parameters are either refused with \<^verbatim>\<open>ErrInvalidParams\<close>, or the launch
  specification built from them later exists, uses the engine's image and passes on the profile's name as
  the served model name; and building fails only with \<^verbatim>\<open>ErrInvalidParams\<close>.
\<close>

theorem accepted_params_launch:
  assumes "name \<noteq> []"
  shows "(case ValidateParams a params of
            Inl e \<Rightarrow> errors_is e ErrInvalidParams
          | Inr _ \<Rightarrow> (\<exists>spec. BuildLaunchSpec a params name = Inr spec \<and> ls_Image spec = adapter_image a
                             \<and> serves a name (ls_Args spec)))
       \<and> (case BuildLaunchSpec a params name of
            Inl e \<Rightarrow> errors_is e ErrInvalidParams
          | Inr spec \<Rightarrow> serves a name (ls_Args spec))"
proof -
  have built: "BuildLaunchSpec a params name = Inr spec \<Longrightarrow>
      ls_Image spec = adapter_image a \<and> serves a name (ls_Args spec)" for spec
    using assms by (auto simp: BuildLaunchSpec_def llamacpp_BuildLaunchSpec_def vllm_BuildLaunchSpec_def
        adapter_image_def serves_def vllm_args_def Let_def split: adapter.splits sum.splits option.splits)
  with accepted_builds show ?thesis
    using ValidateParams_error BuildLaunchSpec_error by (fastforce split: sum.split)
qed

definition sample_vllm :: raw_json where
  "sample_vllm = RawJson (JObj [(''tensor_parallel_size'', JInt 2), (''gpu_memory_utilization'', JDec ''0.90'')])"

theorem accepted_params_launch_witness:
  "\<exists>spec. BuildLaunchSpec VllmAdapter sample_vllm ''qwen'' = Inr spec \<and> serves VllmAdapter ''qwen'' (ls_Args spec)"
proof -
  have "ValidateParams VllmAdapter sample_vllm = Inr ()" by code_simp
  then show ?thesis
    using accepted_params_launch [of "''qwen''" VllmAdapter sample_vllm] by auto
qed

section \<open>Shared memory\<close>

lemma wrap64_id: "- (2 ^ 63) \<le> n \<Longrightarrow> n < 2 ^ 63 \<Longrightarrow> wrap64 n = n"
  by (simp add: wrap64_def)

lemma vllm_check_shm: "vllm_check p = Inr () \<Longrightarrow> vp_ShmSizeGB p = Some gb \<Longrightarrow> 1 \<le> gb"
  by (auto simp: vllm_check_def below_def split: if_splits)

definition shm_params :: "int \<Rightarrow> raw_json" where
  "shm_params gb = RawJson (JObj [(''shm_size_gb'', JInt gb)])"



end
