(* ===== verification/Inventory.thy ===== *)
theory Inventory
  imports Transfers Model_Store Instances Engines
begin

text \<open>
  The model inventory (internal/inventory/service.go, scan.go): listings, the deletion of a copy on a node, and the
  scan of nodes for copies the inventory does not know, with their import, and the messages used
  (internal/agentproto/agentproto.go).
\<close>

section \<open>Messages\<close>

definition TypeDeleteModel :: string where "TypeDeleteModel = ''delete_model''"
definition TypeDeleteModelResult :: string where "TypeDeleteModelResult = ''delete_model_result''"
definition TypeScanModels :: string where "TypeScanModels = ''scan_models''"
definition TypeScanModelsResult :: string where "TypeScanModelsResult = ''scan_models_result''"

definition encode_DeleteModel :: "string \<Rightarrow> string \<Rightarrow> string \<Rightarrow> json" where
  "encode_DeleteModel modelRef quantization format = JObj
     ([(''model_ref'', JStr modelRef)] @ opt_str ''quantization'' quantization @ [(''format'', JStr format)])"

record delete_model_result =
  dr_ModelRef :: string
  dr_Quantization :: string
  dr_Format :: string
  dr_Success :: bool
  dr_Reason :: string

definition decode_DeleteModelResult :: "envelope \<Rightarrow> delete_model_result res" where
  "decode_DeleteModelResult = decode_payload [''model_ref'', ''quantization'', ''format'', ''success'', ''reason'']
     (\<lambda>fs.
       rbind (get_string ''model_ref'' fs) (\<lambda>modelRef.
       rbind (get_string ''quantization'' fs) (\<lambda>quantization.
       rbind (get_string ''format'' fs) (\<lambda>format.
       rbind (get_bool ''success'' fs) (\<lambda>success.
       rbind (get_string ''reason'' fs) (\<lambda>reason.
         Inr \<lparr>dr_ModelRef = modelRef, dr_Quantization = quantization, dr_Format = format, dr_Success = success, dr_Reason = reason\<rparr>))))))"

definition encode_ScanModels :: "string \<Rightarrow> json" where
  "encode_ScanModels scanID = JObj [(''scan_id'', JStr scanID)]"

definition read_ScannedModel :: "(string \<times> json) list \<Rightarrow> scanned_model res" where
  "read_ScannedModel fs =
     rbind (get_string ''model_ref'' fs) (\<lambda>modelRef.
     rbind (get_string ''quantization'' fs) (\<lambda>quantization.
     rbind (get_string ''format'' fs) (\<lambda>format.
     rbind (get_int ''size_bytes'' fs) (\<lambda>sizeBytes.
     rbind (get_string ''file_name'' fs) (\<lambda>fileName.
     rbind (get_bool ''possibly_incomplete'' fs) (\<lambda>incomplete.
       Inr \<lparr>sm_ModelRef = modelRef, sm_Quantization = quantization, sm_Format = format, sm_SizeBytes = sizeBytes,
            sm_FileName = fileName, sm_PossiblyIncomplete = incomplete\<rparr>))))))"

definition conv_scanned :: "json \<Rightarrow> scanned_model option" where
  "conv_scanned v =
     (case rbind
        (decode_object [''model_ref'', ''quantization'', ''format'', ''size_bytes'', ''file_name'', ''possibly_incomplete''] (RawJson v))
        read_ScannedModel of
        Inl _ \<Rightarrow> None
      | Inr m \<Rightarrow> Some m)"

fun conv_all_scanned :: "json list \<Rightarrow> scanned_model list option" where
  "conv_all_scanned [] = Some []"
| "conv_all_scanned (v # vs) =
     (case (conv_scanned v, conv_all_scanned vs) of (Some m, Some ms) \<Rightarrow> Some (m # ms) | _ \<Rightarrow> None)"

record scan_models_result =
  sr_ScanID :: string
  sr_Models :: "scanned_model list"
  sr_Truncated :: bool
  sr_Error :: string

definition decode_ScanModelsResult :: "envelope \<Rightarrow> scan_models_result res" where
  "decode_ScanModelsResult = decode_payload [''scan_id'', ''models'', ''truncated'', ''error'']
     (\<lambda>fs.
       rbind (get_string ''scan_id'' fs) (\<lambda>scanID.
       rbind (dec_plain (\<lambda>_ v. case v of JArr vs \<Rightarrow> conv_all_scanned vs | _ \<Rightarrow> None) [] (field_values ''models'' fs)) (\<lambda>models.
       rbind (get_bool ''truncated'' fs) (\<lambda>truncated.
       rbind (get_string ''error'' fs) (\<lambda>err.
         Inr \<lparr>sr_ScanID = scanID, sr_Models = models, sr_Truncated = truncated, sr_Error = err\<rparr>)))))"

definition format_of_string :: "string \<Rightarrow> model_format" where
  "format_of_string s = (if s = ''safetensors'' then FormatSafetensors else if s = ''gguf'' then FormatGGUF else FormatOther s)"

section \<open>Listings\<close>

record inventory_group =
  ig_ModelRef :: string
  ig_Quantization :: string
  ig_Format :: model_format
  ig_Entries :: "model_inventory list"

definition group_key :: "inventory_group \<Rightarrow> string \<times> string \<times> model_format" where
  "group_key g = (ig_ModelRef g, ig_Quantization g, ig_Format g)"

definition add_entry :: "inventory_group list \<Rightarrow> model_inventory \<Rightarrow> inventory_group list" where
  "add_entry gs e =
     (let k = (mi_ModelRef e, mi_Quantization e, mi_Format e) in
      if mi_Status e = InvRemoved then gs
      else if k \<in> group_key ` set gs then map (\<lambda>g. if group_key g = k then g\<lparr>ig_Entries := ig_Entries g @ [e]\<rparr> else g) gs
      else gs @ [\<lparr>ig_ModelRef = mi_ModelRef e, ig_Quantization = mi_Quantization e, ig_Format = mi_Format e, ig_Entries = [e]\<rparr>])"

definition ListGrouped :: "inventory_group list res io" where
  "ListGrouped = or_return inv_List (Wrap ''list inventory'') (\<lambda>entries. ok (foldl add_entry [] entries))"

record simple_row =
  sw_ModelRef :: string
  sw_Quantizations :: "string list"
  sw_TotalSizeBytes :: int
  sw_IncompleteCount :: int

text \<open>The total is an \<^verbatim>\<open>int64\<close>.\<close>

definition count_entry :: "string \<Rightarrow> simple_row \<Rightarrow> model_inventory \<Rightarrow> simple_row" where
  "count_entry q row e =
     (if mi_Status e = InvIncomplete then row\<lparr>sw_IncompleteCount := sw_IncompleteCount row + 1\<rparr>
      else row\<lparr>sw_Quantizations := (if q \<in> set (sw_Quantizations row) then sw_Quantizations row else sw_Quantizations row @ [q]),
               sw_TotalSizeBytes := wrap64 (sw_TotalSizeBytes row + mi_SizeBytes e)\<rparr>)"

definition add_group :: "simple_row list \<Rightarrow> inventory_group \<Rightarrow> simple_row list" where
  "add_group rows g =
     (let count = (\<lambda>row. foldl (count_entry (ig_Quantization g)) row (ig_Entries g)) in
      if ig_ModelRef g \<in> sw_ModelRef ` set rows then map (\<lambda>row. if sw_ModelRef row = ig_ModelRef g then count row else row) rows
      else rows @ [count \<lparr>sw_ModelRef = ig_ModelRef g, sw_Quantizations = [], sw_TotalSizeBytes = 0, sw_IncompleteCount = 0\<rparr>])"

definition ListGroupedSimple :: "simple_row list res io" where
  "ListGroupedSimple = or_return ListGrouped (\<lambda>e. e) (\<lambda>groups. ok (foldl add_group [] groups))"

definition inventory_ListByNode :: "string \<Rightarrow> model_inventory list res io" where
  "inventory_ListByNode n =
     or_return (inv_ListByNode n) (Wrap (''list inventory for node '' @ n))
       (\<lambda>es. ok (filter (\<lambda>e. mi_Status e \<noteq> InvRemoved \<and> mi_Status e \<noteq> InvIncomplete) es))"

definition inventory_Get :: "inventory_key \<Rightarrow> model_inventory res io" where
  "inventory_Get k = or_return (inv_Get k) (\<lambda>e. e) ok"

section \<open>Deleting a copy\<close>

definition deleteStateTTL :: int where "deleteStateTTL = 15 * 60 * 1000000000"
definition maxFailureLen :: nat where "maxFailureLen = 200"

datatype delete_shown = DeleteNone | DeleteRemoving | DeleteFailed

definition deleteKey :: "inventory_key \<Rightarrow> string" where
  "deleteKey = (\<lambda>(n, m, q, f). n @ [CHR 0x00] @ m @ [CHR 0x00] @ q @ [CHR 0x00] @ format_string f)"

definition DeleteState :: "inventory_key \<Rightarrow> (delete_shown \<times> string) io" where
  "DeleteState k =
     State_Monad.bind (peek (\<lambda>w. map_of (model_deletes w) (deleteKey k))) (\<lambda>d. case d of
       None \<Rightarrow> State_Monad.return (DeleteNone, [])
     | Some d \<Rightarrow>
         State_Monad.bind time_now (\<lambda>now.
           if Sub now (ds_at d) > deleteStateTTL then
             State_Monad.bind (poke (\<lambda>w. w\<lparr>model_deletes := AList.delete (deleteKey k) (model_deletes w)\<rparr>)) (\<lambda>_. State_Monad.return (DeleteNone, []))
           else if ds_failed d then State_Monad.return (DeleteFailed, ds_reason d)
           else State_Monad.return (DeleteRemoving, [])))"

definition setDeleteState :: "string \<Rightarrow> delete_state \<Rightarrow> unit io" where
  "setDeleteState key d = poke (\<lambda>w. w\<lparr>model_deletes := AList.update key d (model_deletes w)\<rparr>)"

definition clearDeleteState :: "string \<Rightarrow> unit io" where
  "clearDeleteState key = poke (\<lambda>w. w\<lparr>model_deletes := AList.delete key (model_deletes w)\<rparr>)"

text \<open>\<^verbatim>\<open>ProfileRepository.List\<close>.\<close>

definition prof_List :: "profile list res io" where
  "prof_List = or_return (query (\<lambda>w. Inr (sort_key prof_Name (model_profiles w)))) (Wrap ''list model profiles'') ok"

definition uses_entry :: "inventory_key \<Rightarrow> profile \<Rightarrow> bool" where
  "uses_entry k p \<longleftrightarrow>
     prof_TargetNodeID p = Some (fst k) \<and> prof_ModelRef p = fst (snd k) \<and> prof_Format p = snd (snd (snd k)) \<and>
     prof_Quantization p = fst (snd (snd k))"

definition CanDelete :: "actor \<Rightarrow> bool res io" where
  "CanDelete = canManageModelStore"

definition delete_message :: "inventory_key \<Rightarrow> envelope" where
  "delete_message = (\<lambda>(n, m, q, f). NewEnvelope TypeDeleteModel [] (encode_DeleteModel m q (format_string f)))"

definition inventory_Delete :: "actor \<Rightarrow> inventory_key \<Rightarrow> unit res io" where
  "inventory_Delete a k =
     (case k of (n, m, q, f) \<Rightarrow>
       or_return (canManageModelStore a) (\<lambda>e. e) (\<lambda>permitted.
         if \<not> permitted then fail ErrNotPermitted
         else or_return (inv_Get k) (\<lambda>e. e) (\<lambda>entry.
           if mi_Status entry = InvRemoved then fail ErrNodeModelInventoryNotFound
           else State_Monad.bind (DeleteState k) (\<lambda>(state, _).
             if state = DeleteRemoving then fail ErrDeleteInProgress
             else or_return prof_List (Wrap ''list profiles for delete check'') (\<lambda>profiles.
               case find (uses_entry k) profiles of
                 Some p \<Rightarrow> fail (Detail ErrModelInUse (''profile '' @ quoted (prof_Name p)))
               | None \<Rightarrow>
                   State_Monad.bind (Connected n) (\<lambda>up.
                     if \<not> up then fail ErrNodeOffline
                     else or_return (Send n (delete_message k)) (Wrap (''dispatch delete_model to node '' @ n)) (\<lambda>_.
                       State_Monad.bind time_now (\<lambda>now.
                       State_Monad.bind (setDeleteState (deleteKey k) \<lparr>ds_at = now, ds_failed = False, ds_reason = []\<rparr>) (\<lambda>_.
                       or_return
                         (Record (actor_id a) (IsSuperAdmin a) ''deleted_model_copy'' ''node'' n
                            (Some [(''model_ref'', JStr m), (''quantization'', JStr q), (''format'', JStr (format_string f))]))
                         (Wrap ''record audit'') (\<lambda>_. ok ()))))))))))"

definition HandleDeleteModelResult :: "string \<Rightarrow> envelope \<Rightarrow> unit io" where
  "HandleDeleteModelResult nodeID env =
     (if env_Type env \<noteq> TypeDeleteModelResult then State_Monad.return ()
      else case decode_DeleteModelResult env of
        Inl _ \<Rightarrow> State_Monad.return ()
      | Inr r \<Rightarrow>
          let k = (nodeID, dr_ModelRef r, dr_Quantization r, format_of_string (dr_Format r)) in
          if \<not> dr_Success r then
            let cut = take maxFailureLen (dr_Reason r); reason = (if cut = [] then ''the node reported a failure'' else cut) in
            State_Monad.bind time_now (\<lambda>now. setDeleteState (deleteKey k) \<lparr>ds_at = now, ds_failed = True, ds_reason = reason\<rparr>)
          else
            State_Monad.bind (clearDeleteState (deleteKey k)) (\<lambda>_.
            State_Monad.bind (inv_SetStatus k InvRemoved) (\<lambda>_. State_Monad.return ())))"


section \<open>Scanning nodes\<close>

definition scanTTL :: int where "scanTTL = 15 * 60 * 1000000000"
definition scanReplyTimeout :: int where "scanReplyTimeout = 2 * 60 * 1000000000"
definition maxScanNodes :: nat where "maxScanNodes = 50"
definition maxLiveScans :: nat where "maxLiveScans = 100"
definition maxScanModels :: nat where "maxScanModels = 500"
definition maxRefLen :: nat where "maxRefLen = 512"
definition maxQuantLen :: nat where "maxQuantLen = 32"

text \<open>\<^verbatim>\<open>^[0-9a-f]{8}-[0-9a-f]{4}-[0-9a-f]{4}-[0-9a-f]{4}-[0-9a-f]{12}$\<close>\<close>

definition uuidRe :: "string \<Rightarrow> bool" where
  "uuidRe s \<longleftrightarrow>
     (let parts = split_on (CHR ''-'') s in
      map length parts = [8, 4, 4, 4, 12] \<and>
      list_all (list_all (\<lambda>c. is_digit c \<or> CHR ''a'' \<le> c \<and> c \<le> CHR ''f'')) parts)"

text \<open>\<^verbatim>\<open>^[A-Za-z0-9][A-Za-z0-9_]*$\<close>\<close>

definition quantRe :: "string \<Rightarrow> bool" where
  "quantRe s \<longleftrightarrow> s \<noteq> [] \<and> alnum (hd s) \<and> list_all (\<lambda>c. alnum c \<or> c = CHR ''_'') s"

definition CanImport :: "actor \<Rightarrow> bool" where
  "CanImport a = CanImportModels a"

text \<open>The clock is read once for all scans.\<close>

definition pruneScansLocked :: "unit io" where
  "pruneScansLocked =
     State_Monad.bind time_now (\<lambda>now. poke (\<lambda>w. w\<lparr>model_scans := filter (\<lambda>(_, sc). \<not> Sub now (scs_at sc) > scanTTL) (model_scans w)\<rparr>))"

definition newScanID :: "string res io" where
  "newScanID = or_return (query (\<lambda>w. Inr (hex_encode (take 16 (entropy w (tick w)))))) (Wrap ''generate scan id'') ok"

fun scan_ids :: "string list \<Rightarrow> string list \<Rightarrow> string list res" where
  "scan_ids [] ids = Inr ids"
| "scan_ids (raw # raws) ids =
     (let i = ToLower (TrimSpace raw) in
      if i = [] then scan_ids raws ids
      else if \<not> uuidRe i then Inl ErrInvalidScanNode
      else scan_ids raws (if i \<in> set ids then ids else ids @ [i]))"

definition pending_node :: node_scan_state where
  "pending_node = \<lparr>nss_status = InvScanPending, nss_err = [], nss_truncated = False, nss_known = 0, nss_models = [], nss_candidates = []\<rparr>"

definition finish_node :: "string \<Rightarrow> (node_scan_state \<Rightarrow> node_scan_state) \<Rightarrow> scan_state \<Rightarrow> scan_state" where
  "finish_node nodeID update sc =
     (case map_of (scs_nodes sc) nodeID of
        None \<Rightarrow> sc
      | Some n \<Rightarrow> if nss_status n \<noteq> InvScanPending then sc else sc\<lparr>scs_nodes := AList.update nodeID (update n) (scs_nodes sc)\<rparr>)"

definition finishNode :: "string \<Rightarrow> string \<Rightarrow> (node_scan_state \<Rightarrow> node_scan_state) \<Rightarrow> unit io" where
  "finishNode scanID nodeID update =
     poke (\<lambda>w. case map_of (model_scans w) scanID of
       None \<Rightarrow> w
     | Some sc \<Rightarrow> w\<lparr>model_scans := AList.update scanID (finish_node nodeID update sc) (model_scans w)\<rparr>)"

definition ask_scan :: "string \<Rightarrow> string \<Rightarrow> unit io" where
  "ask_scan scanID i =
     State_Monad.bind (Connected i) (\<lambda>up.
       if \<not> up then finishNode scanID i (\<lambda>n. n\<lparr>nss_status := InvScanOffline, nss_err := ''node is not connected''\<rparr>)
       else State_Monad.bind (Send i (NewEnvelope TypeScanModels [] (encode_ScanModels scanID))) (\<lambda>r. case r of
         Inl _ \<Rightarrow> finishNode scanID i (\<lambda>n. n\<lparr>nss_status := InvScanFailed, nss_err := ''could not reach the node''\<rparr>)
       | Inr _ \<Rightarrow> State_Monad.return ()))"

definition StartScan :: "actor \<Rightarrow> string list \<Rightarrow> string res io" where
  "StartScan a nodeIDs =
     (if \<not> CanImportModels a then fail ErrNotPermitted
      else case scan_ids nodeIDs [] of
        Inl e \<Rightarrow> fail e
      | Inr ids \<Rightarrow>
          if ids = [] then fail ErrNoScanNodes
          else if length ids > maxScanNodes then fail (ErrText ''scan at most 50 nodes at once'')
          else or_return newScanID (\<lambda>e. e) (\<lambda>scanID.
            State_Monad.bind time_now (\<lambda>now.
            State_Monad.bind pruneScansLocked (\<lambda>_.
            State_Monad.bind (peek (\<lambda>w. length (model_scans w) \<ge> maxLiveScans)) (\<lambda>many.
              if many then fail ErrTooManyScans
              else
                State_Monad.bind
                  (poke (\<lambda>w. w\<lparr>model_scans := AList.update scanID
                     \<lparr>scs_at = now, scs_order = ids, scs_nodes = map (\<lambda>i. (i, pending_node)) ids\<rparr> (model_scans w)\<rparr>)) (\<lambda>_.
                State_Monad.bind (for_each (ask_scan scanID) ids) (\<lambda>_. ok scanID)))))))"

section \<open>What a node reports\<close>

definition validQuantization :: "string \<Rightarrow> bool" where
  "validQuantization q \<longleftrightarrow> q = [] \<or> length q \<le> maxQuantLen \<and> quantRe q"

definition validScannedModel :: "scanned_model \<Rightarrow> bool" where
  "validScannedModel m \<longleftrightarrow>
     sm_ModelRef m \<noteq> [] \<and> length (sm_ModelRef m) \<le> maxRefLen \<and> ValidString (sm_ModelRef m) \<and> \<not> has_prefix ''/'' (sm_ModelRef m) \<and>
     \<not> list_ex (\<lambda>r. IsControl r \<or> r = 0x5C) (runes (sm_ModelRef m)) \<and>
     \<not> list_ex (\<lambda>seg. seg = [] \<or> seg = ''.'' \<or> seg = ''..'') (split_on (CHR ''/'') (sm_ModelRef m)) \<and>
     sm_SizeBytes m \<ge> 0 \<and>
     (if sm_Format m = ''safetensors'' then sm_Quantization m = [] \<and> sm_FileName m = []
      else if sm_Format m = ''gguf'' then
        validQuantization (sm_Quantization m) \<and> sm_Quantization m \<noteq> [] \<and> sm_FileName m \<noteq> [] \<and>
        CHR ''/'' \<notin> set (sm_FileName m) \<and> CHR 0x5C \<notin> set (sm_FileName m) \<and> ValidString (sm_FileName m)
      else False)"

fun validScannedModels :: "scanned_model list \<Rightarrow> scanned_model list \<Rightarrow> scanned_model list" where
  "validScannedModels [] out = out"
| "validScannedModels (m # ms) out =
     (if length out \<ge> maxScanModels \<or> \<not> validScannedModel m then validScannedModels ms out else validScannedModels ms (out @ [m]))"

definition same_copy :: "scanned_model \<Rightarrow> scanned_model \<Rightarrow> bool" where
  "same_copy o1 m \<longleftrightarrow> sm_Format o1 = sm_Format m \<and> sm_FileName o1 = sm_FileName m"

definition importBlock :: "scanned_model list \<Rightarrow> scanned_model \<Rightarrow> string \<Rightarrow> error option" where
  "importBlock all m q =
     (let siblings = length (filter (\<lambda>x. sm_ModelRef x = sm_ModelRef m \<and> \<not> same_copy x m) all);
          matches = length (filter (\<lambda>x. sm_ModelRef x = sm_ModelRef m \<and> sm_Format x = ''gguf'' \<and> contains q (sm_FileName x)) all) in
      if q = [] \<or> q = ''UNKNOWN'' then (if siblings > 0 then Some ErrSharedDirectory else None)
      else if sm_Format m \<noteq> ''gguf'' \<or> \<not> contains q (sm_FileName m) then Some ErrAmbiguousQuantization
      else if matches \<noteq> 1 then Some ErrAmbiguousQuantization
      else None)"

definition scanWaitingOn :: "string \<Rightarrow> string \<Rightarrow> bool io" where
  "scanWaitingOn scanID nodeID =
     State_Monad.bind (peek (\<lambda>w. map_of (model_scans w) scanID)) (\<lambda>sc. case sc of
       None \<Rightarrow> State_Monad.return False
     | Some sc \<Rightarrow>
         State_Monad.bind time_now (\<lambda>now.
           State_Monad.return (\<not> Sub now (scs_at sc) > scanTTL \<and> map_option nss_status (map_of (scs_nodes sc) nodeID) = Some InvScanPending)))"

text \<open>The keys of the node's entries, those of removed ones apart.\<close>

definition entry_keys :: "(inventory_status \<Rightarrow> bool) \<Rightarrow> string \<Rightarrow> model_inventory list \<Rightarrow> string list" where
  "entry_keys st nodeID es = map (\<lambda>e. deleteKey (inv_key e)) (filter (\<lambda>e. mi_NodeID e = nodeID \<and> st (mi_Status e)) es)"

definition scanned_key :: "string \<Rightarrow> scanned_model \<Rightarrow> string" where
  "scanned_key nodeID m = deleteKey (nodeID, sm_ModelRef m, sm_Quantization m, format_of_string (sm_Format m))"

definition candidate_of :: "string \<Rightarrow> model_inventory list \<Rightarrow> scanned_model list \<Rightarrow> scanned_model \<Rightarrow> scan_candidate" where
  "candidate_of nodeID entries models m =
     \<lparr>sd_ModelRef = sm_ModelRef m, sd_Quantization = sm_Quantization m, sd_Format = format_of_string (sm_Format m),
      sd_SizeBytes = sm_SizeBytes m, sd_FileName = sm_FileName m, sd_PossiblyIncomplete = sm_PossiblyIncomplete m,
      sd_PreviouslyRemoved = (scanned_key nodeID m \<in> set (entry_keys (\<lambda>s. s = InvRemoved) nodeID entries)),
      sd_BlockedReason = (case importBlock models m (sm_Quantization m) of None \<Rightarrow> [] | Some e \<Rightarrow> error_text e)\<rparr>"

definition HandleScanModelsResult :: "string \<Rightarrow> envelope \<Rightarrow> unit io" where
  "HandleScanModelsResult nodeID env =
     (if env_Type env \<noteq> TypeScanModelsResult then State_Monad.return ()
      else case decode_ScanModelsResult env of
        Inl _ \<Rightarrow> State_Monad.return ()
      | Inr r \<Rightarrow>
          State_Monad.bind (scanWaitingOn (sr_ScanID r) nodeID) (\<lambda>waits.
            if \<not> waits then State_Monad.return ()
            else if sr_Error r \<noteq> [] then
              finishNode (sr_ScanID r) nodeID (\<lambda>n. n\<lparr>nss_status := InvScanFailed, nss_err := take maxFailureLen (sr_Error r)\<rparr>)
            else
              let models = validScannedModels (sr_Models r) [] in
              State_Monad.bind inv_List (\<lambda>l. case l of
                Inl _ \<Rightarrow> finishNode (sr_ScanID r) nodeID (\<lambda>n. n\<lparr>nss_status := InvScanFailed, nss_err := ''could not read inventory''\<rparr>)
              | Inr entries \<Rightarrow>
                  let known = entry_keys (\<lambda>s. s \<noteq> InvRemoved) nodeID entries;
                      unknown = filter (\<lambda>m. scanned_key nodeID m \<notin> set known) models in
                  finishNode (sr_ScanID r) nodeID (\<lambda>n. n\<lparr>nss_status := InvScanDone, nss_truncated := sr_Truncated r,
                    nss_known := int (length models - length unknown), nss_models := models,
                    nss_candidates := map (candidate_of nodeID entries models) unknown\<rparr>))))"

section \<open>The result of a scan\<close>

record node_scan_view =
  nv_NodeID :: string
  nv_Status :: inv_scan_status
  nv_Error :: string
  nv_KnownCount :: int
  nv_Truncated :: bool
  nv_Candidates :: "scan_candidate list"

record scan_view =
  sv_ID :: string
  sv_Nodes :: "node_scan_view list"
  sv_Complete :: bool

text \<open>Every node of the order has a state; the clock is read once.\<close>

definition node_view :: "time \<Rightarrow> scan_state \<Rightarrow> string \<Rightarrow> node_scan_view" where
  "node_view now sc i =
     (let n = the (map_of (scs_nodes sc) i); late = (nss_status n = InvScanPending \<and> Sub now (scs_at sc) > scanReplyTimeout) in
      \<lparr>nv_NodeID = i, nv_Status = (if late then InvScanFailed else nss_status n), nv_Error = (if late then ''no reply from the node'' else nss_err n),
       nv_KnownCount = nss_known n, nv_Truncated = nss_truncated n, nv_Candidates = nss_candidates n\<rparr>)"

definition ScanResult :: "actor \<Rightarrow> string \<Rightarrow> scan_view res io" where
  "ScanResult a scanID =
     (if \<not> CanImportModels a then fail ErrNotPermitted
      else
        State_Monad.bind pruneScansLocked (\<lambda>_.
        State_Monad.bind (peek (\<lambda>w. map_of (model_scans w) scanID)) (\<lambda>sc. case sc of
          None \<Rightarrow> fail ErrScanNotFound
        | Some sc \<Rightarrow>
            State_Monad.bind time_now (\<lambda>now.
              let views = map (node_view now sc) (scs_order sc) in
              ok \<lparr>sv_ID = scanID, sv_Nodes = views, sv_Complete = list_all (\<lambda>v. nv_Status v \<noteq> InvScanPending) views\<rparr>))))"

section \<open>Importing\<close>

record import_item =
  ii_NodeID :: string
  ii_ModelRef :: string
  ii_Quantization :: string
  ii_Format :: model_format
  ii_AsQuantization :: string

definition is_candidate :: "string \<Rightarrow> string \<Rightarrow> model_format \<Rightarrow> scan_candidate \<Rightarrow> bool" where
  "is_candidate ref q f c \<longleftrightarrow> sd_ModelRef c = ref \<and> sd_Quantization c = q \<and> sd_Format c = f"

definition findScanned :: "string \<Rightarrow> import_item \<Rightarrow> (scan_candidate \<times> scanned_model list) res io" where
  "findScanned scanID item =
     State_Monad.bind (peek (\<lambda>w. map_of (model_scans w) scanID)) (\<lambda>sc. case sc of
       None \<Rightarrow> fail ErrScanNotFound
     | Some sc \<Rightarrow>
         State_Monad.bind time_now (\<lambda>now.
           if Sub now (scs_at sc) > scanTTL then fail ErrScanNotFound
           else case map_of (scs_nodes sc) (ii_NodeID item) of
             None \<Rightarrow> fail ErrNotInScan
           | Some n \<Rightarrow>
               if nss_status n \<noteq> InvScanDone then fail ErrNotInScan
               else case find (is_candidate (ii_ModelRef item) (ii_Quantization item) (ii_Format item)) (nss_candidates n) of
                 None \<Rightarrow> fail ErrNotInScan
               | Some c \<Rightarrow> ok (c, nss_models n)))"

fun drop_first :: "('a \<Rightarrow> bool) \<Rightarrow> 'a list \<Rightarrow> 'a list" where
  "drop_first p [] = []"
| "drop_first p (x # xs) = (if p x then xs else x # drop_first p xs)"

definition drop_candidate :: "scan_candidate \<Rightarrow> node_scan_state \<Rightarrow> node_scan_state" where
  "drop_candidate c n =
     (let p = is_candidate (sd_ModelRef c) (sd_Quantization c) (sd_Format c) in
      if list_ex p (nss_candidates n) then n\<lparr>nss_candidates := drop_first p (nss_candidates n), nss_known := nss_known n + 1\<rparr> else n)"

definition dropCandidate :: "string \<Rightarrow> string \<Rightarrow> scan_candidate \<Rightarrow> unit io" where
  "dropCandidate scanID nodeID c =
     poke (\<lambda>w. case map_of (model_scans w) scanID of
       None \<Rightarrow> w
     | Some sc \<Rightarrow>
         (case map_of (scs_nodes sc) nodeID of
            None \<Rightarrow> w
          | Some n \<Rightarrow> w\<lparr>model_scans := AList.update scanID (sc\<lparr>scs_nodes := AList.update nodeID (drop_candidate c n) (scs_nodes sc)\<rparr>) (model_scans w)\<rparr>))"

definition zero_scanned :: scanned_model where
  "zero_scanned = \<lparr>sm_ModelRef = [], sm_Quantization = [], sm_Format = [], sm_SizeBytes = 0, sm_FileName = [], sm_PossiblyIncomplete = False\<rparr>"

definition scanned_of :: "scanned_model list \<Rightarrow> scan_candidate \<Rightarrow> scanned_model" where
  "scanned_of models c =
     (case find (\<lambda>m. sm_ModelRef m = sd_ModelRef c \<and> sm_Format m = format_string (sd_Format c) \<and> sm_FileName m = sd_FileName c \<and>
        sm_Quantization m = sd_Quantization c) models of None \<Rightarrow> zero_scanned | Some m \<Rightarrow> m)"

definition import_found :: "actor \<Rightarrow> string \<Rightarrow> string \<Rightarrow> string \<Rightarrow> scan_candidate \<Rightarrow> unit res io" where
  "import_found a scanID nodeID q c =
     (let k = (nodeID, sd_ModelRef c, q, sd_Format c) in
      State_Monad.bind (inv_Get k) (\<lambda>r.
        let go =
          or_return (inv_Upsert k InvPresent (sd_SizeBytes c) []) (Wrap ''record imported model'') (\<lambda>_.
          State_Monad.bind (dropCandidate scanID nodeID c) (\<lambda>_.
          or_return
            (Record (actor_id a) (IsSuperAdmin a) ''imported_model'' ''node'' nodeID
               (Some [(''model_ref'', JStr (sd_ModelRef c)), (''quantization'', JStr q), (''format'', JStr (format_string (sd_Format c))),
                      (''size_bytes'', JInt (sd_SizeBytes c)), (''possibly_incomplete'', JBool (sd_PossiblyIncomplete c))]))
            (Wrap ''record audit'') (\<lambda>_. ok ())))
        in case r of
          Inr existing \<Rightarrow> if mi_Status existing \<noteq> InvRemoved then fail ErrAlreadyKnown else go
        | Inl e \<Rightarrow> if errors_is e ErrNodeModelInventoryNotFound then go else fail (Wrap ''check existing inventory entry'' e)))"

definition importOne :: "actor \<Rightarrow> string \<Rightarrow> import_item \<Rightarrow> unit res io" where
  "importOne a scanID item0 =
     (let item = item0\<lparr>ii_NodeID := ToLower (TrimSpace (ii_NodeID item0))\<rparr> in
      or_return (findScanned scanID item) (\<lambda>e. e) (\<lambda>(c, models).
        if ii_AsQuantization item \<noteq> [] \<and> (sd_Format c \<noteq> FormatGGUF \<or> \<not> validQuantization (ii_AsQuantization item))
        then fail ErrInvalidQuantization
        else
          let q = (if ii_AsQuantization item \<noteq> [] then ii_AsQuantization item else sd_Quantization c) in
          case importBlock models (scanned_of models c) q of
            Some e \<Rightarrow> fail e
          | None \<Rightarrow> import_found a scanID (ii_NodeID item) q c))"

fun import_items :: "actor \<Rightarrow> string \<Rightarrow> import_item list \<Rightarrow> nat \<Rightarrow> (import_item \<times> error) list \<Rightarrow> (nat \<times> (import_item \<times> error) list \<times> error option) io" where
  "import_items a scanID [] imported failures = State_Monad.return (imported, failures, None)"
| "import_items a scanID (item # items) imported failures =
     State_Monad.bind (importOne a scanID item) (\<lambda>r. case r of
       Inr _ \<Rightarrow> import_items a scanID items (imported + 1) failures
     | Inl e \<Rightarrow>
         if errors_is e ErrScanNotFound then State_Monad.return (imported, failures, Some e)
         else import_items a scanID items imported (failures @ [(item, e)]))"

definition Import :: "actor \<Rightarrow> string \<Rightarrow> import_item list \<Rightarrow> (nat \<times> (import_item \<times> error) list \<times> error option) io" where
  "Import a scanID items =
     (if \<not> CanImportModels a then State_Monad.return (0, [], Some ErrNotPermitted) else import_items a scanID items 0 [])"

end
