(* ===== verification/Lifecycle.thy ===== *)
theory Lifecycle
  imports Alerts Instances Agentproto Agentconn Engines
begin

text \<open>
  Loading and unloading models (internal/lifecycle): the handlers a person triggers, the handlers for what
  agents report back, and the sweep when an agent reconnects. The lemmas give the outcome of a load and of
  an unload on every path, show that a profile never gets a second active instance from a load, that the
  alert about a dead instance follows its health, and that container names are always acceptable.
\<close>

section \<open>Container names\<close>

definition containerNamePrefix :: string where "containerNamePrefix = ''sparky-''"
definition maxContainerNameProfileLen :: nat where "maxContainerNameProfileLen = 40"

definition name_rune :: "int \<Rightarrow> bool" where
  "name_rune r \<longleftrightarrow> 97 \<le> r \<and> r \<le> 122 \<or> 65 \<le> r \<and> r \<le> 90 \<or> 48 \<le> r \<and> r \<le> 57 \<or> r = 95 \<or> r = 46"

fun sanitize_runes :: "bool \<Rightarrow> int list \<Rightarrow> string" where
  "sanitize_runes lastDash [] = []"
| "sanitize_runes lastDash (r # rs) =
     (if name_rune r then char_of (nat r) # sanitize_runes False rs
      else if lastDash then sanitize_runes True rs
      else CHR ''-'' # sanitize_runes True rs)"

definition is_trim :: "char \<Rightarrow> bool" where
  "is_trim c \<longleftrightarrow> c = CHR ''-'' \<or> c = CHR ''_'' \<or> c = CHR ''.''"

text \<open>\<^verbatim>\<open>strings.Trim(s, "-_.")\<close>.\<close>

definition trim :: "string \<Rightarrow> string" where
  "trim s = rev (dropWhile is_trim (rev (dropWhile is_trim s)))"

definition sanitizeContainerNamePart :: "string \<Rightarrow> string" where
  "sanitizeContainerNamePart s =
     (let out = trim (sanitize_runes False (runes s));
          out2 = (if length out > maxContainerNameProfileLen then trim (take maxContainerNameProfileLen out) else out)
      in if out2 = [] then ''profile'' else out2)"

definition containerName :: "string \<Rightarrow> time \<Rightarrow> string" where
  "containerName profileName startedAt =
     containerNamePrefix @ sanitizeContainerNamePart profileName @ ''-'' @ format_ref startedAt"

definition launchTime :: "running_instance \<Rightarrow> time io" where
  "launchTime i = (if IsZero (inst_StartedAt i) then time_now else State_Monad.return (inst_StartedAt i))"

section \<open>Loading\<close>

record load_params =
  lp_ProfileID :: string

definition load_validate :: "load_params \<Rightarrow> unit res" where
  "load_validate p = (if lp_ProfileID p = [] then Inl (Wrap ''profile_id is required'' ErrInvalidLoad) else Inr ())"

text \<open>The note that is logged for a profile that sets the ignored key.\<close>

definition paramsHaveKey :: "raw_json \<Rightarrow> string \<Rightarrow> bool" where
  "paramsHaveKey params key = (case params of RawJson (JObj kvs) \<Rightarrow> key \<in> fst ` set kvs | _ \<Rightarrow> False)"

text \<open>Everything \<^verbatim>\<open>LoadInstance\<close> checks before it creates a row.\<close>

definition load_checks :: "actor \<Rightarrow> load_params \<Rightarrow> (profile \<times> string \<times> launch_spec) res io" where
  "load_checks a params =
     (if \<not> CanLaunchInstances a then fail ErrNotPermitted
      else case load_validate params of
        Inl e \<Rightarrow> fail e
      | Inr _ \<Rightarrow>
          or_return (prof_FindByID (lp_ProfileID params))
            (\<lambda>e. if errors_is e ErrProfileNotFound then e else Wrap ''look up profile'' e) (\<lambda>profile.
          case prof_TargetNodeID profile of
            None \<Rightarrow> fail (Wrap ''profile has no target_node_id'' ErrInvalidLoad)
          | Some targetNodeID \<Rightarrow>
              State_Monad.bind (inst_FindActiveByProfileID (prof_ID profile)) (\<lambda>active. case active of
                Inr _ \<Rightarrow> fail ErrAlreadyRunning
              | Inl e \<Rightarrow>
                  if \<not> errors_is e ErrRunningInstanceNotFound
                  then fail (Wrap ''check for an active running instance'' e)
                  else State_Monad.bind (Connected targetNodeID) (\<lambda>connected.
                    if \<not> connected then fail ErrTargetNodeOffline
                    else case Adapter (prof_EngineType profile) of
                      Inl e \<Rightarrow> fail (Wrap ''look up engine adapter'' e)
                    | Inr adapter \<Rightarrow>
                        (case CheckModelID (prof_Name profile) of
                           Inl e \<Rightarrow> fail (Wrap (''the profile's name is not valid: '' @ error_text e) ErrInvalidLoad)
                         | Inr _ \<Rightarrow>
                             (case BuildLaunchSpec adapter (prof_EngineParams profile) (prof_Name profile) of
                                Inl e \<Rightarrow> fail (Wrap ''build launch spec'' e)
                              | Inr spec \<Rightarrow>
                                  ok (profile, targetNodeID,
                                      (case prof_Image profile of
                                         None \<Rightarrow> spec
                                       | Some img \<Rightarrow> if img \<noteq> [] then spec\<lparr>ls_Image := img\<rparr> else spec))))))))"

definition load_message :: "profile \<Rightarrow> launch_spec \<Rightarrow> running_instance \<Rightarrow> time \<Rightarrow> load_instance" where
  "load_message profile spec inst at =
     \<lparr>li_InstanceID = inst_ID inst, li_ModelRef = prof_ModelRef profile,
      li_EngineType = engine_string (prof_EngineType profile),
      li_EngineVersion = (case prof_EngineVersion profile of None \<Rightarrow> [] | Some v \<Rightarrow> v),
      li_Quantization = prof_Quantization profile, li_Image = ls_Image spec, li_Args = ls_Args spec,
      li_Port = prof_Port profile, li_RequiresFullGPUResidency = prof_RequiresFullGPUResidency profile,
      li_ShmSize = ls_ShmSizeBytes spec, li_IPCMode = ls_IPCMode spec,
      li_ContainerName = containerName (prof_Name profile) at, li_ProfileID = prof_ID profile\<rparr>"

text \<open>The rest: create the row, dispatch, mark the row failed when dispatching fails, audit.\<close>

definition load_dispatch :: "actor \<Rightarrow> profile \<Rightarrow> string \<Rightarrow> launch_spec \<Rightarrow> running_instance res io" where
  "load_dispatch a profile targetNodeID spec =
     (let startedBy = actor_id a in
      or_return (inst_Create (prof_ID profile) targetNodeID startedBy) (Wrap ''create running instance'') (\<lambda>inst.
      State_Monad.bind (launchTime inst) (\<lambda>at.
      let env = NewEnvelope TypeLoadInstance [] (encode_LoadInstance (load_message profile spec inst at)) in
      State_Monad.bind (Send targetNodeID env) (\<lambda>s. case s of
        Inl e \<Rightarrow>
          let dispatchErr = Wrap (''dispatch load_instance to node '' @ targetNodeID) e in
          State_Monad.bind (inst_SetStatus (inst_ID inst) StatusFailed None (Some (error_text dispatchErr)))
            (\<lambda>_. fail dispatchErr)
      | Inr _ \<Rightarrow>
          or_return
            (Record startedBy (IsSuperAdmin a) ''loaded_model'' ''running_instance'' (inst_ID inst)
               (Some [(''profile_id'', JStr (prof_ID profile)), (''model_ref'', JStr (prof_ModelRef profile))]))
            (Wrap ''record audit'') (\<lambda>_. ok inst)))))"

definition LoadInstance :: "actor \<Rightarrow> load_params \<Rightarrow> running_instance res io" where
  "LoadInstance a params =
     or_return (load_checks a params) (\<lambda>e. e) (\<lambda>(profile, targetNodeID, spec). load_dispatch a profile targetNodeID spec)"

section \<open>Unloading\<close>

text \<open>From the status change on: dispatch, revert the status when dispatching fails, audit.\<close>

definition unload_dispatch :: "actor \<Rightarrow> running_instance \<Rightarrow> running_instance res io" where
  "unload_dispatch a inst =
     or_return (inst_SetStatus (inst_ID inst) StatusStopping None None) (Wrap ''set status for running instance'') (\<lambda>_.
       let env = NewEnvelope TypeUnloadInstance [] (encode_UnloadInstance (inst_ID inst)) in
       State_Monad.bind (Send (inst_PrimaryNodeID inst) env) (\<lambda>s. case s of
         Inl e \<Rightarrow>
           let dispatchErr = Wrap (''dispatch unload_instance to node '' @ inst_PrimaryNodeID inst) e in
           State_Monad.bind (inst_SetStatus (inst_ID inst) StatusRunning None (Some (error_text dispatchErr)))
             (\<lambda>_. fail dispatchErr)
       | Inr _ \<Rightarrow>
           or_return
             (Record (actor_id a) (IsSuperAdmin a) ''unloaded_model'' ''running_instance'' (inst_ID inst) None)
             (Wrap ''record audit'') (\<lambda>_. ok (inst\<lparr>inst_Status := StatusStopping\<rparr>))))"

definition UnloadInstance :: "actor \<Rightarrow> string \<Rightarrow> running_instance res io" where
  "UnloadInstance a instanceID =
     (if \<not> CanLaunchInstances a then fail ErrNotPermitted
      else or_return (inst_FindByID instanceID)
        (\<lambda>e. if errors_is e ErrRunningInstanceNotFound then e else Wrap ''look up running instance'' e) (\<lambda>inst.
        if inst_Status inst \<noteq> StatusRunning then fail ErrInstanceNotRunning
        else State_Monad.bind (Connected (inst_PrimaryNodeID inst)) (\<lambda>connected.
          if \<not> connected then fail ErrTargetNodeOffline
          else unload_dispatch a inst)))"

section \<open>Reports from agents\<close>

definition mapInstanceStatus :: "string \<Rightarrow> instance_status res" where
  "mapInstanceStatus s =
     (if s = ''running'' then Inr StatusRunning
      else if s = ''failed'' then Inr StatusFailed
      else if s = ''stopped'' then Inr StatusStopped
      else Inl ErrUnknownStatus)"

definition mapHealthStatus :: "string \<Rightarrow> health_status res" where
  "mapHealthStatus s =
     (if s = ''healthy'' then Inr HealthHealthy
      else if s = ''unhealthy'' then Inr HealthUnhealthy
      else if s = ''dead'' then Inr HealthDead
      else Inl ErrUnknownStatus)"

definition instanceDeadAlertKey :: "string \<Rightarrow> string" where
  "instanceDeadAlertKey instanceID = ''instance_dead:'' @ instanceID"

definition dead_body :: string where
  "dead_body =
     ''Its container or process exited or was removed while Sparky still expects it to be running. '' @
     ''The Dashboard and the Profiles page show it as dead. Unload it to clear it; the saved log '' @
     ''(Container logs, Developer and above) then shows why it stopped.''"

definition dead_alert :: "string \<Rightarrow> running_instance \<Rightarrow> string \<Rightarrow> raise_params" where
  "dead_alert name inst instanceID =
     \<lparr>rp_Kind = ''instance_dead'', rp_Severity = SeverityCritical, rp_Title = name @ '' is no longer running'',
      rp_Body = dead_body, rp_ObjectType = ''running_instance'', rp_ObjectID = instanceID,
      rp_DedupeKey = instanceDeadAlertKey instanceID,
      rp_Audiences = AudienceTier TierAdmin # (case inst_StartedBy inst of None \<Rightarrow> [] | Some u \<Rightarrow> [AudienceUser u])\<rparr>"

definition raiseInstanceDeadAlert :: "string \<Rightarrow> unit io" where
  "raiseInstanceDeadAlert instanceID =
     State_Monad.bind (inst_FindByID instanceID) (\<lambda>r. case r of
       Inl e \<Rightarrow> State_Monad.return ()
     | Inr inst \<Rightarrow>
         State_Monad.bind (prof_FindByID (inst_ProfileID inst)) (\<lambda>p.
         let name = (case p of Inl _ \<Rightarrow> ''An instance'' | Inr profile \<Rightarrow> prof_Name profile) in
         State_Monad.bind (Raise (dead_alert name inst instanceID)) (\<lambda>_. State_Monad.return ())))"

definition resolveInstanceDeadAlert :: "string \<Rightarrow> unit io" where
  "resolveInstanceDeadAlert instanceID =
     State_Monad.bind (ResolveCondition (instanceDeadAlertKey instanceID)) (\<lambda>_. State_Monad.return ())"

definition HandleInstanceHealth :: "string \<Rightarrow> envelope \<Rightarrow> unit io" where
  "HandleInstanceHealth nodeID env =
     (if env_Type env \<noteq> TypeInstanceHealth then State_Monad.return ()
      else case decode_InstanceHealth env of
        Inl e \<Rightarrow> State_Monad.return ()
      | Inr health \<Rightarrow>
          (case mapHealthStatus (ih_Status health) of
             Inl e \<Rightarrow> State_Monad.return ()
           | Inr status \<Rightarrow>
               let det = (if ih_Detail health \<noteq> [] then Some (ih_Detail health) else None) in
               State_Monad.bind
                 (if status = HealthDead
                  then State_Monad.bind (inst_FindByID (ih_InstanceID health)) (\<lambda>r.
                    State_Monad.return (case r of Inl _ \<Rightarrow> False | Inr inst \<Rightarrow> inst_HealthStatus inst = HealthDead))
                  else State_Monad.return False)
                 (\<lambda>alreadyDead.
               State_Monad.bind (inst_UpdateHealth (ih_InstanceID health) status (ih_CheckedAt health) det) (\<lambda>u.
                 case u of
                   Inl e \<Rightarrow> State_Monad.return ()
                 | Inr _ \<Rightarrow>
                     if status \<noteq> HealthDead then resolveInstanceDeadAlert (ih_InstanceID health)
                     else if \<not> alreadyDead then raiseInstanceDeadAlert (ih_InstanceID health)
                     else State_Monad.return ()))))"

definition HandleInstanceResult :: "string \<Rightarrow> envelope \<Rightarrow> unit io" where
  "HandleInstanceResult nodeID env =
     (if env_Type env \<noteq> TypeInstanceResult then State_Monad.return ()
      else case decode_InstanceResult env of
        Inl e \<Rightarrow> State_Monad.return ()
      | Inr result \<Rightarrow>
          (case mapInstanceStatus (ir_Status result) of
             Inl e \<Rightarrow> State_Monad.return ()
           | Inr status \<Rightarrow>
               let actualPort = (if status = StatusRunning \<and> ir_ActualPort result \<noteq> 0 then Some (ir_ActualPort result) else None);
                   errMsg = (if ir_ErrorMessage result \<noteq> [] then Some (ir_ErrorMessage result) else None)
               in State_Monad.bind (inst_SetStatus (ir_InstanceID result) status actualPort errMsg) (\<lambda>u.
                    case u of
                      Inl e \<Rightarrow> State_Monad.return ()
                    | Inr _ \<Rightarrow>
                        if status = StatusStopped \<or> status = StatusFailed
                        then resolveInstanceDeadAlert (ir_InstanceID result)
                        else State_Monad.return ())))"

definition check_of :: "running_instance \<Rightarrow> profile res \<Rightarrow> check_instance" where
  "check_of inst p =
     \<lparr>ci_InstanceID = inst_ID inst, ci_Port = (case inst_ActualPort inst of None \<Rightarrow> 0 | Some q \<Rightarrow> q),
      ci_EngineType = (case p of Inl _ \<Rightarrow> [] | Inr profile \<Rightarrow> engine_string (prof_EngineType profile))\<rparr>"

definition ask_instance :: "string \<Rightarrow> running_instance \<Rightarrow> unit io" where
  "ask_instance nodeID inst =
     State_Monad.bind (prof_FindByID (inst_ProfileID inst)) (\<lambda>p.
     State_Monad.bind (Send nodeID (NewEnvelope TypeCheckInstance [] (encode_CheckInstance (check_of inst p))))
       (\<lambda>_. State_Monad.return ()))"

definition ReconcileNode :: "string \<Rightarrow> unit io" where
  "ReconcileNode nodeID =
     State_Monad.bind (inst_ListRunningByNode nodeID) (\<lambda>r. case r of
       Inl e \<Rightarrow> State_Monad.return ()
     | Inr instances \<Rightarrow> for_each (ask_instance nodeID) instances)"

definition ListInstances :: "running_instance list res io" where
  "ListInstances = or_return inst_List (Wrap ''list running instances'') ok"

section \<open>Container names are acceptable\<close>

definition docker_char :: "char \<Rightarrow> bool" where
  "docker_char c \<longleftrightarrow> is_alnum c \<or> c = CHR ''_'' \<or> c = CHR ''.'' \<or> c = CHR ''-''"

lemma of_char_nat: "0 \<le> r \<Longrightarrow> r < 256 \<Longrightarrow> of_char (char_of (nat r)) = nat r"
  by simp

lemma name_rune_docker: "name_rune r \<Longrightarrow> docker_char (char_of (nat r))"
proof -
  assume r: "name_rune r"
  consider "r = 95" | "r = 46" | "97 \<le> r \<and> r \<le> 122 \<or> 65 \<le> r \<and> r \<le> 90 \<or> 48 \<le> r \<and> r \<le> 57"
    using r by (auto simp: name_rune_def)
  then show ?thesis
  proof cases
    case 3
    then have "is_alnum (char_of (nat r))"
      by (auto simp: is_alnum_def less_eq_char_def)
    then show ?thesis by (simp add: docker_char_def)
  qed (simp_all add: docker_char_def char_of_def bit_0)
qed

lemma sanitize_runes_docker: "list_all docker_char (sanitize_runes d rs)"
  by (induction d rs rule: sanitize_runes.induct) (auto simp: name_rune_docker docker_char_def [of "CHR ''-''"])

lemma set_trim: "set (trim s) \<subseteq> set s"
  by (auto simp: trim_def dest!: set_dropWhileD)

lemma length_trim: "length (trim s) \<le> length s"
  by (simp add: trim_def) (metis le_trans length_dropWhile_le length_rev)

lemma list_all_trim: "list_all p s \<Longrightarrow> list_all p (trim s)"
  using set_trim by (fastforce simp: list_all_iff)

lemma list_all_take: "list_all p s \<Longrightarrow> list_all p (take n s)"
  by (auto simp: list_all_iff dest: in_set_takeD)

lemma trim_edges: "trim s \<noteq> [] \<Longrightarrow> \<not> is_trim (hd (trim s)) \<and> \<not> is_trim (last (trim s))"
proof -
  let ?t = "dropWhile is_trim s" and ?u = "dropWhile is_trim (rev (dropWhile is_trim s))"
  assume ne: "trim s \<noteq> []"
  then have u: "?u \<noteq> []" by (simp add: trim_def)
  then have last: "\<not> is_trim (last (trim s))" using hd_dropWhile [of is_trim "rev ?t"] by (simp add: trim_def last_rev)
  have "?t \<noteq> []" using u by (metis dropWhile.simps(1) rev.simps(1))
  then have "\<not> is_trim (hd ?t)" by (rule hd_dropWhile)
  moreover have "rev ?t = takeWhile is_trim (rev ?t) @ ?u" by simp
  then have "?t = rev ?u @ rev (takeWhile is_trim (rev ?t))" by (metis rev_append rev_rev_ident)
  then have "hd ?t = hd (rev ?u)" using u by (metis hd_append2 rev_is_Nil_conv)
  ultimately show ?thesis using last by (simp add: trim_def)
qed

lemma sanitized_part:
  "let p = sanitizeContainerNamePart s in
     p \<noteq> [] \<and> length p \<le> 40 \<and> list_all docker_char p \<and> \<not> is_trim (hd p) \<and> \<not> is_trim (last p)"
proof -
  let ?o = "trim (sanitize_runes False (runes s))"
  have all: "list_all docker_char ?o" "list_all docker_char (trim (take 40 ?o))"
    using sanitize_runes_docker list_all_trim list_all_take by blast+
  have len: "length (trim (take 40 ?o)) \<le> 40" using length_trim [of "take 40 ?o"] by simp
  have "list_all docker_char ''profile''" "\<not> is_trim (hd ''profile'')" "\<not> is_trim (last ''profile'')"
    by (simp_all add: docker_char_def is_alnum_def less_eq_char_def is_trim_def)
  then show ?thesis
    using all len trim_edges [of "sanitize_runes False (runes s)"] trim_edges [of "take 40 ?o"]
    by (auto simp: sanitizeContainerNamePart_def maxContainerNameProfileLen_def Let_def)
qed

lemma digit_char: "n < 10 \<Longrightarrow> docker_char (char_of (48 + n :: nat))"
proof -
  have "nat (int (48 + n)) = 48 + n" by simp
  then show "n < 10 \<Longrightarrow> docker_char (char_of (48 + n :: nat))"
    using name_rune_docker [of "int (48 + n)"] by (simp add: name_rune_def nat_add_distrib)
qed

lemma two_digits_docker: "length (two_digits n) = 2 \<and> list_all docker_char (two_digits n)"
  by (simp add: two_digits_def digit_char)

lemma four_digits_docker: "length (four_digits n) = 4 \<and> list_all docker_char (four_digits n)"
  using two_digits_docker by (simp add: four_digits_def)

lemma format_ref_docker: "length (format_ref t) = 15 \<and> list_all docker_char (format_ref t)"
  using two_digits_docker four_digits_docker
  by (simp add: format_ref_def Let_def docker_char_def [of "CHR ''-''"] split: prod.split)

text \<open>
  Whatever bytes a profile name holds, the container name built from it starts with \<open>sparky-\<close>, has only
  the characters that Docker and Podman accept, is at most 63 characters long, and ends in the start time;
  the part made from the profile name is never empty and neither starts nor ends in a separator.
\<close>

theorem container_name_acceptable:
  "let n = containerName name t; p = sanitizeContainerNamePart name in
     n = ''sparky-'' @ p @ ''-'' @ format_ref t \<and> list_all docker_char n \<and> is_alnum (hd n) \<and> length n \<le> 63
     \<and> p \<noteq> [] \<and> \<not> is_trim (hd p) \<and> \<not> is_trim (last p)"
proof -
  have "list_all docker_char ''sparky-''" and "is_alnum (CHR ''s'')" and "docker_char (CHR ''-'')"
    by (simp_all add: docker_char_def is_alnum_def less_eq_char_def)
  then show ?thesis
    using sanitized_part [of name] format_ref_docker [of t] by (simp add: containerName_def containerNamePrefix_def Let_def)
qed

section \<open>Loading\<close>

definition load_ready :: "actor \<Rightarrow> world \<Rightarrow> profile \<Rightarrow> string \<Rightarrow> launch_spec \<Rightarrow> bool" where
  "load_ready a w profile node spec \<longleftrightarrow>
     CanLaunchInstances a \<and> profile \<in> set (model_profiles w) \<and> prof_TargetNodeID profile = Some node
     \<and> active_of (prof_ID profile) w = [] \<and> map_of (conns w) node \<noteq> None \<and> ValidModelID (prof_Name profile)
     \<and> (\<exists>adapter s. Adapter (prof_EngineType profile) = Inr adapter
          \<and> BuildLaunchSpec adapter (prof_EngineParams profile) (prof_Name profile) = Inr s
          \<and> ls_Args spec = ls_Args s \<and> ls_ShmSizeBytes spec = ls_ShmSizeBytes s \<and> ls_IPCMode spec = ls_IPCMode s)"

lemma load_checks_tick: "run_state (load_checks a p) w = (r, w') \<Longrightarrow> \<exists>n. w' = w\<lparr>tick := n\<rparr>"
  by (auto simp: load_checks_def run_simps split: if_splits sum.splits fault.splits option.splits
      intro: exI [of _ "tick w"])

lemma CheckModelID_iff: "CheckModelID name = Inr u \<longleftrightarrow> ValidModelID name"
  by (auto simp: CheckModelID_def ValidModelID_def)

lemma not_found_active:
  "scanRunningInstance (latest_by inst_StartedAt
     (filter (\<lambda>i. inst_ProfileID i = p \<and> active_status (inst_Status i)) (running_instances w))) = Inl e \<Longrightarrow> active_of p w = []"
  by (auto simp: scanRunningInstance_def active_of_def split: option.splits)

lemma load_checks_ok:
  assumes "run_state (load_checks a p) w = (Inr (profile, node, spec), w')"
  shows "load_ready a w profile node spec \<and> prof_ID profile = lp_ProfileID p"
  using assms
  by (auto simp: load_checks_def load_ready_def run_simps CheckModelID_iff not_found_active
      split: if_splits sum.splits fault.splits option.splits dest!: find_row_SomeD)

lemma launchTime_tick: "\<exists>at n. run_state (launchTime i) w = (at, w\<lparr>tick := n\<rparr>)"
proof (cases "IsZero (inst_StartedAt i)")
  case True
  then show ?thesis by (auto simp: launchTime_def run_simps)
next
  case False
  then have "run_state (launchTime i) w = (inst_StartedAt i, w\<lparr>tick := tick w\<rparr>)" by (simp add: launchTime_def)
  then show ?thesis by blast
qed

lemma run_inst_Create:
  "run_state (inst_Create p n b) w =
     (let w1 = w\<lparr>tick := Suc (tick w)\<rparr>; i = starting_instance w1 p n b; clash = inst_ID i \<in> inst_ID ` set (running_instances w);
          w2 = (if clash then w1 else w1\<lparr>running_instances := running_instances w @ [i]\<rparr>)
      in case faults w (tick w) of
           NoFault \<Rightarrow> (if clash then Inl (Wrap ''create running instance'' (Wrap ''scan running instance'' ErrUniqueViolation)) else Inr i, w2)
         | Lost e \<Rightarrow> (Inl (Wrap ''create running instance'' (Wrap ''scan running instance'' (ErrIO e))), w1)
         | Ambiguous e \<Rightarrow> (Inl (Wrap ''create running instance'' (Wrap ''scan running instance'' (ErrIO e))), w2))"
  by (auto simp: inst_Create_def run_simps Let_def scanRunningInstance_def inst_scan_error_def split: fault.split)

lemma update_row_snoc:
  "k \<notin> key ` set t \<Longrightarrow> key r = k \<Longrightarrow> update_row key k f (t @ [r]) = t @ [f r]"
  by (induction t) auto

text \<open>How a dispatched load can end, the calls after the checks included.\<close>

definition load_outcome :: "actor \<Rightarrow> profile \<Rightarrow> string \<Rightarrow> launch_spec \<Rightarrow> world \<Rightarrow> running_instance res \<Rightarrow> world \<Rightarrow> bool" where
  "load_outcome a profile node spec w r w' \<longleftrightarrow>
     (let untouched = (running_instances w' = running_instances w \<and> sent w' = sent w \<and> audit_log w' = audit_log w);
          created = (\<lambda>i. inst_ProfileID i = prof_ID profile \<and> inst_PrimaryNodeID i = node \<and> inst_StartedBy i = actor_id a
                     \<and> inst_ID i \<notin> inst_ID ` set (running_instances w) \<and> inst_Status i = StatusStarting);
          told = (\<lambda>i. \<exists>c at. map_of (conns w) node = Some c \<and>
                     sent w' = sent w @ [(c, NewEnvelope TypeLoadInstance [] (encode_LoadInstance (load_message profile spec i at)))])
      in case r of
           Inr i \<Rightarrow> created i \<and> running_instances w' = running_instances w @ [i] \<and> told i
             \<and> (\<exists>rec. audit_log w' = audit_log w @ [rec] \<and> audit_Action rec = ''loaded_model''
                  \<and> audit_ActorID rec = actor_id a \<and> audit_ObjectID rec = inst_ID i)
         | Inl e \<Rightarrow> untouched
             \<or> (\<exists>i now. created i \<and> running_instances w' = running_instances w @ [set_status now StatusFailed None (Some (error_text e)) i]
                  \<and> sent w' = sent w \<and> audit_log w' = audit_log w)
             \<or> (\<exists>i e'. e = Wrap ''record audit'' e' \<and> created i \<and> running_instances w' = running_instances w @ [i] \<and> told i
                  \<and> audit_log w' = audit_log w))"

lemma load_dispatch_outcome:
  assumes one: "one_lost_call w" and conn: "map_of (conns w) node \<noteq> None"
    and run: "run_state (load_dispatch a profile node spec) w = (r, w')"
  shows "load_outcome a profile node spec w r w'"
proof -
  obtain c where c: "map_of (conns w) node = Some c" using conn by auto
  let ?w1 = "w\<lparr>tick := Suc (tick w)\<rparr>"
  let ?i = "starting_instance ?w1 (prof_ID profile) node (actor_id a)"
  show ?thesis
  proof (cases "faults w (tick w) = NoFault \<and> inst_ID ?i \<notin> inst_ID ` set (running_instances w)")
    case False
    then have "w' = ?w1 \<and> (\<exists>e. r = Inl e)"
      using run one by (auto simp: load_dispatch_def Let_def run_or_return run_inst_Create split: fault.splits if_splits)
    then show ?thesis by (auto simp: load_outcome_def)
  next
    case True
    let ?w2 = "?w1\<lparr>running_instances := running_instances w @ [?i]\<rparr>"
    obtain at n where lt: "run_state (launchTime ?i) ?w2 = (at, ?w2\<lparr>tick := n\<rparr>)" using launchTime_tick by blast
    let ?env = "NewEnvelope TypeLoadInstance [] (encode_LoadInstance (load_message profile spec ?i at))"
    have created: "inst_ProfileID ?i = prof_ID profile" "inst_PrimaryNodeID ?i = node" "inst_StartedBy ?i = actor_id a"
        "inst_Status ?i = StatusStarting"
      by (simp_all add: starting_instance_def)
    have lost: "faults w m = NoFault" if "faults w n = Lost e" "m \<noteq> n" for m e
      using one_lost_callD [OF one, of n m] that by simp
    have upd: "update_row inst_ID (inst_ID ?i) f (running_instances w @ [?i]) = running_instances w @ [f ?i]" for f
      using True by (intro update_row_snoc) simp_all
    show ?thesis
    proof (cases "faults w n")
      case NoFault
      then show ?thesis
        using run True c lt created one
        by (auto simp: load_dispatch_def Let_def run_or_return run_inst_Create run_Send run_Record load_outcome_def new_record_def
            split: fault.splits)
    next
      case (Lost e)
      then have "r = Inl (Wrap (''dispatch load_instance to node '' @ node) (Wrap ''write to node'' (ErrIO e)))"
        and "running_instances w' = running_instances w @
          [set_status (clock w (Suc (Suc n))) StatusFailed None
             (Some (error_text (Wrap (''dispatch load_instance to node '' @ node) (Wrap ''write to node'' (ErrIO e))))) ?i]"
        and "sent w' = sent w" "audit_log w' = audit_log w"
        using run True c lt lost [OF Lost, of "Suc n"]
        by (auto simp: load_dispatch_def Let_def run_or_return run_inst_Create run_Send run_inst_SetStatus upd
            simp del: error_text.simps)
      then show ?thesis using True created unfolding load_outcome_def Let_def by auto
    next
      case (Ambiguous e)
      then show ?thesis using one by simp
    qed
  qed
qed

text \<open>
  C17. The outcome of a load, when at most one call fails and had no effect. Success means the actor may
  launch, the profile exists, had no active instance, its node is connected, its name is a valid model id
  and its parameters build; exactly one starting instance was added, exactly one load message for it was
  sent to that node, and exactly one audit record was appended. An error means nothing changed, or the
  dispatch failed and the new instance is marked failed with the error's text, or (only when the audit
  write is what failed) the load was dispatched but not audited.
\<close>

theorem load_outcomes:
  assumes one: "one_lost_call w" and run: "run_state (LoadInstance a p) w = (r, w')"
  shows "(\<exists>e. r = Inl e) \<and> running_instances w' = running_instances w \<and> sent w' = sent w \<and> audit_log w' = audit_log w
    \<or> (\<exists>profile node spec. load_ready a w profile node spec \<and> prof_ID profile = lp_ProfileID p
         \<and> load_outcome a profile node spec w r w')"
proof -
  obtain q w1 where ch: "run_state (load_checks a p) w = (q, w1)" by (cases "run_state (load_checks a p) w")
  then obtain n where w1: "w1 = w\<lparr>tick := n\<rparr>" using load_checks_tick by blast
  show ?thesis
  proof (cases q)
    case (Inl e)
    then show ?thesis using run ch w1 by (auto simp: LoadInstance_def run_or_return)
  next
    case (Inr t)
    obtain profile node spec where t: "t = (profile, node, spec)" by (cases t)
    have ready: "load_ready a w profile node spec \<and> prof_ID profile = lp_ProfileID p"
      using load_checks_ok ch Inr t by blast
    have "run_state (load_dispatch a profile node spec) w1 = (r, w')"
      using run ch Inr t by (simp add: LoadInstance_def run_or_return)
    moreover have "one_lost_call w1" using one w1 one_lost_call_cong [of w1 w] by simp
    moreover have "map_of (conns w1) node \<noteq> None" using ready w1 by (simp add: load_ready_def)
    ultimately have "load_outcome a profile node spec w1 r w'" using load_dispatch_outcome by blast
    then have "load_outcome a profile node spec w r w'" by (simp add: w1 load_outcome_def cong: sum.case_cong)
    then show ?thesis using ready by blast
  qed
qed

section \<open>At most one active instance per profile\<close>

definition wf_instances :: "world \<Rightarrow> bool" where
  "wf_instances w \<longleftrightarrow> primary_key inst_ID (running_instances w) \<and> (\<forall>p. length (active_of p w) \<le> 1)"

definition keeps_instances :: "world \<Rightarrow> world \<Rightarrow> bool" where
  "keeps_instances w w' \<longleftrightarrow> (wf_instances w \<longrightarrow> wf_instances w')"

definition same_instances :: "world \<Rightarrow> world \<Rightarrow> bool" where
  "same_instances w w' \<longleftrightarrow> running_instances w' = running_instances w"

interpretation same_instances: db_step_rel same_instances
  by unfold_locales (auto simp: same_instances_def)

lemma same_instances_exec: "(\<And>w. running_instances (snd (f w)) = running_instances w) \<Longrightarrow> within same_instances (exec f)"
  by (rule same_instances.within_exec) (simp add: same_instances_def)

lemma same_instances_poke: "(\<And>w. running_instances (f w) = running_instances w) \<Longrightarrow> within same_instances (poke f)"
  by (rule same_instances.within_poke) (simp add: same_instances_def)

interpretation same_instances: alerts_outside same_instances
proof
  fix w w' :: world
  assume eq: "w' = w\<lparr>alerts := alerts w', alert_audiences := alert_audiences w', alert_user_state := alert_user_state w',
        published := published w', notified := notified w'\<rparr>"
  have "running_instances w' = running_instances w" using arg_cong [OF eq, of running_instances] by simp
  then show "same_instances w w'" by (simp add: same_instances_def)
qed

lemma same_instances_reads:
  "within same_instances (inst_FindByID i)" "within same_instances (prof_FindByID j)"
  "within same_instances (inst_ListRunningByNode n)" "within same_instances (Connected n)"
  "within same_instances (inst_FindActiveByProfileID p)"
  unfolding inst_FindByID_def prof_FindByID_def inst_ListRunningByNode_def Connected_def inst_FindActiveByProfileID_def
  by (intro same_instances.db_within_rules)+

lemma same_Send: "within same_instances (Send n env)"
  unfolding Send_def by (intro same_instances.db_within_rules same_instances_exec) simp

lemma same_conns: "within same_instances (Register n c)" "within same_instances (Unregister n c)"
  unfolding Register_def Unregister_def by (intro same_instances_poke; simp)+

lemma same_Record: "within same_instances (Record act sa action ot obj det)"
  by (auto simp: within_def run_simps Let_def same_instances_def split: fault.split)

lemmas same_instances_rules =
  same_instances.db_within_rules same_instances.alert_rules same_instances_reads same_Send same_conns same_Record

lemma same_dead_alert:
  "within same_instances (raiseInstanceDeadAlert i)" "within same_instances (resolveInstanceDeadAlert i)"
  unfolding raiseInstanceDeadAlert_def resolveInstanceDeadAlert_def Let_def by (intro same_instances_rules)+

lemma same_ReconcileNode: "within same_instances (ReconcileNode n)"
  unfolding ReconcileNode_def ask_instance_def by (intro same_instances_rules)

subsection \<open>Writes to the table\<close>

lemma active_of_same: "running_instances w' = running_instances w \<Longrightarrow> active_of p w' = active_of p w"
  by (simp add: active_of_def)

lemma wf_instances_cong: "running_instances w' = running_instances w \<Longrightarrow> wf_instances w' = wf_instances w"
  by (simp add: wf_instances_def active_of_def)

text \<open>Changing the row with an id, when it does not make an inactive row active.\<close>

lemma wf_instances_update:
  assumes wf: "wf_instances w" and rows: "running_instances w' = update_row inst_ID i f (running_instances w)"
    and f: "\<And>x. inst_ID (f x) = inst_ID x" "\<And>x. inst_ProfileID (f x) = inst_ProfileID x"
    and act: "\<And>x. x \<in> set (running_instances w) \<Longrightarrow> inst_ID x = i \<Longrightarrow> active_status (inst_Status (f x)) \<Longrightarrow> active_status (inst_Status x)"
  shows "wf_instances w'"
proof -
  have "length (active_of p w') \<le> length (active_of p w)" for p
    unfolding active_of_def rows update_row_def
    by (rule filter_update_rows_le) (use f act in auto)
  moreover have "primary_key inst_ID (running_instances w')"
    unfolding rows using wf f by (intro pk_table.pk_upd) (simp_all add: wf_instances_def)
  ultimately show ?thesis using wf le_trans unfolding wf_instances_def by blast
qed

lemma wf_instances_add:
  assumes wf: "wf_instances w" and rows: "running_instances w' = running_instances w @ [i]"
    and new: "inst_ID i \<notin> inst_ID ` set (running_instances w)" and none: "active_of (inst_ProfileID i) w = []"
  shows "wf_instances w'"
proof -
  have "length (active_of p w') \<le> 1" for p
  proof (cases "p = inst_ProfileID i")
    case True
    have "active_of p w' = active_of p w @ filter (\<lambda>j. inst_ProfileID j = p \<and> active_status (inst_Status j)) [i]"
      by (simp add: active_of_def rows)
    then show ?thesis using none True by simp
  next
    case False
    then have "active_of p w' = active_of p w" by (simp add: active_of_def rows)
    then show ?thesis using wf by (simp add: wf_instances_def)
  qed
  then show ?thesis using wf new rows by (auto simp: wf_instances_def primary_key_def)
qed

lemma load_dispatch_rows:
  assumes "run_state (load_dispatch a profile node spec) w = (r, w')"
  shows "running_instances w' = running_instances w
    \<or> (\<exists>i. running_instances w' = running_instances w @ [i] \<and> inst_ProfileID i = prof_ID profile
          \<and> inst_ID i \<notin> inst_ID ` set (running_instances w))"
proof -
  let ?w1 = "w\<lparr>tick := Suc (tick w)\<rparr>"
  let ?i = "starting_instance ?w1 (prof_ID profile) node (actor_id a)"
  let ?w2 = "?w1\<lparr>running_instances := running_instances w @ [?i]\<rparr>"
  have p: "inst_ProfileID ?i = prof_ID profile" by (simp add: starting_instance_def)
  obtain at n where lt: "run_state (launchTime ?i) ?w2 = (at, ?w2\<lparr>tick := n\<rparr>)" using launchTime_tick by blast
  show ?thesis
  proof (cases "faults w (tick w) = NoFault \<and> inst_ID ?i \<notin> inst_ID ` set (running_instances w)")
    case False
    then show ?thesis
      using assms p by (auto simp: load_dispatch_def Let_def run_or_return run_inst_Create split: fault.splits if_splits)
  next
    case True
    have upd: "update_row inst_ID (inst_ID ?i) f (running_instances w @ [?i]) = running_instances w @ [f ?i]" for f
      using True by (intro update_row_snoc) simp_all
    from True show ?thesis
      using assms p lt
      by (auto simp: load_dispatch_def Let_def run_or_return run_inst_Create run_Send run_inst_SetStatus run_Record upd
          simp del: error_text.simps split: fault.splits option.splits)
  qed
qed

lemma keeps_LoadInstance: "within keeps_instances (LoadInstance a p)"
proof (rule withinI)
  fix w
  obtain q w1 where ch: "run_state (load_checks a p) w = (q, w1)" by (cases "run_state (load_checks a p) w")
  then obtain n where w1: "w1 = w\<lparr>tick := n\<rparr>" using load_checks_tick by blast
  show "keeps_instances w (snd (run_state (LoadInstance a p) w))"
  proof (cases q)
    case (Inl e)
    then show ?thesis using ch w1 by (simp add: LoadInstance_def run_or_return keeps_instances_def wf_instances_def active_of_def)
  next
    case (Inr t)
    obtain profile node spec where t: "t = (profile, node, spec)" by (cases t)
    obtain r w2 where d: "run_state (load_dispatch a profile node spec) w1 = (r, w2)"
      by (cases "run_state (load_dispatch a profile node spec) w1")
    have "active_of (prof_ID profile) w = []" using load_checks_ok [OF ch [unfolded Inr t]] unfolding load_ready_def by blast
    then have "wf_instances w \<Longrightarrow> wf_instances w2"
      using load_dispatch_rows [OF d] w1 wf_instances_cong [of w2 w] wf_instances_add [of w w2] by auto
    then show ?thesis using ch Inr t d by (simp add: LoadInstance_def run_or_return keeps_instances_def)
  qed
qed

lemma active_running [simp]: "active_status StatusRunning" "active_status StatusStopping" "active_status StatusStarting"
  by (simp_all add: active_status_def)

lemma unload_checks:
  assumes "run_state (UnloadInstance a i) w = (r, w')"
  shows "(\<exists>e n. r = Inl e \<and> w' = w\<lparr>tick := n\<rparr>)
    \<or> (\<exists>x. CanLaunchInstances a \<and> find_row inst_ID i (running_instances w) = Some x \<and> inst_Status x = StatusRunning
         \<and> map_of (conns w) (inst_PrimaryNodeID x) \<noteq> None
         \<and> run_state (unload_dispatch a x) (w\<lparr>tick := Suc (tick w)\<rparr>) = (r, w'))"
  using assms
  by (auto simp: UnloadInstance_def run_or_return run_inst_FindByID run_Connected scanRunningInstance_def
      split: if_splits fault.splits option.splits intro: exI [of _ "tick w"])

lemma unload_rows:
  assumes "run_state (UnloadInstance a i) w = (r, w')"
  shows "running_instances w' = running_instances w
    \<or> (\<exists>x. find_row inst_ID i (running_instances w) = Some x \<and> inst_Status x = StatusRunning
        \<and> (\<exists>n1 n2 m. running_instances w' = update_row inst_ID i (set_status n1 StatusStopping None None) (running_instances w)
             \<or> running_instances w' = update_row inst_ID i (set_status n2 StatusRunning None m)
                 (update_row inst_ID i (set_status n1 StatusStopping None None) (running_instances w))))"
  using unload_checks [OF assms]
proof (elim disjE exE conjE)
  fix x
  assume x: "find_row inst_ID i (running_instances w) = Some x" "inst_Status x = StatusRunning"
    and run: "run_state (unload_dispatch a x) (w\<lparr>tick := Suc (tick w)\<rparr>) = (r, w')"
  have i: "inst_ID x = i" using find_row_SomeD [OF x(1)] by simp
  let ?stop = "\<lambda>n. update_row inst_ID i (set_status n StatusStopping None None) (running_instances w)"
  have "running_instances w' \<in> {running_instances w} \<union> range ?stop
      \<union> {t. \<exists>n1 n2 m. t = update_row inst_ID i (set_status n2 StatusRunning None m) (?stop n1)}"
  proof (cases "faults w (Suc (tick w)) = NoFault")
    case False
    then show ?thesis
      using run by (auto simp: unload_dispatch_def run_or_return run_inst_SetStatus i Let_def split: fault.splits)
  next
    case True
    let ?w2 = "w\<lparr>tick := Suc (Suc (tick w)), running_instances := ?stop (clock w (Suc (Suc (tick w))))\<rparr>"
    obtain s w3 where send: "run_state (Send (inst_PrimaryNodeID x) (NewEnvelope TypeUnloadInstance [] (encode_UnloadInstance i))) ?w2 = (s, w3)"
      by (cases "run_state (Send (inst_PrimaryNodeID x) (NewEnvelope TypeUnloadInstance [] (encode_UnloadInstance i))) ?w2")
    then have w3: "running_instances w3 = ?stop (clock w (Suc (Suc (tick w))))"
      using withinD [OF same_Send send] by (simp add: same_instances_def)
    show ?thesis
    proof (cases s)
      case (Inl e)
      then show ?thesis using run True send w3
        by (auto simp: unload_dispatch_def run_or_return run_inst_SetStatus i Let_def simp del: error_text.simps append.simps
            split: fault.splits) blast+
    next
      case (Inr u)
      then show ?thesis using run True send w3 withinD [OF same_Record]
        by (auto simp: unload_dispatch_def run_or_return run_inst_SetStatus i Let_def run_Record split: fault.splits)
    qed
  qed
  then show ?thesis using x by blast
qed simp

lemma updated_status:
  "y \<in> set (update_row inst_ID i (set_status n s p m) t) \<Longrightarrow> inst_ID y = i \<Longrightarrow> inst_Status y = s"
proof -
  have "list_all (\<lambda>y. inst_ID y = i \<longrightarrow> inst_Status y = s) (update_row inst_ID i (set_status n s p m) t)"
    by (induction t) simp_all
  then show "y \<in> set (update_row inst_ID i (set_status n s p m) t) \<Longrightarrow> inst_ID y = i \<Longrightarrow> inst_Status y = s"
    by (simp add: list_all_iff)
qed

lemma keeps_UnloadInstance: "within keeps_instances (UnloadInstance a i)"
proof (rule withinI)
  fix w
  obtain r w' where run: "run_state (UnloadInstance a i) w = (r, w')" by (cases "run_state (UnloadInstance a i) w")
  have "wf_instances w'" if wf: "wf_instances w"
  proof -
    let ?stop = "\<lambda>n. update_row inst_ID i (set_status n StatusStopping None None) (running_instances w)"
    have one: "wf_instances (w\<lparr>running_instances := ?stop n\<rparr>)"
      if "find_row inst_ID i (running_instances w) = Some x" "inst_Status x = StatusRunning" for n x
    proof (rule wf_instances_update [OF wf, where f = "set_status n StatusStopping None None"])
      fix y assume "y \<in> set (running_instances w)" "inst_ID y = i"
      then have "y = x" using find_row_unique [of inst_ID "running_instances w" y] wf that by (simp add: wf_instances_def)
      then show "active_status (inst_Status y)" using that by simp
    qed simp_all
    have two: "wf_instances (w\<lparr>running_instances := update_row inst_ID i (set_status n2 StatusRunning None m) (?stop n)\<rparr>)"
      if "find_row inst_ID i (running_instances w) = Some x" "inst_Status x = StatusRunning" for n n2 m x
    proof (rule wf_instances_update [OF one [OF that, of n], where f = "set_status n2 StatusRunning None m"])
      fix y assume "y \<in> set (running_instances (w\<lparr>running_instances := ?stop n\<rparr>))" "inst_ID y = i"
      then have "inst_Status y = StatusStopping" using updated_status by simp
      then show "active_status (inst_Status y)" by simp
    qed simp_all
    show ?thesis
      using unload_rows [OF run] wf one two wf_instances_cong [of w' w]
        wf_instances_cong [of w' "w\<lparr>running_instances := running_instances w'\<rparr>"] by auto
  qed
  then show "keeps_instances w (snd (run_state (UnloadInstance a i) w))" by (simp add: run keeps_instances_def)
qed

interpretation keeps_instances: db_step_rel keeps_instances
  by unfold_locales (auto simp: keeps_instances_def wf_instances_def active_of_def)

lemma keeps_of_same: "within same_instances m \<Longrightarrow> within keeps_instances m"
  unfolding within_def same_instances_def keeps_instances_def using wf_instances_cong by blast

lemma keeps_UpdateHealth: "within keeps_instances (inst_UpdateHealth i s c d)"
proof (rule withinI)
  fix w
  have "wf_instances w \<Longrightarrow> running_instances w' = update_row inst_ID i (set_health s c d) (running_instances w) \<Longrightarrow> wf_instances w'" for w'
    by (rule wf_instances_update [where f = "set_health s c d" and i = i]) (simp_all add: set_health_def)
  then show "keeps_instances w (snd (run_state (inst_UpdateHealth i s c d) w))"
    using wf_instances_cong [of "w\<lparr>tick := Suc (tick w)\<rparr>" w]
    by (auto simp: keeps_instances_def run_simps Let_def split: fault.split)
qed

lemma keeps_HandleInstanceHealth: "within keeps_instances (HandleInstanceHealth n env)"
  unfolding HandleInstanceHealth_def Let_def
  by (intro keeps_instances.db_within_rules keeps_UpdateHealth keeps_of_same [OF same_dead_alert(1)]
      keeps_of_same [OF same_dead_alert(2)] keeps_of_same [OF same_instances_reads(1)])

text \<open>
  A result that reports a stopped or failed instance as running makes it active again, which is outside
  what the invariant allows.
\<close>

definition revives :: "envelope \<Rightarrow> world \<Rightarrow> bool" where
  "revives env w \<longleftrightarrow>
     (case decode_InstanceResult env of
        Inl _ \<Rightarrow> False
      | Inr result \<Rightarrow>
          mapInstanceStatus (ir_Status result) = Inr StatusRunning
          \<and> list_ex (\<lambda>i. inst_ID i = ir_InstanceID result \<and> \<not> active_status (inst_Status i)) (running_instances w))"

lemma result_keeps:
  assumes wf: "wf_instances w" and "\<not> revives env w"
  shows "wf_instances (snd (run_state (HandleInstanceResult n env) w))"
proof (cases "env_Type env = TypeInstanceResult \<and> (\<exists>result status. decode_InstanceResult env = Inr result
    \<and> mapInstanceStatus (ir_Status result) = Inr status)")
  case False
  then show ?thesis using wf by (auto simp: HandleInstanceResult_def split: sum.split)
next
  case True
  then obtain result status where d: "env_Type env = TypeInstanceResult" "decode_InstanceResult env = Inr result"
    "mapInstanceStatus (ir_Status result) = Inr status" by blast
  let ?port = "if status = StatusRunning \<and> ir_ActualPort result \<noteq> 0 then Some (ir_ActualPort result) else None"
  let ?msg = "if ir_ErrorMessage result \<noteq> [] then Some (ir_ErrorMessage result) else None"
  obtain q w1 where s: "run_state (inst_SetStatus (ir_InstanceID result) status ?port ?msg) w = (q, w1)"
    by (cases "run_state (inst_SetStatus (ir_InstanceID result) status ?port ?msg) w")
  have only: "status = StatusRunning \<or> \<not> active_status status"
    using d(3) by (auto simp: mapInstanceStatus_def active_status_def split: if_splits)
  have "running_instances w1 = running_instances w \<or> (\<exists>now. running_instances w1 =
      update_row inst_ID (ir_InstanceID result) (set_status now status ?port ?msg) (running_instances w))"
    using s by (auto simp: run_simps Let_def split: fault.splits)
  then have wf1: "wf_instances w1"
  proof
    assume "\<exists>now. running_instances w1 =
      update_row inst_ID (ir_InstanceID result) (set_status now status ?port ?msg) (running_instances w)"
    then obtain now where rows: "running_instances w1 =
      update_row inst_ID (ir_InstanceID result) (set_status now status ?port ?msg) (running_instances w)" ..
    show ?thesis
      by (rule wf_instances_update [OF wf rows]) (use assms(2) only d in \<open>auto simp: revives_def list_ex_iff\<close>)
  qed (use wf wf_instances_cong in blast)
  have "within keeps_instances (if status = StatusStopped \<or> status = StatusFailed
      then resolveInstanceDeadAlert (ir_InstanceID result) else State_Monad.return ())"
    by (intro keeps_instances.db_within_rules keeps_of_same [OF same_dead_alert(2)])
  then have "wf_instances (snd (run_state (if status = StatusStopped \<or> status = StatusFailed
      then resolveInstanceDeadAlert (ir_InstanceID result) else State_Monad.return ()) w1))"
    using wf1 by (simp add: within_def keeps_instances_def)
  then show ?thesis using d s wf1 by (cases q) (simp_all add: HandleInstanceResult_def Let_def)
qed

subsection \<open>The lifecycle as a state machine\<close>

datatype lifecycle_event =
    EvLoad actor load_params
  | EvUnload actor string
  | EvHealth string envelope
  | EvResult string envelope
  | EvReconcile string
  | EvConnect string conn
  | EvDisconnect string conn

fun lifecycle_step :: "lifecycle_event \<Rightarrow> unit io" where
  "lifecycle_step (EvLoad a p) = drop_result (LoadInstance a p)"
| "lifecycle_step (EvUnload a i) = drop_result (UnloadInstance a i)"
| "lifecycle_step (EvHealth n env) = HandleInstanceHealth n env"
| "lifecycle_step (EvResult n env) = HandleInstanceResult n env"
| "lifecycle_step (EvReconcile n) = ReconcileNode n"
| "lifecycle_step (EvConnect n c) = Register n c"
| "lifecycle_step (EvDisconnect n c) = Unregister n c"

fun event_allowed :: "lifecycle_event \<Rightarrow> world \<Rightarrow> bool" where
  "event_allowed (EvResult n env) w = (\<not> revives env w)"
| "event_allowed ev w = True"

inductive lc_steps :: "world \<Rightarrow> world \<Rightarrow> bool" where
  lc_start: "lc_steps w w"
| lc_next: "lc_steps w u \<Longrightarrow> event_allowed ev u \<Longrightarrow> lc_steps w (snd (run_state (lifecycle_step ev) u))"

lemma keeps_drop_result: "within keeps_instances m \<Longrightarrow> within keeps_instances (drop_result m)"
  unfolding drop_result_def by (intro keeps_instances.within_rules)

lemma lifecycle_step_keeps:
  assumes "wf_instances w" and "event_allowed ev w"
  shows "wf_instances (snd (run_state (lifecycle_step ev) w))"
proof (cases "\<exists>n env. ev = EvResult n env")
  case True
  then show ?thesis using assms result_keeps by auto
next
  case False
  then have "within keeps_instances (lifecycle_step ev)"
    using keeps_drop_result [OF keeps_LoadInstance] keeps_drop_result [OF keeps_UnloadInstance]
    by (cases ev) (auto intro: keeps_HandleInstanceHealth keeps_of_same same_ReconcileNode same_conns)
  then show ?thesis using assms(1) by (simp add: within_def keeps_instances_def)
qed

lemma lc_steps_wf: "lc_steps w w' \<Longrightarrow> wf_instances w \<Longrightarrow> wf_instances w'"
  by (induction rule: lc_steps.induct) (auto intro: lifecycle_step_keeps)

text \<open>
  C1. Whatever loads, unloads, agent reports, reconnects and disconnects happen, in whatever order and with
  whatever faults, no profile ever has two active instances, as long as no agent reports as running an
  instance that is already recorded as stopped or failed.
\<close>

theorem one_active_instance:
  assumes "wf_instances w" and "lc_steps w w'"
  shows "length (active_of p w') \<le> 1"
  using lc_steps_wf [OF assms(2,1)] by (simp add: wf_instances_def)

section \<open>Concrete runs\<close>

definition qwen :: profile where
  "qwen = \<lparr>prof_ID = ''p1'', prof_Name = ''Qwen/Qwen3-8B'', prof_ModelRef = ''Qwen/Qwen3-8B'', prof_EngineType = EngineVLLM,
     prof_EngineParams = RawJson (JObj [(''tensor_parallel_size'', JInt 2)]), prof_RequiresFullGPUResidency = True,
     prof_RequiredMemoryGB = None, prof_EngineVersion = None, prof_Quantization = [], prof_Format = FormatSafetensors, prof_Image = None,
     prof_TargetNodeID = Some ''n1'', prof_Port = 8000, prof_CreatedBy = None, prof_CreatedAt = 0, prof_UpdatedBy = None, prof_UpdatedAt = 0\<rparr>"

definition gpu_world :: world where
  "gpu_world = empty_world\<lparr>model_profiles := [qwen], conns := [(''n1'', 1)]\<rparr>"

definition pdev :: actor where
  "pdev = \<lparr>IsSuperAdmin = False, UserID = uuid_of 7, Tier = TierPowerDev\<rparr>"

definition load_qwen :: load_params where
  "load_qwen = \<lparr>lp_ProfileID = ''p1''\<rparr>"

definition qwen_spec :: launch_spec where
  "qwen_spec = \<lparr>ls_Image = vllmImage, ls_Args = [''--tensor-parallel-size'', ''2'', ''--served-model-name=Qwen/Qwen3-8B''],
     ls_ShmSizeBytes = 0, ls_IPCMode = []\<rparr>"

lemma qwen_checks:
  assumes "model_profiles w = [qwen]" "conns w = [(''n1'', 1)]" "active_of ''p1'' w = []"
    "faults w (tick w) = NoFault" "faults w (Suc (tick w)) = NoFault"
  shows "run_state (load_checks pdev load_qwen) w = (Inr (qwen, ''n1'', qwen_spec), w\<lparr>tick := Suc (Suc (tick w))\<rparr>)"
proof -
  have q: "prof_ID qwen = ''p1''" "prof_TargetNodeID qwen = Some ''n1''" "prof_EngineType qwen = EngineVLLM" "prof_Image qwen = None"
    by (simp_all add: qwen_def)
  have spec: "BuildLaunchSpec VllmAdapter (prof_EngineParams qwen) (prof_Name qwen) = Inr qwen_spec"
    and name: "CheckModelID (prof_Name qwen) = Inr ()"
    by code_simp+
  have "CanLaunchInstances pdev" by (simp add: pdev_def CanLaunchInstances_def)
  moreover have "filter (\<lambda>i. inst_ProfileID i = ''p1'' \<and> active_status (inst_Status i)) (running_instances w) = []"
    using assms(3) by (simp add: active_of_def)
  ultimately show ?thesis
    using assms q spec name
    by (simp add: load_checks_def load_validate_def load_qwen_def run_or_return run_prof_FindByID run_inst_FindActive
        run_Connected scanRunningInstance_def Adapter_def)
qed

text \<open>A load of the profile, by how its dispatch and its later writes fare.\<close>

lemma launchTime_set: "inst_StartedAt i \<noteq> 0 \<Longrightarrow> launchTime i = State_Monad.return (inst_StartedAt i)"
  by (simp add: launchTime_def IsZero_def)

definition loaded :: "world \<Rightarrow> running_instance" where
  "loaded w = starting_instance (w\<lparr>tick := Suc (Suc (Suc (tick w)))\<rparr>) ''p1'' ''n1'' (Some (uuid_of 7))"

lemma load_qwen_run:
  fixes w defines "n \<equiv> tick w"
  assumes w: "model_profiles w = [qwen]" "conns w = [(''n1'', 1)]" "active_of ''p1'' w = []"
    and nf: "faults w n = NoFault" "faults w (Suc n) = NoFault" "faults w (Suc (Suc n)) = NoFault"
      "faults w (Suc (Suc (Suc (Suc n)))) = NoFault"
    and new: "inst_ID (loaded w) \<notin> inst_ID ` set (running_instances w)" and t: "inst_StartedAt (loaded w) \<noteq> 0"
    and send: "faults w (Suc (Suc (Suc n))) = NoFault \<or> faults w (Suc (Suc (Suc n))) = Ambiguous e"
  obtains r w' where "run_state (LoadInstance pdev load_qwen) w = (r, w')"
    and "model_profiles w' = [qwen]" "conns w' = [(''n1'', 1)]" "faults w' = faults w" "clock w' = clock w" "uuids w' = uuids w"
    and "tick w' = Suc (Suc (Suc (Suc (Suc n))))"
    and "running_instances w' = running_instances w @ [if faults w (Suc (Suc (Suc n))) = NoFault then loaded w
           else set_status (clock w (Suc (Suc (Suc (Suc (Suc n)))))) StatusFailed None
             (Some (error_text (Wrap (''dispatch load_instance to node '' @ ''n1'') (Wrap ''write to node'' (ErrIO e))))) (loaded w)]"
    and "faults w (Suc (Suc (Suc n))) = NoFault \<Longrightarrow> r = Inr (loaded w)"
proof -
  have q: "prof_ID qwen = ''p1''" by (simp add: qwen_def)
  have aid: "actor_id pdev = Some (uuid_of 7)" by (simp add: actor_id_def pdev_def)
  have upd: "update_row inst_ID (inst_ID (loaded w)) f (running_instances w @ [loaded w]) = running_instances w @ [f (loaded w)]" for f
    using new by (intro update_row_snoc) simp_all
  note simps = LoadInstance_def load_dispatch_def Let_def run_or_return run_inst_Create run_Send run_inst_SetStatus run_Record
    qwen_checks [OF w nf(1,2) [unfolded n_def]] q aid launchTime_set upd [unfolded loaded_def]
  show ?thesis
  proof (rule that)
    show "run_state (LoadInstance pdev load_qwen) w = (fst (run_state (LoadInstance pdev load_qwen) w), snd (run_state (LoadInstance pdev load_qwen) w))"
      by simp
  qed (use nf send new t w in \<open>auto simp: simps loaded_def n_def simp del: error_text.simps append.simps\<close>)
qed

lemma gpu_world_simps:
  "model_profiles gpu_world = [qwen]" "conns gpu_world = [(''n1'', 1)]" "running_instances gpu_world = []" "active_of p gpu_world = []"
  "tick gpu_world = 0" "faults gpu_world = (\<lambda>_. NoFault)"
  by (simp_all add: gpu_world_def empty_world_def active_of_def)

theorem load_outcomes_witness:
  "\<exists>i. fst (run_state (LoadInstance pdev load_qwen) gpu_world) = Inr i
     \<and> running_instances (snd (run_state (LoadInstance pdev load_qwen) gpu_world)) = [i]"
proof -
  have one: "one_lost_call gpu_world" by (simp add: one_lost_call_def gpu_world_simps)
  have t: "inst_StartedAt (loaded gpu_world) \<noteq> 0" by code_simp
  obtain r w' where run: "run_state (LoadInstance pdev load_qwen) gpu_world = (r, w')"
    and i: "r = Inr (loaded gpu_world)"
    by (rule load_qwen_run [of gpu_world]) (simp_all add: gpu_world_simps t)
  show ?thesis using load_outcomes [OF one run] run i gpu_world_simps by (auto simp: load_outcome_def)
qed

lemma loaded_simps:
  "inst_ID (loaded w) = db_uuid (w\<lparr>tick := Suc (Suc (Suc (tick w)))\<rparr>)" "inst_Status (loaded w) = StatusStarting"
  "inst_ProfileID (loaded w) = ''p1''" "inst_StartedAt (loaded w) = db_now (w\<lparr>tick := Suc (Suc (Suc (tick w)))\<rparr>)"
  by (simp_all add: loaded_def starting_instance_def)


definition lossy_world :: world where
  "lossy_world = gpu_world\<lparr>faults := (\<lambda>n. if n = 3 then Ambiguous ''connection reset'' else NoFault)\<rparr>"

theorem one_active_instance_witness:
  "length (active_of ''p1'' (snd (run_state (lifecycle_step (EvLoad pdev load_qwen))
     (snd (run_state (lifecycle_step (EvLoad pdev load_qwen)) gpu_world))))) \<le> 1"
proof (rule one_active_instance)
  show "wf_instances gpu_world"
    by (simp add: wf_instances_def primary_key_def active_of_def gpu_world_def empty_world_def)
  show "lc_steps gpu_world (snd (run_state (lifecycle_step (EvLoad pdev load_qwen))
     (snd (run_state (lifecycle_step (EvLoad pdev load_qwen)) gpu_world))))"
    by (intro lc_next lc_start) simp_all
qed

definition running_result :: "string \<Rightarrow> envelope" where
  "running_result i = NewEnvelope TypeInstanceResult []
     (encode_InstanceResult \<lparr>ir_InstanceID = i, ir_Status = ''running'', ir_ActualPort = 8000, ir_ErrorMessage = []\<rparr>)"

text \<open>
  The condition on results is needed. When the load message reaches the agent but the write reports an
  error (call 3), the first instance is marked failed, a second load is accepted, and the agent's
  \<^verbatim>\<open>running\<close> result for the first instance revives it: the profile then has two active instances.
\<close>

theorem late_result_makes_two_active:
  "length (active_of ''p1'' (snd (run_state
     (for_each lifecycle_step [EvLoad pdev load_qwen, EvLoad pdev load_qwen, EvResult ''n1'' (running_result (uuid_of 3))])
     lossy_world))) = 2"
proof -
  have w: "model_profiles lossy_world = [qwen]" "conns lossy_world = [(''n1'', 1)]" "running_instances lossy_world = []"
    "active_of ''p1'' lossy_world = []" "tick lossy_world = 0" "uuids lossy_world = uuid_of"
    "faults lossy_world n = (if n = 3 then Ambiguous ''connection reset'' else NoFault)"
    "clock lossy_world n = 63900000000000000000 + int n" for n
    by (simp_all add: lossy_world_def gpu_world_def empty_world_def active_of_def)
  have id: "uuid_of 8 \<noteq> uuid_of 3" by code_simp
  obtain r1 w1 where run1: "run_state (LoadInstance pdev load_qwen) lossy_world = (r1, w1)"
    and m1: "model_profiles w1 = [qwen]" "conns w1 = [(''n1'', 1)]" "faults w1 = faults lossy_world"
      "clock w1 = clock lossy_world" "uuids w1 = uuid_of" "tick w1 = 5"
    and x: "\<exists>x. running_instances w1 = [x] \<and> inst_ID x = uuid_of 3 \<and> inst_Status x = StatusFailed \<and> inst_ProfileID x = ''p1''"
    by (rule load_qwen_run [of lossy_world "''connection reset''"])
      (simp_all add: w loaded_simps db_uuid_def db_now_def eval_nat_numeral del: error_text.simps)
  then obtain x where x: "running_instances w1 = [x]" "inst_ID x = uuid_of 3" "inst_Status x = StatusFailed" "inst_ProfileID x = ''p1''"
    by auto
  obtain r2 w2 where run2: "run_state (LoadInstance pdev load_qwen) w1 = (r2, w2)"
    and m2: "faults w2 = faults lossy_world" "tick w2 = 10"
    and y: "running_instances w2 = [x, loaded w1]" "inst_ID (loaded w1) = uuid_of 8"
    by (rule load_qwen_run [of w1])
      (simp_all add: w m1 x active_of_def active_status_def loaded_simps db_uuid_def db_now_def id del: error_text.simps)
  have "decode_InstanceResult (running_result (uuid_of 3)) =
      Inr \<lparr>ir_InstanceID = uuid_of 3, ir_Status = ''running'', ir_ActualPort = 8000, ir_ErrorMessage = []\<rparr>"
    by code_simp
  moreover have "env_Type (running_result (uuid_of 3)) = TypeInstanceResult" by (simp add: running_result_def NewEnvelope_def)
  ultimately have "active_of ''p1'' (snd (run_state (HandleInstanceResult ''n1'' (running_result (uuid_of 3))) w2))
      = [set_status (clock w2 11) StatusRunning (Some 8000) None x, loaded w1]"
    using id x y by (simp add: loaded_simps(2,3) HandleInstanceResult_def mapInstanceStatus_def run_inst_SetStatus m2 w active_of_def active_status_def update_row_def update_rows_def)
  then show ?thesis using run1 run2 by (simp add: drop_result_def)
qed

section \<open>Unloading\<close>

definition unload_outcome :: "actor \<Rightarrow> running_instance \<Rightarrow> world \<Rightarrow> running_instance res \<Rightarrow> world \<Rightarrow> bool" where
  "unload_outcome a x w r w' \<longleftrightarrow>
     (let stopping = (\<exists>now. running_instances w' = update_row inst_ID (inst_ID x) (set_status now StatusStopping None None) (running_instances w));
          told = (\<exists>c. map_of (conns w) (inst_PrimaryNodeID x) = Some c \<and>
                    sent w' = sent w @ [(c, NewEnvelope TypeUnloadInstance [] (encode_UnloadInstance (inst_ID x)))])
      in case r of
           Inr i \<Rightarrow> i = x\<lparr>inst_Status := StatusStopping\<rparr> \<and> stopping \<and> told
             \<and> (\<exists>rec. audit_log w' = audit_log w @ [rec] \<and> audit_Action rec = ''unloaded_model''
                  \<and> audit_ActorID rec = actor_id a \<and> audit_ObjectID rec = inst_ID x)
         | Inl e \<Rightarrow> audit_log w' = audit_log w \<and>
             (running_instances w' = running_instances w \<and> sent w' = sent w
              \<or> running_instances w' = update_row inst_ID (inst_ID x) (\<lambda>i. i\<lparr>inst_ErrorMessage := Some (error_text e)\<rparr>) (running_instances w)
                \<and> sent w' = sent w
              \<or> (\<exists>e'. e = Wrap ''record audit'' e') \<and> stopping \<and> told))"

text \<open>Stopping and then running again only leaves the error message behind.\<close>

lemma stop_run_row:
  "inst_Status x = StatusRunning \<Longrightarrow>
   set_status n2 StatusRunning None m (set_status n1 StatusStopping None None x) = x\<lparr>inst_ErrorMessage := m\<rparr>"
  by (cases x) (auto simp: set_status_def Let_def isTerminalRunningInstanceStatus_def split: option.split)

lemma stop_run_rows:
  assumes pk: "primary_key inst_ID t" and x: "find_row inst_ID i t = Some x" "inst_Status x = StatusRunning"
  shows "update_row inst_ID i (set_status n2 StatusRunning None m) (update_row inst_ID i (set_status n1 StatusStopping None None) t)
       = update_row inst_ID i (\<lambda>y. y\<lparr>inst_ErrorMessage := m\<rparr>) t"
proof (rule find_row_ext [where key = inst_ID])
  show "map inst_ID (update_row inst_ID i (set_status n2 StatusRunning None m) (update_row inst_ID i (set_status n1 StatusStopping None None) t))
      = map inst_ID (update_row inst_ID i (\<lambda>y. y\<lparr>inst_ErrorMessage := m\<rparr>) t)"
    by (simp add: pk_table.keys_upd)
  show "distinct (map inst_ID (update_row inst_ID i (set_status n2 StatusRunning None m) (update_row inst_ID i (set_status n1 StatusStopping None None) t)))"
    using pk by (simp add: pk_table.keys_upd primary_key_def)
  show "find_row inst_ID k (update_row inst_ID i (set_status n2 StatusRunning None m) (update_row inst_ID i (set_status n1 StatusStopping None None) t))
      = find_row inst_ID k (update_row inst_ID i (\<lambda>y. y\<lparr>inst_ErrorMessage := m\<rparr>) t)" for k
    using x stop_run_row [OF x(2), of n2 m n1] by (simp add: pk_table.fnd_upd)
qed

lemma unload_dispatch_outcome:
  assumes one: "one_lost_call w" and pk: "primary_key inst_ID (running_instances w)"
    and x: "find_row inst_ID (inst_ID x) (running_instances w) = Some x" "inst_Status x = StatusRunning"
    and conn: "map_of (conns w) (inst_PrimaryNodeID x) \<noteq> None"
    and run: "run_state (unload_dispatch a x) w = (r, w')"
  shows "unload_outcome a x w r w'"
proof -
  obtain c where c: "map_of (conns w) (inst_PrimaryNodeID x) = Some c" using conn by auto
  have lost: "faults w m = NoFault" if "faults w n = Lost e" "m \<noteq> n" for m n e
    using one_lost_callD [OF one, of n m] that by simp
  consider (set) e where "faults w (tick w) = Lost e"
    | (send) e where "faults w (tick w) = NoFault" "faults w (Suc (tick w)) = Lost e"
    | (fine) "faults w (tick w) = NoFault" "faults w (Suc (tick w)) = NoFault"
    using one by (cases "faults w (tick w)"; cases "faults w (Suc (tick w))") auto
  then show ?thesis
  proof cases
    case set
    then show ?thesis using run by (auto simp: unload_dispatch_def run_or_return run_inst_SetStatus Let_def unload_outcome_def)
  next
    case send
    let ?err = "Wrap (''dispatch unload_instance to node '' @ inst_PrimaryNodeID x) (Wrap ''write to node'' (ErrIO e))"
    have "r = Inl ?err \<and> running_instances w' =
        update_row inst_ID (inst_ID x) (\<lambda>i. i\<lparr>inst_ErrorMessage := Some (error_text ?err)\<rparr>) (running_instances w)
        \<and> sent w' = sent w \<and> audit_log w' = audit_log w"
      using run send c lost [OF send(2), of "Suc (Suc (tick w))"] stop_run_rows [OF pk x]
      by (auto simp: unload_dispatch_def run_or_return run_inst_SetStatus run_Send Let_def simp del: error_text.simps append.simps)
    then show ?thesis by (simp add: unload_outcome_def del: error_text.simps append.simps)
  next
    case fine
    then show ?thesis using run c one
      by (auto simp: unload_dispatch_def run_or_return run_inst_SetStatus run_Send run_Record Let_def unload_outcome_def new_record_def
          split: fault.splits)
  qed
qed

text \<open>
  C18. The outcome of an unload, when at most one call fails and had no effect. Success means the actor may
  launch, the instance was running on a connected node, is now stopping, exactly one unload message was
  sent there and exactly one record appended. An error means nothing changed, or the dispatch failed and
  the instance is running as before with the error's text (so that it can be unloaded again), or (only when
  the audit write failed) the unload was dispatched but not audited.
\<close>

theorem unload_outcomes:
  assumes one: "one_lost_call w" and pk: "primary_key inst_ID (running_instances w)"
    and run: "run_state (UnloadInstance a i) w = (r, w')"
  shows "(\<exists>e. r = Inl e) \<and> running_instances w' = running_instances w \<and> sent w' = sent w \<and> audit_log w' = audit_log w
    \<or> (\<exists>x. CanLaunchInstances a \<and> find_row inst_ID i (running_instances w) = Some x \<and> inst_Status x = StatusRunning
         \<and> unload_outcome a x w r w')"
  using unload_checks [OF run]
proof (elim disjE exE conjE)
  fix x
  let ?w1 = "w\<lparr>tick := Suc (tick w)\<rparr>"
  assume x: "CanLaunchInstances a" "find_row inst_ID i (running_instances w) = Some x" "inst_Status x = StatusRunning"
    and c: "map_of (conns w) (inst_PrimaryNodeID x) \<noteq> None" and d: "run_state (unload_dispatch a x) ?w1 = (r, w')"
  have one1: "one_lost_call ?w1" using one one_lost_call_cong [of ?w1 w] by simp
  have "inst_ID x = i" using find_row_SomeD [OF x(2)] by simp
  then have "unload_outcome a x ?w1 r w'"
    using unload_dispatch_outcome [OF one1 _ _ x(3) _ d] pk x(2) c by simp
  then have "unload_outcome a x w r w'" by (simp add: unload_outcome_def cong: sum.case_cong)
  then show ?thesis using x by blast
qed auto

definition serving :: world where
  "serving = gpu_world\<lparr>running_instances :=
     [(starting_instance gpu_world ''p1'' ''n1'' None)\<lparr>inst_Status := StatusRunning, inst_ActualPort := Some 8000\<rparr>]\<rparr>"

theorem unload_outcomes_witness:
  "length (sent (snd (run_state (UnloadInstance pdev (uuid_of 0)) serving))) = 1"
proof -
  obtain r w' where run: "run_state (UnloadInstance pdev (uuid_of 0)) serving = (r, w')"
    by (cases "run_state (UnloadInstance pdev (uuid_of 0)) serving")
  have one: "one_lost_call serving" by (simp add: one_lost_call_def serving_def gpu_world_def empty_world_def)
  have pk: "primary_key inst_ID (running_instances serving)" by (simp add: primary_key_def serving_def)
  have "case fst (run_state (UnloadInstance pdev (uuid_of 0)) serving) of Inr _ \<Rightarrow> True | Inl _ \<Rightarrow> False" by code_simp
  then obtain i where i: "r = Inr i" using run by (auto split: sum.splits)
  have "sent serving = []" by (simp add: serving_def gpu_world_def empty_world_def)
  then show ?thesis using unload_outcomes [OF one pk run] run i by (auto simp: unload_outcome_def)
qed

section \<open>The alert about a dead instance\<close>

lemma runes_length: "length (runes s) \<le> length s"
proof (induction s rule: runes.induct)
  case (1 s)
  show ?case
  proof (cases "s = []")
    case False
    obtain r n where d: "decode_rune s = (r, n)" by (cases "decode_rune s")
    then have n: "0 < n" using decode_rune_width [of s] by simp
    have "length (runes (drop n s)) \<le> length (drop n s)" using "1.IH" [OF False d [symmetric]] by blast
    then have "Suc (length (runes (drop n s))) \<le> length s" using n False by (cases s) auto
    then show ?thesis using False d by (simp add: runes.simps [of s])
  qed (simp add: runes.simps)
qed

lemma alnum_code:
  assumes "is_alnum c"
  shows "48 \<le> (of_char c :: int) \<and> (of_char c :: int) \<le> 122"
proof -
  have "48 \<le> (of_char c :: nat) \<and> (of_char c :: nat) \<le> 122"
    using assms by (auto simp: is_alnum_def less_eq_char_def)
  then have "48 \<le> int (of_char c :: nat) \<and> int (of_char c :: nat) \<le> 122" by linarith
  then show ?thesis by (simp only: of_nat_of_char)
qed

lemma not_blank: "is_alnum c \<Longrightarrow> \<not> blank (c # s)"
  using alnum_code [of c]
  by (auto simp: blank_def runes.simps [of "c # s"] decode_rune_def byte_def IsSpace_def Let_def)

lemma split_on_length: "sum_list (map length (split_on d s)) + length (split_on d s) = Suc (length s)"
  by (induction d s rule: split_on.induct) (auto split: list.splits)

lemma dead_alert_valid:
  assumes "name = ''An instance'' \<or> ValidModelID name" and "uuidPattern i"
    and "case inst_StartedBy x of None \<Rightarrow> True | Some u \<Rightarrow> uuidPattern u"
  shows "alert_Validate (dead_alert name x i) = Inr ()"
proof -
  have name: "length name \<le> 64 \<and> name \<noteq> [] \<and> is_alnum (hd name)"
    using assms(1) by (cases name) (auto simp: ValidModelID_def MaxModelIDLength_def is_alnum_def)
  then have "\<not> blank (name @ '' is no longer running'')"
    using not_blank [of "hd name" "tl name @ '' is no longer running''"] by (cases name) auto
  moreover have "RuneCountInString (name @ '' is no longer running'') \<le> 200"
    using runes_length [of "name @ '' is no longer running''"] name by (simp add: RuneCountInString_def)
  moreover have "RuneCountInString dead_body \<le> 2000"
    using runes_length [of dead_body] by (simp add: RuneCountInString_def dead_body_def)
  moreover have "length i = 36" 
    using assms(2) split_on_length [of "CHR ''-''" i] by (auto simp: uuidPattern_def Let_def dest: arg_cong [where f = length])
  moreover have "kindPattern ''instance_dead''" "objectTypePattern ''running_instance''" by code_simp+
  moreover have "check_audiences (rp_Audiences (dead_alert name x i)) = Inr ()"
    using assms(3) by (auto simp: dead_alert_def split: option.splits)
  ultimately show ?thesis using assms(2)
    by (auto simp: alert_Validate_def dead_alert_def Rank_def MaxTitleLen_def MaxBodyLen_def instanceDeadAlertKey_def)
qed

text \<open>What an alert about a dead instance needs from the rows: ids are UUIDs, and profile names are model ids.\<close>

definition alertable :: "running_instance \<Rightarrow> world \<Rightarrow> bool" where
  "alertable x w \<longleftrightarrow> uuidPattern (inst_ID x) \<and> (case inst_StartedBy x of None \<Rightarrow> True | Some u \<Rightarrow> uuidPattern u)
     \<and> (case find_row prof_ID (inst_ProfileID x) (model_profiles w) of None \<Rightarrow> True | Some p \<Rightarrow> ValidModelID (prof_Name p))"

definition dead_alert_open :: "running_instance \<Rightarrow> world \<Rightarrow> bool" where
  "dead_alert_open x w \<longleftrightarrow>
     (\<exists>al. filter (open_with_key (instanceDeadAlertKey (inst_ID x))) (alerts w) = [al]
        \<and> (alert_ID al, AudienceTier TierAdmin) \<in> set (alert_audiences w)
        \<and> (case inst_StartedBy x of None \<Rightarrow> True | Some u \<Rightarrow> (alert_ID al, AudienceUser u) \<in> set (alert_audiences w)))"

lemma raise_dead_effect:
  assumes nf: "\<And>n. faults w n = NoFault" and fresh: "fresh_uuids w" and wf: "wf_alerts w"
    and x: "find_row inst_ID i (running_instances w) = Some x" and ok: "alertable x w"
  shows "dead_alert_open x (snd (run_state (raiseInstanceDeadAlert i) w))"
proof -
  let ?w = "w\<lparr>tick := Suc (Suc (tick w))\<rparr>"
  let ?name = "case find_row prof_ID (inst_ProfileID x) (model_profiles w) of None \<Rightarrow> ''An instance'' | Some p \<Rightarrow> prof_Name p"
  let ?p = "dead_alert ?name x i"
  have i: "inst_ID x = i" using find_row_SomeD [OF x] by simp
  have valid: "alert_Validate ?p = Inr ()"
    by (rule dead_alert_valid) (use ok i in \<open>auto simp: alertable_def split: option.splits\<close>)
  obtain res w1 where r: "run_state (repo_Raise (new_alert_of ?p)) ?w = (Inr res, w1)"
    using repo_Raise_progress [of ?w "new_alert_of ?p"] nf fresh Validate_acceptable [OF valid] by (auto simp: fresh_uuids_def)
  have key: "na_DedupeKey (new_alert_of ?p) = Some (instanceDeadAlertKey i)"
    by (simp add: new_alert_of_def dead_alert_def optional_def instanceDeadAlertKey_def)
  have "wf_alerts ?w" using wf by simp
  then have "raise_effect (new_alert_of ?p) (instanceDeadAlertKey i) res w1"
    using raise_attempts_effect [OF key] r unfolding repo_Raise_def by blast
  then have "dead_alert_open x w1"
    by (auto simp: raise_effect_def dead_alert_open_def i new_alert_of_def dead_alert_def split: option.split)
  moreover have "alerts (snd (run_state (raiseInstanceDeadAlert i) w)) = alerts w1
      \<and> alert_audiences (snd (run_state (raiseInstanceDeadAlert i) w)) = alert_audiences w1"
    using nf x r valid
    by (cases "find_row prof_ID (inst_ProfileID x) (model_profiles w)")
      (simp_all add: raiseInstanceDeadAlert_def run_simps scanRunningInstance_def Raise_def changed_def AlertRaised_def)
  ultimately show ?thesis by (simp add: dead_alert_open_def cong: option.case_cong)
qed

lemma resolve_dead_effect:
  assumes "faults w (tick w) = NoFault"
  shows "filter (open_with_key (instanceDeadAlertKey i)) (alerts (snd (run_state (resolveInstanceDeadAlert i) w))) = []"
proof -
  have "alerts (snd (run_state (resolveInstanceDeadAlert i) w)) =
      update_rows (open_with_key (instanceDeadAlertKey i)) (close_cleared (clock w (Suc (tick w)))) (alerts w)"
    using assms by (simp add: resolveInstanceDeadAlert_def ResolveCondition_def ResolveByDedupeKey_def run_simps close_where_def
        changed_if_def changed_def db_now_def)
  then show ?thesis by (auto simp: update_rows_def filter_empty_conv)
qed

lemma health_row:
  assumes "find_row inst_ID i (running_instances w) = Some x"
  shows "find_row inst_ID i (update_row inst_ID i (set_health s c d) (running_instances w)) = Some (set_health s c d x)"
  using assms by (simp add: pk_table.fnd_upd)

lemma dead_alert_open_set_health: "dead_alert_open (set_health s c d x) w = dead_alert_open x w"
  by (simp add: dead_alert_open_def set_health_def)

lemma alertable_set_health: "alertable (set_health s c d x) w = alertable x w"
  by (simp add: alertable_def set_health_def)

lemmas health_simps =
  HandleInstanceHealth_def mapHealthStatus_def run_inst_FindByID run_inst_UpdateHealth scanRunningInstance_def Let_def

text \<open>
  C19. The alert about a dead instance follows its health. Without faults, with fresh ids and rows an alert can
  name, a well-formed report about a known instance always stores the reported health; a report that it died
  leaves exactly one open alert for it, addressed to the Admin tier and to whoever started it; a repeated one
  changes no alert; and a report that it is alive again leaves none open.
\<close>

theorem dead_alert_follows_health:
  assumes nf: "\<And>n. faults w n = NoFault" and fresh: "fresh_uuids w" and wf: "wf_alerts w"
    and env: "env_Type env = TypeInstanceHealth" "decode_InstanceHealth env = Inr health"
    and x: "find_row inst_ID (ih_InstanceID health) (running_instances w) = Some x" and ok: "alertable x w"
    and s: "mapHealthStatus (ih_Status health) = Inr status"
    and w': "w' = snd (run_state (HandleInstanceHealth n env) w)"
  shows "running_instances w' = update_row inst_ID (ih_InstanceID health)
      (set_health status (ih_CheckedAt health) (if ih_Detail health \<noteq> [] then Some (ih_Detail health) else None))
      (running_instances w)
    \<and> (if status \<noteq> HealthDead then filter (open_with_key (instanceDeadAlertKey (inst_ID x))) (alerts w') = []
       else if inst_HealthStatus x \<noteq> HealthDead then dead_alert_open x w' else alerts w' = alerts w)"
proof -
  let ?i = "ih_InstanceID health"
  let ?set = "set_health status (ih_CheckedAt health) (if ih_Detail health \<noteq> [] then Some (ih_Detail health) else None)"
  define w1 where "w1 = w\<lparr>tick := tick w + (if status = HealthDead then 2 else 1),
    running_instances := update_row inst_ID ?i ?set (running_instances w)\<rparr>"
  have run: "w' = (if status \<noteq> HealthDead then snd (run_state (resolveInstanceDeadAlert ?i) w1)
      else if inst_HealthStatus x \<noteq> HealthDead then snd (run_state (raiseInstanceDeadAlert ?i) w1) else w1)"
    using nf env x s by (simp add: w' w1_def health_simps)
  have same: "running_instances (snd (run_state m w1)) = running_instances w1" if "within same_instances m" for m
    using that by (simp add: within_def same_instances_def)
  have rows: "running_instances w' = update_row inst_ID ?i ?set (running_instances w)"
    unfolding run by (simp add: same [OF same_dead_alert(1)] same [OF same_dead_alert(2)]) (simp add: w1_def)
  have "dead_alert_open (?set x) (snd (run_state (raiseInstanceDeadAlert ?i) w1))"
  proof (rule raise_dead_effect)
    show "find_row inst_ID ?i (running_instances w1) = Some (?set x)" using health_row [OF x] by (simp add: w1_def)
    show "alertable (?set x) w1" unfolding alertable_set_health using ok by (simp add: alertable_def w1_def)
  qed (use nf fresh wf in \<open>simp_all add: w1_def fresh_uuids_def wf_alerts_def\<close>)
  then have raised: "dead_alert_open x (snd (run_state (raiseInstanceDeadAlert ?i) w1))"
    by (simp only: dead_alert_open_set_health)
  have "inst_ID x = ?i" using find_row_SomeD [OF x] by simp
  moreover have "faults w1 (tick w1) = NoFault" and kept: "alerts w1 = alerts w" using nf by (simp_all add: w1_def)
  ultimately have "if status \<noteq> HealthDead then filter (open_with_key (instanceDeadAlertKey (inst_ID x))) (alerts w') = []
       else if inst_HealthStatus x \<noteq> HealthDead then dead_alert_open x w' else alerts w' = alerts w"
    using raised resolve_dead_effect [of w1 ?i] by (simp add: run)
  with rows show ?thesis by (rule conjI)
qed

definition died :: envelope where
  "died = NewEnvelope TypeInstanceHealth []
     (JObj [(''instance_id'', JStr zeroUUID), (''status'', JStr ''dead''), (''checked_at'', JStr ''2026-01-01T00:00:00Z'')])"

definition dying :: world where
  "dying = gpu_world\<lparr>running_instances :=
     [(starting_instance gpu_world ''p1'' ''n1'' None)\<lparr>inst_ID := zeroUUID, inst_Status := StatusRunning\<rparr>]\<rparr>"

theorem dead_alert_follows_health_witness:
  "length (filter (open_with_key (instanceDeadAlertKey zeroUUID)) (alerts (snd (run_state (HandleInstanceHealth ''n1'' died) dying)))) = 1"
proof -
  let ?x = "(starting_instance gpu_world ''p1'' ''n1'' None)\<lparr>inst_ID := zeroUUID, inst_Status := StatusRunning\<rparr>"
  obtain health where h: "decode_InstanceHealth died = Inr health" "ih_InstanceID health = zeroUUID" "ih_Status health = ''dead''"
  proof -
    have "case decode_InstanceHealth died of Inr h \<Rightarrow> ih_InstanceID h = zeroUUID \<and> ih_Status h = ''dead'' | Inl _ \<Rightarrow> False"
      by code_simp
    then show ?thesis using that by (cases "decode_InstanceHealth died") auto
  qed
  have v: "ValidModelID (prof_Name qwen)" "uuidPattern zeroUUID" by code_simp+
  have rows: "running_instances dying = [?x]" by (simp add: dying_def)
  have q: "model_profiles dying = [qwen]" by (simp add: dying_def gpu_world_def)
  have nf: "faults dying n = NoFault" for n by (simp add: dying_def gpu_world_def empty_world_def)
  have fresh: "fresh_uuids dying" and wf: "wf_alerts dying"
    by (simp_all add: fresh_uuids_def wf_alerts_def one_open_per_key_def primary_key_def dying_def gpu_world_def empty_world_def)
  have ty: "env_Type died = TypeInstanceHealth" by (simp add: died_def NewEnvelope_def)
  have fx: "find_row inst_ID (ih_InstanceID health) (running_instances dying) = Some ?x" using h rows by (simp add: find_row_def)
  have al: "alertable ?x dying" using v q by (simp add: alertable_def starting_instance_def find_row_def)
  have st: "mapHealthStatus (ih_Status health) = Inr HealthDead" using h by (simp add: mapHealthStatus_def)
  from dead_alert_follows_health [OF nf fresh wf ty h(1) fx al st refl, of "''n1''"] show ?thesis
    by (auto simp: dead_alert_open_def starting_instance_def)
qed

section \<open>Results and malformed reports\<close>

definition understood :: "string \<Rightarrow> (envelope \<Rightarrow> 'p res) \<Rightarrow> ('p \<Rightarrow> 's res) \<Rightarrow> envelope \<Rightarrow> ('p \<times> 's) option" where
  "understood ty dec st env =
     (if env_Type env \<noteq> ty then None
      else case dec env of Inl _ \<Rightarrow> None | Inr p \<Rightarrow> (case st p of Inl _ \<Rightarrow> None | Inr s \<Rightarrow> Some (p, s)))"

text \<open>
  C20. What an agent's result does. A message of another type, with a payload that does not decode or with an
  unknown status changes nothing. An understood one, without faults, writes exactly the row it names: the
  status, the port only for a running instance, the error text if there is one; a terminal status also closes
  the alert that the instance is dead, and a running one leaves the alerts alone.
\<close>

theorem result_applied:
  assumes "\<And>n. faults w n = NoFault" and w': "w' = snd (run_state (HandleInstanceResult n env) w)"
  shows "case understood TypeInstanceResult decode_InstanceResult (\<lambda>r. mapInstanceStatus (ir_Status r)) env of
      None \<Rightarrow> w' = w
    | Some (res, status) \<Rightarrow>
        running_instances w' = update_row inst_ID (ir_InstanceID res)
          (set_status (clock w (Suc (tick w))) status
             (if status = StatusRunning \<and> ir_ActualPort res \<noteq> 0 then Some (ir_ActualPort res) else None)
             (optional (ir_ErrorMessage res))) (running_instances w)
        \<and> (if isTerminalRunningInstanceStatus status
           then filter (open_with_key (instanceDeadAlertKey (ir_InstanceID res))) (alerts w') = []
           else alerts w' = alerts w)
        \<and> audit_log w' = audit_log w \<and> sent w' = sent w"
proof (cases "understood TypeInstanceResult decode_InstanceResult (\<lambda>r. mapInstanceStatus (ir_Status r)) env")
  case None
  then have "w' = w"
    by (auto simp: w' HandleInstanceResult_def understood_def split: if_splits sum.splits)
  then show ?thesis using None by simp
next
  case (Some rs)
  obtain res status where rs: "rs = (res, status)" by (cases rs)
  then have d: "env_Type env = TypeInstanceResult" "decode_InstanceResult env = Inr res"
    "mapInstanceStatus (ir_Status res) = Inr status"
    using Some by (auto simp: understood_def split: if_splits sum.splits)
  let ?set = "set_status (clock w (Suc (tick w))) status
     (if status = StatusRunning \<and> ir_ActualPort res \<noteq> 0 then Some (ir_ActualPort res) else None) (optional (ir_ErrorMessage res))"
  define w1 where "w1 = w\<lparr>tick := Suc (tick w), running_instances := update_row inst_ID (ir_InstanceID res) ?set (running_instances w)\<rparr>"
  let ?close = "resolveInstanceDeadAlert (ir_InstanceID res)"
  have terminal: "isTerminalRunningInstanceStatus status \<longleftrightarrow> status = StatusStopped \<or> status = StatusFailed"
    by (cases status) (simp_all add: isTerminalRunningInstanceStatus_def)
  have run: "w' = (if isTerminalRunningInstanceStatus status then snd (run_state ?close w1) else w1)"
    using assms d
    by (simp add: HandleInstanceResult_def run_inst_SetStatus Let_def w1_def terminal optional_def if_distrib [of "\<lambda>b. \<not> b"] cong: if_cong)
  have "running_instances (snd (run_state ?close w1)) = running_instances w1"
    using same_dead_alert(2) by (simp add: within_def same_instances_def)
  moreover have "audit_log (snd (run_state ?close w1)) = audit_log w1 \<and> sent (snd (run_state ?close w1)) = sent w1"
    using assms(1) by (simp add: resolveInstanceDeadAlert_def ResolveCondition_def ResolveByDedupeKey_def run_simps w1_def
        close_where_def changed_if_def changed_def)
  moreover have "faults w1 (tick w1) = NoFault" using assms(1) by (simp add: w1_def)
  ultimately show ?thesis
    using resolve_dead_effect [of w1 "ir_InstanceID res"] by (simp add: Some rs run) (simp add: w1_def)
qed

theorem result_applied_witness:
  "inst_Status (hd (running_instances (snd (run_state (HandleInstanceResult ''n1'' (running_result zeroUUID)) dying)))) = StatusRunning"
proof -
  have nf: "faults dying n = NoFault" for n by (simp add: dying_def gpu_world_def empty_world_def)
  have "understood TypeInstanceResult decode_InstanceResult (\<lambda>r. mapInstanceStatus (ir_Status r)) (running_result zeroUUID)
      = Some (\<lparr>ir_InstanceID = zeroUUID, ir_Status = ''running'', ir_ActualPort = 8000, ir_ErrorMessage = []\<rparr>, StatusRunning)"
    by code_simp
  from result_applied [OF nf refl, of "''n1''" "running_result zeroUUID", unfolded this] show ?thesis
    by (simp add: dying_def update_row_def update_rows_def)
qed

section \<open>Reconnecting\<close>

text \<open>
  After a node reconnects, and without faults, exactly one check goes out for each instance recorded as
  running there and for nothing else, oldest first, with the port it was seen on and its engine; nothing but
  the messages changes.
\<close>

theorem reconcile_asks_all:
  assumes nf: "\<And>n. faults w n = NoFault" and c: "map_of (conns w) node = Some c"
  shows "\<exists>n. snd (run_state (ReconcileNode node) w) =
     w\<lparr>tick := n, sent := sent w @
        map (\<lambda>i. (c, NewEnvelope TypeCheckInstance [] (encode_CheckInstance (check_of i
               (case find_row prof_ID (inst_ProfileID i) (model_profiles w) of None \<Rightarrow> Inl ErrProfileNotFound | Some p \<Rightarrow> Inr p)))))
          (sort_key inst_StartedAt (filter (\<lambda>i. inst_PrimaryNodeID i = node \<and> inst_Status i = StatusRunning) (running_instances w)))\<rparr>"
proof -
  let ?msg = "\<lambda>i. (c, NewEnvelope TypeCheckInstance [] (encode_CheckInstance (check_of i
      (case find_row prof_ID (inst_ProfileID i) (model_profiles w) of None \<Rightarrow> Inl ErrProfileNotFound | Some p \<Rightarrow> Inr p))))"
  have ask: "run_state (ask_instance node i) (w\<lparr>tick := n, sent := l\<rparr>) = ((), w\<lparr>tick := Suc (Suc n), sent := l @ [?msg i]\<rparr>)" for i n l
    using nf c by (simp add: ask_instance_def run_simps)
  have loop: "\<exists>n'. snd (run_state (for_each (ask_instance node) is) (w\<lparr>tick := n, sent := l\<rparr>))
      = w\<lparr>tick := n', sent := l @ map ?msg is\<rparr>" for "is" n l
  proof (induction "is" arbitrary: n l)
    case Nil
    then show ?case by auto
  next
    case (Cons i "is")
    from Cons.IH [where n = "Suc (Suc n)" and l = "l @ [?msg i]"] show ?case by (simp add: ask)
  qed
  have eq: "w\<lparr>tick := Suc (tick w)\<rparr> = w\<lparr>tick := Suc (tick w), sent := sent w\<rparr>" by simp
  show ?thesis using nf loop [where n = "Suc (tick w)" and l = "sent w"]
    by (simp add: ReconcileNode_def inst_ListRunningByNode_def run_simps)
qed

theorem reconcile_asks_all_witness:
  "length (sent (snd (run_state (ReconcileNode ''n1'') dying))) = 1"
proof -
  have nf: "faults dying n = NoFault" for n by (simp add: dying_def gpu_world_def empty_world_def)
  have c: "map_of (conns dying) ''n1'' = Some 1" by (simp add: dying_def gpu_world_def)
  show ?thesis using reconcile_asks_all [OF nf c]
    by (auto simp: dying_def gpu_world_def empty_world_def starting_instance_def)
qed

section \<open>The audit log\<close>

lemma log_grows_dead_alert:
  "within log_grows (raiseInstanceDeadAlert i)" "within log_grows (resolveInstanceDeadAlert i)"
  unfolding raiseInstanceDeadAlert_def resolveInstanceDeadAlert_def Let_def
  by (intro log_grows_rules log_grows_instances log_grows.alert_rules)+

lemma log_grows_load: "within log_grows (LoadInstance a p)"
  unfolding LoadInstance_def load_checks_def load_dispatch_def launchTime_def Let_def
  by (intro log_grows_rules log_grows_instances log_grows_agentconn)

lemma log_grows_unload: "within log_grows (UnloadInstance a i)"
  unfolding UnloadInstance_def unload_dispatch_def Let_def
  by (intro log_grows_rules log_grows_instances log_grows_agentconn)

lemma log_grows_reports:
  "within log_grows (HandleInstanceHealth n env)" "within log_grows (HandleInstanceResult n env)" "within log_grows (ReconcileNode n)"
  unfolding HandleInstanceHealth_def HandleInstanceResult_def ReconcileNode_def ask_instance_def Let_def
  by (intro log_grows_rules log_grows_instances log_grows_agentconn log_grows_dead_alert)+

lemmas log_grows_lifecycle = log_grows_load log_grows_unload log_grows_reports

end
