(* ===== verification/Stale_Scan.thy ===== *)
theory Stale_Scan
  imports Stale_Settings Stale_Classify Inventory Lifecycle
begin

text \<open>
  Asking the nodes what containers they hold and asking one to remove a container
  (internal/stalecontainers/scan.go), with the messages used (internal/agentproto/agentproto.go). A wait for an
  agent delivers the frames that arrive meanwhile to their handlers. The lemmas bound what a node can make a scan
  hold and show that an answer is only ever taken from the node that was asked.
\<close>

section \<open>Messages\<close>

definition TypeListContainers :: string where "TypeListContainers = ''list_containers''"
definition TypeListContainersResult :: string where "TypeListContainersResult = ''list_containers_result''"
definition TypeRemoveContainer :: string where "TypeRemoveContainer = ''remove_container''"
definition TypeRemoveContainerResult :: string where "TypeRemoveContainerResult = ''remove_container_result''"

definition encode_ListContainers :: "string \<Rightarrow> json" where
  "encode_ListContainers scanID = JObj [(''scan_id'', JStr scanID)]"

record remove_container =
  rm_RemoveID :: string
  rm_InstanceID :: string
  rm_Lines :: int

definition encode_RemoveContainer :: "remove_container \<Rightarrow> json" where
  "encode_RemoveContainer m = JObj
     [(''remove_id'', JStr (rm_RemoveID m)), (''instance_id'', JStr (rm_InstanceID m)), (''lines'', JInt (rm_Lines m))]"

definition get_int_ptr :: "string \<Rightarrow> (string \<times> json) list \<Rightarrow> int option res" where
  "get_int_ptr n fs = dec_ptr conv_int None (field_values n fs)"

definition get_time_ptr :: "string \<Rightarrow> (string \<times> json) list \<Rightarrow> time option res" where
  "get_time_ptr n fs = dec_ptr conv_time None (field_values n fs)"

definition read_ManagedContainer :: "(string \<times> json) list \<Rightarrow> managed_container res" where
  "read_ManagedContainer fs =
     rbind (get_string ''instance_id'' fs) (\<lambda>instanceID.
     rbind (get_string ''profile_id'' fs) (\<lambda>profileID.
     rbind (get_string ''container_id'' fs) (\<lambda>containerID.
     rbind (get_string ''container_name'' fs) (\<lambda>containerName.
     rbind (get_string ''state'' fs) (\<lambda>state.
     rbind (get_bool ''labelled'' fs) (\<lambda>labelled.
     rbind (get_int_ptr ''exit_code'' fs) (\<lambda>exitCode.
     rbind (get_bool ''oom_killed'' fs) (\<lambda>oomKilled.
     rbind (get_time_ptr ''created_at'' fs) (\<lambda>createdAt.
     rbind (get_time_ptr ''finished_at'' fs) (\<lambda>finishedAt.
       Inr \<lparr>mc_InstanceID = instanceID, mc_ProfileID = profileID, mc_ContainerID = containerID,
            mc_ContainerName = containerName, mc_State = state, mc_Labelled = labelled, mc_ExitCode = exitCode,
            mc_OOMKilled = oomKilled, mc_CreatedAt = createdAt, mc_FinishedAt = finishedAt\<rparr>))))))))))"

text \<open>Elements of the array; \<^verbatim>\<open>null\<close> is a zero struct. A repeated member is decoded afresh.\<close>

definition conv_container :: "json \<Rightarrow> managed_container option" where
  "conv_container v =
     (case rbind
        (decode_object [''instance_id'', ''profile_id'', ''container_id'', ''container_name'', ''state'', ''labelled'',
           ''exit_code'', ''oom_killed'', ''created_at'', ''finished_at''] (RawJson v)) read_ManagedContainer of
        Inl _ \<Rightarrow> None
      | Inr m \<Rightarrow> Some m)"

fun conv_containers :: "json list \<Rightarrow> managed_container list option" where
  "conv_containers [] = Some []"
| "conv_containers (v # vs) =
     (case (conv_container v, conv_containers vs) of (Some m, Some ms) \<Rightarrow> Some (m # ms) | _ \<Rightarrow> None)"

record list_containers_result =
  lc_ScanID :: string
  lc_Part :: int
  lc_Final :: bool
  lc_Containers :: "managed_container list"
  lc_Truncated :: bool
  lc_Error :: string

definition decode_ListContainersResult :: "envelope \<Rightarrow> list_containers_result res" where
  "decode_ListContainersResult = decode_payload
     [''scan_id'', ''part'', ''final'', ''containers'', ''truncated'', ''error'']
     (\<lambda>fs.
       rbind (get_string ''scan_id'' fs) (\<lambda>scanID.
       rbind (get_int ''part'' fs) (\<lambda>part.
       rbind (get_bool ''final'' fs) (\<lambda>fin.
       rbind (dec_plain (\<lambda>_ v. case v of JArr vs \<Rightarrow> conv_containers vs | _ \<Rightarrow> None) [] (field_values ''containers'' fs)) (\<lambda>cs.
       rbind (get_bool ''truncated'' fs) (\<lambda>truncated.
       rbind (get_string ''error'' fs) (\<lambda>err.
         Inr \<lparr>lc_ScanID = scanID, lc_Part = part, lc_Final = fin, lc_Containers = cs, lc_Truncated = truncated, lc_Error = err\<rparr>)))))))"

definition decode_RemoveContainerResult :: "envelope \<Rightarrow> remove_container_result res" where
  "decode_RemoveContainerResult = decode_payload [''remove_id'', ''instance_id'', ''outcome'', ''detail'']
     (\<lambda>fs.
       rbind (get_string ''remove_id'' fs) (\<lambda>removeID.
       rbind (get_string ''instance_id'' fs) (\<lambda>instanceID.
       rbind (get_string ''outcome'' fs) (\<lambda>outcome.
       rbind (get_string ''detail'' fs) (\<lambda>det.
         Inr \<lparr>rc_RemoveID = removeID, rc_InstanceID = instanceID, rc_Outcome = outcome, rc_Detail = det\<rparr>)))))"

section \<open>Answers of agents\<close>

definition maxContainersPerNode :: nat where "maxContainersPerNode = 600"
definition maxListParts :: int where "maxListParts = 40"

definition finish :: "list_wait \<Rightarrow> list_wait" where
  "finish lw = lw\<lparr>lw_finished := True\<rparr>"

definition fail_wait :: "string \<Rightarrow> list_wait \<Rightarrow> list_wait" where
  "fail_wait msg lw = finish (lw\<lparr>lw_errMsg := msg, lw_containers := []\<rparr>)"

definition take_part :: "list_containers_result \<Rightarrow> list_wait \<Rightarrow> list_wait" where
  "take_part part lw =
     (if lc_Part part \<noteq> lw_next lw
      then fail_wait (''the agent's answer arrived out of order (part '' @ int_digits (lc_Part part) @ '', expected ''
             @ int_digits (lw_next lw) @ '')'') lw
      else if lc_Part part \<ge> maxListParts then fail_wait ''the agent's answer was longer than expected'' lw
      else if length (lw_containers lw) + length (lc_Containers part) > maxContainersPerNode
      then fail_wait ''the agent reported more containers than expected'' lw
      else
        let lw1 = lw\<lparr>lw_next := lw_next lw + 1, lw_containers := lw_containers lw @ lc_Containers part\<rparr> in
        if \<not> lc_Final part then lw1
        else let lw2 = lw1\<lparr>lw_truncated := lc_Truncated part\<rparr> in
          finish (if lc_Error part \<noteq> []
                  then lw2\<lparr>lw_errMsg := ''the agent could not list its containers: '' @ lc_Error part, lw_containers := []\<rparr>
                  else lw2))"

definition HandleListContainersResult :: "string \<Rightarrow> envelope \<Rightarrow> unit io" where
  "HandleListContainersResult nodeID env =
     (case decode_ListContainersResult env of
        Inl _ \<Rightarrow> State_Monad.return ()
      | Inr part \<Rightarrow>
          poke (\<lambda>w. case map_of (list_waits w) (lc_ScanID part) of
            None \<Rightarrow> w
          | Some lw \<Rightarrow>
              if lw_nodeID lw \<noteq> nodeID \<or> lw_finished lw then w
              else w\<lparr>list_waits := AList.update (lc_ScanID part) (take_part part lw) (list_waits w)\<rparr>))"

definition HandleRemoveContainerResult :: "string \<Rightarrow> envelope \<Rightarrow> unit io" where
  "HandleRemoveContainerResult nodeID env =
     (case decode_RemoveContainerResult env of
        Inl _ \<Rightarrow> State_Monad.return ()
      | Inr res \<Rightarrow>
          poke (\<lambda>w. case map_of (remove_waits w) (rc_RemoveID res) of
            None \<Rightarrow> w
          | Some rw \<Rightarrow>
              if rw_nodeID rw \<noteq> nodeID \<or> rw_instanceID rw \<noteq> rc_InstanceID res then w
              else w\<lparr>remove_waits := AList.delete (rc_RemoveID res) (remove_waits w),
                     remove_answers := AList.update (rc_RemoveID res) res (remove_answers w)\<rparr>))"

section \<open>Waiting\<close>

text \<open>
  The server's \<^verbatim>\<open>onMessage\<close> for the message types modelled here; the events it publishes afterwards are the
  type's name.
\<close>

definition Publish :: "string \<Rightarrow> unit io" where
  "Publish ev = poke (\<lambda>w. w\<lparr>published := published w @ [ev]\<rparr>)"

definition onMessage :: "string \<times> envelope \<Rightarrow> unit io" where
  "onMessage = (\<lambda>(nodeID, env).
     if env_Type env = TypeListContainersResult then HandleListContainersResult nodeID env
     else if env_Type env = TypeRemoveContainerResult then HandleRemoveContainerResult nodeID env
     else if env_Type env = TypeInstanceResult
       then State_Monad.bind (HandleInstanceResult nodeID env) (\<lambda>_. Publish (env_Type env))
     else if env_Type env = TypeInstanceHealth
       then State_Monad.bind (HandleInstanceHealth nodeID env) (\<lambda>_. Publish (env_Type env))
     else if env_Type env = TypeReportInterfaces
       then State_Monad.bind (HandleReportInterfaces nodeID env) (\<lambda>_. Publish (env_Type env))
     else if env_Type env = TypeTransferProgress
       then State_Monad.bind (HandleTransferProgress nodeID env) (\<lambda>_. Publish (env_Type env))
     else if env_Type env = TypePeerAuthorizeResult
       then State_Monad.bind (HandlePeerAuthorizeResult nodeID env) (\<lambda>_. Publish TypeTransferProgress)
     else if env_Type env = TypeConnectivityCheckResult then HandleConnectivityCheckResult nodeID env
     else if env_Type env = TypeDeleteModelResult
       then State_Monad.bind (HandleDeleteModelResult nodeID env) (\<lambda>_. Publish (env_Type env))
     else if env_Type env = TypeScanModelsResult then HandleScanModelsResult nodeID env
     else State_Monad.return ())"

text \<open>A wait; an error is the cancelled context.\<close>

definition await :: "unit res io" where
  "await =
     State_Monad.bind (State (\<lambda>w. ((arrivals w (tick w), faults w (tick w)), w\<lparr>tick := Suc (tick w)\<rparr>))) (\<lambda>(frames, f).
     State_Monad.bind (for_each onMessage frames) (\<lambda>_.
       case f of NoFault \<Rightarrow> ok () | Lost e \<Rightarrow> fail (ErrIO e) | Ambiguous e \<Rightarrow> fail (ErrIO e)))"

definition newRequestID :: "string res io" where
  "newRequestID = or_return (query (\<lambda>w. Inr (hex_encode (take 16 (entropy w (tick w)))))) (Wrap ''generate request id'') ok"

definition list_timeout :: string where
  "list_timeout = ''the agent did not answer within 30s (an agent older than this server ignores the request: ''
     @ ''upgrade agents before the server)''"

definition list_answer :: "unit res \<Rightarrow> list_wait option \<Rightarrow> (managed_container list \<times> bool) res" where
  "list_answer a slot =
     (case a of
        Inl e \<Rightarrow> Inl e
      | Inr _ \<Rightarrow>
          (case slot of
             Some lw \<Rightarrow>
               if \<not> lw_finished lw then Inl (ErrText list_timeout)
               else if lw_errMsg lw \<noteq> [] then Inl (ErrText (lw_errMsg lw))
               else Inr (lw_containers lw, lw_truncated lw)
           | None \<Rightarrow> Inl (ErrText list_timeout)))"

definition new_wait :: "string \<Rightarrow> list_wait" where
  "new_wait nodeID = \<lparr>lw_nodeID = nodeID, lw_next = 0, lw_containers = [], lw_truncated = False, lw_errMsg = [], lw_finished = False\<rparr>"

definition listNode :: "string \<Rightarrow> (managed_container list \<times> bool) res io" where
  "listNode nodeID =
     or_return newRequestID (\<lambda>e. e) (\<lambda>i.
     State_Monad.bind (poke (\<lambda>w. w\<lparr>list_waits := AList.update i (new_wait nodeID) (list_waits w)\<rparr>)) (\<lambda>_.
     State_Monad.bind
       (or_return (Send nodeID (NewEnvelope TypeListContainers [] (encode_ListContainers i))) (Wrap ''send list_containers'') (\<lambda>_.
          State_Monad.bind await (\<lambda>a. peek (\<lambda>w. list_answer a (map_of (list_waits w) i))))) (\<lambda>r.
     State_Monad.bind (poke (\<lambda>w. w\<lparr>list_waits := AList.delete i (list_waits w)\<rparr>)) (\<lambda>_.
       State_Monad.return r))))"

definition known_outcome :: "string \<Rightarrow> bool" where
  "known_outcome s \<longleftrightarrow> s \<in> {''removed'', ''gone'', ''refused'', ''kept'', ''failed''}"

definition remove_answer :: "unit res \<Rightarrow> remove_container_result option \<Rightarrow> remove_container_result res" where
  "remove_answer a slot =
     (case a of
        Inl e \<Rightarrow> Inl e
      | Inr _ \<Rightarrow>
          (case slot of
             None \<Rightarrow> Inl (ErrText ''the agent did not answer within 1m30s'')
           | Some res \<Rightarrow>
               Inr (if known_outcome (rc_Outcome res) then res
                    else res\<lparr>rc_Outcome := ''failed'', rc_Detail := ''the agent gave an answer this server does not understand''\<rparr>)))"

definition requestRemove :: "string \<Rightarrow> string \<Rightarrow> int \<Rightarrow> remove_container_result res io" where
  "requestRemove nodeID instanceID archive =
     or_return newRequestID (\<lambda>e. e) (\<lambda>i.
     State_Monad.bind (poke (\<lambda>w. w\<lparr>remove_waits := AList.update i \<lparr>rw_nodeID = nodeID, rw_instanceID = instanceID\<rparr> (remove_waits w),
                                   remove_answers := AList.delete i (remove_answers w)\<rparr>)) (\<lambda>_.
     State_Monad.bind
       (or_return
          (Send nodeID (NewEnvelope TypeRemoveContainer []
             (encode_RemoveContainer \<lparr>rm_RemoveID = i, rm_InstanceID = instanceID, rm_Lines = archive\<rparr>)))
          (Wrap ''send remove_container'') (\<lambda>_.
          State_Monad.bind await (\<lambda>a. peek (\<lambda>w. remove_answer a (map_of (remove_answers w) i))))) (\<lambda>r.
     State_Monad.bind (poke (\<lambda>w. w\<lparr>remove_waits := AList.delete i (remove_waits w), remove_answers := AList.delete i (remove_answers w)\<rparr>)) (\<lambda>_.
       State_Monad.return r))))"

section \<open>Evaluating what a node reported\<close>

definition printable :: "string \<Rightarrow> nat \<Rightarrow> string" where
  "printable s n = take n (map (\<lambda>r. if 32 \<le> r \<and> r < 127 then char_of (nat r) else CHR ''?'') (runes s))"

definition MaxContainerNameLen :: nat where "MaxContainerNameLen = 128"
definition MaxContainerIDLen :: nat where "MaxContainerIDLen = 64"

definition validContainer :: "managed_container \<Rightarrow> container option" where
  "validContainer m =
     (if \<not> uuidPattern (mc_InstanceID m) then None
      else Some
        \<lparr>c_InstanceID = ToLower (mc_InstanceID m),
         c_ProfileID = (if uuidPattern (mc_ProfileID m) then ToLower (mc_ProfileID m) else []),
         c_ContainerID = printable (mc_ContainerID m) MaxContainerIDLen,
         c_ContainerName = printable (mc_ContainerName m) MaxContainerNameLen,
         c_State = ToLower (printable (mc_State m) 32),
         c_Labelled = mc_Labelled m, c_ExitCode = mc_ExitCode m, c_OOMKilled = mc_OOMKilled m,
         c_CreatedAt = (case mc_CreatedAt m of None \<Rightarrow> 0 | Some t \<Rightarrow> t),
         c_FinishedAt = (case mc_FinishedAt m of None \<Rightarrow> 0 | Some t \<Rightarrow> t)\<rparr>)"

datatype scan_status = ScanDone | ScanOffline | ScanFailed

record stale_item =
  it_Container :: container
  it_Evaluation :: evaluation
  it_ProfileName :: string
  it_InstanceStatus :: string

record node_scan =
  ns_NodeID :: string
  ns_NodeName :: string
  ns_Status :: scan_status
  ns_Error :: string
  ns_Truncated :: bool
  ns_Items :: "stale_item list"

abbreviation verdict_of :: "stale_item \<Rightarrow> verdict" where "verdict_of it \<equiv> ev_Verdict (it_Evaluation it)"
abbreviation instance_of :: "stale_item \<Rightarrow> string" where "instance_of it \<equiv> c_InstanceID (it_Container it)"

definition With :: "node_scan \<Rightarrow> verdict \<Rightarrow> stale_item list" where
  "With ns v = filter (\<lambda>it. verdict_of it = v) (ns_Items ns)"

definition containerNodes :: "node list \<Rightarrow> node list" where
  "containerNodes all = filter (\<lambda>n. node_RuntimeBackend n = BackendDocker \<or> node_RuntimeBackend n = BackendPodman) all"

text \<open>One node's part of the first half of a scan.\<close>

definition ask_node :: "node \<Rightarrow> (node_scan \<times> managed_container list) io" where
  "ask_node n =
     (let ns = \<lambda>st err tr. \<lparr>ns_NodeID = node_ID n, ns_NodeName = node_Name n, ns_Status = st, ns_Error = err, ns_Truncated = tr, ns_Items = []\<rparr> in
      State_Monad.bind (Connected (node_ID n)) (\<lambda>c.
        if \<not> c then State_Monad.return (ns ScanOffline ''the node's agent is not connected'' False, [])
        else State_Monad.bind (listNode (node_ID n)) (\<lambda>r. State_Monad.return
          (case r of
             Inl e \<Rightarrow> (ns ScanFailed (error_text e) False, [])
           | Inr (cs, truncated) \<Rightarrow> (ns ScanDone [] truncated, cs)))))"

text \<open>
  The code asks the nodes concurrently. Every answer is matched to its own request, so asking them one after
  the other, with arbitrary frames arriving during each wait, gives every result that the concurrent scan has.
\<close>

fun ask_nodes :: "node list \<Rightarrow> (node_scan \<times> managed_container list) list io" where
  "ask_nodes [] = State_Monad.return []"
| "ask_nodes (n # ns) =
     State_Monad.bind (ask_node n) (\<lambda>x. State_Monad.bind (ask_nodes ns) (\<lambda>xs. State_Monad.return (x # xs)))"

definition nameOf :: "(string \<times> string) list \<Rightarrow> string \<Rightarrow> (string \<times> (string \<times> string) list) io" where
  "nameOf cache profileID =
     (if profileID = [] then State_Monad.return ([], cache)
      else case map_of cache profileID of
        Some name \<Rightarrow> State_Monad.return (name, cache)
      | None \<Rightarrow>
          State_Monad.bind (prof_FindByID profileID) (\<lambda>p.
            let name = (case p of Inl _ \<Rightarrow> [] | Inr x \<Rightarrow> prof_Name x) in
            State_Monad.return (name, (profileID, name) # cache)))"

definition evaluate :: "string \<Rightarrow> (string \<times> running_instance) list \<Rightarrow> time \<Rightarrow> int \<Rightarrow> container \<Rightarrow> string \<Rightarrow> stale_item" where
  "evaluate nodeID instances now minAge c name =
     \<lparr>it_Container = c, it_Evaluation = Classify nodeID c (map_of instances (c_InstanceID c)) now minAge,
      it_ProfileName = name,
      it_InstanceStatus = (case map_of instances (c_InstanceID c) of None \<Rightarrow> [] | Some i \<Rightarrow> inst_status_string (inst_Status i))\<rparr>"

fun evaluate_all ::
  "string \<Rightarrow> (string \<times> running_instance) list \<Rightarrow> time \<Rightarrow> int \<Rightarrow> container list \<Rightarrow> (string \<times> string) list
     \<Rightarrow> (stale_item list \<times> (string \<times> string) list) io" where
  "evaluate_all nodeID instances now minAge [] cache = State_Monad.return ([], cache)"
| "evaluate_all nodeID instances now minAge (c # cs) cache =
     State_Monad.bind
       (nameOf cache (case map_of instances (c_InstanceID c) of None \<Rightarrow> c_ProfileID c | Some i \<Rightarrow> inst_ProfileID i)) (\<lambda>(name, cache1).
     State_Monad.bind (evaluate_all nodeID instances now minAge cs cache1) (\<lambda>(its, cache2).
       State_Monad.return (evaluate nodeID instances now minAge c name # its, cache2)))"

definition oldest_first :: "stale_item list \<Rightarrow> stale_item list" where
  "oldest_first its = sort_key (\<lambda>it. ev_StoppedAt (it_Evaluation it)) (sort_key instance_of its)"

fun evaluate_nodes ::
  "(string \<times> running_instance) list \<Rightarrow> time \<Rightarrow> int \<Rightarrow> (node_scan \<times> container list) list \<Rightarrow> (string \<times> string) list \<Rightarrow> node_scan list io" where
  "evaluate_nodes instances now minAge [] cache = State_Monad.return []"
| "evaluate_nodes instances now minAge ((ns, cs) # rest) cache =
     State_Monad.bind (evaluate_all (ns_NodeID ns) instances now minAge cs cache) (\<lambda>(its, cache1).
     State_Monad.bind (evaluate_nodes instances now minAge rest cache1) (\<lambda>scans.
       State_Monad.return (ns\<lparr>ns_Items := oldest_first its\<rparr> # scans)))"

definition lookup_failed :: "node_scan \<Rightarrow> node_scan" where
  "lookup_failed ns =
     (if ns_Status ns = ScanDone
      then ns\<lparr>ns_Status := ScanFailed, ns_Error := ''could not look up the instances these containers belong to''\<rparr> else ns)"

definition valid_of :: "managed_container list \<Rightarrow> container list" where
  "valid_of raw = List.map_filter validContainer raw"

definition scan :: "node list \<Rightarrow> int \<Rightarrow> node_scan list io" where
  "scan ns minAge =
     State_Monad.bind (ask_nodes ns) (\<lambda>asked.
     let valid = map (\<lambda>(s, raw). (s, valid_of raw)) asked;
         ids = concat (map (\<lambda>(s, cs). map c_InstanceID cs) valid) in
     State_Monad.bind (inst_FindByIDs ids) (\<lambda>r. case r of
       Inl _ \<Rightarrow> State_Monad.return (map (lookup_failed \<circ> fst) asked)
     | Inr instances \<Rightarrow>
         State_Monad.bind time_now (\<lambda>now. evaluate_nodes instances now minAge valid [])))"

record preview_result =
  pv_MinAge :: int
  pv_ArchiveLines :: int
  pv_Nodes :: "node_scan list"

definition Preview :: "actor \<Rightarrow> preview_result res io" where
  "Preview a =
     (if \<not> CanManageStaleContainers a then fail ErrNotPermitted
      else
        or_return sc_Get (Wrap ''get stale container settings'') (\<lambda>cfg.
        or_return node_List (Wrap ''list nodes'') (\<lambda>all.
        State_Monad.bind (scan (containerNodes all) (sc_MinAgeHours cfg * hour)) (\<lambda>scans.
          ok \<lparr>pv_MinAge = sc_MinAgeHours cfg * hour, pv_ArchiveLines = sc_ArchiveLines cfg, pv_Nodes = scans\<rparr>))))"

section \<open>What a scan leaves alone\<close>

text \<open>Evaluating only reads.\<close>

context db_step_rel
begin

lemma within_nameOf: "within R (nameOf cache p)"
  unfolding nameOf_def prof_FindByID_def Let_def by (intro db_within_rules)

lemma within_evaluate_all: "within R (evaluate_all n is now age cs cache)"
  by (induction cs arbitrary: cache) (auto intro!: db_within_rules within_nameOf)

lemma within_evaluate_nodes: "within R (evaluate_nodes is now age xs cache)"
  by (induction "is" now age xs cache rule: evaluate_nodes.induct) (auto intro!: db_within_rules within_evaluate_all)

end

text \<open>
  A scan, and whatever agents report meanwhile, touches instances, interfaces, transfers, alerts, open requests and the
  frames sent; the frames are none that remove a container. A relation that does not look at these holds of all
  operations here.
\<close>

locale instances_outside = alerts_outside R for R +
  assumes instances_only: "w' = w\<lparr>running_instances := running_instances w', node_network_interfaces := node_network_interfaces w',
      model_transfers := model_transfers w', node_model_inventory := node_model_inventory w',
      connectivity_checks := connectivity_checks w', model_deletes := model_deletes w', model_scans := model_scans w'\<rparr> \<Longrightarrow> R w w'"
    and other_frames: "env_Type env \<noteq> TypeRemoveContainer \<Longrightarrow> R w (w\<lparr>sent := sent w @ [(c, env)]\<rparr>)"
begin

lemma within_instance_writes: "within R (inst_SetStatus i s q e)" "within R (inst_UpdateHealth i h t d)"
  unfolding inst_SetStatus_def inst_UpdateHealth_def by (intro db_within_rules within_exec instances_only; simp)+

lemma within_reads: "within R (inst_FindByID i)" "within R (prof_FindByID p)" "within R (inst_FindByIDs ids)" "within R (Connected n)"
  unfolding inst_FindByID_def prof_FindByID_def inst_FindByIDs_def Connected_def Let_def by (intro db_within_rules)+

lemma within_dead_alert: "within R (raiseInstanceDeadAlert i)" "within R (resolveInstanceDeadAlert i)"
  unfolding raiseInstanceDeadAlert_def resolveInstanceDeadAlert_def Let_def
  by (intro db_within_rules within_reads alert_rules)+

lemma within_reports: "within R (HandleInstanceHealth n env)" "within R (HandleInstanceResult n env)"
  unfolding HandleInstanceHealth_def HandleInstanceResult_def Let_def
  by (intro db_within_rules within_reads within_instance_writes within_dead_alert)+

lemma within_report_interfaces: "within R (HandleReportInterfaces n env)"
proof -
  have "within R (insert_interfaces xs seen)" for xs seen
    by (induction xs arbitrary: seen) (auto intro!: db_within_rules)
  then have "within R (ReplaceForNode n xs)" for xs
    unfolding ReplaceForNode_def Let_def by (intro db_within_rules within_exec instances_only; simp)
  then show ?thesis unfolding HandleReportInterfaces_def by (intro db_within_rules)
qed

lemma within_Send: "env_Type env \<noteq> TypeRemoveContainer \<Longrightarrow> within R (Send n env)"
  unfolding Send_def by (intro db_within_rules within_exec) (simp add: other_frames)

lemma within_transfer_writes:
  "within R (mt_UpdateProgress i a b)" "within R (mt_SetStatus i st msg)" "within R (inv_Upsert k s z v)"
  unfolding mt_UpdateProgress_def mt_SetStatus_def update_transfer_def inv_Upsert_def
  by (intro db_within_rules within_exec within_io_call instances_only; simp add: Let_def)+

lemma within_transfer_peers: "within R (sendCancel n i)" "within R (revokePeer t)" "within R (failPeer t msg)"
proof -
  show "within R (sendCancel n i)" unfolding sendCancel_def best_effort_def
    by (intro db_within_rules within_reads within_Send) (simp add: NewEnvelope_def TypeCancelTransfer_def TypeRemoveContainer_def)
  show r: "within R (revokePeer t)" unfolding revokePeer_def best_effort_def
    by (intro db_within_rules within_reads within_Send) (simp add: NewEnvelope_def TypeRevokePeerPull_def TypeRemoveContainer_def)
  show "within R (failPeer t msg)" unfolding failPeer_def by (intro db_within_rules within_transfer_writes r)
qed

lemma within_transfer_reports:
  "within R (HandleTransferProgress n env)" "within R (HandlePeerAuthorizeResult n env)" "within R (HandleConnectivityCheckResult n env)"
proof -
  have "within R (recordIncomplete t b)" for t b
    unfolding recordIncomplete_def inv_Get_def Let_def by (intro db_within_rules within_transfer_writes)
  then show "within R (HandleTransferProgress n env)"
    unfolding HandleTransferProgress_def mt_FindByID_def progress_found_def apply_progress_def Let_def
    by (intro db_within_rules within_transfer_writes within_transfer_peers)
  have "within R (planPeer d s ov)" for d s ov
    unfolding planPeer_def GetNode_def node_FindByID_def ResolveTransferSource_def ListInterfaces_def ListByNode_def Let_def
    by (intro db_within_rules)
  then show "within R (HandlePeerAuthorizeResult n env)"
    unfolding HandlePeerAuthorizeResult_def mt_FindByID_def authorize_found_def start_peer_def
    by (intro db_within_rules within_transfer_peers within_reads within_Send)
      (simp_all add: start_peer_message_def NewEnvelope_def TypeStartPeerTransfer_def TypeRemoveContainer_def)
  show "within R (HandleConnectivityCheckResult n env)"
    unfolding HandleConnectivityCheckResult_def checks_complete_def by (intro db_within_rules within_poke instances_only) simp
qed

lemma within_inventory_reports: "within R (HandleDeleteModelResult n env)" "within R (HandleScanModelsResult n env)"
proof -
  have "within R (setDeleteState k d)" "within R (clearDeleteState k)" for k d
    unfolding setDeleteState_def clearDeleteState_def by (intro within_poke instances_only; simp)+
  moreover have "within R (inv_SetStatus k st)" for k st
    unfolding inv_SetStatus_def by (intro db_within_rules within_exec within_io_call instances_only) (simp add: Let_def)
  ultimately show "within R (HandleDeleteModelResult n env)"
    unfolding HandleDeleteModelResult_def Let_def by (intro db_within_rules)
  have "within R (finishNode i m f)" for i m f
    unfolding finishNode_def by (intro within_poke instances_only) (simp split: option.split)
  then show "within R (HandleScanModelsResult n env)"
    unfolding HandleScanModelsResult_def scanWaitingOn_def inv_List_def Let_def by (intro db_within_rules)
qed

lemma within_Publish: "within R (Publish ev)"
  unfolding Publish_def by (intro within_poke alerts_only) simp

end

locale agents_outside = instances_outside R for R +
  assumes waits_only: "w' = w\<lparr>list_waits := list_waits w', remove_waits := remove_waits w', remove_answers := remove_answers w'\<rparr> \<Longrightarrow> R w w'"
begin

lemma within_answers: "within R (HandleListContainersResult n env)" "within R (HandleRemoveContainerResult n env)"
  unfolding HandleListContainersResult_def HandleRemoveContainerResult_def
  by (intro db_within_rules within_poke waits_only; auto split: option.split)+

lemma within_onMessage: "within R (onMessage f)"
  unfolding onMessage_def
  by (cases f, simp, intro conjI impI db_within_rules within_reports within_report_interfaces within_transfer_reports within_inventory_reports
      within_answers within_Publish)

lemma within_await: "within R await"
proof -
  have "within R (State (\<lambda>w. ((arrivals w (tick w), faults w (tick w)), w\<lparr>tick := Suc (tick w)\<rparr>)))"
    by (simp add: within_def rel_tick)
  moreover have "within R (case f of NoFault \<Rightarrow> ok () | Lost e \<Rightarrow> fail (ErrIO e) | Ambiguous e \<Rightarrow> fail (ErrIO e))" for f
    by (cases f) (simp_all add: within_return)
  ultimately show ?thesis unfolding await_def by (intro db_within_rules within_onMessage)
qed

lemma within_listNode: "within R (listNode n)"
  unfolding listNode_def newRequestID_def
  by (intro db_within_rules within_poke waits_only within_Send within_await)
    (simp_all add: NewEnvelope_def TypeListContainers_def TypeRemoveContainer_def)

lemma within_ask_nodes: "within R (ask_nodes ns)"
proof (induction ns)
  case (Cons n ns)
  have "within R (ask_node n)" unfolding ask_node_def Let_def by (intro db_within_rules within_reads within_listNode)
  with Cons show ?case by (auto intro!: db_within_rules)
qed (simp add: within_return)

lemma within_scan: "within R (scan ns age)"
  unfolding scan_def Let_def by (intro db_within_rules within_ask_nodes within_reads within_evaluate_nodes)

lemma within_Preview: "within R (Preview a)"
  unfolding Preview_def sc_Get_def node_List_def by (intro db_within_rules within_scan)

end

section \<open>What a scan reports\<close>

lemma split_on_join: "s = concat (map (\<lambda>p. p @ [c]) (butlast (split_on c s))) @ last (split_on c s)"
  by (induction s) (auto split: list.splits)

lemma uuid_shape_append: "uuid_shape i (xs @ ys) \<longleftrightarrow> uuid_shape i xs \<and> uuid_shape (i + length xs) ys"
  by (induction xs arbitrary: i) auto

lemma uuid_shape_hex:
  "list_all hex_char xs \<Longrightarrow> {i..<i + length xs} \<inter> {8, 13, 18, 23} = {} \<Longrightarrow> uuid_shape i (map fold_char xs)"
proof (induction xs arbitrary: i)
  case (Cons x xs)
  have "is_hex_digit (fold_char x)" using Cons.prems(1)
    by (auto simp: hex_char_def is_hex_digit_def fold_char_def less_eq_char_def)
  moreover have "i \<notin> {8, 13, 18, 23}" "{Suc i..<Suc i + length xs} \<inter> {8, 13, 18, 23} = {}" using Cons.prems(2) by auto
  ultimately show ?case using Cons by auto
qed simp

lemma uuidPattern_looks: "uuidPattern s \<Longrightarrow> looksLikeUUID (ToLower s)"
proof -
  assume u: "uuidPattern s"
  then have len: "map length (split_on (CHR ''-'') s) = [8, 4, 4, 4, 12]" and hex: "list_all (list_all hex_char) (split_on (CHR ''-'') s)"
    by (auto simp: uuidPattern_def Let_def)
  then obtain a b c d e where p: "split_on (CHR ''-'') s = [a, b, c, d, e]" and l: "length a = 8" "length b = 4" "length c = 4" "length d = 4" "length e = 12"
    by (auto simp: map_eq_Cons_conv)
  have s: "s = a @ CHR ''-'' # b @ CHR ''-'' # c @ CHR ''-'' # d @ CHR ''-'' # e" using split_on_join [of s "CHR ''-''"] p by simp
  have h: "list_all hex_char a" "list_all hex_char b" "list_all hex_char c" "list_all hex_char d" "list_all hex_char e"
    using hex by (simp_all add: p)
  have "uuid_shape 0 (map fold_char a)" "uuid_shape 9 (map fold_char b)" "uuid_shape 14 (map fold_char c)"
    "uuid_shape 19 (map fold_char d)" "uuid_shape 24 (map fold_char e)"
    by (intro uuid_shape_hex h; simp add: l)+
  moreover have "fold_char (CHR ''-'') = CHR ''-''" by code_simp
  ultimately show ?thesis using l unfolding looksLikeUUID_def ToLower_def by (simp add: s uuid_shape_append)
qed

lemma valid_of_looks: "c \<in> set (valid_of raw) \<Longrightarrow> looksLikeUUID (c_InstanceID c)"
  by (auto simp: valid_of_def List.map_filter_def validContainer_def uuidPattern_looks split: if_splits)

lemma find_filter: "(\<And>x. p x \<Longrightarrow> q x) \<Longrightarrow> find p (filter q xs) = find p xs"
  by (induction xs) auto

lemma map_of_rows: "map_of (map (\<lambda>i. (inst_ID i, i)) xs) k = find_row inst_ID k xs"
  by (induction xs) auto

lemma FindByIDs_found:
  assumes "run_state (inst_FindByIDs ids) w = (Inr insts, w')" "i \<in> set ids" "looksLikeUUID i"
  shows "map_of insts i = find_row inst_ID i (running_instances w')"
proof -
  have "same_uuid i i" by (simp add: same_uuid_def)
  then have "find_row inst_ID i (filter (\<lambda>x. list_ex (same_uuid (inst_ID x)) (filter looksLikeUUID ids)) rows) = find_row inst_ID i rows" for rows
    using assms(2,3) unfolding find_row_def by (intro find_filter) (auto simp: list_ex_iff)
  moreover have "filter looksLikeUUID ids \<noteq> []" using assms(2,3) by (auto simp: filter_empty_conv)
  ultimately show ?thesis using assms(1) by (auto simp: inst_FindByIDs_def Let_def run_simps map_of_rows split: fault.splits)
qed

lemma evaluate_all_items:
  "run_state (evaluate_all n insts now age cs cache) w = ((its, cache'), w') \<Longrightarrow>
   map it_Container its = cs \<and> (\<forall>it \<in> set its. \<exists>name. it = evaluate n insts now age (it_Container it) name)"
proof (induction cs arbitrary: cache w its cache' w')
  case (Cons c cs)
  obtain name cache1 w1 where n: "run_state (nameOf cache (case map_of insts (c_InstanceID c) of None \<Rightarrow> c_ProfileID c | Some i \<Rightarrow> inst_ProfileID i)) w = ((name, cache1), w1)"
    by (metis prod.collapse)
  obtain its1 cache2 w2 where r: "run_state (evaluate_all n insts now age cs cache1) w1 = ((its1, cache2), w2)" by (metis prod.collapse)
  have "its = evaluate n insts now age c name # its1" using Cons.prems n r by simp
  then show ?case using Cons.IH [OF r] by (auto simp: evaluate_def)
qed simp

text \<open>What a node's scan keeps of the question it was asked.\<close>

definition same_node :: "node_scan \<Rightarrow> node_scan \<Rightarrow> bool" where
  "same_node s s0 \<longleftrightarrow> ns_NodeID s = ns_NodeID s0 \<and> ns_NodeName s = ns_NodeName s0 \<and> ns_Status s = ns_Status s0"

lemma evaluate_nodes_items:
  "run_state (evaluate_nodes insts now age xs cache) w = (scans, w') \<Longrightarrow>
   list_all2 (\<lambda>s (s0, cs). same_node s s0 \<and> mset (map it_Container (ns_Items s)) = mset cs
      \<and> (\<forall>it \<in> set (ns_Items s). \<exists>name. it = evaluate (ns_NodeID s0) insts now age (it_Container it) name)) scans xs"
proof (induction insts now age xs cache arbitrary: w scans w' rule: evaluate_nodes.induct)
  case (2 insts now age ns cs rest cache)
  obtain its cache1 w1 where e: "run_state (evaluate_all (ns_NodeID ns) insts now age cs cache) w = ((its, cache1), w1)" by (metis prod.collapse)
  obtain scans1 w2 where r: "run_state (evaluate_nodes insts now age rest cache1) w1 = (scans1, w2)" by (metis prod.collapse)
  have scans: "scans = ns\<lparr>ns_Items := oldest_first its\<rparr> # scans1" using 2(2) e r by simp
  have "mset (map it_Container (oldest_first its)) = mset cs" "set (oldest_first its) = set its"
    using evaluate_all_items [OF e] by (auto simp: oldest_first_def)
  then show ?case using evaluate_all_items [OF e] 2(1) [OF r] by (simp add: scans same_node_def)
qed simp

lemma ask_node_answer:
  "run_state (ask_node n) w = ((s, raw), w') \<Longrightarrow>
   ns_NodeID s = node_ID n \<and> ns_NodeName s = node_Name n \<and> ns_Items s = [] \<and> (raw \<noteq> [] \<longrightarrow> ns_Status s = ScanDone)"
  by (auto simp: ask_node_def Let_def run_simps split: if_splits sum.splits prod.splits)

lemma ask_nodes_answers:
  "run_state (ask_nodes ns) w = (asked, w') \<Longrightarrow>
   list_all2 (\<lambda>n (s, raw). ns_NodeID s = node_ID n \<and> ns_NodeName s = node_Name n \<and> ns_Items s = []
      \<and> (raw \<noteq> [] \<longrightarrow> ns_Status s = ScanDone)) ns asked"
proof (induction ns arbitrary: w asked w')
  case (Cons n ns)
  obtain s raw w1 where a: "run_state (ask_node n) w = ((s, raw), w1)" by (metis prod.collapse)
  obtain rest w2 where r: "run_state (ask_nodes ns) w1 = (rest, w2)" by (metis prod.collapse)
  have "asked = (s, raw) # rest" using Cons.prems a r by simp
  then show ?case using ask_node_answer [OF a] Cons.IH [OF r] by simp
qed simp

definition rows_kept :: "world \<Rightarrow> world \<Rightarrow> bool" where
  "rows_kept w w' \<longleftrightarrow> running_instances w' = running_instances w \<and> clock w' = clock w"

interpretation rows_kept: db_step_rel rows_kept
  by unfold_locales (auto simp: rows_kept_def)

text \<open>Every item was judged by the record that the database holds for it at the end of the scan.\<close>

definition judged :: "int \<Rightarrow> world \<Rightarrow> string \<Rightarrow> stale_item \<Rightarrow> bool" where
  "judged age w nodeID it \<longleftrightarrow>
     (\<exists>k. it_Evaluation it = Classify nodeID (it_Container it) (find_row inst_ID (instance_of it) (running_instances w)) (clock w k) age)"

lemma scan_reports:
  assumes run: "run_state (scan ns age) w = (scans, w')"
  shows "map ns_NodeID scans = map node_ID ns
    \<and> (\<forall>s \<in> set scans. \<forall>it \<in> set (ns_Items s). ns_Status s = ScanDone \<and> judged age w' (ns_NodeID s) it)"
proof -
  obtain asked w1 where a: "run_state (ask_nodes ns) w = (asked, w1)" by (metis prod.collapse)
  let ?valid = "map (\<lambda>(s, raw). (s, valid_of raw)) asked"
  let ?ids = "concat (map (\<lambda>(s, cs). map c_InstanceID cs) ?valid)"
  obtain r w2 where f: "run_state (inst_FindByIDs ?ids) w1 = (r, w2)" by (metis prod.collapse)
  note A = ask_nodes_answers [OF a]
  have ids: "map (ns_NodeID \<circ> fst) asked = map node_ID ns"
    using A by (induction ns asked rule: list_all2_induct) auto
  show ?thesis
  proof (cases r)
    case (Inl e)
    then have scans: "scans = map (lookup_failed \<circ> fst) asked" using run a f by (simp add: scan_def Let_def)
    have lf: "ns_Items (lookup_failed s) = ns_Items s" "ns_NodeID (lookup_failed s) = ns_NodeID s" for s
      by (simp_all add: lookup_failed_def)
    have "list_all (\<lambda>x. ns_Items (fst x) = []) asked"
      using A by (induction ns asked rule: list_all2_induct) auto
    then have "ns_Items s = []" if "s \<in> set scans" for s using that by (auto simp: scans lf list_all_iff)
    moreover have "map ns_NodeID scans = map (ns_NodeID \<circ> fst) asked" unfolding scans by (simp add: lf)
    ultimately show ?thesis using ids by simp
  next
    case (Inr insts)
    let ?now = "clock w2 (tick w2)" and ?w3 = "w2\<lparr>tick := Suc (tick w2)\<rparr>"
    have e: "run_state (evaluate_nodes insts ?now age ?valid []) ?w3 = (scans, w')"
      using run a f Inr by (simp add: scan_def Let_def run_time_now)
    have kept: "running_instances w' = running_instances w2" "clock w' = clock w2"
      using withinD [OF rows_kept.within_evaluate_nodes e] by (simp_all add: rows_kept_def)
    note E = evaluate_nodes_items [OF e, unfolded list_all2_map2]
    have "map ns_NodeID scans = map (ns_NodeID \<circ> fst) asked"
      using E by (induction scans asked rule: list_all2_induct) (auto simp: same_node_def)
    moreover have "ns_Status s = ScanDone \<and> judged age w' (ns_NodeID s) it" if s: "s \<in> set scans" and it: "it \<in> set (ns_Items s)" for s it
    proof -
      obtain i where i: "i < length scans" "s = scans ! i" using s by (metis in_set_conv_nth)
      obtain s0 raw where x: "asked ! i = (s0, raw)" by (metis prod.collapse)
      have len: "i < length asked" "i < length ns" using i list_all2_lengthD [OF E] list_all2_lengthD [OF A] by simp_all
      have S: "same_node s s0" "mset (map it_Container (ns_Items s)) = mset (valid_of raw)"
        "\<exists>name. it = evaluate (ns_NodeID s0) insts ?now age (it_Container it) name"
        using list_all2_nthD [OF E i(1)] it by (auto simp: i(2) x)
      have c: "it_Container it \<in> set (valid_of raw)" using it S(2) by (metis image_eqI list.set_map set_mset_mset)
      then have "raw \<noteq> []" by (auto simp: valid_of_def List.map_filter_def)
      then have dn: "ns_Status s = ScanDone" using list_all2_nthD [OF A len(2)] S(1) by (auto simp: x same_node_def)
      from S(3) obtain name where nm: "it = evaluate (ns_NodeID s0) insts ?now age (it_Container it) name" by blast
      have "instance_of it \<in> set ?ids" using c x len(1) by (force simp: in_set_conv_nth)
      then have "map_of insts (instance_of it) = find_row inst_ID (instance_of it) (running_instances w2)"
        using FindByIDs_found [OF f [unfolded Inr]] valid_of_looks [OF c] by simp
      then have "it_Evaluation it = Classify (ns_NodeID s) (it_Container it) (find_row inst_ID (instance_of it) (running_instances w')) (clock w' (tick w2)) age"
        using S(1) kept arg_cong [OF nm, of it_Evaluation] by (simp add: evaluate_def same_node_def)
      then show ?thesis using dn unfolding judged_def by blast
    qed
    ultimately show ?thesis using ids by simp
  qed
qed

section \<open>Whose answer it is\<close>

text \<open>A part of the answer of node \<open>n\<close> to request \<open>i\<close> among the frames that arrived.\<close>

definition answers :: "(string \<times> envelope) list \<Rightarrow> string \<Rightarrow> string \<Rightarrow> list_containers_result \<Rightarrow> bool" where
  "answers frames n i p \<longleftrightarrow> lc_ScanID p = i \<and> (\<exists>env. (n, env) \<in> set frames \<and> decode_ListContainersResult env = Inr p)"

definition gathered :: "(string \<times> envelope) list \<Rightarrow> string \<Rightarrow> string \<Rightarrow> list_containers_result list \<Rightarrow> managed_container list \<Rightarrow> bool" where
  "gathered frames n i parts cs \<longleftrightarrow>
     list_all (answers frames n i) parts \<and> map lc_Part parts = map int [0..<length parts] \<and> length parts \<le> 40
     \<and> cs = concat (map lc_Containers parts) \<and> length cs \<le> 600"

definition whole_answer :: "(string \<times> envelope) list \<Rightarrow> string \<Rightarrow> string \<Rightarrow> managed_container list \<Rightarrow> bool \<Rightarrow> bool" where
  "whole_answer frames n i cs truncated \<longleftrightarrow>
     (\<exists>parts. gathered frames n i parts cs \<and> parts \<noteq> [] \<and> lc_Final (last parts) \<and> list_all (\<lambda>p. \<not> lc_Final p) (butlast parts)
        \<and> lc_Error (last parts) = [] \<and> truncated = lc_Truncated (last parts))"

definition wait_ok :: "(string \<times> envelope) list \<Rightarrow> string \<Rightarrow> string \<Rightarrow> list_wait \<Rightarrow> bool" where
  "wait_ok frames n i lw \<longleftrightarrow> lw_nodeID lw = n \<and>
     (if lw_finished lw then lw_errMsg lw = [] \<longrightarrow> whole_answer frames n i (lw_containers lw) (lw_truncated lw)
      else lw_errMsg lw = [] \<and> (\<exists>parts. gathered frames n i parts (lw_containers lw) \<and> lw_next lw = int (length parts)
             \<and> list_all (\<lambda>p. \<not> lc_Final p) parts))"

lemma take_part_ok:
  assumes ok: "wait_ok frames n i lw" and open_wait: "\<not> lw_finished lw" and part: "answers frames n i part"
  shows "wait_ok frames n i (take_part part lw)"
proof -
  from ok open_wait obtain parts where g: "gathered frames n i parts (lw_containers lw)" "lw_next lw = int (length parts)"
    "list_all (\<lambda>p. \<not> lc_Final p) parts" and n: "lw_nodeID lw = n" "lw_errMsg lw = []"
    by (auto simp: wait_ok_def)
  show ?thesis
  proof (cases "lc_Part part = lw_next lw \<and> lc_Part part < maxListParts
      \<and> length (lw_containers lw) + length (lc_Containers part) \<le> maxContainersPerNode")
    case False
    then show ?thesis using n by (auto simp: take_part_def fail_wait_def finish_def wait_ok_def)
  next
    case True
    then have "gathered frames n i (parts @ [part]) (lw_containers lw @ lc_Containers part)"
      using g part by (auto simp: gathered_def maxListParts_def maxContainersPerNode_def)
    then show ?thesis
      using True g n open_wait
      by (auto simp: take_part_def Let_def finish_def wait_ok_def whole_answer_def intro!: exI [of _ "parts @ [part]"])
  qed
qed

definition same_lists :: "world \<Rightarrow> world \<Rightarrow> bool" where
  "same_lists w w' \<longleftrightarrow> list_waits w' = list_waits w"

interpretation same_lists: instances_outside same_lists
proof
  fix w w' :: world
  show "same_lists w w'" if eq: "w' = w\<lparr>alerts := alerts w', alert_audiences := alert_audiences w', alert_user_state := alert_user_state w',
        published := published w', notified := notified w'\<rparr>"
    using arg_cong [OF eq, of list_waits] by (simp add: same_lists_def)
  show "same_lists w w'" if eq: "w' = w\<lparr>running_instances := running_instances w', node_network_interfaces := node_network_interfaces w',
        model_transfers := model_transfers w', node_model_inventory := node_model_inventory w', connectivity_checks := connectivity_checks w',
        model_deletes := model_deletes w', model_scans := model_scans w'\<rparr>"
    using arg_cong [OF eq, of list_waits] by (simp add: same_lists_def)
qed (auto simp: same_lists_def)

lemma same_lists_HandleRemove: "within same_lists (HandleRemoveContainerResult n env)"
  unfolding HandleRemoveContainerResult_def
  by (intro same_lists.db_within_rules same_lists.within_poke) (auto simp: same_lists_def split: option.split)

definition waiting :: "(string \<times> envelope) list \<Rightarrow> string \<Rightarrow> string \<Rightarrow> world \<Rightarrow> bool" where
  "waiting frames n i w \<longleftrightarrow> (\<exists>lw. map_of (list_waits w) i = Some lw \<and> wait_ok frames n i lw)"

lemma waiting_cong: "same_lists w w' \<Longrightarrow> waiting frames n i w \<Longrightarrow> waiting frames n i w'"
  by (simp add: waiting_def same_lists_def)

lemma waiting_part:
  assumes wait: "waiting frames n i w" and f: "(m, env) \<in> set frames" and run: "run_state (HandleListContainersResult m env) w = (u, w')"
  shows "waiting frames n i w'"
proof (cases "decode_ListContainersResult env")
  case (Inl e)
  then show ?thesis using run wait by (simp add: HandleListContainersResult_def)
next
  case (Inr part)
  obtain lw where lw: "map_of (list_waits w) i = Some lw" "wait_ok frames n i lw" using wait by (auto simp: waiting_def)
  have n: "lw_nodeID lw = n" using lw(2) by (simp add: wait_ok_def)
  show ?thesis
  proof (cases "lc_ScanID part = i \<and> m = n \<and> \<not> lw_finished lw")
    case True
    then have "answers frames n i part" using f Inr by (auto simp: answers_def)
    from take_part_ok [OF lw(2) _ this] True
    show ?thesis using run Inr lw(1) n by (auto simp: HandleListContainersResult_def run_poke waiting_def update_conv)
  next
    case False
    have "map_of (list_waits w') i = Some lw"
      using run Inr lw(1) n False by (auto simp: HandleListContainersResult_def run_poke update_conv split: option.splits if_splits)
    then show ?thesis using lw(2) by (auto simp: waiting_def)
  qed
qed

lemma waiting_onMessage:
  assumes "waiting frames n i w" "(m, env) \<in> set frames" "run_state (onMessage (m, env)) w = (u, w')"
  shows "waiting frames n i w'"
proof (cases "env_Type env = TypeListContainersResult")
  case True
  then show ?thesis using assms waiting_part by (simp add: onMessage_def)
next
  case False
  have "within same_lists (onMessage (m, env))" using False unfolding onMessage_def
    by (simp, intro conjI impI same_lists.db_within_rules same_lists.within_reports same_lists.within_report_interfaces
      same_lists.within_transfer_reports same_lists.within_inventory_reports same_lists.within_Publish same_lists_HandleRemove)
  then show ?thesis using assms waiting_cong withinD by metis
qed

lemma waiting_frames:
  "waiting frames n i w \<Longrightarrow> set fs \<subseteq> set frames \<Longrightarrow> run_state (for_each onMessage fs) w = (u, w') \<Longrightarrow> waiting frames n i w'"
proof (induction fs arbitrary: w)
  case (Cons f fs)
  obtain v w1 where r: "run_state (onMessage f) w = (v, w1)" by (metis prod.collapse)
  have "waiting frames n i w1" using Cons.prems r by (cases f) (auto intro: waiting_onMessage)
  then show ?case using Cons r by auto
qed simp

text \<open>
  C30. A node's container list is what that node said: an answer that a scan accepts is the concatenation of at
  most 40 parts, numbered from 0 without a gap, each of which arrived over that very node's connection as an
  answer to this request, the last and only the last one final and without an error, and it has at most 600
  containers, whatever other frames arrive in between.
\<close>

theorem list_answer_is_the_nodes_own:
  assumes run: "run_state (listNode n) w = (Inr (cs, truncated), w')"
  shows "whole_answer (arrivals w (tick w + 2)) n (hex_encode (take 16 (entropy w (tick w + 1)))) cs truncated \<and> length cs \<le> 600"
proof -
  let ?i = "hex_encode (take 16 (entropy w (tick w + 1)))" and ?fs = "arrivals w (tick w + 2)"
  let ?w1 = "w\<lparr>tick := Suc (tick w), list_waits := AList.update ?i (new_wait n) (list_waits w)\<rparr>"
  obtain c where c: "map_of (conns w) n = Some c" and ok: "faults w (tick w) = NoFault" "faults w (Suc (tick w)) = NoFault"
    using run by (auto simp: listNode_def newRequestID_def run_simps Let_def split: fault.splits option.splits)
  let ?w2 = "?w1\<lparr>tick := Suc (Suc (tick w)), sent := sent w @ [(c, NewEnvelope TypeListContainers [] (encode_ListContainers ?i))]\<rparr>"
  obtain u w3 where fs: "run_state (for_each onMessage ?fs) (?w2\<lparr>tick := Suc (Suc (Suc (tick w)))\<rparr>) = (u, w3)" by (metis prod.collapse)
  have "waiting ?fs n ?i (?w2\<lparr>tick := Suc (Suc (Suc (tick w)))\<rparr>)"
    by (auto simp: waiting_def wait_ok_def new_wait_def update_conv gathered_def intro!: exI [of _ "[]"])
  from waiting_frames [OF this order_refl fs] obtain lw where lw: "map_of (list_waits w3) ?i = Some lw" "wait_ok ?fs n ?i lw"
    by (auto simp: waiting_def)
  have "Inr (cs, truncated) = list_answer (Inr ()) (map_of (list_waits w3) ?i)"
    using run c ok fs
    by (simp add: listNode_def newRequestID_def await_def run_simps Let_def list_answer_def split: fault.splits)
  then have "whole_answer ?fs n ?i cs truncated" using lw by (auto simp: list_answer_def wait_ok_def split: if_splits)
  moreover from this have "length cs \<le> 600" by (auto simp: whole_answer_def gathered_def)
  ultimately show ?thesis ..
qed

definition exited_report :: json where
  "exited_report = JObj [(''instance_id'', JStr (uuid_of 7)), (''container_name'', JStr ''sparky-qwen''), (''state'', JStr ''exited''),
     (''labelled'', JBool True), (''exit_code'', JInt 1), (''finished_at'', JStr ''2025-11-01T10:00:00Z'')]"

definition answer_frame :: "string \<Rightarrow> json list \<Rightarrow> envelope" where
  "answer_frame i cs = NewEnvelope TypeListContainersResult []
     (JObj [(''scan_id'', JStr i), (''part'', JInt 0), (''final'', JBool True), (''containers'', JArr cs)])"

text \<open>Node 1 answers the first request; node 2 tries to answer in its place.\<close>

definition scan_world :: world where
  "scan_world = empty_world\<lparr>conns := [(uuid_of 1, 7), (uuid_of 2, 8)],
     arrivals := (\<lambda>k. if k = 2 then
        [(uuid_of 2, answer_frame (hex_encode (replicate 16 (CHR ''s''))) []),
         (uuid_of 1, answer_frame (hex_encode (replicate 16 (CHR ''s''))) [exited_report])] else [])\<rparr>"

definition exited_container :: managed_container where
  "exited_container = \<lparr>mc_InstanceID = uuid_of 7, mc_ProfileID = [], mc_ContainerID = [], mc_ContainerName = ''sparky-qwen'',
     mc_State = ''exited'', mc_Labelled = True, mc_ExitCode = Some 1, mc_OOMKilled = False, mc_CreatedAt = None,
     mc_FinishedAt = parse_rfc3339 ''2025-11-01T10:00:00Z''\<rparr>"

definition first_part :: "string \<Rightarrow> managed_container list \<Rightarrow> list_containers_result" where
  "first_part i cs = \<lparr>lc_ScanID = i, lc_Part = 0, lc_Final = True, lc_Containers = cs, lc_Truncated = False, lc_Error = []\<rparr>"

lemma answer_frame_decodes:
  "env_Type (answer_frame i vs) = TypeListContainersResult"
  "conv_containers vs = Some cs \<Longrightarrow> decode_ListContainersResult (answer_frame i vs) = Inr (first_part i cs)"
  by (simp_all add: answer_frame_def NewEnvelope_def decode_ListContainersResult_def decode_payload_def decode_object_def
      get_string_def get_int_def get_bool_def conv_string_def conv_int_def conv_bool_def in_int64_def first_part_def)

lemma exited_report_reads:
  "decode_ListContainersResult (answer_frame i []) = Inr (first_part i [])"
  "decode_ListContainersResult (answer_frame i [exited_report]) = Inr (first_part i [exited_container])"
proof -
  have "conv_containers [exited_report] = Some [exited_container]" by code_simp
  then show "decode_ListContainersResult (answer_frame i [exited_report]) = Inr (first_part i [exited_container])"
    by (rule answer_frame_decodes(2))
qed (simp add: answer_frame_decodes(2))

lemma scan_world_lists: "fst (run_state (listNode (uuid_of 1)) scan_world) = Inr ([exited_container], False)"
proof -
  have "uuid_of 2 \<noteq> uuid_of 1" by code_simp
  then show ?thesis
    by (simp add: listNode_def newRequestID_def await_def run_simps scan_world_def empty_world_def onMessage_def answer_frame_decodes(1) exited_report_reads
      HandleListContainersResult_def first_part_def new_wait_def take_part_def finish_def list_answer_def maxListParts_def maxContainersPerNode_def update_conv)
qed

theorem list_answer_is_the_nodes_own_witness:
  "whole_answer (arrivals scan_world 2) (uuid_of 1) (hex_encode (replicate 16 (CHR ''s''))) [exited_container] False"
proof -
  have "run_state (listNode (uuid_of 1)) scan_world = (Inr ([exited_container], False), snd (run_state (listNode (uuid_of 1)) scan_world))"
    using scan_world_lists by (metis prod.collapse)
  from list_answer_is_the_nodes_own [OF this] show ?thesis by (simp add: scan_world_def empty_world_def)
qed

section \<open>The audit log\<close>

interpretation log_grows: agents_outside log_grows
proof
  fix w w' :: world and env :: envelope and c
  show "log_grows w w'" if eq: "w' = w\<lparr>running_instances := running_instances w', node_network_interfaces := node_network_interfaces w',
        model_transfers := model_transfers w', node_model_inventory := node_model_inventory w', connectivity_checks := connectivity_checks w',
        model_deletes := model_deletes w', model_scans := model_scans w'\<rparr>"
    using arg_cong [OF eq, of audit_log] by (simp add: log_grows_same)
  show "log_grows w w'" if eq: "w' = w\<lparr>list_waits := list_waits w', remove_waits := remove_waits w', remove_answers := remove_answers w'\<rparr>"
    using arg_cong [OF eq, of audit_log] by (simp add: log_grows_same)
  show "log_grows w (w\<lparr>sent := sent w @ [(c, env)]\<rparr>)" by (simp add: log_grows_same)
qed

end
