(* ===== verification/Stale_Run.thy ===== *)
theory Stale_Run
  imports Stale_Scan
begin

text \<open>
  The scheduled run, removals and alerts of stale container monitoring (internal/stalecontainers/run.go).
  The theorems show which containers a node is ever asked to remove and that the runner starts no occurrence of
  the schedule twice. The order in which Go iterates over the map of removed names is unspecified; the model
  takes the order of the removals.
\<close>

section \<open>Texts\<close>

definition maxListedInAlert :: nat where "maxListedInAlert = 10"
definition alertObjectType :: string where "alertObjectType = ''stale_containers''"

definition encode_rune :: "int \<Rightarrow> string" where
  "encode_rune r =
     (let byte = \<lambda>k::int. char_of (nat k) in
      if r < 128 then [byte r]
      else if r < 2048 then [byte (192 + r div 64), byte (128 + r mod 64)]
      else if r < 65536 then [byte (224 + r div 4096), byte (128 + r div 64 mod 64), byte (128 + r mod 64)]
      else [byte (240 + r div 262144), byte (128 + r div 4096 mod 64), byte (128 + r div 64 mod 64), byte (128 + r mod 64)])"

definition clipRunes :: "string \<Rightarrow> nat \<Rightarrow> string" where
  "clipRunes s n =
     (let r = runes s in if length r \<le> n then s else concat (map encode_rune (take (n - 3) r)) @ ''...'')"

definition plural :: "int \<Rightarrow> string \<Rightarrow> string \<Rightarrow> string" where
  "plural n one many = (if n = 1 then one else many)"

definition keptKeyPrefix :: "string \<Rightarrow> string" where "keptKeyPrefix nodeID = ''stale_container_kept:'' @ nodeID @ '':''"
definition staleKey :: "string \<Rightarrow> string" where "staleKey nodeID = ''stale_containers:'' @ nodeID"
definition orphanKey :: "string \<Rightarrow> string" where "orphanKey nodeID = ''orphan_containers:'' @ nodeID"

definition stale_audiences :: "audience list" where "stale_audiences = [AudienceTier TierAdmin]"

definition newline :: string where "newline = [CHR 0x0A]"

abbreviation name_of :: "stale_item \<Rightarrow> string" where "name_of it \<equiv> c_ContainerName (it_Container it)"

section \<open>Alerts\<close>

definition ignore_result :: "'a res io \<Rightarrow> unit io" where
  "ignore_result m = State_Monad.bind m (\<lambda>_. State_Monad.return ())"

definition kept_alert :: "node_scan \<Rightarrow> stale_item \<Rightarrow> string \<Rightarrow> raise_params" where
  "kept_alert ns it reason =
     (let who = name_of it @ (if it_ProfileName it \<noteq> [] then '' (profile '' @ it_ProfileName it @ '')'' else []);
          body = ''The container '' @ who @ '' on '' @ ns_NodeName ns @ '' is stale, but its log could not be saved, so it was kept ''
            @ ''rather than lose the log that explains how it ended.''
            @ (if reason \<noteq> [] then '' The agent reported: '' @ reason @ ''.'' else [])
            @ '' Open Container cleanup to try again, or inspect the container on the node.''
      in \<lparr>rp_Kind = ''stale_container_kept'', rp_Severity = SeverityWarning,
          rp_Title = ''A stale container on '' @ ns_NodeName ns @ '' was kept because its log could not be saved'',
          rp_Body = clipRunes body MaxBodyLen, rp_ObjectType = alertObjectType, rp_ObjectID = ns_NodeID ns,
          rp_DedupeKey = keptKeyPrefix (ns_NodeID ns) @ instance_of it, rp_Audiences = stale_audiences\<rparr>)"

definition raiseKept :: "node_scan \<Rightarrow> stale_item \<Rightarrow> string \<Rightarrow> unit io" where
  "raiseKept ns it reason = ignore_result (Raise (kept_alert ns it reason))"

definition removed_lines :: "(string \<times> string list) list \<Rightarrow> string list" where
  "removed_lines byNode = concat (map (\<lambda>(node, names). map (\<lambda>nm. ''- '' @ nm @ '' on '' @ node @ newline) names) byNode)"

definition removed_alert :: "(string \<times> string list) list \<Rightarrow> int \<Rightarrow> raise_params" where
  "removed_alert byNode removedCount =
     (let listed = take (maxListedInAlert * 2) (removed_lines byNode);
          body = ''Scheduled Prune archived each container's log and then removed these stale containers:'' @ newline
            @ concat listed
            @ (if removedCount > int (length listed) then ''... and '' @ int_digits (removedCount - int (length listed)) @ '' more.'' @ newline else [])
            @ ''Their logs are under Container logs (Developer and above).''
      in \<lparr>rp_Kind = ''stale_containers_removed'', rp_Severity = SeverityInfo,
          rp_Title = ''Stale container cleanup removed '' @ int_digits removedCount @ '' '' @ plural removedCount ''container'' ''containers'',
          rp_Body = clipRunes body MaxBodyLen, rp_ObjectType = [], rp_ObjectID = [], rp_DedupeKey = [],
          rp_Audiences = stale_audiences\<rparr>)"

definition raiseRemovedSummary :: "(string \<times> string list) list \<Rightarrow> int \<Rightarrow> unit io" where
  "raiseRemovedSummary byNode removedCount = ignore_result (Raise (removed_alert byNode removedCount))"

definition stale_line :: "stale_item \<Rightarrow> string io" where
  "stale_line it =
     (let c = it_Container it;
          start = ''- '' @ c_ContainerName c
            @ (if it_ProfileName it \<noteq> [] then '' (profile '' @ it_ProfileName it @ '')'' else [])
            @ '': '' @ c_State c
            @ (case c_ExitCode c of None \<Rightarrow> [] | Some k \<Rightarrow> '', exit code '' @ int_digits k)
            @ (if c_OOMKilled c then '', out of memory'' else []);
          stopped = ev_StoppedAt (it_Evaluation it)
      in if IsZero stopped then State_Monad.return (start @ newline)
         else State_Monad.bind time_now (\<lambda>now.
           State_Monad.return (start @ '', stopped '' @ humanDuration (Sub now stopped) @ '' ago'' @ newline)))"

fun concat_lines :: "stale_item list \<Rightarrow> string io" where
  "concat_lines [] = State_Monad.return []"
| "concat_lines (it # its) =
     State_Monad.bind (stale_line it) (\<lambda>l. State_Monad.bind (concat_lines its) (\<lambda>ls. State_Monad.return (l @ ls)))"

definition and_more :: "stale_item list \<Rightarrow> string" where
  "and_more its =
     (if length its > maxListedInAlert
      then ''... and '' @ int_digits (int (length its) - int maxListedInAlert) @ '' more.'' @ newline else [])"

definition staleAlert :: "node_scan \<Rightarrow> stale_item list \<Rightarrow> raise_params io" where
  "staleAlert ns stale =
     (let n = int (length stale);
          word = plural n ''container'' ''containers'';
          head = ns_NodeName ns @ '' holds '' @ int_digits n @ '' '' @ word
            @ '' for instances that have ended, left behind after the instance stopped or failed to launch. ''
            @ ''Open Container cleanup to review them and remove the ones you no longer need; each one's log is saved first.'' @ newline
      in State_Monad.bind (concat_lines (take maxListedInAlert stale)) (\<lambda>ls. State_Monad.return
           \<lparr>rp_Kind = ''stale_containers'', rp_Severity = SeverityWarning,
            rp_Title = int_digits n @ '' stale '' @ word @ '' on '' @ ns_NodeName ns,
            rp_Body = clipRunes (head @ ls @ and_more stale) MaxBodyLen, rp_ObjectType = alertObjectType,
            rp_ObjectID = ns_NodeID ns, rp_DedupeKey = [], rp_Audiences = stale_audiences\<rparr>))"

definition orphanAlert :: "node_scan \<Rightarrow> stale_item list \<Rightarrow> raise_params io" where
  "orphanAlert ns orphans =
     (let n = int (length orphans);
          word = plural n ''container'' ''containers'';
          head = ns_NodeName ns @ '' has '' @ int_digits n @ '' running '' @ word
            @ '' that Sparky started but has no record of (for example after the database was restored from a backup). ''
            @ ''They are running, so Sparky never removes them. Check them on the node and stop them yourself if they are not needed.'' @ newline;
          ls = concat (map (\<lambda>it. ''- '' @ name_of it @ '' (instance '' @ instance_of it @ ''): '' @ c_State (it_Container it) @ newline)
                 (take maxListedInAlert orphans))
      in State_Monad.return
           \<lparr>rp_Kind = ''orphan_containers'', rp_Severity = SeverityWarning,
            rp_Title = int_digits n @ '' running '' @ word @ '' on '' @ ns_NodeName ns @ '' with no matching instance'',
            rp_Body = clipRunes (head @ ls @ and_more orphans) MaxBodyLen, rp_ObjectType = alertObjectType,
            rp_ObjectID = ns_NodeID ns, rp_DedupeKey = [], rp_Audiences = stale_audiences\<rparr>)"

definition syncCondition :: "string \<Rightarrow> bool \<Rightarrow> raise_params io \<Rightarrow> unit io" where
  "syncCondition key holds build =
     (if \<not> holds then ignore_result (ResolveCondition key)
      else State_Monad.bind build (\<lambda>p. ignore_result (Raise (p\<lparr>rp_DedupeKey := key\<rparr>))))"

definition not_gone :: "string list \<Rightarrow> node_scan \<Rightarrow> stale_item list" where
  "not_gone gone ns = filter (\<lambda>it. instance_of it \<notin> set gone) (ns_Items ns)"

definition having :: "verdict \<Rightarrow> stale_item list \<Rightarrow> stale_item list" where
  "having v its = filter (\<lambda>it. verdict_of it = v) its"

definition tally :: "string list \<Rightarrow> node_scan \<Rightarrow> run_summary \<Rightarrow> run_summary" where
  "tally gone ns s =
     (let left = not_gone gone ns in
      s\<lparr>sum_NodesScanned := sum_NodesScanned s + 1,
        sum_Recent := sum_Recent s + int (length (having VerdictRecent left)),
        sum_Stale := sum_Stale s + int (length (With ns VerdictStale)),
        sum_Orphans := sum_Orphans s + int (length (having VerdictOrphanLive left))\<rparr>)"

definition sync_node :: "string list \<Rightarrow> node_scan \<Rightarrow> unit io" where
  "sync_node gone ns =
     (let left = not_gone gone ns; stale = having VerdictStale left; orphans = having VerdictOrphanLive left;
          present = map (\<lambda>it. keptKeyPrefix (ns_NodeID ns) @ instance_of it) left in
      State_Monad.bind (syncCondition (staleKey (ns_NodeID ns)) (stale \<noteq> []) (staleAlert ns stale)) (\<lambda>_.
      State_Monad.bind (syncCondition (orphanKey (ns_NodeID ns)) (orphans \<noteq> []) (orphanAlert ns orphans)) (\<lambda>_.
      ignore_result (ResolveConditionsExcept (keptKeyPrefix (ns_NodeID ns)) present))))"

fun syncAlerts :: "node_scan list \<Rightarrow> string list \<Rightarrow> run_summary \<Rightarrow> run_summary io" where
  "syncAlerts [] gone s = State_Monad.return s"
| "syncAlerts (ns # rest) gone s =
     (if ns_Status ns \<noteq> ScanDone then syncAlerts rest gone (s\<lparr>sum_NodesSkipped := sum_NodesSkipped s + 1\<rparr>)
      else State_Monad.bind (sync_node gone ns) (\<lambda>_. syncAlerts rest gone (tally gone ns s)))"

section \<open>Removing\<close>

record remove_result =
  rem_Outcome :: string
  rem_Detail :: string
  rem_ContainerName :: string
  rem_ProfileName :: string

definition removal_detail :: "node_scan \<Rightarrow> stale_item \<Rightarrow> int \<Rightarrow> string \<Rightarrow> audit_detail" where
  "removal_detail ns it archive trigger =
     (let c = it_Container it in
      [(''node_id'', JStr (ns_NodeID ns)), (''node_name'', JStr (ns_NodeName ns)), (''trigger'', JStr trigger),
       (''container_name'', JStr (c_ContainerName c)), (''container_id'', JStr (c_ContainerID c)), (''state'', JStr (c_State c)),
       (''profile_id'', JStr (c_ProfileID c)), (''profile_name'', JStr (it_ProfileName it)), (''lines_archived'', JInt archive)]
      @ (case c_ExitCode c of None \<Rightarrow> [] | Some k \<Rightarrow> [(''exit_code'', JInt k)]))"

definition removeItem ::
  "node_scan \<Rightarrow> stale_item \<Rightarrow> int \<Rightarrow> string \<Rightarrow> string option \<Rightarrow> bool \<Rightarrow> (remove_result \<times> error option) io" where
  "removeItem ns it archive trigger actorID superAdmin =
     (let out = \<lambda>outcome det. \<lparr>rem_Outcome = outcome, rem_Detail = det, rem_ContainerName = name_of it, rem_ProfileName = it_ProfileName it\<rparr> in
      State_Monad.bind (requestRemove (ns_NodeID ns) (instance_of it) archive) (\<lambda>r. case r of
        Inl e \<Rightarrow> State_Monad.return (out ''failed'' (error_text e), None)
      | Inr res \<Rightarrow>
          let o1 = out (rc_Outcome res) (printable (rc_Detail res) 1000) in
          if rc_Outcome res = ''removed'' then
            State_Monad.bind
              (Record actorID superAdmin ''removed_stale_container'' ''container'' (instance_of it) (Some (removal_detail ns it archive trigger)))
              (\<lambda>a. State_Monad.return
                (o1, case a of Inl _ \<Rightarrow> Some (Wrap (''container '' @ name_of it @ '' on '' @ ns_NodeName ns) ErrAuditAfterRemoval) | Inr _ \<Rightarrow> None))
          else if rc_Outcome res = ''kept'' then
            State_Monad.bind (raiseKept ns it (rem_Detail o1)) (\<lambda>_. State_Monad.return (o1, None))
          else State_Monad.return (o1, None)))"

text \<open>\<^verbatim>\<open>ctx.Err() != nil\<close>.\<close>

definition ctx_done :: "bool io" where
  "ctx_done = State (\<lambda>w. (faults w (tick w) \<noteq> NoFault, w\<lparr>tick := Suc (tick w)\<rparr>))"

record prune_state =
  pr_sum :: run_summary
  pr_gone :: "string list"
  pr_removed :: "(string \<times> string list) list"

definition add_name :: "string \<Rightarrow> string \<Rightarrow> (string \<times> string list) list \<Rightarrow> (string \<times> string list) list" where
  "add_name node nm m = AList.update node ((case map_of m node of None \<Rightarrow> [] | Some ns \<Rightarrow> ns) @ [nm]) m"

definition count_outcome :: "node_scan \<Rightarrow> stale_item \<Rightarrow> string \<Rightarrow> prune_state \<Rightarrow> prune_state" where
  "count_outcome ns it outcome p =
     (let s = pr_sum p in
      if outcome = ''removed'' then
        p\<lparr>pr_sum := s\<lparr>sum_Removed := sum_Removed s + 1\<rparr>, pr_gone := pr_gone p @ [instance_of it],
          pr_removed := add_name (ns_NodeName ns) (name_of it) (pr_removed p)\<rparr>
      else if outcome = ''gone'' then p\<lparr>pr_sum := s\<lparr>sum_Gone := sum_Gone s + 1\<rparr>, pr_gone := pr_gone p @ [instance_of it]\<rparr>
      else if outcome = ''kept'' then p\<lparr>pr_sum := s\<lparr>sum_Kept := sum_Kept s + 1\<rparr>\<rparr>
      else p\<lparr>pr_sum := s\<lparr>sum_Failed := sum_Failed s + 1\<rparr>\<rparr>)"

text \<open>The inner loop; \<open>True\<close> when the context was cancelled, which ends the whole prune.\<close>

fun prune_items :: "node_scan \<Rightarrow> int \<Rightarrow> stale_item list \<Rightarrow> prune_state \<Rightarrow> (bool \<times> prune_state) io" where
  "prune_items ns archive [] p = State_Monad.return (False, p)"
| "prune_items ns archive (it # its) p =
     State_Monad.bind ctx_done (\<lambda>stop.
       if stop then State_Monad.return (True, p)
       else State_Monad.bind (removeItem ns it archive ''scheduled_prune'' None False) (\<lambda>(res, _).
         prune_items ns archive its (count_outcome ns it (rem_Outcome res) p)))"

fun prune_nodes :: "int \<Rightarrow> node_scan list \<Rightarrow> prune_state \<Rightarrow> (bool \<times> prune_state) io" where
  "prune_nodes archive [] p = State_Monad.return (False, p)"
| "prune_nodes archive (ns # rest) p =
     (if ns_Status ns \<noteq> ScanDone then prune_nodes archive rest p
      else State_Monad.bind (prune_items ns archive (With ns VerdictStale) p) (\<lambda>(stop, p1).
        if stop then State_Monad.return (True, p1) else prune_nodes archive rest p1))"

definition prune :: "node_scan list \<Rightarrow> int \<Rightarrow> run_summary \<Rightarrow> (run_summary \<times> string list) io" where
  "prune scans archive s =
     State_Monad.bind (prune_nodes archive scans \<lparr>pr_sum = s, pr_gone = [], pr_removed = []\<rparr>) (\<lambda>(stop, p).
       if \<not> stop \<and> sum_Removed (pr_sum p) > 0
       then State_Monad.bind (raiseRemovedSummary (pr_removed p) (sum_Removed (pr_sum p))) (\<lambda>_. State_Monad.return (pr_sum p, pr_gone p))
       else State_Monad.return (pr_sum p, pr_gone p))"

section \<open>Runs\<close>

definition zero_summary :: "string \<Rightarrow> time \<Rightarrow> run_summary" where
  "zero_summary mode startedAt =
     \<lparr>sum_Mode = mode, sum_StartedAt = startedAt, sum_FinishedAt = 0, sum_NodesScanned = 0, sum_NodesSkipped = 0,
      sum_Stale = 0, sum_Recent = 0, sum_Orphans = 0, sum_Removed = 0, sum_Gone = 0, sum_Kept = 0, sum_Failed = 0\<rparr>"

text \<open>What follows the scan.\<close>

definition after_scan :: "stale_settings \<Rightarrow> time \<Rightarrow> node_scan list \<Rightarrow> unit res io" where
  "after_scan cfg started scans =
     State_Monad.bind
       (if sc_Mode cfg = ModePrune
        then prune scans (sc_ArchiveLines cfg) (zero_summary (mode_string (sc_Mode cfg)) started)
        else State_Monad.return (zero_summary (mode_string (sc_Mode cfg)) started, [])) (\<lambda>(s, gone).
     State_Monad.bind (syncAlerts scans gone s) (\<lambda>s1.
     State_Monad.bind time_now (\<lambda>finished.
       or_return (SetLastRunSummary (s1\<lparr>sum_FinishedAt := finished\<rparr>)) (\<lambda>e. e) ok)))"

definition runScheduled :: "unit res io" where
  "runScheduled =
     or_return sc_Get (Wrap ''get stale container settings'') (\<lambda>cfg.
       if sc_Mode cfg = ModeNone then ok ()
       else or_return node_List (Wrap ''list nodes'') (\<lambda>all.
         State_Monad.bind time_now (\<lambda>started.
         State_Monad.bind (scan (containerNodes all) (sc_MinAgeHours cfg * hour)) (after_scan cfg started))))"

definition load_job :: "job_state res io" where
  "load_job =
     or_return sc_Get (\<lambda>e. e) (\<lambda>cfg.
       let enabled = (sc_Mode cfg \<noteq> ModeNone);
           lastRun = (case sc_LastRunAt cfg of None \<Rightarrow> 0 | Some t \<Rightarrow> t);
           st = \<lambda>s. \<lparr>Enabled = enabled, JobSpec = s, Anchor = sc_ScheduleSetAt cfg, LastRun = lastRun\<rparr> in
       if \<not> enabled then ok (st \<lparr>Kind = KindOther [], Weekdays = [], Times = [], EveryDays = 0\<rparr>)
       else case decode_Spec (sc_Schedule cfg) of
         Inl e \<Rightarrow> fail (Wrap ''the saved schedule cannot be read'' e)
       | Inr s \<Rightarrow> (case spec_Validate s of Inl e \<Rightarrow> fail e | Inr _ \<Rightarrow> ok (st s)))"

definition stale_job :: job where
  "stale_job = \<lparr>Load = load_job, Begin = MarkRun, Run = (\<lambda>_. runScheduled)\<rparr>"

definition RemoveOne :: "actor \<Rightarrow> string \<Rightarrow> string \<Rightarrow> int \<Rightarrow> (remove_result option \<times> error option) io" where
  "RemoveOne a nodeID instanceID archive =
     (let err = \<lambda>e. State_Monad.return (None, Some e) in
      if \<not> CanManageStaleContainers a then err ErrNotPermitted
      else if \<not> uuidPattern nodeID \<or> \<not> uuidPattern instanceID then err (Wrap ''malformed id'' ErrInvalidRequest)
      else if archive < 0 \<or> archive > MaxArchiveLines then err (Wrap ''log lines must be between 0 (all) and 100000'' ErrInvalidRequest)
      else State_Monad.bind sc_Get (\<lambda>g. case g of
        Inl e \<Rightarrow> err (Wrap ''get stale container settings'' e)
      | Inr cfg \<Rightarrow>
          State_Monad.bind (node_FindByID (ToLower nodeID)) (\<lambda>n. case n of
            Inl _ \<Rightarrow> err (Wrap ''no such node'' ErrNodeUnavailable)
          | Inr node \<Rightarrow>
              if containerNodes [node] = [] then err (Wrap (node_Name node @ '' does not run containers'') ErrNodeUnavailable)
              else State_Monad.bind (scan [node] (sc_MinAgeHours cfg * hour)) (\<lambda>scans.
                let ns = hd scans in
                if ns_Status ns \<noteq> ScanDone then err (Wrap (node_Name node @ '': '' @ ns_Error ns) ErrNodeUnavailable)
                else case find (\<lambda>it. instance_of it = ToLower instanceID) (ns_Items ns) of
                  None \<Rightarrow> State_Monad.return
                    (Some \<lparr>rem_Outcome = ''gone'', rem_Detail = ''that container is already gone'', rem_ContainerName = [], rem_ProfileName = []\<rparr>, None)
                | Some it \<Rightarrow>
                    if verdict_of it \<noteq> VerdictStale then err (Wrap (ev_Reason (it_Evaluation it)) ErrNotStale)
                    else State_Monad.bind (removeItem ns it archive ''manual'' (actor_id a) (IsSuperAdmin a)) (\<lambda>(res, e).
                      State_Monad.bind
                        (syncAlerts scans (if rem_Outcome res = ''removed'' \<or> rem_Outcome res = ''gone'' then [ToLower instanceID] else [])
                           (zero_summary [] 0)) (\<lambda>_.
                        State_Monad.return (Some res, e)))))))"

section \<open>What a run leaves alone\<close>

definition removal_frame :: "string \<Rightarrow> string \<Rightarrow> int \<Rightarrow> envelope" where
  "removal_frame i instanceID archive =
     NewEnvelope TypeRemoveContainer [] (encode_RemoveContainer \<lparr>rm_RemoveID = i, rm_InstanceID = instanceID, rm_Lines = archive\<rparr>)"

definition allowed :: "(string \<Rightarrow> envelope \<Rightarrow> bool) \<Rightarrow> int \<Rightarrow> node_scan \<Rightarrow> bool" where
  "allowed may archive ns \<longleftrightarrow> ns_Status ns = ScanDone \<longrightarrow>
     (\<forall>it \<in> set (With ns VerdictStale). \<forall>i. may (ns_NodeID ns) (removal_frame i (instance_of it) archive))"

text \<open>Writing the text of an alert only reads the clock.\<close>

context db_step_rel
begin

lemma within_concat_lines: "within R (concat_lines its)"
proof (induction its)
  case (Cons it its)
  have "within R (stale_line it)" unfolding stale_line_def Let_def by (intro db_within_rules)
  with Cons show ?case by (auto intro!: db_within_rules)
qed (simp add: within_return)

lemma within_staleAlert: "within R (staleAlert ns stale)"
  unfolding staleAlert_def Let_def by (intro db_within_rules within_concat_lines)

end

text \<open>
  The frames that ask a node to remove a container are those that \<open>may\<close> allows; apart from these, a relation that
  does not look at agents, alerts, the audit log and the last run's summary holds of a whole run.
\<close>

locale run_outside = agents_outside R for R +
  fixes may :: "string \<Rightarrow> envelope \<Rightarrow> bool"
  assumes removals: "may n env \<Longrightarrow> map_of (conns w) n = Some c \<Longrightarrow> R w (w\<lparr>sent := sent w @ [(c, env)]\<rparr>)"
    and logs: "R w (w\<lparr>audit_log := audit_log w @ [rec]\<rparr>)" "R w (w\<lparr>audit_stream := strm\<rparr>)"
    and summaries: "R w (w\<lparr>stale_settings_row := (stale_settings_row w)\<lparr>sc_LastRunSummary := x\<rparr>\<rparr>)"
begin

lemma within_Record: "within R (Record act sa action ot obj det)"
proof (rule withinI)
  fix w
  have "R w (w\<lparr>tick := t, audit_log := audit_log w @ [rec]\<rparr>)" for t rec
    using rel_trans [OF rel_tick [of w t] logs(1) [of "w\<lparr>tick := t\<rparr>" rec]] by simp
  moreover from this have "R w (w\<lparr>tick := t, audit_log := audit_log w @ [rec], audit_stream := l\<rparr>)" for t rec l
    using rel_trans [OF _ logs(2)] by blast
  ultimately show "R w (snd (run_state (Record act sa action ot obj det) w))"
    by (simp add: run_Record Let_def rel_tick split: fault.split)
qed

lemma within_ignore_result: "within R m \<Longrightarrow> within R (ignore_result m)"
  unfolding ignore_result_def by (intro db_within_rules)

lemma within_send_removal:
  assumes "\<And>i. may n (removal_frame i inst archive)"
  shows "within R (Send n (NewEnvelope TypeRemoveContainer [] (encode_RemoveContainer \<lparr>rm_RemoveID = i, rm_InstanceID = inst, rm_Lines = archive\<rparr>)))"
proof (rule withinI)
  fix w
  have "R w (w\<lparr>tick := t, sent := sent w @ [(c, removal_frame i inst archive)]\<rparr>)" if "map_of (conns w) n = Some c" for c t
    using rel_trans [OF rel_tick [of w t] removals [OF assms [of i], of "w\<lparr>tick := t\<rparr>" c]] that by simp
  then show "R w (snd (run_state (Send n (NewEnvelope TypeRemoveContainer []
      (encode_RemoveContainer \<lparr>rm_RemoveID = i, rm_InstanceID = inst, rm_Lines = archive\<rparr>))) w))"
    by (simp add: run_Send removal_frame_def [symmetric] Let_def rel_refl rel_tick split: option.split fault.split)
qed

lemma within_requestRemove: "(\<And>i. may n (removal_frame i inst archive)) \<Longrightarrow> within R (requestRemove n inst archive)"
  unfolding requestRemove_def newRequestID_def
  by (intro db_within_rules within_poke waits_only within_send_removal within_await) simp_all

lemma within_removeItem:
  "(\<And>i. may (ns_NodeID ns) (removal_frame i (instance_of it) archive)) \<Longrightarrow> within R (removeItem ns it archive trigger act sa)"
  unfolding removeItem_def raiseKept_def Let_def
  by (intro db_within_rules within_requestRemove within_Record within_ignore_result alert_rules)

lemma within_ctx_done: "within R ctx_done"
  by (simp add: ctx_done_def within_def rel_tick)

lemma within_prune_items:
  "\<forall>it \<in> set its. \<forall>i. may (ns_NodeID ns) (removal_frame i (instance_of it) archive) \<Longrightarrow> within R (prune_items ns archive its p)"
  by (induction its arbitrary: p) (auto intro!: db_within_rules within_ctx_done within_removeItem)

lemma within_prune_nodes: "list_all (allowed may archive) scans \<Longrightarrow> within R (prune_nodes archive scans p)"
  by (induction scans arbitrary: p) (auto intro!: db_within_rules within_prune_items simp: allowed_def)

lemma within_prune: "list_all (allowed may archive) scans \<Longrightarrow> within R (prune scans archive s)"
  unfolding prune_def raiseRemovedSummary_def
  by (intro db_within_rules within_prune_nodes within_ignore_result alert_rules)

lemma within_sync_node: "within R (sync_node gone ns)"
  unfolding sync_node_def syncCondition_def orphanAlert_def Let_def
  by (intro db_within_rules within_ignore_result alert_rules within_staleAlert)

lemma within_syncAlerts: "within R (syncAlerts scans gone s)"
  by (induction scans gone s rule: syncAlerts.induct) (auto intro!: db_within_rules within_sync_node)

lemma within_SetLastRunSummary: "within R (SetLastRunSummary x)"
  unfolding SetLastRunSummary_def by (intro db_within_rules within_exec) (simp add: summaries)

lemma within_after_scan:
  "(sc_Mode cfg = ModePrune \<Longrightarrow> list_all (allowed may (sc_ArchiveLines cfg)) scans) \<Longrightarrow> within R (after_scan cfg started scans)"
  unfolding after_scan_def
  by (cases "sc_Mode cfg = ModePrune")
    (auto intro!: db_within_rules within_prune within_syncAlerts within_SetLastRunSummary)

lemma within_sc_Get: "within R sc_Get" "within R node_List" "within R (node_FindByID i)"
  unfolding sc_Get_def node_List_def node_FindByID_def by (intro db_within_rules)+

lemma within_runScheduled: "(\<And>n env. may n env) \<Longrightarrow> within R runScheduled"
  unfolding runScheduled_def
  by (intro db_within_rules within_sc_Get within_scan within_after_scan) (simp add: allowed_def list_all_iff)

lemma within_RemoveOne: "(\<And>n env. may n env) \<Longrightarrow> within R (RemoveOne a n i archive)"
  unfolding RemoveOne_def Let_def
  by (intro db_within_rules within_sc_Get within_scan within_removeItem within_syncAlerts) simp_all

end

section \<open>Which containers are removed\<close>

text \<open>Every frame sent that asks for a removal is allowed, and goes to the connection of its node.\<close>

definition sends_only :: "(string \<Rightarrow> envelope \<Rightarrow> bool) \<Rightarrow> world \<Rightarrow> world \<Rightarrow> bool" where
  "sends_only may w w' \<longleftrightarrow> conns w' = conns w \<and>
     (\<exists>new. sent w' = sent w @ new \<and>
        (\<forall>(c, env) \<in> set new. env_Type env = TypeRemoveContainer \<longrightarrow> (\<exists>n. may n env \<and> map_of (conns w) n = Some c)))"

lemma sends_only_same: "conns w' = conns w \<Longrightarrow> sent w' = sent w \<Longrightarrow> sends_only may w w'"
  by (simp add: sends_only_def)

interpretation sends_only: run_outside "sends_only may" may for may
proof
  fix u v w w' :: world and env :: envelope and c n rec strm x t
  show "sends_only may w w" "sends_only may w (w\<lparr>tick := t\<rparr>)" "sends_only may w (w\<lparr>audit_log := audit_log w @ [rec]\<rparr>)"
    "sends_only may w (w\<lparr>audit_stream := strm\<rparr>)"
    "sends_only may w (w\<lparr>stale_settings_row := (stale_settings_row w)\<lparr>sc_LastRunSummary := x\<rparr>\<rparr>)"
    by (simp_all add: sends_only_same)
  show "sends_only may u w" if "sends_only may u v" "sends_only may v w"
    using that unfolding sends_only_def by auto
  show "sends_only may w w'" if eq: "w' = w\<lparr>alerts := alerts w', alert_audiences := alert_audiences w', alert_user_state := alert_user_state w',
        published := published w', notified := notified w'\<rparr>"
    using arg_cong [OF eq, of conns] arg_cong [OF eq, of sent] by (simp add: sends_only_same)
  show "sends_only may w w'" if eq: "w' = w\<lparr>running_instances := running_instances w', node_network_interfaces := node_network_interfaces w',
        model_transfers := model_transfers w', node_model_inventory := node_model_inventory w', connectivity_checks := connectivity_checks w',
        model_deletes := model_deletes w', model_scans := model_scans w'\<rparr>"
    using arg_cong [OF eq, of conns] arg_cong [OF eq, of sent] by (simp add: sends_only_same)
  show "sends_only may w w'" if eq: "w' = w\<lparr>list_waits := list_waits w', remove_waits := remove_waits w', remove_answers := remove_answers w'\<rparr>"
    using arg_cong [OF eq, of conns] arg_cong [OF eq, of sent] by (simp add: sends_only_same)
  show "sends_only may w (w\<lparr>sent := sent w @ [(c, env)]\<rparr>)" if "env_Type env \<noteq> TypeRemoveContainer"
    using that by (simp add: sends_only_def)
  show "sends_only may w (w\<lparr>sent := sent w @ [(c, env)]\<rparr>)" if "may n env" "map_of (conns w) n = Some c"
    using that by (auto simp: sends_only_def)
qed

text \<open>An item that is stale by the records of the database at the end of the scan that found it.\<close>

definition stale_by_record :: "int \<Rightarrow> world \<Rightarrow> string \<Rightarrow> stale_item \<Rightarrow> bool" where
  "stale_by_record age w nodeID it \<longleftrightarrow>
     (let inst = find_row inst_ID (instance_of it) (running_instances w) in
      removable_state (it_Container it) \<and> instance_over nodeID inst \<and> (\<exists>k. old_enough (it_Container it) inst (clock w k) age))"

lemma judged_stale:
  "judged age w n it \<Longrightarrow> verdict_of it = VerdictStale \<Longrightarrow> 0 \<le> age \<Longrightarrow> in_int64 age \<Longrightarrow> stale_by_record age w n it"
  unfolding judged_def stale_by_record_def Let_def using Classify_stale by metis

definition found_stale :: "node_scan list \<Rightarrow> int \<Rightarrow> world \<Rightarrow> int \<Rightarrow> string \<Rightarrow> envelope \<Rightarrow> bool" where
  "found_stale scans age w archive n env \<longleftrightarrow>
     (\<exists>s \<in> set scans. \<exists>it \<in> set (ns_Items s). \<exists>i. ns_Status s = ScanDone \<and> ns_NodeID s = n \<and> stale_by_record age w n it
        \<and> env = removal_frame i (instance_of it) archive)"

lemma scan_allows:
  assumes "run_state (scan ns age) w = (scans, w')" "0 \<le> age" "in_int64 age"
  shows "list_all (allowed (found_stale scans age w' archive) archive) scans"
proof -
  have "found_stale scans age w' archive (ns_NodeID s) (removal_frame i (instance_of it) archive)"
    if "s \<in> set scans" "ns_Status s = ScanDone" "it \<in> set (With s VerdictStale)" for s it i
    using that scan_reports [OF assms(1)] judged_stale [OF _ _ assms(2,3)] unfolding found_stale_def With_def by fastforce
  then show ?thesis by (simp add: list_all_iff allowed_def)
qed

definition container_node_list :: "world \<Rightarrow> node list" where
  "container_node_list w = containerNodes (map cred_Node (sort_key cred_name (nodes w)))"

lemma min_age_range: "settings_ok w \<Longrightarrow> 0 \<le> sc_MinAgeHours (stale_settings_row w) * hour \<and> in_int64 (sc_MinAgeHours (stale_settings_row w) * hour)"
  by (auto simp: settings_ok_def row_ok_def in_int64_def)

text \<open>
  C5. What a scheduled run asks nodes to remove: only in mode Prune, and only a container that this run's scan
  found on that node and that is stale by the database's own records at the end of the scan: it is not running,
  its instance has no record or one that is stopped or failed on that node, and it stopped at least the minimum
  age before. The request goes over that node's connection. This holds for all faults and whatever agents send.
\<close>

theorem scheduled_run_removes_only_stale:
  assumes ok: "settings_ok w" and run: "run_state runScheduled w = (r, w')"
  shows "\<exists>scans w1 new. run_state (scan (container_node_list w) (sc_MinAgeHours (stale_settings_row w) * hour)) (w\<lparr>tick := tick w + 3\<rparr>) = (scans, w1)
    \<and> sent w' = sent w @ new
    \<and> (\<forall>(c, env) \<in> set new. env_Type env = TypeRemoveContainer \<longrightarrow>
        sc_Mode (stale_settings_row w) = ModePrune \<and>
        (\<exists>n. map_of (conns w) n = Some c \<and>
          found_stale scans (sc_MinAgeHours (stale_settings_row w) * hour) w1 (sc_ArchiveLines (stale_settings_row w)) n env))"
proof -
  let ?cfg = "stale_settings_row w" and ?w3 = "w\<lparr>tick := tick w + 3\<rparr>"
  let ?age = "sc_MinAgeHours ?cfg * hour"
  obtain scans w1 where s: "run_state (scan (container_node_list w) ?age) ?w3 = (scans, w1)" by (metis prod.collapse)
  define may where "may n env \<longleftrightarrow> sc_Mode ?cfg = ModePrune \<and> found_stale scans ?age w1 (sc_ArchiveLines ?cfg) n env" for n env
  have "sends_only may w w'"
  proof (cases "sc_Mode ?cfg \<noteq> ModeNone \<and> faults w (tick w) = NoFault \<and> faults w (Suc (tick w)) = NoFault")
    case False
    then have "w' = w \<or> (\<exists>t. w' = w\<lparr>tick := t\<rparr>)"
      using run by (auto simp: runScheduled_def sc_Get_def node_List_def run_simps split: if_splits fault.splits)
    then show ?thesis by (auto simp: sends_only_same)
  next
    case True
    have rest: "run_state (after_scan ?cfg (clock w (tick w + 2)) scans) w1 = (r, w')"
      using run True s
      by (simp add: runScheduled_def sc_Get_def node_List_def run_simps container_node_list_def numeral_3_eq_3 numeral_2_eq_2)
    have "list_all (allowed may (sc_ArchiveLines ?cfg)) scans" if "sc_Mode ?cfg = ModePrune"
      using scan_allows [OF s, of "sc_ArchiveLines ?cfg"] min_age_range [OF ok] that by (simp add: may_def list_all_iff allowed_def)
    then have "sends_only may w1 w'" by (intro withinD [OF sends_only.within_after_scan rest])
    moreover have "sends_only may ?w3 w1" by (rule withinD [OF sends_only.within_scan s])
    ultimately show ?thesis using sends_only.rel_trans sends_only.rel_tick by blast
  qed
  then show ?thesis using s unfolding sends_only_def may_def by fastforce
qed

definition docker_node :: node where
  "docker_node = \<lparr>node_ID = uuid_of 1, node_Name = ''spark-1'', node_Hostname = ''spark-1'', node_IPAddress = ''10.0.0.1'',
     node_RuntimeBackend = BackendDocker, node_GPUMemoryGB = Finite 128 0, node_CPUMemoryGB = Finite 128 0, node_AgentStatus = AgentOnline,
     node_LastHeartbeatAt = None, node_RegisteredBy = None, node_RegisteredAt = 0, node_SSHPublicKey = None, node_SSHHostPublicKey = None,
     node_DefaultTransferInterface = None, node_Comment = None, node_CommentUpdatedBy = None, node_CommentUpdatedAt = None\<rparr>"

text \<open>One container node in mode Prune, whose agent reports one container that exited days ago.\<close>

definition prune_world :: "nat \<Rightarrow> world" where
  "prune_world k = empty_world\<lparr>conns := [(uuid_of 1, 7)],
     nodes := [\<lparr>cred_Node = docker_node, cred_BearerTokenHash = []\<rparr>],
     stale_settings_row := (stale_settings_row empty_world)\<lparr>sc_Mode := ModePrune, sc_Schedule := Some JNull\<rparr>,
     arrivals := (\<lambda>j. if j = k then [(uuid_of 1, answer_frame (hex_encode (replicate 16 (CHR ''s''))) [exited_report])] else [])\<rparr>"

definition exited_item :: stale_item where
  "exited_item = evaluate (uuid_of 1) [] 63900000000000000007 (24 * hour) (hd (valid_of [exited_container])) []"

lemma exited_valid: "validContainer exited_container = Some (it_Container exited_item)" "looksLikeUUID (instance_of exited_item)"
   "c_ProfileID (it_Container exited_item) = []" by code_simp+

lemma stale_exited: "verdict_of exited_item = VerdictStale" by code_simp

lemma prune_world_scan:
  "fst (run_state (scan (container_node_list (prune_world 5)) (24 * hour)) ((prune_world 5)\<lparr>tick := 3\<rparr>)) =
     [\<lparr>ns_NodeID = uuid_of 1, ns_NodeName = ''spark-1'', ns_Status = ScanDone, ns_Error = [], ns_Truncated = False, ns_Items = [exited_item]\<rparr>]"
proof -
  have e: "evaluate (uuid_of 1) [] 63900000000000000007 (24 * hour) (it_Container exited_item) [] = exited_item" by code_simp
  show ?thesis
  using exited_valid e
  by (simp add: scan_def ask_node_def listNode_def newRequestID_def await_def run_simps prune_world_def empty_world_def onMessage_def answer_frame_decodes(1) exited_report_reads
      HandleListContainersResult_def first_part_def new_wait_def take_part_def finish_def list_answer_def maxListParts_def maxContainersPerNode_def update_conv
      container_node_list_def containerNodes_def docker_node_def Let_def valid_of_def List.map_filter_def inst_FindByIDs_def nameOf_def oldest_first_def)
qed

theorem scheduled_run_removes_only_stale_witness:
  "\<exists>w1. run_state (scan (container_node_list (prune_world 5)) (24 * hour)) ((prune_world 5)\<lparr>tick := 3\<rparr>) =
       ([\<lparr>ns_NodeID = uuid_of 1, ns_NodeName = ''spark-1'', ns_Status = ScanDone, ns_Error = [], ns_Truncated = False, ns_Items = [exited_item]\<rparr>], w1)
     \<and> list_all (\<lambda>(c, env). \<exists>i. env = removal_frame i (uuid_of 7) 2000)
         (filter (\<lambda>(c, env). env_Type env = TypeRemoveContainer) (sent (snd (run_state runScheduled (prune_world 5)))))"
proof -
  have ok: "settings_ok (prune_world 5)"
    by (simp add: settings_ok_def prune_world_def empty_world_def row_ok_def mode_Valid_def whole_us_def)
  have cfg: "sc_MinAgeHours (stale_settings_row (prune_world 5)) = 24" "sc_ArchiveLines (stale_settings_row (prune_world 5)) = 2000"
    "sent (prune_world 5) = []" "(prune_world 5)\<lparr>tick := tick (prune_world 5) + 3\<rparr> = (prune_world 5)\<lparr>tick := 3\<rparr>"
    by (simp_all add: prune_world_def empty_world_def)
  have i: "instance_of exited_item = uuid_of 7" by code_simp
  from scheduled_run_removes_only_stale [OF ok prod.collapse [symmetric], unfolded cfg] prune_world_scan
  show ?thesis by (fastforce simp: found_stale_def list_all_iff i)
qed

text \<open>Outside the part from the scan on, a manual removal sends nothing.\<close>

definition manual_target :: "world \<Rightarrow> string \<Rightarrow> node option" where
  "manual_target w nodeID = map_option cred_Node (find_row cred_id (ToLower nodeID) (nodes w))"

text \<open>
  C28. The manual removal asks for nothing that a scheduled run would not: an Admin asks, the node is scanned afresh,
  and only the named container, if that scan found it stale by the database's records, is asked for, over that
  node's connection, for all faults and whatever agents send.
\<close>

theorem manual_removal_only_stale:
  assumes ok: "settings_ok w" and run: "run_state (RemoveOne a nodeID instanceID archive) w = (r, w')"
  shows "\<exists>new. sent w' = sent w @ new \<and> (\<forall>(c, env) \<in> set new. env_Type env = TypeRemoveContainer \<longrightarrow>
    CanManageStaleContainers a \<and> map_of (conns w) (ToLower nodeID) = Some c \<and>
    (\<exists>node scans w1 it i. manual_target w nodeID = Some node
       \<and> run_state (scan [node] (sc_MinAgeHours (stale_settings_row w) * hour)) (w\<lparr>tick := tick w + 2\<rparr>) = (scans, w1)
       \<and> it \<in> set (ns_Items (hd scans)) \<and> instance_of it = ToLower instanceID
       \<and> stale_by_record (sc_MinAgeHours (stale_settings_row w) * hour) w1 (ToLower nodeID) it
       \<and> env = removal_frame i (ToLower instanceID) archive))"
proof -
  let ?age = "sc_MinAgeHours (stale_settings_row w) * hour" and ?w2 = "w\<lparr>tick := tick w + 2\<rparr>"
  define may where "may n env \<longleftrightarrow> CanManageStaleContainers a \<and> n = ToLower nodeID \<and>
    (\<exists>node scans w1 it i. manual_target w nodeID = Some node \<and> run_state (scan [node] ?age) ?w2 = (scans, w1)
       \<and> it \<in> set (ns_Items (hd scans)) \<and> instance_of it = ToLower instanceID \<and> stale_by_record ?age w1 (ToLower nodeID) it
       \<and> env = removal_frame i (ToLower instanceID) archive)" for n env
  have "sends_only may w w'"
  proof (cases "\<exists>node. CanManageStaleContainers a \<and> faults w (tick w) = NoFault \<and> faults w (Suc (tick w)) = NoFault
      \<and> manual_target w nodeID = Some node")
    case False
    then have "w' = w \<or> (\<exists>t. w' = w\<lparr>tick := t\<rparr>)"
      using run by (auto simp: RemoveOne_def Let_def sc_Get_def node_FindByID_def run_simps scanNode_def manual_target_def
          split: if_splits fault.splits option.splits)
    then show ?thesis by (auto simp: sends_only_same)
  next
    case True
    then obtain node where node: "manual_target w nodeID = Some node" and perm: "CanManageStaleContainers a" by blast
    have nid: "node_ID node = ToLower nodeID" using node by (auto simp: manual_target_def cred_id_def dest!: find_row_SomeD)
    obtain scans w1 where s: "run_state (scan [node] ?age) ?w2 = (scans, w1)" by (metis prod.collapse)
    note R = scan_reports [OF s]
    from R obtain ns where ns: "scans = [ns]" "ns_NodeID ns = ToLower nodeID" by (auto simp: nid)
    have it: "sends_only may w1 w'" if "find (\<lambda>it. instance_of it = ToLower instanceID) (ns_Items ns) = Some it" "verdict_of it = VerdictStale"
      "run_state (State_Monad.bind (removeItem ns it archive ''manual'' (actor_id a) (IsSuperAdmin a)) (\<lambda>(res, e).
          State_Monad.bind (syncAlerts scans (if rem_Outcome res = ''removed'' \<or> rem_Outcome res = ''gone'' then [ToLower instanceID] else [])
             (zero_summary [] 0)) (\<lambda>_. State_Monad.return (Some res, e)))) w1 = (r, w')" for it
    proof (rule withinD [OF _ that(3)])
      have i: "it \<in> set (ns_Items ns)" "instance_of it = ToLower instanceID"
        using that(1) by (auto simp: find_Some_iff)
      have "stale_by_record ?age w1 (ToLower nodeID) it"
        using R i(1) ns judged_stale [OF _ that(2)] min_age_range [OF ok] by auto
      then have "may (ns_NodeID ns) (removal_frame k (instance_of it) archive)" for k
        using perm node s ns i by (auto simp: may_def)
      then show "within (sends_only may) (State_Monad.bind (removeItem ns it archive ''manual'' (actor_id a) (IsSuperAdmin a)) (\<lambda>(res, e).
          State_Monad.bind (syncAlerts scans (if rem_Outcome res = ''removed'' \<or> rem_Outcome res = ''gone'' then [ToLower instanceID] else [])
             (zero_summary [] 0)) (\<lambda>_. State_Monad.return (Some res, e))))"
        by (intro sends_only.db_within_rules sends_only.within_removeItem sends_only.within_syncAlerts)
    qed
    have "w' = w \<or> (\<exists>t. w' = w\<lparr>tick := t\<rparr>) \<or> w' = w1 \<or> sends_only may w1 w'"
      using run True node s it ns
      by (auto simp: RemoveOne_def Let_def sc_Get_def node_FindByID_def run_simps scanNode_def manual_target_def numeral_2_eq_2
          simp del: bind_simps split: if_splits option.splits)
    moreover have "sends_only may ?w2 w1" by (rule withinD [OF sends_only.within_scan s])
    ultimately show ?thesis using sends_only.rel_trans sends_only.rel_tick sends_only.rel_refl by metis
  qed
  then show ?thesis unfolding sends_only_def may_def by fastforce
qed

theorem manual_removal_only_stale_witness:
  "list_all (\<lambda>(c, env). c = 7 \<and> (\<exists>i. env = removal_frame i (uuid_of 7) 100))
     (filter (\<lambda>(c, env). env_Type env = TypeRemoveContainer)
        (sent (snd (run_state (RemoveOne admin_actor (uuid_of 1) (uuid_of 7) 100) (prune_world 4)))))"
proof -
  have ok: "settings_ok (prune_world 4)" and c: "conns (prune_world 4) = [(uuid_of 1, 7)]" "sent (prune_world 4) = []"
    by (simp_all add: settings_ok_def prune_world_def empty_world_def row_ok_def mode_Valid_def whole_us_def)
  have l: "ToLower (uuid_of 7) = uuid_of 7" "ToLower (uuid_of 1) = uuid_of 1" by code_simp+
  from manual_removal_only_stale [OF ok prod.collapse [symmetric], of admin_actor "uuid_of 1" "uuid_of 7" 100, unfolded l c]
  show ?thesis by (fastforce simp: list_all_iff split: if_splits)
qed

section \<open>No occurrence runs twice\<close>

text \<open>A run leaves the settings alone, apart from the summary it stores.\<close>

definition same_settings :: "world \<Rightarrow> world \<Rightarrow> bool" where
  "same_settings w w' \<longleftrightarrow> (\<exists>x. stale_settings_row w' = (stale_settings_row w)\<lparr>sc_LastRunSummary := x\<rparr>)"

lemma same_settings_refl: "stale_settings_row w' = stale_settings_row w \<Longrightarrow> same_settings w w'"
  unfolding same_settings_def by (rule exI [of _ "sc_LastRunSummary (stale_settings_row w)"]) simp

interpretation same_settings: run_outside same_settings "\<lambda>_ _. True"
proof
  fix u v w w' :: world and env :: envelope and c n rec strm x t
  show "same_settings w w" "same_settings w (w\<lparr>tick := t\<rparr>)" "same_settings w (w\<lparr>audit_log := audit_log w @ [rec]\<rparr>)"
    "same_settings w (w\<lparr>audit_stream := strm\<rparr>)" "same_settings w (w\<lparr>sent := sent w @ [(c, env)]\<rparr>)"
    by (simp_all add: same_settings_refl)
  then show "same_settings w (w\<lparr>sent := sent w @ [(c, env)]\<rparr>)" by simp
  show "same_settings w (w\<lparr>stale_settings_row := (stale_settings_row w)\<lparr>sc_LastRunSummary := x\<rparr>\<rparr>)"
    by (auto simp: same_settings_def)
  show "same_settings u w" if "same_settings u v" "same_settings v w"
    using that by (auto simp: same_settings_def)
  show "same_settings w w'" if eq: "w' = w\<lparr>alerts := alerts w', alert_audiences := alert_audiences w', alert_user_state := alert_user_state w',
        published := published w', notified := notified w'\<rparr>"
    using arg_cong [OF eq, of stale_settings_row] by (simp add: same_settings_refl)
  show "same_settings w w'" if eq: "w' = w\<lparr>running_instances := running_instances w', node_network_interfaces := node_network_interfaces w',
        model_transfers := model_transfers w', node_model_inventory := node_model_inventory w', connectivity_checks := connectivity_checks w',
        model_deletes := model_deletes w', model_scans := model_scans w'\<rparr>"
    using arg_cong [OF eq, of stale_settings_row] by (simp add: same_settings_refl)
  show "same_settings w w'" if eq: "w' = w\<lparr>list_waits := list_waits w', remove_waits := remove_waits w', remove_answers := remove_answers w'\<rparr>"
    using arg_cong [OF eq, of stale_settings_row] by (simp add: same_settings_refl)
qed

definition last_run :: "world \<Rightarrow> time" where
  "last_run w = (case sc_LastRunAt (stale_settings_row w) of None \<Rightarrow> 0 | Some t \<Rightarrow> t)"

lemma same_settings_run: "same_settings w w' \<Longrightarrow> settings_ok w' = settings_ok w \<and> last_run w' = last_run w"
  by (auto simp: same_settings_def settings_ok_def last_run_def row_ok_def)

lemma same_settings_load: "within same_settings load_job"
  unfolding load_job_def Let_def by (intro same_settings.db_within_rules same_settings.within_sc_Get)

lemma same_settings_Location: "within same_settings (Location zones)"
  unfolding Location_def ss_Get_def by (intro same_settings.db_within_rules)

lemma load_job_state:
  "run_state load_job w = (Inr st, w') \<Longrightarrow> LastRun st = last_run w \<and> Anchor st = sc_ScheduleSetAt (stale_settings_row w)"
  by (auto simp: load_job_def Let_def sc_Get_def run_simps last_run_def split: if_splits fault.splits sum.splits)

lemma run_MarkRun:
  "run_state (MarkRun t) w = (b, w') \<Longrightarrow>
   stale_settings_row w' = stale_settings_row w \<and> b \<noteq> Inr ()
   \<or> stale_settings_row w' = (stale_settings_row w)\<lparr>sc_LastRunAt := Some (Truncate 1000 t)\<rparr>"
  by (auto simp: MarkRun_def run_simps split: fault.splits)

interpretation stale_runs: remembering_job "Location zones" stale_job last_run settings_ok for zones
proof
  fix w w' :: world and r l b q t n
  assume ok: "settings_ok w"
  show "settings_ok w' \<and> last_run w' = last_run w
      \<and> (\<forall>st. r = Inr st \<longrightarrow> Enabled st \<longrightarrow> LastRun st = last_run w \<and> whole_us (Anchor st))" if "run_state (Load stale_job) w = (r, w')"
    using that ok same_settings_run [OF withinD [OF same_settings_load, of w r w']] load_job_state [of w _ w']
    by (auto simp: stale_job_def settings_ok_def)
  show "settings_ok w' \<and> last_run w' = last_run w" if "run_state (Location zones) w = (l, w')"
    using same_settings_run [OF withinD [OF same_settings_Location that]] ok by simp
  show "settings_ok w' \<and> (last_run w' = last_run w \<and> b \<noteq> Inr () \<or> last_run w' = Truncate 1000 t)" if "run_state (Begin stale_job t) w = (b, w')"
    using run_MarkRun [of t w b w'] that ok by (auto simp: stale_job_def settings_ok_def last_run_def row_ok_def)
  show "settings_ok w' \<and> last_run w' = last_run w" if "run_state (Run stale_job t) w = (q, w')"
    using same_settings_run [OF withinD [OF same_settings.within_runScheduled, of w q w']] that ok by (simp add: stale_job_def)
qed (simp_all add: settings_ok_def last_run_def)

text \<open>
  C29. However many checks the runner makes, with any faults in between (a lost or an ambiguous write of the start,
  a run that fails half way), the occurrences of the schedule that it starts a run for are strictly increasing and
  all after the last recorded run: none is run twice, and none that a recorded run has covered is run again.
\<close>

theorem no_occurrence_runs_twice:
  assumes ok: "settings_ok w" and run: "run_state (run_checks n (Location zones) stale_job) w = (ts, w')"
  shows "sorted_wrt (<) ts \<and> (\<forall>t \<in> set ts. last_run w < t)"
  by (rule stale_runs.runs_increase [OF ok run])

definition due_world :: world where
  "due_world = empty_world\<lparr>stale_settings_row := (stale_settings_row empty_world)\<lparr>sc_Mode := ModeReport,
     sc_Schedule := Some (encode_Spec (Normalized sample_spec)), sc_ScheduleSetAt := on_day 739570 0\<rparr>\<rparr>"

lemma latest_due: "Latest (Normalized sample_spec) (on_day 739570 0) 0 63900000000000000002 UTC = Some (on_day 739581 50400)"
  by code_simp

lemma due_check: "fst (run_state (check (Location utc_only) stale_job) due_world) = ([], Some (on_day 739581 50400))"
proof -
  have v: "spec_Validate (Normalized sample_spec) = Inr ()" by code_simp
  have "spec_Validate sample_spec = Inr ()" by code_simp
  note d = decode_saved [OF this]
  show ?thesis
   by (simp add: due_world_def empty_world_def check_def run_owed_def stale_job_def load_job_def sc_Get_def Let_def d v run_simps latest_due
     Location_def ss_Get_def ParseTimezone_def utc_only_def zoneNamePattern_def zone_char_def MarkRun_def runScheduled_def node_List_def
     scan_def containerNodes_def inst_FindByIDs_def after_scan_def SetLastRunSummary_def eval_nat_numeral)
qed

lemma first_started:
  "fst (run_state (check zone j) w) = (p, Some t) \<Longrightarrow> \<exists>rest. fst (run_state (run_checks (Suc n) zone j) w) = t # rest"
  by (auto split: prod.split)

theorem no_occurrence_runs_twice_witness:
  "\<exists>rest. fst (run_state (run_checks 2 (Location utc_only) stale_job) due_world) = on_day 739581 50400 # rest
     \<and> on_day 739581 50400 \<notin> set rest"
proof -
  have ok: "settings_ok due_world"
    by (simp add: settings_ok_def due_world_def empty_world_def row_ok_def mode_Valid_def whole_us_def on_day_def)
  obtain rest where r: "fst (run_state (run_checks 2 (Location utc_only) stale_job) due_world) = on_day 739581 50400 # rest"
    using first_started [OF due_check, of 1] by (auto simp: numeral_2_eq_2)
  from no_occurrence_runs_twice [OF ok prod.collapse [symmetric], of 2 utc_only] r show ?thesis by auto
qed

section \<open>Alerts that are never raised\<close>

lemma runes_ascii: "list_all (\<lambda>c. of_char c < (128::int)) p \<Longrightarrow> length (runes (p @ s)) = length p + length (runes s)"
proof (induction p)
  case (Cons c p)
  then show ?case by (simp add: runes.simps [of "c # p @ s"] decode_rune_def byte_def Let_def)
qed simp

lemma nat_digits_ascii: "list_all (\<lambda>c. of_char c < (128::int)) (nat_digits n)"
proof (induction n rule: nat_digits.induct)
  case (1 n)
  have "of_char (char_of (48 + k)) < (128::int)" if "k < 10" for k :: nat
  proof -
    have "(of_char (char_of (48 + k) :: char) :: int) = int (of_char (char_of (48 + k) :: char))" by (simp only: of_nat_of_char)
    also have "\<dots> = int ((48 + k) mod 256)" by (simp only: of_char_of)
    finally show ?thesis using that by simp
  qed
  then show ?case using 1 by (subst nat_digits.simps) auto
qed

definition same_alerts :: "world \<Rightarrow> world \<Rightarrow> bool" where
  "same_alerts w w' \<longleftrightarrow> alerts w' = alerts w"

interpretation same_alerts: db_step_rel same_alerts
  by unfold_locales (auto simp: same_alerts_def)

text \<open>
  Neither registration nor the title of the alert limits a node's name, so the alert about stale containers on a
  node whose name has more than 200 characters is refused and never shown.
\<close>

lemma long_name_no_alert:
  assumes long: "RuneCountInString (ns_NodeName ns) > 200" and run: "run_state (syncCondition key True (staleAlert ns stale)) w = (u, w')"
  shows "alerts w' = alerts w"
proof -
  obtain p w1 where b: "run_state (staleAlert ns stale) w = (p, w1)" by (metis prod.collapse)
  define pre where "pre = int_digits (int (length stale)) @ '' stale '' @ plural (int (length stale)) ''container'' ''containers'' @ '' on ''"
  have title: "rp_Title p = pre @ ns_NodeName ns"
    using b by (auto simp: staleAlert_def pre_def Let_def split: prod.splits)
  have "list_all (\<lambda>c. of_char c < (128::int)) pre"
    using nat_digits_ascii by (simp add: pre_def int_digits_def plural_def)
  from runes_ascii [OF this] have "length (runes (rp_Title p)) \<ge> length (runes (ns_NodeName ns))" by (simp add: title)
  then have "\<exists>e. alert_Validate (p\<lparr>rp_DedupeKey := key\<rparr>) = Inl e"
    using long by (auto simp: alert_Validate_def MaxTitleLen_def RuneCountInString_def invalid_alert_def)
  then have "w' = w1" using run b by (auto simp: syncCondition_def ignore_result_def Raise_def)
  moreover have "alerts w1 = alerts w" using withinD [OF same_alerts.within_staleAlert b] by (simp add: same_alerts_def)
  ultimately show ?thesis by simp
qed

section \<open>The audit log\<close>

interpretation log_grows: run_outside log_grows "\<lambda>_ _. True"
  by unfold_locales (auto simp: log_grows_def)

lemma log_grows_stale_runs: "within log_grows runScheduled" "within log_grows (RemoveOne a n i archive)" "within log_grows (Preview a)"
  by (simp_all add: log_grows.within_runScheduled log_grows.within_RemoveOne log_grows.within_Preview)

end
