(* ===== verification/Agent_Handler.thy ===== *)
theory Agent_Handler
  imports Stale_Scan
begin

text \<open>
  The websocket endpoint of the agents (internal/agentconn/agentconn.go, internal/agentproto/sshkey.go): the hello
  handshake, the SSH identity an agent reports, the read loop, the liveness watcher and the deferred clean-up. Each
  connection is a session whose goroutines move one call at a time; a step relation interleaves the moves of all
  sessions and of the rest of the server. The theorems show that the registry holds only authenticated, open
  connections, when a node's status tells the truth, and two interleavings in which it does not.
\<close>

section \<open>Messages\<close>

definition TypeHello :: string where "TypeHello = ''hello''"
definition TypeHelloAck :: string where "TypeHelloAck = ''hello_ack''"
definition TypeHeartbeat :: string where "TypeHeartbeat = ''heartbeat''"
definition TypeError :: string where "TypeError = ''error''"

record hello =
  he_NodeName :: string
  he_BearerToken :: string
  he_SSHPublicKey :: string
  he_SSHHostPublicKey :: string

definition encode_Hello :: "hello \<Rightarrow> json" where
  "encode_Hello h = JObj
     ([(''node_name'', JStr (he_NodeName h)), (''bearer_token'', JStr (he_BearerToken h))]
      @ opt_str ''ssh_public_key'' (he_SSHPublicKey h) @ opt_str ''ssh_host_public_key'' (he_SSHHostPublicKey h))"

definition decode_Hello :: "envelope \<Rightarrow> hello res" where
  "decode_Hello = decode_payload [''node_name'', ''bearer_token'', ''ssh_public_key'', ''ssh_host_public_key'']
     (\<lambda>fs.
       rbind (get_string ''node_name'' fs) (\<lambda>name.
       rbind (get_string ''bearer_token'' fs) (\<lambda>token.
       rbind (get_string ''ssh_public_key'' fs) (\<lambda>key.
       rbind (get_string ''ssh_host_public_key'' fs) (\<lambda>hostKey.
         Inr \<lparr>he_NodeName = name, he_BearerToken = token, he_SSHPublicKey = key, he_SSHHostPublicKey = hostKey\<rparr>)))))"

definition encode_HelloAck :: "bool \<Rightarrow> string \<Rightarrow> json" where
  "encode_HelloAck accepted reason = JObj ([(''accepted'', JBool accepted)] @ opt_str ''reason'' reason)"

section \<open>SSH keys\<close>

definition maxSSHPublicKeyLen :: nat where "maxSSHPublicKeyLen = 1024"

definition base64_char :: "char \<Rightarrow> bool" where
  "base64_char c \<longleftrightarrow> CHR ''A'' \<le> c \<and> c \<le> CHR ''Z'' \<or> CHR ''a'' \<le> c \<and> c \<le> CHR ''z'' \<or> is_digit c \<or> c = CHR ''+'' \<or> c = CHR ''/''"

definition sshKeyBase64 :: "string \<Rightarrow> bool" where
  "sshKeyBase64 s \<longleftrightarrow>
     takeWhile base64_char s \<noteq> [] \<and> length (dropWhile base64_char s) \<le> 3 \<and> list_all (\<lambda>c. c = CHR ''='') (dropWhile base64_char s)"

definition sshKeyTypes :: "string list" where
  "sshKeyTypes = [''ssh-ed25519'', ''ssh-rsa'', ''ecdsa-sha2-nistp256'', ''ecdsa-sha2-nistp384'', ''ecdsa-sha2-nistp521'']"

text \<open>\<^verbatim>\<open>strings.Cut\<close> at the first space: the text before it, and the text from it on.\<close>

definition ValidSSHPublicKey :: "string \<Rightarrow> bool" where
  "ValidSSHPublicKey s =
     (if s = [] \<or> length s > maxSSHPublicKeyLen then False
      else
        let key_type = takeWhile (\<lambda>c. c \<noteq> CHR '' '') s; cut = dropWhile (\<lambda>c. c \<noteq> CHR '' '') s in
        if cut = [] \<or> key_type \<notin> set sshKeyTypes then False else sshKeyBase64 (tl cut))"

section \<open>Liveness\<close>

record livenessTracker =
  lt_lastSeen :: time
  lt_unreachable :: bool

definition newLivenessTracker :: "time \<Rightarrow> livenessTracker" where
  "newLivenessTracker now = \<lparr>lt_lastSeen = now, lt_unreachable = False\<rparr>"

definition recordActivity :: "time \<Rightarrow> livenessTracker \<Rightarrow> bool \<times> livenessTracker" where
  "recordActivity now lt = (lt_unreachable lt, lt\<lparr>lt_lastSeen := now, lt_unreachable := False\<rparr>)"

definition markUnreachableIfStale :: "time \<Rightarrow> int \<Rightarrow> livenessTracker \<Rightarrow> bool \<times> livenessTracker" where
  "markUnreachableIfStale now timeout lt =
     (if lt_unreachable lt then (False, lt)
      else if now - lt_lastSeen lt < timeout then (False, lt)
      else (True, lt\<lparr>lt_unreachable := True\<rparr>))"

definition defaultUnreachableTimeout :: int where "defaultUnreachableTimeout = 90 * 1000000000"

section \<open>The handshake\<close>

text \<open>What a read of the connection returns: an error, a message that is no envelope, or an envelope.\<close>

datatype frame = BadFrame | GoodFrame envelope

datatype read_result = ReadError | ReadFrame frame

definition sendHelloAck :: "conn \<Rightarrow> string \<Rightarrow> bool \<Rightarrow> string \<Rightarrow> unit res io" where
  "sendHelloAck c requestID accepted reason =
     exec (\<lambda>w. ((), w\<lparr>sent := sent w @ [(c, NewEnvelope TypeHelloAck requestID (encode_HelloAck accepted reason))]\<rparr>))"

definition reject :: "conn \<Rightarrow> string \<Rightarrow> string \<Rightarrow> error \<Rightarrow> (node \<times> hello \<times> string) res io" where
  "reject c requestID reason e = State_Monad.bind (sendHelloAck c requestID False reason) (\<lambda>_. fail e)"

definition handshake :: "conn \<Rightarrow> read_result \<Rightarrow> (node \<times> hello \<times> string) res io" where
  "handshake c rd =
     (case rd of
        ReadError \<Rightarrow> fail (Wrap ''read hello'' (ErrIO ''read''))
      | ReadFrame BadFrame \<Rightarrow> fail (Wrap ''decode envelope'' (ErrIO ''json''))
      | ReadFrame (GoodFrame env) \<Rightarrow>
          if env_Type env \<noteq> TypeHello
          then reject c (env_RequestID env) ''expected hello'' (ErrText (''first message type = '' @ env_Type env @ '', want '' @ TypeHello))
          else case decode_Hello env of
            Inl e \<Rightarrow> reject c (env_RequestID env) ''malformed hello'' (Wrap ''decode hello payload'' e)
          | Inr hello \<Rightarrow>
              State_Monad.bind (Authenticate (he_NodeName hello) (he_BearerToken hello)) (\<lambda>r. case r of
                Inl e \<Rightarrow> reject c (env_RequestID env) ''invalid credentials'' (Wrap (''authenticate node '' @ he_NodeName hello) e)
              | Inr node \<Rightarrow> ok (node, hello, env_RequestID env)))"

definition recordSSHIdentity :: "string \<Rightarrow> hello \<Rightarrow> unit io" where
  "recordSSHIdentity nodeID hello =
     (if he_SSHPublicKey hello = [] then State_Monad.return ()
      else if \<not> ValidSSHPublicKey (he_SSHPublicKey hello) then State_Monad.return ()
      else
        let hostKey = (if he_SSHHostPublicKey hello \<noteq> [] \<and> ValidSSHPublicKey (he_SSHHostPublicKey hello)
                       then Some (he_SSHHostPublicKey hello) else None) in
        State_Monad.bind (UpdateSSHIdentity nodeID (Some (he_SSHPublicKey hello)) hostKey) (\<lambda>_. State_Monad.return ()))"

section \<open>A session\<close>

text \<open>
  Where \<^verbatim>\<open>ServeHTTP\<close> stands after the handshake, and where its two goroutines stand: the read loop between
  messages, about to report the recovery, or about to handle a message; the watcher between ticks, about to report
  silence, or stopped. Each value names what was done last.
\<close>

datatype phase =
    Authenticated | Identified | Registered | MarkedOnline | Acked | Serving | Closing | Unregistered | Ended

datatype reader = Reading | Recovering frame | Handling frame

datatype watcher = Watching | Flagging | WatchDone

record session =
  se_NodeID :: string
  se_Hello :: hello
  se_RequestID :: string
  se_phase :: phase
  se_reader :: reader
  se_watcher :: watcher
  se_tracker :: livenessTracker
  se_onConnect :: bool

definition new_session :: "node \<Rightarrow> hello \<Rightarrow> string \<Rightarrow> session" where
  "new_session n h requestID =
     \<lparr>se_NodeID = node_ID n, se_Hello = h, se_RequestID = requestID, se_phase = Authenticated, se_reader = Reading,
      se_watcher = Watching, se_tracker = newLivenessTracker 0, se_onConnect = False\<rparr>"

text \<open>
  A status write of the handler, followed by \<^verbatim>\<open>onStatusChange\<close> when it succeeded, which publishes an event.
\<close>

definition report_status :: "string \<Rightarrow> agent_status \<Rightarrow> bool \<Rightarrow> unit io" where
  "report_status nodeID status bump =
     State_Monad.bind (SetAgentStatus nodeID status bump) (\<lambda>r. case r of
       Inl _ \<Rightarrow> State_Monad.return ()
     | Inr _ \<Rightarrow> Publish ''node_status'')"

text \<open>\<^verbatim>\<open>ServeHTTP\<close> after the handshake, one call at a time; the last two calls are its deferred clean-up.\<close>

definition serve_next :: "conn \<Rightarrow> session \<Rightarrow> session option io" where
  "serve_next c se =
     (let n = se_NodeID se; move = \<lambda>m ph. State_Monad.bind m (\<lambda>_. State_Monad.return (Some (se\<lparr>se_phase := ph\<rparr>))) in
      case se_phase se of
        Authenticated \<Rightarrow> move (recordSSHIdentity n (se_Hello se)) Identified
      | Identified \<Rightarrow> move (Register n c) Registered
      | Registered \<Rightarrow> move (report_status n AgentOnline True) MarkedOnline
      | MarkedOnline \<Rightarrow> move (drop_result (sendHelloAck c (se_RequestID se) True [])) Acked
      | Acked \<Rightarrow>
          State_Monad.bind time_now (\<lambda>now.
            State_Monad.return (Some (se\<lparr>se_phase := Serving, se_tracker := newLivenessTracker now, se_onConnect := True\<rparr>)))
      | Serving \<Rightarrow> State_Monad.return None
      | Closing \<Rightarrow> if se_watcher se = WatchDone then move (Unregister n c) Unregistered else State_Monad.return None
      | Unregistered \<Rightarrow> move (report_status n AgentOffline False) Ended
      | Ended \<Rightarrow> State_Monad.return None)"

text \<open>What the read loop does with a message: its own types need no action, the others go to \<^verbatim>\<open>onMessage\<close>.\<close>

definition handle_frame :: "string \<Rightarrow> frame \<Rightarrow> unit io" where
  "handle_frame n f =
     (case f of
        BadFrame \<Rightarrow> State_Monad.return ()
      | GoodFrame env \<Rightarrow>
          if env_Type env \<in> {TypeHello, TypeHelloAck, TypeHeartbeat} then State_Monad.return ()
          else if env_Type env = TypeError then State_Monad.return ()
          else onMessage (n, env))"

definition readLoop :: "read_result \<Rightarrow> session \<Rightarrow> session option io" where
  "readLoop rd se =
     (if se_phase se \<noteq> Serving then State_Monad.return None
      else case se_reader se of
        Reading \<Rightarrow>
          (case rd of
             ReadError \<Rightarrow> State_Monad.return (Some (se\<lparr>se_phase := Closing\<rparr>))
           | ReadFrame f \<Rightarrow>
               State_Monad.bind time_now (\<lambda>now.
                 let (wasUnreachable, lt) = recordActivity now (se_tracker se) in
                 State_Monad.return (Some (se\<lparr>se_tracker := lt, se_reader := (if wasUnreachable then Recovering f else Handling f)\<rparr>))))
      | Recovering f \<Rightarrow>
          State_Monad.bind (report_status (se_NodeID se) AgentOnline True) (\<lambda>_. State_Monad.return (Some (se\<lparr>se_reader := Handling f\<rparr>)))
      | Handling f \<Rightarrow>
          State_Monad.bind (handle_frame (se_NodeID se) f) (\<lambda>_. State_Monad.return (Some (se\<lparr>se_reader := Reading\<rparr>))))"

text \<open>The watcher: a tick of its timer or, once the connection's context is cancelled, its end.\<close>

definition watchLiveness :: "bool \<Rightarrow> session \<Rightarrow> session option io" where
  "watchLiveness ctxDone se =
     (if se_phase se \<notin> {Serving, Closing} then State_Monad.return None
      else case se_watcher se of
        Watching \<Rightarrow>
          if ctxDone then State_Monad.return (if se_phase se = Closing then Some (se\<lparr>se_watcher := WatchDone\<rparr>) else None)
          else State_Monad.bind time_now (\<lambda>now.
            let (stale, lt) = markUnreachableIfStale now defaultUnreachableTimeout (se_tracker se) in
            State_Monad.return (Some (se\<lparr>se_tracker := lt, se_watcher := (if stale then Flagging else Watching)\<rparr>)))
      | Flagging \<Rightarrow>
          State_Monad.bind (report_status (se_NodeID se) AgentUnreachable False) (\<lambda>_. State_Monad.return (Some (se\<lparr>se_watcher := Watching\<rparr>)))
      | WatchDone \<Rightarrow> State_Monad.return None)"

text \<open>The goroutine that \<^verbatim>\<open>onConnect\<close> runs in; the server passes \<^verbatim>\<open>ReconcileNode\<close>.\<close>

definition on_connect :: "session \<Rightarrow> session option io" where
  "on_connect se =
     (if se_onConnect se
      then State_Monad.bind (ReconcileNode (se_NodeID se)) (\<lambda>_. State_Monad.return (Some (se\<lparr>se_onConnect := False\<rparr>)))
      else State_Monad.return None)"

datatype move = Serve | Read read_result | Watch bool | Connect

fun session_move :: "conn \<Rightarrow> move \<Rightarrow> session \<Rightarrow> session option io" where
  "session_move c Serve = serve_next c"
| "session_move c (Read rd) = readLoop rd"
| "session_move c (Watch ctxDone) = watchLiveness ctxDone"
| "session_move c Connect = on_connect"

section \<open>All sessions\<close>

record server =
  sv_world :: world
  sv_sessions :: "conn \<Rightarrow> session option"
  sv_next :: conn

definition status_of :: "world \<Rightarrow> string \<Rightarrow> agent_status option" where
  "status_of w n = map_option (\<lambda>c. node_AgentStatus (cred_Node c)) (find_row cred_id n (nodes w))"

definition hash_of :: "world \<Rightarrow> string \<Rightarrow> string option" where
  "hash_of w n = map_option cred_BearerTokenHash (find_row cred_id n (nodes w))"

text \<open>
  What the rest of the server may do meanwhile: everything except changing the registry, the status or the token of
  a node; nodes may be added.
\<close>

definition elsewhere :: "world \<Rightarrow> world \<Rightarrow> bool" where
  "elsewhere w w' \<longleftrightarrow> conns w' = conns w \<and> faults w' = faults w \<and> keeps_nodes w w' \<and>
     (\<forall>n. if status_of w n = None then status_of w' n \<in> {None, Some AgentOffline}
          else status_of w' n = status_of w n \<and> hash_of w' n = hash_of w n)"

datatype event = Accept read_result | Move conn move | Elsewhere

inductive server_step :: "server \<Rightarrow> event \<Rightarrow> server \<Rightarrow> bool" where
  accepted: "run_state (handshake (sv_next s) rd) (sv_world s) = (Inr (n, h, requestID), w') \<Longrightarrow>
    server_step s (Accept rd)
      (s\<lparr>sv_world := w', sv_sessions := (sv_sessions s)(sv_next s \<mapsto> new_session n h requestID), sv_next := Suc (sv_next s)\<rparr>)"
| rejected: "run_state (handshake (sv_next s) rd) (sv_world s) = (Inl e, w') \<Longrightarrow>
    server_step s (Accept rd) (s\<lparr>sv_world := w', sv_next := Suc (sv_next s)\<rparr>)"
| moved: "sv_sessions s c = Some se \<Longrightarrow> run_state (session_move c mv se) (sv_world s) = (Some se', w') \<Longrightarrow>
    server_step s (Move c mv) (s\<lparr>sv_world := w', sv_sessions := (sv_sessions s)(c \<mapsto> se')\<rparr>)"
| others: "elsewhere (sv_world s) w' \<Longrightarrow> server_step s Elsewhere (s\<lparr>sv_world := w'\<rparr>)"

inductive_cases accept_cases: "server_step s (Accept rd) s'"
inductive_cases move_cases: "server_step s (Move c mv) s'"
inductive_cases others_cases: "server_step s Elsewhere s'"

text \<open>The server has just started: no connections, and every node was left offline.\<close>

definition started :: "server \<Rightarrow> bool" where
  "started s \<longleftrightarrow> conns (sv_world s) = [] \<and> (\<forall>c. sv_sessions s c = None) \<and> wf_nodes (sv_world s) \<and>
     (\<forall>n. status_of (sv_world s) n \<in> {None, Some AgentOffline})"

inductive reachable :: "server \<Rightarrow> bool" where
  reach_start: "started s \<Longrightarrow> reachable s"
| reach_step: "reachable s \<Longrightarrow> server_step s ev s' \<Longrightarrow> reachable s'"

section \<open>Calls that leave the registry and the statuses alone\<close>

definition quiet :: "world \<Rightarrow> world \<Rightarrow> bool" where
  "quiet w w' \<longleftrightarrow> conns w' = conns w \<and> faults w' = faults w \<and> keeps_nodes w w' \<and>
     status_of w' = status_of w \<and> hash_of w' = hash_of w"

lemma quiet_same: "conns w' = conns w \<Longrightarrow> faults w' = faults w \<Longrightarrow> nodes w' = nodes w \<Longrightarrow> quiet w w'"
  by (simp add: quiet_def keeps_nodes_def wf_nodes_def status_of_def hash_of_def fun_eq_iff)

interpretation quiet: agents_outside quiet
proof
  fix u v w w' :: world and env :: envelope and c n
  show "quiet w w" "quiet w (w\<lparr>tick := n\<rparr>)" "quiet w (w\<lparr>sent := sent w @ [(c, env)]\<rparr>)" by (simp_all add: quiet_same)
  show "quiet u w" if "quiet u v" "quiet v w" using that by (auto simp: quiet_def keeps_nodes_def)
  show "quiet w w'" if eq: "w' = w\<lparr>alerts := alerts w', alert_audiences := alert_audiences w', alert_user_state := alert_user_state w',
        published := published w', notified := notified w'\<rparr>"
    using arg_cong [OF eq, of conns] arg_cong [OF eq, of faults] arg_cong [OF eq, of nodes] by (intro quiet_same) simp_all
  show "quiet w w'" if eq: "w' = w\<lparr>running_instances := running_instances w', node_network_interfaces := node_network_interfaces w',
        model_transfers := model_transfers w', node_model_inventory := node_model_inventory w', connectivity_checks := connectivity_checks w',
        model_deletes := model_deletes w', model_scans := model_scans w'\<rparr>"
    using arg_cong [OF eq, of conns] arg_cong [OF eq, of faults] arg_cong [OF eq, of nodes] by (intro quiet_same) simp_all
  show "quiet w w'" if eq: "w' = w\<lparr>list_waits := list_waits w', remove_waits := remove_waits w', remove_answers := remove_answers w'\<rparr>"
    using arg_cong [OF eq, of conns] arg_cong [OF eq, of faults] arg_cong [OF eq, of nodes] by (intro quiet_same) simp_all
qed

lemma quiet_update_node:
  assumes "\<And>w x. node_ID (f w x) = node_ID x \<and> node_Name (f w x) = node_Name x \<and> node_AgentStatus (f w x) = node_AgentStatus x"
  shows "within quiet (update_node n f)"
proof (rule withinI)
  fix w
  have "within keeps_nodes (update_node n f)" using assms by (intro keeps_update_node) simp
  then have "keeps_nodes w (snd (run_state (update_node n f) w))" by (simp add: within_def)
  then show "quiet w (snd (run_state (update_node n f) w))"
    using assms by (auto simp: quiet_def update_node_def run_simps fun_eq_iff status_of_def hash_of_def pk_table.fnd_upd cred_id_def
        option.map_comp comp_def split: fault.splits)
qed

text \<open>A status write changes the status of its node at most, and does so whenever nothing fails.\<close>

lemma run_report_status:
  assumes run: "run_state (report_status n st b) w = (u, w')"
  shows "conns w' = conns w" "faults w' = faults w" "keeps_nodes w w'" "hash_of w' = hash_of w"
    "status_of w' = status_of w \<or> status_of w' = (status_of w)(n := map_option (\<lambda>_. st) (status_of w n))"
    "faults w = (\<lambda>_. NoFault) \<Longrightarrow> status_of w' = (status_of w)(n := map_option (\<lambda>_. st) (status_of w n))"
proof -
  have "within keeps_nodes (report_status n st b)" unfolding report_status_def Publish_def
    by (intro keeps_nodes.db_within_rules keeps_node_writes keeps_nodes.within_poke) (simp add: keeps_nodes_def wf_nodes_def)
  then show "keeps_nodes w w'" using run by (rule withinD)
  show "conns w' = conns w" "faults w' = faults w"
    using run by (auto simp: report_status_def SetAgentStatus_def update_node_def Publish_def run_simps split: fault.splits)
  show "hash_of w' = hash_of w"
    using run by (cases b) (auto simp: report_status_def SetAgentStatus_def update_node_def Publish_def run_simps fun_eq_iff hash_of_def
        pk_table.fnd_upd cred_id_def option.map_comp comp_def split: fault.splits)
  have st: "status_of w' = (if \<exists>e. faults w (tick w) = Lost e then status_of w
      else (status_of w)(n := map_option (\<lambda>_. st) (status_of w n)))"
    using run by (cases b) (auto simp: report_status_def SetAgentStatus_def update_node_def Publish_def run_simps fun_eq_iff status_of_def
        pk_table.fnd_upd cred_id_def option.map_comp comp_def split: fault.splits)
  then show "status_of w' = status_of w \<or> status_of w' = (status_of w)(n := map_option (\<lambda>_. st) (status_of w n))"
    "faults w = (\<lambda>_. NoFault) \<Longrightarrow> status_of w' = (status_of w)(n := map_option (\<lambda>_. st) (status_of w n))" by auto
qed

lemma quiet_calls:
  "within quiet (recordSSHIdentity n h)" "within quiet (sendHelloAck c q a r)" "within quiet (handle_frame n f)"
  "within quiet (ReconcileNode n)" "within quiet (Authenticate name token)"
proof -
  show "within quiet (recordSSHIdentity n h)"
    unfolding recordSSHIdentity_def UpdateSSHIdentity_def Let_def by (intro quiet.db_within_rules quiet_update_node) simp
  show "within quiet (sendHelloAck c q a r)"
    unfolding sendHelloAck_def by (rule quiet.within_exec) (simp add: quiet_same)
  show "within quiet (handle_frame n f)" unfolding handle_frame_def
    by (cases f) (auto intro: quiet.within_return quiet.within_onMessage)
  show "within quiet (Authenticate name token)"
    unfolding Authenticate_def FindCredentialByName_def by (intro quiet.db_within_rules)
  show "within quiet (ReconcileNode n)"
    unfolding ReconcileNode_def ask_instance_def inst_ListRunningByNode_def
    by (intro quiet.db_within_rules quiet.within_Send quiet.within_reads)
      (simp_all add: NewEnvelope_def TypeCheckInstance_def TypeRemoveContainer_def)
qed

section \<open>What a move does\<close>

lemma run_then: "run_state (State_Monad.bind m (\<lambda>_. State_Monad.return x)) w = (y, w') \<longleftrightarrow> y = x \<and> (\<exists>u. run_state m w = (u, w'))"
  by (auto split: prod.splits)

lemma run_time_then:
  "run_state (State_Monad.bind time_now (\<lambda>now. State_Monad.return (x now))) w = (y, w') \<longleftrightarrow>
     y = x (clock w (tick w)) \<and> w' = w\<lparr>tick := Suc (tick w)\<rparr>"
  by (auto simp: run_simps)

lemma quiet_tick: "quiet w (w\<lparr>tick := n\<rparr>)"
  by (simp add: quiet_same)

definition held :: "phase \<Rightarrow> bool" where
  "held ph \<longleftrightarrow> ph \<in> {Registered, MarkedOnline, Acked, Serving, Closing}"

text \<open>The moves of a session, with what each does to the shared state.\<close>

lemma serve_moves:
  assumes run: "run_state (serve_next c se) w = (Some se', w')"
  obtains
    (identify) "se_phase se = Authenticated" "se' = se\<lparr>se_phase := Identified\<rparr>" "quiet w w'"
  | (register) u where "se_phase se = Identified" "se' = se\<lparr>se_phase := Registered\<rparr>" "run_state (Register (se_NodeID se) c) w = (u, w')"
  | (online) u where "se_phase se = Registered" "se' = se\<lparr>se_phase := MarkedOnline\<rparr>"
      "run_state (report_status (se_NodeID se) AgentOnline True) w = (u, w')"
  | (ack) "se_phase se = MarkedOnline" "se' = se\<lparr>se_phase := Acked\<rparr>" "quiet w w'"
  | (serve) now where "se_phase se = Acked" "quiet w w'"
      "se' = se\<lparr>se_phase := Serving, se_tracker := newLivenessTracker now, se_onConnect := True\<rparr>"
  | (unregister) u where "se_phase se = Closing" "se_watcher se = WatchDone" "se' = se\<lparr>se_phase := Unregistered\<rparr>"
      "run_state (Unregister (se_NodeID se) c) w = (u, w')"
  | (offline) u where "se_phase se = Unregistered" "se' = se\<lparr>se_phase := Ended\<rparr>"
      "run_state (report_status (se_NodeID se) AgentOffline False) w = (u, w')"
proof (cases "se_phase se")
  case Authenticated
  with run have "se' = se\<lparr>se_phase := Identified\<rparr>" "quiet w w'"
    by (auto simp: serve_next_def Let_def run_then simp del: run_state_bind intro: withinD [OF quiet_calls(1)])
  then show thesis by (rule identify [OF Authenticated])
next
  case MarkedOnline
  with run have "se' = se\<lparr>se_phase := Acked\<rparr>" "quiet w w'"
    by (auto simp: serve_next_def Let_def run_then drop_result_def simp del: run_state_bind intro: withinD [OF quiet_calls(2)])
  then show thesis by (rule ack [OF MarkedOnline])
next
  case Acked
  with run show thesis
    by (auto simp: serve_next_def Let_def run_time_then simp del: run_state_bind intro: serve [OF Acked] quiet_tick)
next
  case Closing
  with run show thesis
    by (auto simp: serve_next_def Let_def run_then simp del: run_state_bind split: if_splits intro: unregister [OF Closing])
next
  case Identified
  with run show thesis by (auto simp: serve_next_def Let_def run_then simp del: run_state_bind intro: register [OF Identified])
next
  case Registered
  with run show thesis by (auto simp: serve_next_def Let_def run_then simp del: run_state_bind intro: online [OF Registered])
next
  case Unregistered
  with run show thesis by (auto simp: serve_next_def Let_def run_then simp del: run_state_bind intro: offline [OF Unregistered])
next
  case Serving
  then have "serve_next c se = State_Monad.return None" by (simp add: serve_next_def)
  with run show thesis by simp
next
  case Ended
  then have "serve_next c se = State_Monad.return None" by (simp add: serve_next_def)
  with run show thesis by simp
qed

lemma read_moves:
  assumes run: "run_state (readLoop rd se) w = (Some se', w')"
  obtains
    (hangup) "rd = ReadError" "se_phase se = Serving" "se_reader se = Reading" "se' = se\<lparr>se_phase := Closing\<rparr>" "quiet w w'"
  | (receive) f lt where "rd = ReadFrame f" "se_phase se = Serving" "se_reader se = Reading" "quiet w w'" "\<not> lt_unreachable lt"
      "se' = se\<lparr>se_tracker := lt, se_reader := (if lt_unreachable (se_tracker se) then Recovering f else Handling f)\<rparr>"
  | (recover) f u where "se_phase se = Serving" "se_reader se = Recovering f" "se' = se\<lparr>se_reader := Handling f\<rparr>"
      "run_state (report_status (se_NodeID se) AgentOnline True) w = (u, w')"
  | (handle) f where "se_phase se = Serving" "se_reader se = Handling f" "se' = se\<lparr>se_reader := Reading\<rparr>" "quiet w w'"
proof -
  have ph: "se_phase se = Serving" using run by (auto simp: readLoop_def split: if_splits)
  show thesis
  proof (cases "se_reader se")
    case Reading
    show thesis
    proof (cases rd)
      case ReadError
      with run ph Reading show thesis by (intro hangup) (auto simp: readLoop_def quiet_same)
    next
      case (ReadFrame f)
      let ?lt = "(se_tracker se)\<lparr>lt_lastSeen := clock w (tick w), lt_unreachable := False\<rparr>"
      from run ph Reading ReadFrame show thesis
        by (intro receive [of f ?lt]) (auto simp: readLoop_def recordActivity_def run_simps quiet_tick)
    qed
  next
    case (Recovering f)
    with run ph show thesis by (auto simp: readLoop_def run_then simp del: run_state_bind intro: recover)
  next
    case (Handling f)
    with run ph show thesis
      by (auto simp: readLoop_def run_then simp del: run_state_bind intro: handle dest: withinD [OF quiet_calls(3)])
  qed
qed

lemma watch_moves:
  assumes run: "run_state (watchLiveness d se) w = (Some se', w')"
  obtains
    (stop) "d" "se_phase se = Closing" "se_watcher se = Watching" "se' = se\<lparr>se_watcher := WatchDone\<rparr>" "quiet w w'"
  | (check) stale lt where "\<not> d" "se_phase se \<in> {Serving, Closing}" "se_watcher se = Watching" "quiet w w'"
      "se' = se\<lparr>se_tracker := lt, se_watcher := (if stale then Flagging else Watching)\<rparr>"
      "if stale then \<not> lt_unreachable (se_tracker se) \<and> lt_unreachable lt else lt = se_tracker se"
  | (flag) u where "se_phase se \<in> {Serving, Closing}" "se_watcher se = Flagging" "se' = se\<lparr>se_watcher := Watching\<rparr>"
      "run_state (report_status (se_NodeID se) AgentUnreachable False) w = (u, w')"
proof -
  have ph: "se_phase se \<in> {Serving, Closing}" using run by (auto simp: watchLiveness_def split: if_splits)
  show thesis
  proof (cases "se_watcher se")
    case Watching
    show thesis
    proof (cases d)
      case True
      then show thesis using run ph Watching by (intro stop) (auto simp: watchLiveness_def split: if_splits intro: quiet_same)
    next
      case False
      let ?p = "markUnreachableIfStale (clock w (tick w)) defaultUnreachableTimeout (se_tracker se)"
      from run ph Watching False have "se' = se\<lparr>se_tracker := snd ?p, se_watcher := (if fst ?p then Flagging else Watching)\<rparr>"
        "w' = w\<lparr>tick := Suc (tick w)\<rparr>" by (auto simp: watchLiveness_def run_simps split: prod.splits)
      then show thesis using False
        by (intro check [OF _ ph Watching, of "fst ?p" "snd ?p"]) (auto simp: markUnreachableIfStale_def quiet_tick)
    qed
  next
    case Flagging
    with run ph show thesis by (auto simp: watchLiveness_def run_then simp del: run_state_bind intro: flag)
  next
    case WatchDone
    with run ph show thesis by (auto simp: watchLiveness_def)
  qed
qed

lemma connect_move: "run_state (on_connect se) w = (Some se', w') \<Longrightarrow> se' = se\<lparr>se_onConnect := False\<rparr> \<and> quiet w w'"
  by (auto simp: on_connect_def run_then simp del: run_state_bind split: if_splits intro: withinD [OF quiet_calls(4)])

lemma run_Register: "run_state (Register n c) w = (u, w') \<Longrightarrow>
    map_of (conns w') = (map_of (conns w))(n \<mapsto> c) \<and> faults w' = faults w \<and> nodes w' = nodes w"
  using reg_op_Register [of n c w] by (auto simp: Register_def run_simps)

lemma run_Unregister: "run_state (Unregister n c) w = (u, w') \<Longrightarrow>
    map_of (conns w') = (if map_of (conns w) n = Some c then (map_of (conns w))(n := None) else map_of (conns w))
    \<and> faults w' = faults w \<and> nodes w' = nodes w"
  using reg_op_Unregister [of n c w] by (auto simp: Unregister_def run_simps split: if_splits)

lemma run_handshake:
  assumes "run_state (handshake c rd) w = (r, w')"
  shows "quiet w w'"
    and "r = Inr (n, h, q) \<Longrightarrow> wf_nodes w \<Longrightarrow>
      status_of w (node_ID n) \<noteq> None \<and> hash_of w (node_ID n) = Some (HashNodeToken (he_BearerToken h))"
proof -
  have rej: "within quiet (reject c q reason e)" for q reason e
    unfolding reject_def by (intro quiet.db_within_rules quiet_calls)
  have "within quiet (handshake c rd)"
    unfolding handshake_def by (auto split: read_result.split frame.split intro!: quiet.db_within_rules rej quiet_calls)
  then show "quiet w w'" using assms by (rule withinD)
  assume r: "r = Inr (n, h, q)" and wf: "wf_nodes w"
  then obtain nm where "run_state (Authenticate nm (he_BearerToken h)) w = (Inr n, w')"
    using assms unfolding handshake_def
    by (auto simp: reject_def run_then split: read_result.splits frame.splits if_splits sum.splits prod.splits)
  then obtain cr where cr: "cr \<in> set (nodes w)" "cred_Node cr = n" "HashNodeToken (he_BearerToken h) = cred_BearerTokenHash cr"
    by (auto simp: Authenticate_def FindCredentialByName_def VerifyNodeToken_def run_simps
        split: option.splits fault.splits if_splits dest: find_row_SomeD)
  then have "find_row cred_id (node_ID n) (nodes w) = Some cr"
    using find_row_unique [of cred_id "nodes w" cr] wf by (simp add: wf_nodes_def cred_id_def)
  then show "status_of w (node_ID n) \<noteq> None \<and> hash_of w (node_ID n) = Some (HashNodeToken (he_BearerToken h))"
    using cr by (simp add: status_of_def hash_of_def)
qed

end
