(* ===== verification/Agent_Sessions.thy ===== *)
theory Agent_Sessions
  imports Agent_Handler
begin

text \<open>
  What holds of the agent connections in every reachable state: the registry names authenticated open connections
  only, and the status column agrees with the connections as long as no two connections of a node overlap and the
  two goroutines of one do not interleave within a status change. Two concrete runs show that both conditions are
  needed.
\<close>

section \<open>The registry holds authenticated, open connections\<close>

definition registry_ok :: "server \<Rightarrow> bool" where
  "registry_ok s \<longleftrightarrow> wf_nodes (sv_world s) \<and>
     (\<forall>n c. map_of (conns (sv_world s)) n = Some c \<longrightarrow>
        (\<exists>se. sv_sessions s c = Some se \<and> se_NodeID se = n \<and> held (se_phase se))) \<and>
     (\<forall>c se. sv_sessions s c = Some se \<longrightarrow> c < sv_next s \<and> status_of (sv_world s) (se_NodeID se) \<noteq> None \<and>
        hash_of (sv_world s) (se_NodeID se) = Some (HashNodeToken (he_BearerToken (se_Hello se))))"

text \<open>A move changes at most the registry entry of its own node, and keeps tokens and identities.\<close>

definition registry_after :: "string \<Rightarrow> conn \<Rightarrow> bool \<Rightarrow> bool \<Rightarrow> world \<Rightarrow> world \<Rightarrow> bool" where
  "registry_after n c held_before held_after w w' \<longleftrightarrow>
     (if held_before = held_after then conns w' = conns w
      else if held_after then map_of (conns w') = (map_of (conns w))(n \<mapsto> c)
      else map_of (conns w') = (if map_of (conns w) n = Some c then (map_of (conns w))(n := None) else map_of (conns w)))"

definition registry_move :: "conn \<Rightarrow> session \<Rightarrow> session \<Rightarrow> world \<Rightarrow> world \<Rightarrow> bool" where
  "registry_move c se se' w w' \<longleftrightarrow>
     keeps_nodes w w' \<and> faults w' = faults w \<and> hash_of w' = hash_of w \<and> (\<forall>n. status_of w' n = None \<longleftrightarrow> status_of w n = None) \<and>
     se_NodeID se' = se_NodeID se \<and> se_Hello se' = se_Hello se \<and>
     registry_after (se_NodeID se) c (held (se_phase se)) (held (se_phase se')) w w'"

lemma registry_move_quiet:
  "quiet w w' \<Longrightarrow> held (se_phase se') = held (se_phase se) \<Longrightarrow> se_NodeID se' = se_NodeID se \<Longrightarrow> se_Hello se' = se_Hello se \<Longrightarrow>
   registry_move c se se' w w'"
  by (auto simp: quiet_def registry_move_def registry_after_def)

lemma registry_move_report:
  assumes "run_state (report_status (se_NodeID se) st b) w = (u, w')" "held (se_phase se') = held (se_phase se)"
    "se_NodeID se' = se_NodeID se" "se_Hello se' = se_Hello se"
  shows "registry_move c se se' w w'"
  using run_report_status [OF assms(1)] assms(2-4) by (auto simp: registry_move_def registry_after_def split: if_splits)

lemmas registry_moves = registry_move_quiet registry_move_report

lemma same_rows: "nodes w' = nodes w \<Longrightarrow> keeps_nodes w w' \<and> hash_of w' = hash_of w \<and> status_of w' = status_of w"
  by (simp add: keeps_nodes_def wf_nodes_def hash_of_def status_of_def fun_eq_iff)

lemma move_registry:
  assumes run: "run_state (session_move c mv se) w = (Some se', w')"
  shows "registry_move c se se' w w'"
proof (cases mv)
  case Serve
  then have "run_state (serve_next c se) w = (Some se', w')" using run by simp
  then show ?thesis
  proof (cases rule: serve_moves)
    case (register u)
    then show ?thesis using run_Register [of "se_NodeID se" c w u w'] same_rows [of w' w]
      by (simp add: registry_move_def registry_after_def held_def)
  next
    case (unregister u)
    then show ?thesis using run_Unregister [of "se_NodeID se" c w u w'] same_rows [of w' w]
      by (simp add: registry_move_def registry_after_def held_def)
  qed (auto simp: held_def intro: registry_moves)
next
  case (Read rd)
  then have "run_state (readLoop rd se) w = (Some se', w')" using run by simp
  then show ?thesis by (cases rule: read_moves) (auto simp: held_def intro: registry_moves)
next
  case (Watch d)
  then have "run_state (watchLiveness d se) w = (Some se', w')" using run by simp
  then show ?thesis by (cases rule: watch_moves) (auto simp: held_def intro: registry_moves)
next
  case Connect
  then show ?thesis using connect_move [of se w se' w'] run by (intro registry_move_quiet) auto
qed

lemma registry_step:
  assumes ok: "registry_ok s" and step: "server_step s ev s'"
  shows "registry_ok s'"
  using step
proof cases
  case (accepted rd n h q w')
  note H = run_handshake [OF accepted(3)]
  have fresh: "map_of (conns (sv_world s)) m \<noteq> Some (sv_next s)" for m
    using ok unfolding registry_ok_def by (metis less_irrefl)
  show ?thesis using ok H(1) H(2) [OF refl] fresh unfolding accepted registry_ok_def
    by (auto simp: quiet_def keeps_nodes_def new_session_def less_Suc_eq)
next
  case (rejected rd e w')
  then show ?thesis using ok run_handshake(1) [OF rejected(3)] unfolding rejected registry_ok_def
    by (auto simp: quiet_def keeps_nodes_def less_Suc_eq)
next
  case (moved c se mv se' w')
  have M: "registry_move c se se' (sv_world s) w'" using moved(4) by (rule move_registry)
  have "\<exists>x. (if d = c then Some se' else sv_sessions s d) = Some x \<and> se_NodeID x = m \<and> held (se_phase x)"
    if "map_of (conns w') m = Some d" for m d
  proof -
    have old: "map_of (conns (sv_world s)) m = Some d \<Longrightarrow> \<exists>x. sv_sessions s d = Some x \<and> se_NodeID x = m \<and> held (se_phase x)"
      using ok by (simp add: registry_ok_def)
    show ?thesis using that M moved(3) old unfolding registry_move_def registry_after_def
      by (cases "held (se_phase se)"; cases "held (se_phase se')") (auto split: if_splits)
  qed
  then show ?thesis using ok M moved(3) unfolding moved(1,2) registry_ok_def registry_move_def by (auto simp: keeps_nodes_def)
next
  case (others w')
  then show ?thesis using ok unfolding others registry_ok_def
    by (auto simp: elsewhere_def keeps_nodes_def)
qed

lemma registry_ok_reachable: "reachable s \<Longrightarrow> registry_ok s"
proof (induction rule: reachable.induct)
  case (reach_start s)
  then show ?case by (simp add: started_def registry_ok_def)
qed (rule registry_step)

text \<open>
  C6. In every reachable state of the server, however the connections and their goroutines interleave and whatever
  calls fail, the connection that the registry holds for a node is an open session that has not been cleaned up
  and whose agent presented the bearer token of exactly that node; when all sessions have ended the registry is
  empty.
\<close>

theorem registry_names_authenticated:
  assumes "reachable s"
  shows "(map_of (conns (sv_world s)) n = Some c \<longrightarrow>
      (\<exists>se. sv_sessions s c = Some se \<and> se_NodeID se = n \<and> held (se_phase se)
        \<and> hash_of (sv_world s) n = Some (HashNodeToken (he_BearerToken (se_Hello se)))))
    \<and> ((\<forall>c se. sv_sessions s c = Some se \<longrightarrow> se_phase se = Ended) \<longrightarrow> map_of (conns (sv_world s)) n = None)"
proof -
  have "registry_ok s" using assms by (rule registry_ok_reachable)
  then show ?thesis unfolding registry_ok_def held_def
    by (cases "map_of (conns (sv_world s)) n") fastforce+
qed

section \<open>The status column tells the truth\<close>

text \<open>Between registration and the last write of the clean-up.\<close>

definition engaged :: "phase \<Rightarrow> bool" where
  "engaged ph \<longleftrightarrow> held ph \<or> ph = Unregistered"

text \<open>
  A step is orderly when it does not register a second connection of a node that still has one, and when neither
  goroutine of a session changes the liveness tracker while the other one is about to write the status for it.
\<close>

definition tidy :: "session \<Rightarrow> move \<Rightarrow> bool" where
  "tidy se mv \<longleftrightarrow>
     (case mv of
        Read rd \<Rightarrow> se_reader se = Reading \<and> rd \<noteq> ReadError \<longrightarrow> se_watcher se \<noteq> Flagging
      | Watch d \<Rightarrow> se_watcher se = Watching \<and> \<not> d \<longrightarrow> (\<forall>f. se_reader se \<noteq> Recovering f)
      | _ \<Rightarrow> True)"

definition orderly :: "server \<Rightarrow> event \<Rightarrow> bool" where
  "orderly s ev \<longleftrightarrow>
     (\<forall>c mv se. ev = Move c mv \<and> sv_sessions s c = Some se \<longrightarrow> tidy se mv \<and>
        (mv = Serve \<and> se_phase se = Identified \<longrightarrow>
           (\<forall>d x. sv_sessions s d = Some x \<and> se_NodeID x = se_NodeID se \<longrightarrow> \<not> engaged (se_phase x))))"

inductive orderly_reachable :: "server \<Rightarrow> bool" where
  orderly_start: "started s \<Longrightarrow> faults (sv_world s) = (\<lambda>_. NoFault) \<Longrightarrow> orderly_reachable s"
| orderly_step: "orderly_reachable s \<Longrightarrow> orderly s ev \<Longrightarrow> server_step s ev s' \<Longrightarrow> orderly_reachable s'"

text \<open>The status that fits where a session stands.\<close>

definition status_fits :: "session \<Rightarrow> agent_status \<Rightarrow> bool" where
  "status_fits se st \<longleftrightarrow>
     (if se_phase se \<in> {Authenticated, Identified, Registered, MarkedOnline, Acked}
      then se_reader se = Reading \<and> se_watcher se = Watching \<and> (se_phase se \<in> {MarkedOnline, Acked} \<longrightarrow> st = AgentOnline)
      else if se_phase se \<in> {Serving, Closing}
      then (se_phase se = Closing \<longrightarrow> se_reader se = Reading) \<and>
        (if se_watcher se = Flagging then lt_unreachable (se_tracker se) \<and> st = AgentOnline \<and> (\<forall>f. se_reader se \<noteq> Recovering f)
         else if \<exists>f. se_reader se = Recovering f then \<not> lt_unreachable (se_tracker se) \<and> st = AgentUnreachable
         else st = (if lt_unreachable (se_tracker se) then AgentUnreachable else AgentOnline))
      else True)"

definition status_ok :: "server \<Rightarrow> bool" where
  "status_ok s \<longleftrightarrow> registry_ok s \<and> faults (sv_world s) = (\<lambda>_. NoFault) \<and>
     (\<forall>n st. status_of (sv_world s) n = Some st \<longrightarrow>
        (\<forall>c se. sv_sessions s c = Some se \<and> se_NodeID se = n \<longrightarrow> \<not> engaged (se_phase se)) \<longrightarrow> st = AgentOffline) \<and>
     (\<forall>c se st. sv_sessions s c = Some se \<and> status_of (sv_world s) (se_NodeID se) = Some st \<longrightarrow> status_fits se st) \<and>
     (\<forall>c d se x. sv_sessions s c = Some se \<and> sv_sessions s d = Some x \<and> se_NodeID se = se_NodeID x
        \<and> engaged (se_phase se) \<and> engaged (se_phase x) \<longrightarrow> c = d) \<and>
     (\<forall>c se. sv_sessions s c = Some se \<and> held (se_phase se) \<longrightarrow> map_of (conns (sv_world s)) (se_NodeID se) = Some c)"

text \<open>What an orderly move of a session with a fitting status does.\<close>

lemma orderly_move:
  assumes run: "run_state (session_move c mv se) w = (Some se', w')" and up: "faults w = (\<lambda>_. NoFault)"
    and st: "status_of w (se_NodeID se) = Some st" "status_fits se st"
    and tidy: "tidy se mv"
  shows "\<exists>st'. status_of w' = (status_of w)(se_NodeID se \<mapsto> st') \<and> status_fits se' st' \<and> (st' \<noteq> st \<longrightarrow> engaged (se_phase se))
    \<and> (engaged (se_phase se') = engaged (se_phase se) \<or> mv = Serve \<and> se_phase se = Identified
       \<or> se_phase se = Unregistered \<and> st' = AgentOffline)"
proof -
  have q: "quiet w w' \<Longrightarrow> status_of w' = (status_of w)(se_NodeID se \<mapsto> st)" using st by (auto simp: quiet_def)
  have r: "run_state (report_status (se_NodeID se) t b) w = (u, w') \<Longrightarrow> status_of w' = (status_of w)(se_NodeID se \<mapsto> t)" for t b u
    using run_report_status(6) [of "se_NodeID se" t b w u w'] up st by simp
  note defs = status_fits_def engaged_def held_def tidy_def
  show ?thesis
  proof (cases mv)
    case Serve
    then have "run_state (serve_next c se) w = (Some se', w')" using run by simp
    then show ?thesis
    proof (cases rule: serve_moves)
      case (register u)
      then show ?thesis using same_rows [of w' w] run_Register [of "se_NodeID se" c w u w'] st Serve
        by (intro exI [of _ st]) (auto simp: defs)
    next
      case (unregister u)
      then show ?thesis using same_rows [of w' w] run_Unregister [of "se_NodeID se" c w u w'] st Serve
        by (intro exI [of _ st]) (auto simp: defs)
    next
      case (online u)
      then show ?thesis using r st Serve by (intro exI [of _ AgentOnline]) (auto simp: defs)
    next
      case (offline u)
      then show ?thesis using r st Serve by (intro exI [of _ AgentOffline]) (auto simp: defs)
    qed (use q st Serve in \<open>(intro exI [of _ st], auto simp: defs newLivenessTracker_def)+\<close>)
  next
    case (Read rd)
    then have "run_state (readLoop rd se) w = (Some se', w')" using run by simp
    then show ?thesis
    proof (cases rule: read_moves)
      case (recover f u)
      then show ?thesis using r st tidy Read by (intro exI [of _ AgentOnline]) (auto simp: defs split: if_splits)
    qed (use q st tidy Read in \<open>(intro exI [of _ st], auto simp: defs split: if_splits)+\<close>)
  next
    case (Watch d)
    then have "run_state (watchLiveness d se) w = (Some se', w')" using run by simp
    then show ?thesis
    proof (cases rule: watch_moves)
      case (flag u)
      then show ?thesis using r st tidy Watch by (intro exI [of _ AgentUnreachable]) (auto simp: defs split: if_splits)
    qed (use q st tidy Watch in \<open>(intro exI [of _ st], auto simp: defs split: if_splits)+\<close>)
  next
    case Connect
    then show ?thesis using connect_move [of se w se' w'] run q st by (intro exI [of _ st]) (auto simp: defs)
  qed
qed

lemma status_fits_idle: "\<not> engaged (se_phase x) \<Longrightarrow> status_fits x st \<Longrightarrow> status_fits x st'"
  by (auto simp: status_fits_def engaged_def held_def)

lemma status_okD:
  assumes "status_ok s"
  shows "registry_ok s" "faults (sv_world s) = (\<lambda>_. NoFault)"
    and "sv_sessions s c = Some se \<Longrightarrow> \<exists>st. status_of (sv_world s) (se_NodeID se) = Some st"
    and "status_of (sv_world s) n = Some st \<Longrightarrow> (\<And>c se. sv_sessions s c = Some se \<Longrightarrow> se_NodeID se = n \<Longrightarrow> \<not> engaged (se_phase se)) \<Longrightarrow> st = AgentOffline"
    and "sv_sessions s c = Some se \<Longrightarrow> status_of (sv_world s) (se_NodeID se) = Some st \<Longrightarrow> status_fits se st"
    and "sv_sessions s c = Some se \<Longrightarrow> sv_sessions s d = Some x \<Longrightarrow> se_NodeID se = se_NodeID x \<Longrightarrow> engaged (se_phase se) \<Longrightarrow> engaged (se_phase x) \<Longrightarrow> c = d"
    and "sv_sessions s c = Some se \<Longrightarrow> held (se_phase se) \<Longrightarrow> map_of (conns (sv_world s)) (se_NodeID se) = Some c"
  using assms unfolding status_ok_def registry_ok_def by blast+

lemma status_okI:
  assumes "registry_ok s" "faults (sv_world s) = (\<lambda>_. NoFault)"
    and "\<And>n st. status_of (sv_world s) n = Some st \<Longrightarrow> (\<And>c se. sv_sessions s c = Some se \<Longrightarrow> se_NodeID se = n \<Longrightarrow> \<not> engaged (se_phase se)) \<Longrightarrow> st = AgentOffline"
    and "\<And>c se st. sv_sessions s c = Some se \<Longrightarrow> status_of (sv_world s) (se_NodeID se) = Some st \<Longrightarrow> status_fits se st"
    and "\<And>c d se x. sv_sessions s c = Some se \<Longrightarrow> sv_sessions s d = Some x \<Longrightarrow> se_NodeID se = se_NodeID x \<Longrightarrow>
      engaged (se_phase se) \<Longrightarrow> engaged (se_phase x) \<Longrightarrow> c = d"
    and "\<And>c se. sv_sessions s c = Some se \<Longrightarrow> held (se_phase se) \<Longrightarrow> map_of (conns (sv_world s)) (se_NodeID se) = Some c"
  shows "status_ok s"
  using assms unfolding status_ok_def by blast

lemma status_ok_same:
  assumes ok: "status_ok s" and "registry_ok s'" and sess: "sv_sessions s' = sv_sessions s" and w: "elsewhere (sv_world s) (sv_world s')"
  shows "status_ok s'"
proof (rule status_okI)
  note D = status_okD [OF ok]
  have known: "sv_sessions s c = Some se \<Longrightarrow> status_of (sv_world s') (se_NodeID se) = status_of (sv_world s) (se_NodeID se)" for c se
    using D(3) [of c se] w by (auto simp: elsewhere_def)
  show "st = AgentOffline" if "status_of (sv_world s') n = Some st"
      "\<And>c se. sv_sessions s' c = Some se \<Longrightarrow> se_NodeID se = n \<Longrightarrow> \<not> engaged (se_phase se)" for n st
  proof (cases "status_of (sv_world s) n")
    case None
    then have "status_of (sv_world s') n \<in> {None, Some AgentOffline}" using w unfolding elsewhere_def by metis
    then show ?thesis using that(1) by simp
  next
    case (Some t)
    then have "status_of (sv_world s') n = Some t" using w unfolding elsewhere_def by (metis option.distinct(1))
    then show ?thesis using that D(4) [of n st] Some by (simp add: sess)
  qed
  show "status_fits se st" if "sv_sessions s' c = Some se" "status_of (sv_world s') (se_NodeID se) = Some st" for c se st
    using that known D(5) by (simp add: sess)
qed (use assms status_okD [OF ok] in \<open>simp_all add: sess elsewhere_def\<close>)

lemma quiet_elsewhere: "quiet w w' \<Longrightarrow> elsewhere w w'"
  by (simp add: quiet_def elsewhere_def)

lemma status_ok_move:
  assumes ok: "status_ok s" and o: "orderly s (Move c mv)" and se: "sv_sessions s c = Some se"
    and run: "run_state (session_move c mv se) (sv_world s) = (Some se', w')"
    and s': "s' = s\<lparr>sv_world := w', sv_sessions := (sv_sessions s)(c \<mapsto> se')\<rparr>" and reg: "registry_ok s'"
  shows "status_ok s'"
proof -
  let ?w = "sv_world s" and ?n = "se_NodeID se"
  note D = status_okD [OF ok]
  have R: "registry_move c se se' ?w w'" using run by (rule move_registry)
  obtain st where st: "status_of ?w ?n = Some st" using D(3) [OF se] by blast
  obtain st' where st': "status_of w' = (status_of ?w)(?n \<mapsto> st')" "status_fits se' st'" "st' \<noteq> st \<longrightarrow> engaged (se_phase se)"
    "engaged (se_phase se') = engaged (se_phase se) \<or> mv = Serve \<and> se_phase se = Identified \<or> se_phase se = Unregistered \<and> st' = AgentOffline"
    using orderly_move [OF run D(2) st D(5) [OF se st]] o se unfolding orderly_def by blast
  have uniq: "\<not> engaged (se_phase x)" if "sv_sessions s d = Some x" "se_NodeID x = ?n" "engaged (se_phase se) \<or> engaged (se_phase se')" "d \<noteq> c" for d x
    using that D(6) [OF se that(1)] se st'(4) o by (auto simp: orderly_def engaged_def)
  have fits: "status_fits x t" if "sv_sessions s d = Some x" "d \<noteq> c" "status_of w' (se_NodeID x) = Some t" for d x t
  proof (cases "se_NodeID x = ?n \<and> st' \<noteq> st")
    case True
    then show ?thesis using uniq [OF that(1)] st'(3) that D(5) [OF that(1)] st status_fits_idle by auto
  next
    case False
    then have "status_of ?w (se_NodeID x) = Some t" using that(3) st'(1) st by (auto split: if_splits)
    then show ?thesis using D(5) that(1) by blast
  qed
  have off: "t = AgentOffline"
    if t: "status_of w' m = Some t" and idle: "\<And>d x. sv_sessions s' d = Some x \<Longrightarrow> se_NodeID x = m \<Longrightarrow> \<not> engaged (se_phase x)" for m t
  proof (cases "engaged (se_phase se) \<and> m = ?n")
    case True
    then have "\<not> engaged (se_phase se')" using idle [of c se'] R by (simp add: s' registry_move_def)
    then show ?thesis using True st' t by (auto simp: engaged_def held_def)
  next
    case False
    have "\<not> engaged (se_phase x)" if "sv_sessions s d = Some x" "se_NodeID x = m" for d x
      using that idle [of d x] False se by (cases "d = c") (auto simp: s')
    moreover have "status_of ?w m = Some t" using t st' st False by (auto split: if_splits)
    ultimately show ?thesis using D(4) by blast
  qed
  have held: "map_of (conns w') (se_NodeID x) = Some d" if x: "sv_sessions s' d = Some x" "held (se_phase x)" for d x
  proof (cases "d = c")
    case True
    then show ?thesis using x D(7) [OF se] R
      by (cases "held (se_phase se)") (auto simp: s' registry_move_def registry_after_def)
  next
    case False
    then have old: "map_of (conns ?w) (se_NodeID x) = Some d" using x D(7) by (simp add: s')
    have "se_NodeID x = ?n \<Longrightarrow> held (se_phase se') = held (se_phase se) \<or> \<not> held (se_phase se')"
      using uniq [of d x] False x by (auto simp: s' engaged_def)
    then show ?thesis using old False R by (auto simp: registry_move_def registry_after_def split: if_splits)
  qed
  show ?thesis unfolding status_ok_def
  proof (intro conjI allI impI)
    show "faults (sv_world s') = (\<lambda>_. NoFault)" using R D(2) by (simp add: s' registry_move_def)
    show "t = AgentOffline" if "status_of (sv_world s') m = Some t"
        "\<forall>c se. sv_sessions s' c = Some se \<and> se_NodeID se = m \<longrightarrow> \<not> engaged (se_phase se)" for m t
      using off that by (simp add: s')
    show "status_fits x t" if "sv_sessions s' d = Some x \<and> status_of (sv_world s') (se_NodeID x) = Some t" for d x t
      using that fits [of d x t] st'(1,2) R by (cases "d = c") (auto simp: s' registry_move_def)
    show "d = e" if "sv_sessions s' d = Some x \<and> sv_sessions s' e = Some y \<and> se_NodeID x = se_NodeID y
        \<and> engaged (se_phase x) \<and> engaged (se_phase y)" for d e x y
      using that uniq D(6) [of d x e y] R by (auto simp: s' registry_move_def split: if_splits)
    show "map_of (conns (sv_world s')) (se_NodeID x) = Some d" if "sv_sessions s' d = Some x \<and> held (se_phase x)" for d x
      using held that by (simp add: s')
  qed (rule reg)
qed

lemma status_ok_step:
  assumes ok: "status_ok s" and o: "orderly s ev" and step: "server_step s ev s'"
  shows "status_ok s'"
proof -
  note D = status_okD [OF ok]
  have reg: "registry_ok s'" using D(1) step by (rule registry_step)
  from step show ?thesis
  proof cases
    case (accepted rd n h q w')
    let ?new = "new_session n h q"
    have fresh: "sv_sessions s c = Some se \<Longrightarrow> c \<noteq> sv_next s" for c se using D(1) unfolding registry_ok_def by blast
    have old: "sv_sessions s' c = Some se \<Longrightarrow> c = sv_next s \<and> se = ?new \<or> sv_sessions s c = Some se \<and> c \<noteq> sv_next s" for c se
      using fresh by (auto simp: accepted(2) split: if_splits)
    have kept: "sv_sessions s c = Some se \<Longrightarrow> sv_sessions s' c = Some se" for c se using fresh by (auto simp: accepted(2))
    have w': "conns (sv_world s') = conns (sv_world s)" "faults (sv_world s') = faults (sv_world s)" "status_of (sv_world s') = status_of (sv_world s)"
      using run_handshake(1) [OF accepted(3)] by (simp_all add: accepted(2) quiet_def)
    have new: "status_fits ?new t" "\<not> engaged (se_phase ?new)" "\<not> held (se_phase ?new)" for t
      by (simp_all add: status_fits_def new_session_def engaged_def held_def)
    show ?thesis
    proof (rule status_okI [OF reg])
      show "st = AgentOffline" if "status_of (sv_world s') m = Some st"
          "\<And>c se. sv_sessions s' c = Some se \<Longrightarrow> se_NodeID se = m \<Longrightarrow> \<not> engaged (se_phase se)" for m st
        using that kept D(4) [of m st] by (metis w'(3))
    qed (use old new D(2,5,6,7) in \<open>simp_all add: w'\<close>, (metis+)?)
  next
    case (rejected rd e w')
    then show ?thesis using run_handshake(1) [OF rejected(3)] by (intro status_ok_same [OF ok reg]) (simp_all add: quiet_elsewhere)
  next
    case (moved c se mv se' w')
    show ?thesis using status_ok_move [OF ok _ moved(3,4) moved(2) reg] o moved(1) by blast
  next
    case (others w')
    then show ?thesis by (intro status_ok_same [OF ok reg]) simp_all
  qed
qed


text \<open>
  C7. As long as nothing fails, no second connection of a node is registered before the clean-up of the first has
  finished, and no message arrives between the watcher's decision to report silence and its write, nor a tick
  between a recovery and its write: a node without a session in use is offline and not in the registry, and one
  whose session serves is in the registry under that connection and its status is unreachable exactly when its
  liveness tracker says so, and online otherwise.
\<close>

theorem status_tells_truth:
  assumes "orderly_reachable s" and "status_of (sv_world s) n = Some st"
  shows "((\<forall>c se. sv_sessions s c = Some se \<and> se_NodeID se = n \<longrightarrow> \<not> engaged (se_phase se)) \<longrightarrow>
      st = AgentOffline \<and> map_of (conns (sv_world s)) n = None)
    \<and> (sv_sessions s c = Some se \<and> se_NodeID se = n \<and> se_phase se = Serving \<longrightarrow>
      map_of (conns (sv_world s)) n = Some c
      \<and> (se_watcher se \<noteq> Flagging \<and> (\<forall>f. se_reader se \<noteq> Recovering f) \<longrightarrow>
          st = (if lt_unreachable (se_tracker se) then AgentUnreachable else AgentOnline)))"
proof -
  have ok: "status_ok s" using assms(1)
  proof induction
    case (orderly_start s)
    then show ?case by (intro status_okI) (auto simp: started_def registry_ok_def, metis option.distinct(1) option.inject)
  qed (rule status_ok_step)
  note D = status_okD [OF ok]
  have "map_of (conns (sv_world s)) n = None" if "\<forall>c se. sv_sessions s c = Some se \<and> se_NodeID se = n \<longrightarrow> \<not> engaged (se_phase se)"
    using that D(1) unfolding registry_ok_def engaged_def by (metis not_None_eq)
  moreover have "status_fits se st \<and> map_of (conns (sv_world s)) n = Some c"
    if "sv_sessions s c = Some se" "se_NodeID se = n" "se_phase se = Serving"
    using that D(5,7) [of c se] assms(2) by (auto simp: held_def)
  ultimately show ?thesis using D(4) [OF assms(2)] by (auto simp: status_fits_def)
qed

section \<open>Runs\<close>

text \<open>The next state as a function of the event, to replay a run.\<close>

definition next_server :: "server \<Rightarrow> event \<Rightarrow> server option" where
  "next_server s ev =
     (case ev of
        Accept rd \<Rightarrow>
          (case run_state (handshake (sv_next s) rd) (sv_world s) of
             (Inl _, w') \<Rightarrow> Some (s\<lparr>sv_world := w', sv_next := Suc (sv_next s)\<rparr>)
           | (Inr (n, h, q), w') \<Rightarrow>
               Some (s\<lparr>sv_world := w', sv_sessions := (sv_sessions s)(sv_next s \<mapsto> new_session n h q), sv_next := Suc (sv_next s)\<rparr>))
      | Move c mv \<Rightarrow>
          (case sv_sessions s c of
             None \<Rightarrow> None
           | Some se \<Rightarrow>
               (case run_state (session_move c mv se) (sv_world s) of
                  (None, _) \<Rightarrow> None
                | (Some se', w') \<Rightarrow> Some (s\<lparr>sv_world := w', sv_sessions := (sv_sessions s)(c \<mapsto> se')\<rparr>)))
      | Elsewhere \<Rightarrow> Some s)"

fun play :: "event list \<Rightarrow> server \<Rightarrow> server option" where
  "play [] s = Some s"
| "play (ev # evs) s = (case next_server s ev of None \<Rightarrow> None | Some s' \<Rightarrow> play evs s')"

lemma next_server_step: "next_server s ev = Some s' \<Longrightarrow> server_step s ev s'"
  using others [of s "sv_world s"] quiet_elsewhere [OF quiet_same]
  by (auto simp: next_server_def split: event.splits prod.splits sum.splits option.splits intro: accepted rejected moved)

lemma play_reachable: "play evs s = Some s' \<Longrightarrow> reachable s \<Longrightarrow> reachable s'"
  by (induction evs arbitrary: s) (auto split: option.splits intro: reach_step next_server_step)

definition spark_hello :: envelope where
  "spark_hello = NewEnvelope TypeHello ''r1''
     (encode_Hello \<lparr>he_NodeName = ''spark-1'', he_BearerToken = ''spk_t'', he_SSHPublicKey = [], he_SSHHostPublicKey = []\<rparr>)"

lemma hello_round_trip: "decode_Hello (NewEnvelope TypeHello q (encode_Hello h)) = Inr h"
  by (simp add: decode_Hello_def encode_Hello_def roundtrip_simps)

definition spark_server :: server where
  "spark_server = \<lparr>sv_world = empty_world\<lparr>clock := (\<lambda>n. 100000000000 * int n),
     nodes := [\<lparr>cred_Node = (new_node empty_world spark_registration None)\<lparr>node_ID := ''n1''\<rparr>, cred_BearerTokenHash = HashNodeToken ''spk_t''\<rparr>]\<rparr>,
     sv_sessions = Map.empty, sv_next = 0\<rparr>"

definition connecting :: "conn \<Rightarrow> event list" where
  "connecting c = Accept (ReadFrame (GoodFrame spark_hello)) # replicate 5 (Move c Serve)"

lemma spark_hello_simps:
  "env_Type spark_hello = TypeHello" "env_RequestID spark_hello = ''r1''"
  "decode_Hello spark_hello = Inr \<lparr>he_NodeName = ''spark-1'', he_BearerToken = ''spk_t'', he_SSHPublicKey = [], he_SSHHostPublicKey = []\<rparr>"
  unfolding spark_hello_def by (simp_all add: NewEnvelope_def [of TypeHello "''r1''"] hello_round_trip [unfolded NewEnvelope_def])

definition heartbeat :: read_result where
  "heartbeat = ReadFrame (GoodFrame \<lparr>env_Type = TypeHeartbeat, env_RequestID = [], env_Payload = RawJson (JObj [])\<rparr>)"

lemmas replay = next_server_def handshake_def spark_hello_simps Authenticate_def FindCredentialByName_def VerifyNodeToken_def run_simps
  serve_next_def new_session_def recordSSHIdentity_def Register_def Unregister_def report_status_def SetAgentStatus_def update_node_def
  Publish_def drop_result_def sendHelloAck_def newLivenessTracker_def readLoop_def watchLiveness_def recordActivity_def
  markUnreachableIfStale_def defaultUnreachableTimeout_def heartbeat_def handle_frame_def cred_name_def cred_id_def Let_def
  connecting_def spark_server_def empty_world_def spark_registration_def new_node_def numeral_eq_Suc

lemma spark_started: "started spark_server"
  by (simp add: started_def spark_server_def empty_world_def wf_nodes_def primary_key_def status_of_def cred_id_def new_node_def)

fun orderly_play :: "event list \<Rightarrow> server \<Rightarrow> server option" where
  "orderly_play [] s = Some s"
| "orderly_play (ev # evs) s =
     (if orderly s ev then (case next_server s ev of None \<Rightarrow> None | Some s' \<Rightarrow> orderly_play evs s') else None)"

lemma orderly_play_reachable: "orderly_play evs s = Some s' \<Longrightarrow> orderly_reachable s \<Longrightarrow> orderly_reachable s'"
  by (induction evs arbitrary: s) (auto split: option.splits if_splits intro: orderly_step next_server_step)

lemma play_faults: "play evs s = Some s' \<Longrightarrow> faults (sv_world s') = faults (sv_world s)"
proof (induction evs arbitrary: s)
  case (Cons ev evs)
  then obtain t where t: "next_server s ev = Some t" "play evs t = Some s'" by (auto split: option.splits)
  have "faults (sv_world t) = faults (sv_world s)" using next_server_step [OF t(1)]
    by cases (auto simp: elsewhere_def dest!: run_handshake(1) move_registry, auto simp: quiet_def registry_move_def)
  then show ?case using Cons t by simp
qed simp

text \<open>What a run shows of a node and of one of its sessions.\<close>

definition view :: "conn \<Rightarrow> server \<Rightarrow> conn option \<times> (phase \<times> reader \<times> watcher \<times> bool) option \<times> agent_status option" where
  "view c s = (map_of (conns (sv_world s)) ''n1'',
     map_option (\<lambda>se. (se_phase se, se_reader se, se_watcher se, lt_unreachable (se_tracker se))) (sv_sessions s c),
     status_of (sv_world s) ''n1'')"

lemma view_Some:
  assumes "map_option (view c) x = Some (reg, Some (ph, rd, wt, un), st)"
  obtains s se where "x = Some s" "map_of (conns (sv_world s)) ''n1'' = reg" "status_of (sv_world s) ''n1'' = st"
    "sv_sessions s c = Some se" "se_phase se = ph" "se_reader se = rd" "se_watcher se = wt" "lt_unreachable (se_tracker se) = un"
  using assms by (auto simp: view_def)

lemma spark_no_faults: "faults (sv_world spark_server) = (\<lambda>_. NoFault)"
  by (simp add: spark_server_def empty_world_def)

lemma connected_view:
  "map_option (view 0) (orderly_play (connecting 0) spark_server) = Some (Some 0, Some (Serving, Reading, Watching, False), Some AgentOnline)"
  by (simp add: replay status_of_def orderly_def tidy_def engaged_def held_def view_def)

lemma orderly_play_play: "orderly_play evs s = Some s' \<Longrightarrow> play evs s = Some s'"
  by (induction evs arbitrary: s) (auto split: option.splits if_splits)

theorem registry_names_authenticated_witness:
  "\<exists>s se. play (connecting 0) spark_server = Some s \<and> map_of (conns (sv_world s)) ''n1'' = Some 0
     \<and> sv_sessions s 0 = Some se \<and> hash_of (sv_world s) ''n1'' = Some (HashNodeToken (he_BearerToken (se_Hello se)))"
proof -
  obtain s where s: "orderly_play (connecting 0) spark_server = Some s" "map_of (conns (sv_world s)) ''n1'' = Some 0"
    using connected_view by (rule view_Some)
  then have p: "play (connecting 0) spark_server = Some s" by (simp add: orderly_play_play)
  then have "reachable s" by (rule play_reachable) (rule reach_start [OF spark_started])
  then show ?thesis using registry_names_authenticated [of s "''n1''" 0] s(2) p by auto
qed

theorem status_tells_truth_witness:
  "\<exists>s. orderly_play (connecting 0) spark_server = Some s \<and> status_of (sv_world s) ''n1'' = Some AgentOnline
     \<and> map_of (conns (sv_world s)) ''n1'' = Some 0"
proof -
  obtain s se where s: "orderly_play (connecting 0) spark_server = Some s" "status_of (sv_world s) ''n1'' = Some AgentOnline"
    "sv_sessions s 0 = Some se" "se_phase se = Serving" "se_reader se = Reading" "se_watcher se = Watching" "lt_unreachable (se_tracker se) = False"
    "map_of (conns (sv_world s)) ''n1'' = Some 0"
    using connected_view by (rule view_Some)
  have r: "orderly_reachable s" using s(1) by (rule orderly_play_reachable) (rule orderly_start [OF spark_started spark_no_faults])
  have "reachable s" using orderly_play_play [OF s(1)] by (rule play_reachable) (rule reach_start [OF spark_started])
  then have "se_NodeID se = ''n1''" using s registry_ok_reachable unfolding registry_ok_def by (metis option.inject)
  then show ?thesis using status_tells_truth [OF r s(2), of 0 se] s by simp
qed

lemma superseded_view:
  "map_option (view 1) (play (connecting 0 @ connecting 1 @
       [Move 0 (Read ReadError), Move 0 (Watch True), Move 0 Serve, Move 0 Serve]) spark_server)
   = Some (Some 1, Some (Serving, Reading, Watching, False), Some AgentOffline)"
  by (simp add: replay status_of_def view_def)

lemma race_view:
  "map_option (view 0) (play (connecting 0 @ [Move 0 (Watch False), Move 0 (Read heartbeat), Move 0 (Read heartbeat), Move 0 (Watch False),
       Move 0 (Read heartbeat), Move 0 (Read heartbeat), Move 0 (Read heartbeat)]) spark_server)
   = Some (Some 0, Some (Serving, Reading, Watching, False), Some AgentUnreachable)"
  by (simp add: replay status_of_def view_def)

text \<open>
  An agent that reconnects before the clean-up of its old connection is marked offline although it is
  connected and nothing failed: the clean-up leaves the registry entry of the new connection alone, but its status
  write is not guarded in the same way, and nothing writes the status again while the new connection is alive.
\<close>

theorem superseded_marks_offline:
  "\<exists>s se. reachable s \<and> faults (sv_world s) = (\<lambda>_. NoFault) \<and> map_of (conns (sv_world s)) ''n1'' = Some 1
     \<and> sv_sessions s 1 = Some se \<and> se_phase se = Serving \<and> \<not> lt_unreachable (se_tracker se)
     \<and> status_of (sv_world s) ''n1'' = Some AgentOffline"
proof -
  let ?run = "play (connecting 0 @ connecting 1 @ [Move 0 (Read ReadError), Move 0 (Watch True), Move 0 Serve, Move 0 Serve]) spark_server"
  obtain s se where s: "?run = Some s" "map_of (conns (sv_world s)) ''n1'' = Some 1" "status_of (sv_world s) ''n1'' = Some AgentOffline"
    "sv_sessions s 1 = Some se" "se_phase se = Serving" "se_reader se = Reading" "se_watcher se = Watching" "lt_unreachable (se_tracker se) = False"
    using superseded_view by (rule view_Some)
  have "reachable s" using s(1) by (rule play_reachable) (rule reach_start [OF spark_started])
  moreover have "faults (sv_world s) = (\<lambda>_. NoFault)" using play_faults [OF s(1)] spark_no_faults by simp
  ultimately show ?thesis using s by blast
qed

text \<open>
  A message that arrives between the watcher's decision that a connection is silent and its write leaves the
  node unreachable: the read loop writes online first, the watcher writes unreachable last, and later messages do
  not correct it because the tracker already counts the connection as alive.
\<close>

theorem recovery_overwritten:
  "\<exists>s se. reachable s \<and> faults (sv_world s) = (\<lambda>_. NoFault) \<and> map_of (conns (sv_world s)) ''n1'' = Some 0
     \<and> sv_sessions s 0 = Some se \<and> se_phase se = Serving \<and> se_reader se = Reading \<and> se_watcher se = Watching
     \<and> \<not> lt_unreachable (se_tracker se) \<and> status_of (sv_world s) ''n1'' = Some AgentUnreachable"
proof -
  let ?run = "play (connecting 0 @ [Move 0 (Watch False), Move 0 (Read heartbeat), Move 0 (Read heartbeat), Move 0 (Watch False), Move 0 (Read heartbeat), Move 0 (Read heartbeat), Move 0 (Read heartbeat)]) spark_server"
  obtain s se where s: "?run = Some s" "map_of (conns (sv_world s)) ''n1'' = Some 0" "status_of (sv_world s) ''n1'' = Some AgentUnreachable"
    "sv_sessions s 0 = Some se" "se_phase se = Serving" "se_reader se = Reading" "se_watcher se = Watching" "lt_unreachable (se_tracker se) = False"
    using race_view by (rule view_Some)
  have "reachable s" using s(1) by (rule play_reachable) (rule reach_start [OF spark_started])
  moreover have "faults (sv_world s) = (\<lambda>_. NoFault)" using play_faults [OF s(1)] spark_no_faults by simp
  ultimately show ?thesis using s by blast
qed

section \<open>The rest of the server\<close>

text \<open>The services that write the nodes table otherwise stay within what the step relation allows them.\<close>

interpretation elsewhere: db_step_rel elsewhere
proof
  fix u v w :: world and n
  show "elsewhere w w" "elsewhere w (w\<lparr>tick := n\<rparr>)" by (simp_all add: quiet_elsewhere quiet_same)
  assume uv: "elsewhere u v" and vw: "elsewhere v w"
  have n: "if status_of u n = None then status_of w n \<in> {None, Some AgentOffline}
      else status_of w n = status_of u n \<and> hash_of w n = hash_of u n" for n
    using uv vw unfolding elsewhere_def by (metis empty_iff insert_iff option.distinct(1))
  show "elsewhere u w" unfolding elsewhere_def keeps_nodes_def
  proof (intro conjI allI)
    show "if status_of u n = None then status_of w n \<in> {None, Some AgentOffline}
      else status_of w n = status_of u n \<and> hash_of w n = hash_of u n" for n by (rule n)
  qed (use uv vw in \<open>simp_all add: elsewhere_def keeps_nodes_def\<close>)
qed

lemma elsewhere_quiet: "within quiet m \<Longrightarrow> within elsewhere m"
  by (simp add: within_def quiet_elsewhere)

lemma elsewhere_node_Create: "within elsewhere (node_Create p who h)"
  unfolding node_Create_def
proof (intro elsewhere.db_within_rules elsewhere.within_io_call)
  fix w
  let ?n = "new_node w p who"
  have "keeps_nodes w (w\<lparr>nodes := nodes w @ [\<lparr>cred_Node = ?n, cred_BearerTokenHash = h\<rparr>]\<rparr>)"
    if "node_ID ?n \<notin> cred_id ` set (nodes w)" "node_Name ?n \<notin> cred_name ` set (nodes w)"
    using that by (auto simp: keeps_nodes_def wf_nodes_def primary_key_def cred_id_def cred_name_def image_iff)
  then show "elsewhere w (snd (let n = new_node w p who in
          if (case reg_RuntimeBackend p of BackendOther _ \<Rightarrow> True | _ \<Rightarrow> False) then (Inl ErrInvalidEnum, w)
          else if node_ID n \<in> cred_id ` set (nodes w) \<or> node_Name n \<in> cred_name ` set (nodes w) then (Inl ErrUniqueViolation, w)
          else (Inr n, w\<lparr>nodes := nodes w @ [\<lparr>cred_Node = n, cred_BearerTokenHash = h\<rparr>]\<rparr>)))"
    by (auto simp: Let_def keeps_nodes.rel_refl elsewhere_def status_of_def hash_of_def find_row_append new_node_def cred_id_def
        split: option.split)
qed

lemma elsewhere_Record: "within elsewhere (Record act isSA action otyp obj det)"
  by (intro elsewhere_quiet withinI) (auto simp: run_simps Let_def quiet_same split: fault.split)

lemma elsewhere_node_writes:
  "within elsewhere (repo_SetDefaultTransferInterface i nm)" "within elsewhere (repo_SetComment i c u t)"
  unfolding repo_SetDefaultTransferInterface_def repo_SetComment_def
  by (intro elsewhere.db_within_rules elsewhere_quiet quiet_update_node; simp)+

lemma elsewhere_nodes:
  "within elsewhere (RegisterNode a p)" "within elsewhere (SetDefaultTransferInterface a n i)" "within elsewhere (SetComment a n c)"
  unfolding RegisterNode_def GenerateNodeToken_def SetDefaultTransferInterface_def set_interface_def SetComment_def Let_def
    node_FindByID_def ListByNode_def
  by (intro elsewhere.db_within_rules elsewhere_node_Create elsewhere_Record elsewhere_node_writes)+

section \<open>The audit log\<close>

lemma log_grows_agent_sessions:
  "within log_grows (handshake c rd)" "within log_grows (serve_next c se)" "within log_grows (readLoop rd se)"
  "within log_grows (watchLiveness d se)"
proof -
  have reject: "within log_grows (reject c q r e)" for q r e
    unfolding reject_def sendHelloAck_def by (intro log_grows_rules log_grows_exec) simp
  show "within log_grows (handshake c rd)" unfolding handshake_def
    by (auto split: read_result.split frame.split intro!: log_grows_rules log_grows_nodes reject)
  have report: "within log_grows (report_status n st b)" for n st b
    unfolding report_status_def Publish_def by (intro log_grows_rules log_grows_nodes_repo log_grows_poke) simp
  have ack: "within log_grows (drop_result (sendHelloAck c q b r))" for q b r
    unfolding drop_result_def sendHelloAck_def by (intro log_grows_rules log_grows_exec) simp
  have ssh: "within log_grows (recordSSHIdentity n h)" for n h
    unfolding recordSSHIdentity_def Let_def by (intro log_grows_rules log_grows_nodes_repo)
  show "within log_grows (serve_next c se)" unfolding serve_next_def Let_def
    by (cases "se_phase se") (auto intro!: log_grows_rules log_grows_agentconn report ack ssh)
  have handle: "within log_grows (handle_frame n f)" for n f
    unfolding handle_frame_def by (cases f) (auto intro!: log_grows_rules log_grows.within_onMessage)
  show "within log_grows (readLoop rd se)" unfolding readLoop_def
    by (cases "se_reader se"; cases rd) (auto intro!: log_grows_rules report handle)
  show "within log_grows (watchLiveness d se)" unfolding watchLiveness_def
    by (cases "se_watcher se") (auto intro!: log_grows_rules report)
qed

end
