(* ===== verification/Transfer_Rules.thy ===== *)
theory Transfer_Rules
  imports Transfers
begin

text \<open>
  What the transfer service guarantees: a finished transfer never changes again and no transfer changes what it is
  about, a report counts only when it comes from the destination, a pull starts only after its source accepted it,
  and what each report leaves behind. Between a report's lookup and its write a cancellation can still be lost.
\<close>

section \<open>Finished transfers\<close>

lemma only_transfer_sends: "within (only_transfer i) (Send n env)" "within (only_transfer i) (best_effort n env)"
proof -
  show s: "within (only_transfer i) (Send n env)" for n env unfolding Send_def
    by (intro only_transfer.db_within_rules only_transfer.within_exec) (simp add: only_transfer_same)
  show "within (only_transfer i) (best_effort n env)" unfolding best_effort_def Connected_def
    by (intro only_transfer.db_within_rules s)
qed

lemma only_transfer_Record: "within (only_transfer i) (Record act isSA action otyp obj det)"
  by (rule withinI) (auto simp: run_simps Let_def only_transfer_same split: fault.split)

lemma only_transfer_inventory: "within (only_transfer i) (inv_Upsert k s z v)" "within (only_transfer i) (inv_Get k)"
  unfolding inv_Upsert_def inv_Get_def
  by (intro only_transfer.db_within_rules only_transfer.within_io_call; simp add: only_transfer_same Let_def)+

lemma only_transfer_peers: "within (only_transfer i) (sendCancel n j)" "within (only_transfer i) (revokePeer t)"
  unfolding sendCancel_def revokePeer_def by (intro only_transfer.db_within_rules only_transfer_sends)+

lemma only_failPeer: "within (only_transfer (mt_ID t)) (failPeer t msg)"
  unfolding failPeer_def by (intro only_transfer.db_within_rules only_transfer_writes only_transfer_peers)

lemma only_recordIncomplete: "within (only_transfer i) (recordIncomplete t b)"
  unfolding recordIncomplete_def Let_def by (intro only_transfer.db_within_rules only_transfer_inventory)

lemma only_apply_progress: "within (only_transfer (tg_TransferID g)) (apply_progress n g t)"
  unfolding apply_progress_def Let_def
  by (intro only_transfer.db_within_rules only_transfer_writes only_transfer_peers only_recordIncomplete only_transfer_inventory)

lemma only_transfer_plan: "within (only_transfer i) (planPeer d s ov)"
  unfolding planPeer_def GetNode_def node_FindByID_def ResolveTransferSource_def ListInterfaces_def ListByNode_def Let_def
  by (intro only_transfer.db_within_rules)

lemma only_start_peer: "within (only_transfer (mt_ID t)) (start_peer n t)"
  unfolding start_peer_def Connected_def
  by (intro only_transfer.db_within_rules only_transfer_plan only_failPeer only_transfer_sends)

lemma only_or_fail:
  "within (only_transfer (mt_ID t)) m \<Longrightarrow> within (only_transfer (mt_ID t)) k \<Longrightarrow> within (only_transfer (mt_ID t)) (or_fail m h t msg k)"
  unfolding or_fail_def by (intro only_transfer.db_within_rules only_failPeer)

lemma only_peer_dispatch: "within (only_transfer (mt_ID t)) (peer_dispatch a p plan t)"
  unfolding peer_dispatch_def
  by (intro only_or_fail only_transfer.db_within_rules only_transfer_writes only_transfer_sends only_transfer_Record)

text \<open>Every transfer is still there and about the same thing; a finished one is as it was.\<close>

definition keeps_transfers :: "world \<Rightarrow> world \<Rightarrow> bool" where
  "keeps_transfers w w' \<longleftrightarrow>
     (\<forall>i t. find_row mt_ID i (model_transfers w) = Some t \<longrightarrow>
        (\<exists>t'. find_row mt_ID i (model_transfers w') = Some t' \<and> transfer_job t' = transfer_job t \<and> (isTerminal (mt_Status t) \<longrightarrow> t' = t)))"

interpretation keeps_transfers: db_step_rel keeps_transfers
proof
  fix u v w :: world and n
  show "keeps_transfers w w" "keeps_transfers w (w\<lparr>tick := n\<rparr>)" by (simp_all add: keeps_transfers_def)
  show "keeps_transfers u w" if "keeps_transfers u v" "keeps_transfers v w"
    using that unfolding keeps_transfers_def by metis
qed

lemma keeps_only:
  assumes "only_transfer i w w'" and "\<And>t. find_row mt_ID i (model_transfers w) = Some t \<Longrightarrow> \<not> isTerminal (mt_Status t)"
  shows "keeps_transfers w w'"
  unfolding keeps_transfers_def
proof (intro allI impI)
  fix j t
  assume t: "find_row mt_ID j (model_transfers w) = Some t"
  show "\<exists>t'. find_row mt_ID j (model_transfers w') = Some t' \<and> transfer_job t' = transfer_job t \<and> (isTerminal (mt_Status t) \<longrightarrow> t' = t)"
    using assms t unfolding only_transfer_def by (cases "j = i") (auto simp: map_option_eq_Some)
qed

lemma keeps_added:
  assumes "model_transfers w' = model_transfers w @ [t]"
  shows "keeps_transfers w w'"
  using assms by (auto simp: keeps_transfers_def find_row_append)

text \<open>The row that a handler works on is the one it found, or the one it has just created.\<close>

lemma keeps_found:
  assumes "\<And>t. mt_ID t = i \<Longrightarrow> \<not> isTerminal (mt_Status t) \<Longrightarrow> within (only_transfer i) (k t)"
    and "\<And>t. mt_ID t = i \<Longrightarrow> isTerminal (mt_Status t) \<Longrightarrow> within keeps_transfers (k t)"
    and "\<And>e. within keeps_transfers (g e)"
  shows "within keeps_transfers (State_Monad.bind (mt_FindByID i) (\<lambda>r. case r of Inl e \<Rightarrow> g e | Inr t \<Rightarrow> k t))"
proof (rule withinI)
  fix w :: world
  let ?w = "w\<lparr>tick := Suc (tick w)\<rparr>" and ?m = "State_Monad.bind (mt_FindByID i) (\<lambda>r. case r of Inl e \<Rightarrow> g e | Inr t \<Rightarrow> k t)"
  have find: "run_state (mt_FindByID i) w =
      (case faults w (tick w) of NoFault \<Rightarrow> (case find_row mt_ID i (model_transfers w) of None \<Rightarrow> Inl ErrModelTransferNotFound | Some t \<Rightarrow> Inr t)
       | Lost e \<Rightarrow> Inl (Wrap ''scan model transfer'' (ErrIO e)) | Ambiguous e \<Rightarrow> Inl (Wrap ''scan model transfer'' (ErrIO e)), ?w)"
    by (auto simp: run_or_return mt_FindByID_def run_query scanModelTransfer_def mt_scan_error_def split: fault.split option.split)
  have "keeps_transfers ?w (snd (run_state ?m w))"
  proof (cases "fst (run_state (mt_FindByID i) w)")
    case (Inl e)
    then show ?thesis using find assms(3) [of e] by (auto simp: within_def split: prod.splits)
  next
    case (Inr t)
    then have t: "find_row mt_ID i (model_transfers w) = Some t" and run: "run_state ?m w = run_state (k t) ?w"
      using find by (auto split: fault.splits option.splits)
    then have id: "mt_ID t = i" using find_row_SomeD by metis
    show ?thesis
    proof (cases "isTerminal (mt_Status t)")
      case True
      then show ?thesis using assms(2) [OF id] run by (simp add: within_def)
    next
      case False
      then have "only_transfer i ?w (snd (run_state (k t) ?w))" using assms(1) [OF id] by (simp add: within_def)
      then show ?thesis unfolding run by (rule keeps_only) (use t False in auto)
    qed
  qed
  then show "keeps_transfers w (snd (run_state ?m w))" by (simp add: keeps_transfers_def)
qed

lemma keeps_found_return:
  assumes "\<And>t. mt_ID t = i \<Longrightarrow> \<not> isTerminal (mt_Status t) \<Longrightarrow> within (only_transfer i) (k t)"
    and "\<And>t. mt_ID t = i \<Longrightarrow> isTerminal (mt_Status t) \<Longrightarrow> within keeps_transfers (k t)"
  shows "within keeps_transfers (or_return (mt_FindByID i) h k)"
  unfolding or_return_def by (rule keeps_found [OF assms keeps_transfers.within_return])

lemma keeps_created:
  assumes "\<And>t. within (only_transfer (mt_ID t)) (k t)"
  shows "within keeps_transfers (or_return (mt_Create d m s sn q r) h k)"
proof (rule withinI)
  fix w :: world
  obtain res w1 where c: "run_state (mt_Create d m s sn q r) w = (res, w1)" by (metis prod.collapse)
  note C = run_mt_Create [OF c]
  show "keeps_transfers w (snd (run_state (or_return (mt_Create d m s sn q r) h k) w))"
  proof (cases res)
    case (Inl e)
    then show ?thesis using C c by (auto simp: run_or_return keeps_added keeps_transfers.rel_refl intro: keeps_added) (simp_all add: keeps_transfers_def)
  next
    case (Inr t)
    with C have t: "model_transfers w1 = model_transfers w @ [t]" "mt_Status t = TransferQueued" "mt_ID t \<notin> mt_ID ` set (model_transfers w)"
      by (auto simp: queued_transfer_def)
    have "only_transfer (mt_ID t) w1 (snd (run_state (k t) w1))" using assms by (simp add: within_def)
    then have "keeps_transfers w1 (snd (run_state (k t) w1))"
      by (rule keeps_only) (use t find_row_None_iff [of mt_ID "mt_ID t" "model_transfers w"] in \<open>auto simp: find_row_append isTerminal_def\<close>)
    then show ?thesis using keeps_added [OF t(1)] c Inr keeps_transfers.rel_trans by (simp add: run_or_return)
  qed
qed

lemma keeps_same: "(\<And>w. model_transfers (snd (run_state m w)) = model_transfers w) \<Longrightarrow> within keeps_transfers m"
  by (rule withinI) (simp add: keeps_transfers_def)

lemma same_transfers_calls:
  "model_transfers (snd (run_state (Send n env) w)) = model_transfers w"
  "model_transfers (snd (run_state (Record act isSA action otyp obj det) w)) = model_transfers w"
  by (auto simp: run_simps Let_def split: option.split fault.split)

lemma keeps_sends: "within keeps_transfers (Send n env)" "within keeps_transfers (sendCancel n i)" "within keeps_transfers (Connected n)"
proof -
  show s: "within keeps_transfers (Send n env)" for n env by (rule keeps_same) (rule same_transfers_calls)
  show c: "within keeps_transfers (Connected n)" for n unfolding Connected_def by (rule keeps_transfers.within_peek)
  show "within keeps_transfers (sendCancel n i)" unfolding sendCancel_def best_effort_def
    by (intro keeps_transfers.db_within_rules s c)
qed

lemma keeps_store: "within keeps_transfers (canManageModelStore a)" "within keeps_transfers (inv_Get k)" "within keeps_transfers (planPeer d s ov)"
  unfolding canManageModelStore_def po_Get_def inv_Get_def planPeer_def GetNode_def node_FindByID_def ResolveTransferSource_def
    ListInterfaces_def ListByNode_def Let_def
  by (intro keeps_transfers.db_within_rules)+

lemma keeps_Initiate: "within keeps_transfers (InitiateTransfer a p)"
  unfolding InitiateTransfer_def initiatePeer_def
  by (intro keeps_transfers.db_within_rules keeps_store keeps_sends keeps_created only_peer_dispatch only_transfer.db_within_rules
      only_transfer_sends only_transfer_Record)

lemma keeps_Retry: "within keeps_transfers (RetryTransfer a i)"
  unfolding RetryTransfer_def mt_FindByID_def by (intro keeps_transfers.db_within_rules keeps_store keeps_Initiate)

lemma keeps_Cancel: "within keeps_transfers (CancelTransfer a i)"
proof -
  have "within (only_transfer (mt_ID t)) (cancel_found a t)" for t unfolding cancel_found_def
    by (intro only_transfer.db_within_rules only_transfer_writes only_transfer_peers only_recordIncomplete only_transfer_Record)
  moreover have "isTerminal (mt_Status t) \<Longrightarrow> within keeps_transfers (cancel_found a t)" for t
    by (simp add: cancel_found_def keeps_transfers.within_return)
  ultimately have found: "within keeps_transfers (or_return (mt_FindByID i) (\<lambda>e. e) (cancel_found a))"
    by (intro keeps_found_return) auto
  show ?thesis unfolding CancelTransfer_def
    by (rule keeps_transfers.within_or_return [OF keeps_store(1)], rule keeps_transfers.within_if [OF keeps_transfers.within_return found])
qed

lemma keeps_Progress: "within keeps_transfers (HandleTransferProgress n env)"
proof -
  have "within (only_transfer (tg_TransferID g)) (progress_found n g t)" for g t unfolding progress_found_def
    by (intro only_transfer.db_within_rules only_apply_progress only_transfer_peers)
  moreover have "isTerminal (mt_Status t) \<Longrightarrow> within keeps_transfers (progress_found n g t)" for g t
    by (auto simp: progress_found_def intro: keeps_transfers.within_return keeps_sends)
  ultimately have found: "within keeps_transfers (State_Monad.bind (mt_FindByID (tg_TransferID g)) (\<lambda>r. case r of
      Inl _ \<Rightarrow> State_Monad.return () | Inr t \<Rightarrow> progress_found n g t))" for g
    by (intro keeps_found keeps_transfers.within_return) auto
  show ?thesis unfolding HandleTransferProgress_def
    by (rule keeps_transfers.within_if [OF keeps_transfers.within_return], rule keeps_transfers.within_sum [OF keeps_transfers.within_return found])
qed

lemma keeps_Authorize: "within keeps_transfers (HandlePeerAuthorizeResult n env)"
proof -
  have "within (only_transfer (mt_ID t)) (authorize_found n r t)" for r t unfolding authorize_found_def
    by (intro only_transfer.db_within_rules only_failPeer only_start_peer)
  moreover have "isTerminal (mt_Status t) \<Longrightarrow> within keeps_transfers (authorize_found n r t)" for r t
    by (auto simp: authorize_found_def isTerminal_def intro: keeps_transfers.within_return)
  ultimately have found: "within keeps_transfers (State_Monad.bind (mt_FindByID (pr_TransferID r)) (\<lambda>x. case x of
      Inl _ \<Rightarrow> State_Monad.return () | Inr t \<Rightarrow> authorize_found n r t))" for r
    by (intro keeps_found keeps_transfers.within_return) (metis, auto)
  show ?thesis unfolding HandlePeerAuthorizeResult_def
    by (rule keeps_transfers.within_if [OF keeps_transfers.within_return], rule keeps_transfers.within_sum [OF keeps_transfers.within_return found])
qed

text \<open>The ways in which the service is called: by users, and by the connections of the agents.\<close>

datatype transfer_event =
    TvInitiate actor transfer_params
  | TvCancel actor string
  | TvRetry actor string
  | TvProgress string envelope
  | TvAuthorize string envelope

fun transfer_step :: "transfer_event \<Rightarrow> unit io" where
  "transfer_step (TvInitiate a p) = drop_result (InitiateTransfer a p)"
| "transfer_step (TvCancel a i) = drop_result (CancelTransfer a i)"
| "transfer_step (TvRetry a i) = drop_result (RetryTransfer a i)"
| "transfer_step (TvProgress n env) = HandleTransferProgress n env"
| "transfer_step (TvAuthorize n env) = HandlePeerAuthorizeResult n env"

lemma keeps_transfer_step: "within keeps_transfers (transfer_step ev)"
  by (cases ev) (auto simp: drop_result_def intro!: keeps_transfers.within_bind keeps_transfers.within_return
      keeps_Initiate keeps_Cancel keeps_Retry keeps_Progress keeps_Authorize)

text \<open>
  C3. Over any sequence of requests by users and reports by agents, whatever calls fail, a transfer that has
  completed, failed or been cancelled never changes again, and no transfer ever changes its destination, its model,
  its source or who asked for it; none is lost.
\<close>

theorem finished_transfer_is_final:
  assumes "find_row mt_ID i (model_transfers w) = Some t"
  shows "\<exists>t'. find_row mt_ID i (model_transfers (snd (run_state (for_each transfer_step evs) w))) = Some t'
    \<and> transfer_job t' = transfer_job t \<and> (isTerminal (mt_Status t) \<longrightarrow> t' = t)"
proof -
  have "within keeps_transfers (for_each transfer_step evs)"
    by (rule keeps_transfers.within_for_each) (rule keeps_transfer_step)
  then show ?thesis using assms unfolding within_def keeps_transfers_def by blast
qed


definition progress_frame :: "string \<Rightarrow> int \<Rightarrow> int \<Rightarrow> string \<Rightarrow> string \<Rightarrow> envelope" where
  "progress_frame i a b status msg = NewEnvelope TypeTransferProgress [] (JObj
     [(''transfer_id'', JStr i), (''bytes_transferred'', JInt a), (''bytes_total'', JInt b), (''status'', JStr status), (''error_message'', JStr msg)])"

lemma progress_frame_decodes:
  "env_Type (progress_frame i a b status msg) = TypeTransferProgress"
  "in_int64 a \<Longrightarrow> in_int64 b \<Longrightarrow> decode_TransferProgress (progress_frame i a b status msg) =
     Inr \<lparr>tg_TransferID = i, tg_BytesTransferred = a, tg_BytesTotal = b, tg_Status = status, tg_ErrorMessage = msg\<rparr>"
  by (simp_all add: progress_frame_def NewEnvelope_def decode_TransferProgress_def decode_payload_def decode_object_def
      get_string_def get_int_def conv_string_def conv_int_def)

definition old_transfer :: model_transfer where
  "old_transfer = (queued_transfer empty_world ''d1'' ''org/model'' SourceInternet None None None)\<lparr>mt_ID := ''t1'', mt_Status := TransferCancelled\<rparr>"

definition cancelled_world :: world where
  "cancelled_world = empty_world\<lparr>model_transfers := [old_transfer], conns := [(''d1'', 7)]\<rparr>"

theorem finished_transfer_is_final_witness:
  "\<exists>t'. find_row mt_ID ''t1'' (model_transfers (snd (run_state
      (for_each transfer_step [TvProgress ''d1'' (progress_frame ''t1'' 5 10 ''transferring'' []), TvCancel root_actor ''t1'']) cancelled_world))) = Some t'
    \<and> t' = old_transfer"
proof -
  have "find_row mt_ID ''t1'' (model_transfers cancelled_world) = Some old_transfer" by (simp add: cancelled_world_def old_transfer_def)
  moreover have "isTerminal (mt_Status old_transfer)" by (simp add: old_transfer_def isTerminal_def)
  ultimately show ?thesis
    using finished_transfer_is_final [of "''t1''" cancelled_world old_transfer
        "[TvProgress ''d1'' (progress_frame ''t1'' 5 10 ''transferring'' []), TvCancel root_actor ''t1'']"] by simp
qed

section \<open>The consent of the source\<close>

text \<open>The frames that start a pull.\<close>

definition starts :: "world \<Rightarrow> (conn \<times> envelope) list" where
  "starts w = filter (\<lambda>f. env_Type (snd f) = TypeStartPeerTransfer) (sent w)"

definition no_start :: "world \<Rightarrow> world \<Rightarrow> bool" where
  "no_start w w' \<longleftrightarrow> starts w' = starts w \<and> conns w' = conns w"

interpretation no_start: db_step_rel no_start
  by unfold_locales (auto simp: no_start_def starts_def)

lemma no_start_same: "sent w' = sent w \<Longrightarrow> conns w' = conns w \<Longrightarrow> no_start w w'"
  by (simp add: no_start_def starts_def)

lemma no_start_Send: "env_Type env \<noteq> TypeStartPeerTransfer \<Longrightarrow> within no_start (Send n env)"
  unfolding Send_def by (intro no_start.db_within_rules no_start.within_exec) (simp add: no_start_def starts_def)

lemma no_start_Record: "within no_start (Record act isSA action otyp obj det)"
  by (rule withinI) (auto simp: run_simps Let_def no_start_same split: fault.split)

lemma no_start_writes:
  "within no_start (mt_Create d m s sn q r)" "within no_start (mt_UpdateProgress i a b)" "within no_start (mt_SetStatus i st msg)"
  "within no_start (mt_SetFormat i f)" "within no_start (mt_SetSourceInterface i nm)" "within no_start (inv_Upsert k is z v)"
  unfolding mt_Create_def mt_UpdateProgress_def mt_SetStatus_def mt_SetFormat_def mt_SetSourceInterface_def inv_Upsert_def update_transfer_def
  by (intro no_start.db_within_rules no_start.within_exec no_start.within_io_call; simp add: no_start_same Let_def)+

lemma no_start_reads:
  "within no_start (canManageModelStore a)" "within no_start (inv_Get k)" "within no_start (planPeer d s ov)"
  "within no_start (mt_FindByID i)" "within no_start (Connected n)"
  unfolding canManageModelStore_def po_Get_def inv_Get_def planPeer_def GetNode_def node_FindByID_def ResolveTransferSource_def
    ListInterfaces_def ListByNode_def Let_def mt_FindByID_def Connected_def
  by (intro no_start.db_within_rules)+

lemma no_start_peers: "within no_start (sendCancel n i)" "within no_start (revokePeer t)" "within no_start (failPeer t msg)"
proof -
  show "within no_start (sendCancel n i)" unfolding sendCancel_def best_effort_def
    by (intro no_start.db_within_rules no_start_reads no_start_Send) (simp add: NewEnvelope_def TypeCancelTransfer_def TypeStartPeerTransfer_def)
  show r: "within no_start (revokePeer t)" unfolding revokePeer_def best_effort_def
    by (intro no_start.db_within_rules no_start_reads no_start_Send) (simp add: NewEnvelope_def TypeRevokePeerPull_def TypeStartPeerTransfer_def)
  show "within no_start (failPeer t msg)" unfolding failPeer_def by (intro no_start.db_within_rules no_start_writes r)
qed

lemma no_start_recordIncomplete: "within no_start (recordIncomplete t b)"
  unfolding recordIncomplete_def Let_def by (intro no_start.db_within_rules no_start_writes no_start_reads)

lemma no_start_or_fail: "within no_start m \<Longrightarrow> within no_start k \<Longrightarrow> within no_start (or_fail m h t msg k)"
  unfolding or_fail_def by (intro no_start.db_within_rules no_start_peers)

lemma no_start_Initiate: "within no_start (InitiateTransfer a p)"
  unfolding InitiateTransfer_def initiatePeer_def peer_dispatch_def
  by (intro no_start_or_fail no_start.db_within_rules no_start_reads no_start_writes no_start_Record no_start_Send;
      simp add: start_message_def authorize_message_def NewEnvelope_def TypeStartTransfer_def TypeAuthorizePeerPull_def TypeStartPeerTransfer_def)

lemma no_start_others:
  "within no_start (RetryTransfer a i)" "within no_start (CancelTransfer a i)" "within no_start (HandleTransferProgress n env)"
  unfolding RetryTransfer_def CancelTransfer_def cancel_found_def HandleTransferProgress_def progress_found_def apply_progress_def Let_def
  by (intro no_start.db_within_rules no_start_reads no_start_writes no_start_peers no_start_recordIncomplete no_start_Record no_start_Initiate)+

lemma planned_nodes:
  assumes "run_state (planPeer d s ov) w = (Inr plan, w')"
  shows "map_option cred_Node (find_row cred_id s (nodes w)) = Some (pl_source plan)
    \<and> map_option cred_Node (find_row cred_id d (nodes w)) = Some (pl_dest plan) \<and> node_SSHHostPublicKey (pl_source plan) \<noteq> None"
  using assms
  by (auto simp: planPeer_def GetNode_def node_FindByID_def scanNode_def run_simps no_text_def Let_def split: fault.splits option.splits sum.splits if_splits prod.splits)


lemma run_start_peer:
  assumes "starts (snd (run_state (start_peer n t) w)) \<noteq> starts w"
  shows "\<exists>c plan. map_of (conns w) (mt_DestNodeID t) = Some c \<and> mt_Format t \<noteq> None
    \<and> map_option cred_Node (find_row cred_id n (nodes w)) = Some (pl_source plan) \<and> node_SSHHostPublicKey (pl_source plan) \<noteq> None
    \<and> starts (snd (run_state (start_peer n t) w)) = starts w @ [(c, start_peer_message n plan t)]"
proof -
  let ?plan = "planPeer (mt_DestNodeID t) n (case mt_SourceInterface t of None \<Rightarrow> [] | Some i \<Rightarrow> i)"
  obtain r w1 where p: "run_state ?plan w = (r, w1)" by (metis prod.collapse)
  have w1: "starts w1 = starts w" "conns w1 = conns w" using withinD [OF no_start_reads(3) p] by (auto simp: no_start_def)
  have quiet: "starts (snd (run_state (failPeer t msg) v)) = starts v" for msg v
    using no_start_peers(3) [of t msg] by (auto simp: within_def no_start_def)
  have start: "env_Type (start_peer_message n plan t) = TypeStartPeerTransfer" for plan
    by (simp add: start_peer_message_def NewEnvelope_def)
  show ?thesis
  proof (cases r)
    case (Inl e)
    then show ?thesis using assms p w1 quiet by (simp add: start_peer_def)
  next
    case (Inr plan)
    note nodes = planned_nodes [OF p [unfolded Inr]]
    show ?thesis
    proof (cases "map_of (conns w) (mt_DestNodeID t)")
      case None
      then show ?thesis using assms p w1 quiet Inr by (simp add: start_peer_def run_Connected)
    next
      case (Some c)
      moreover have "mt_Format t \<noteq> None" using assms p w1 Inr Some by (cases "mt_Format t") (auto simp: start_peer_def run_Connected)
      ultimately have "starts (snd (run_state (start_peer n t) w)) = starts w \<or>
          starts (snd (run_state (start_peer n t) w)) = starts w @ [(c, start_peer_message n plan t)]"
        using p w1 Inr by (auto simp: start_peer_def run_Connected run_Send Let_def quiet split: fault.split) (simp_all add: starts_def start)
      then show ?thesis using assms nodes Some \<open>mt_Format t \<noteq> None\<close> by auto
    qed
  qed
qed

text \<open>
  C4. A node is only ever told to pull a model from another node in answer to a message of that other node: the
  answer was accepted, it came over the connection of the node recorded as the transfer's source, and the transfer
  was still queued. One frame is sent, to the transfer's destination, and the host key in it is the one recorded
  for the source node.
\<close>

theorem pull_needs_consent:
  assumes "starts (snd (run_state (transfer_step ev) w)) \<noteq> starts w"
  shows "\<exists>n env r t c plan. ev = TvAuthorize n env \<and> decode_PeerAuthorizeResult env = Inr r \<and> pr_Accepted r
    \<and> find_row mt_ID (pr_TransferID r) (model_transfers w) = Some t
    \<and> mt_SourceType t = SourcePeerNode \<and> mt_SourceNodeID t = Some n \<and> mt_Status t = TransferQueued
    \<and> map_option cred_Node (find_row cred_id n (nodes w)) = Some (pl_source plan) \<and> node_SSHHostPublicKey (pl_source plan) \<noteq> None
    \<and> map_of (conns w) (mt_DestNodeID t) = Some c
    \<and> starts (snd (run_state (transfer_step ev) w)) = starts w @ [(c, start_peer_message n plan t)]"
proof -
  have "\<not> within no_start (transfer_step ev)" using assms by (auto simp: within_def no_start_def)
  then obtain n env where ev: "ev = TvAuthorize n env"
    using no_start_Initiate no_start_others
    by (cases ev) (auto simp: drop_result_def no_start.within_bind no_start.within_return)
  note changed = assms [unfolded ev, simplified]
  then obtain r where r: "env_Type env = TypePeerAuthorizeResult" "decode_PeerAuthorizeResult env = Inr r"
    by (auto simp: HandlePeerAuthorizeResult_def split: if_splits sum.splits)
  obtain t where t: "find_row mt_ID (pr_TransferID r) (model_transfers w) = Some t"
    and run: "snd (run_state (HandlePeerAuthorizeResult n env) w) = snd (run_state (authorize_found n r t) (w\<lparr>tick := Suc (tick w)\<rparr>))"
    using changed r
    by (cases "find_row mt_ID (pr_TransferID r) (model_transfers w)"; cases "faults w (tick w)")
      (auto simp: HandlePeerAuthorizeResult_def mt_FindByID_def scanModelTransfer_def run_simps starts_def)
  let ?w = "w\<lparr>tick := Suc (tick w)\<rparr>"
  have found: "starts (snd (run_state (authorize_found n r t) ?w)) \<noteq> starts ?w"
    using changed unfolding run by (simp add: starts_def)
  have no_fail: "starts (snd (run_state (failPeer t msg) v)) = starts v" for msg v
    using no_start_peers(3) [of t msg] by (auto simp: within_def no_start_def)
  have ok: "mt_SourceType t = SourcePeerNode" "mt_SourceNodeID t = Some n" "mt_Status t = TransferQueued" "pr_Accepted r"
    using found no_fail by (auto simp: authorize_found_def split: if_splits)
  then have here: "authorize_found n r t = start_peer n t" by (simp add: authorize_found_def)
  from run_start_peer [OF found [unfolded here]] obtain c plan
    where "map_of (conns w) (mt_DestNodeID t) = Some c" "map_option cred_Node (find_row cred_id n (nodes w)) = Some (pl_source plan)"
      "node_SSHHostPublicKey (pl_source plan) \<noteq> None" "starts (snd (run_state (start_peer n t) ?w)) = starts ?w @ [(c, start_peer_message n plan t)]" by auto
  moreover have "starts ?w = starts w" by (simp add: starts_def)
  ultimately show ?thesis using ev r t ok run here by (intro exI [of _ n] exI [of _ env] exI [of _ r] exI [of _ t]) auto
qed


text \<open>A pull that waits for its source, two connected nodes, and the source's answer.\<close>

definition spark :: "string \<Rightarrow> string \<Rightarrow> node_credential" where
  "spark i ip = \<lparr>cred_Node = (new_node empty_world spark_registration None)\<lparr>node_ID := i, node_IPAddress := ip,
     node_SSHPublicKey := Some ''ssh-ed25519 A'', node_SSHHostPublicKey := Some ''ssh-ed25519 B''\<rparr>, cred_BearerTokenHash = []\<rparr>"

definition waiting_pull :: model_transfer where
  "waiting_pull = (queued_transfer empty_world ''d1'' ''org/model'' SourcePeerNode (Some ''s1'') None None)\<lparr>mt_ID := ''t1'', mt_Format := Some FormatSafetensors\<rparr>"

definition pull_world :: world where
  "pull_world = empty_world\<lparr>model_transfers := [waiting_pull], conns := [(''d1'', 7), (''s1'', 8)],
     nodes := [spark ''d1'' ''10.0.0.1'', spark ''s1'' ''10.0.0.2''],
     node_network_interfaces := [\<lparr>ni_NodeID = ''s1'', ni_InterfaceName = ''eth0'', ni_IPAddress = ''10.0.0.2'', ni_LinkSpeedMbps = None, ni_ReportedAt = 0\<rparr>]\<rparr>"

definition consent :: envelope where
  "consent = NewEnvelope TypePeerAuthorizeResult [] (JObj [(''transfer_id'', JStr ''t1''), (''accepted'', JBool True)])"

lemma consent_decodes: "decode_PeerAuthorizeResult consent = Inr \<lparr>pr_TransferID = ''t1'', pr_Accepted = True, pr_Reason = []\<rparr>"
  by (simp add: consent_def NewEnvelope_def decode_PeerAuthorizeResult_def decode_payload_def decode_object_def
      get_string_def get_bool_def conv_string_def conv_bool_def)

lemma add_d1: "add_ip [] ''10.0.0.1'' \<noteq> []"
proof -
  have "ParseIP ''10.0.0.1'' \<noteq> None" by (simp add: ParseIP_def parse_v4_def parse_octet_def digits_val_def digit_val_def is_digit_def of_char_def)
  then show ?thesis by (auto simp: add_ip_def maxDestIPs_def)
qed

lemma chosen_eth0: "choose_interface [i] [] None = Inr (pick i)"
  by (simp add: choose_interface_def split: option.split)

lemma pull_plan: "\<exists>plan v. run_state (planPeer ''d1'' ''s1'' []) (pull_world\<lparr>tick := 1\<rparr>) = (Inr plan, pull_world\<lparr>tick := v\<rparr>)"
  by (simp add: planPeer_def GetNode_def node_FindByID_def scanNode_def ResolveTransferSource_def ListInterfaces_def ListByNode_def
      chosen_eth0 run_simps pull_world_def empty_world_def spark_def new_node_def cred_id_def no_text_def add_d1 Let_def spark_registration_def)

theorem pull_needs_consent_witness:
  "\<exists>plan. starts (snd (run_state (transfer_step (TvAuthorize ''s1'' consent)) pull_world)) = [(7, start_peer_message ''s1'' plan waiting_pull)]"
proof -
  obtain plan v where plan: "run_state (planPeer ''d1'' ''s1'' []) (pull_world\<lparr>tick := 1\<rparr>) = (Inr plan, pull_world\<lparr>tick := v\<rparr>)"
    using pull_plan by blast
  have find: "run_state (mt_FindByID ''t1'') pull_world = (Inr waiting_pull, pull_world\<lparr>tick := 1\<rparr>)"
    by (simp add: mt_FindByID_def scanModelTransfer_def run_simps pull_world_def waiting_pull_def empty_world_def)
  have fields: "mt_DestNodeID waiting_pull = ''d1''" "mt_SourceInterface waiting_pull = None" "mt_SourceType waiting_pull = SourcePeerNode"
      "mt_SourceNodeID waiting_pull = Some ''s1''" "mt_Status waiting_pull = TransferQueued" "mt_Format waiting_pull = Some FormatSafetensors"
    by (simp_all add: waiting_pull_def queued_transfer_def)
  have "starts (snd (run_state (start_peer ''s1'' waiting_pull) (pull_world\<lparr>tick := 1\<rparr>))) \<noteq> starts pull_world"
    using plan by (simp add: start_peer_def fields run_simps pull_world_def empty_world_def starts_def start_peer_message_def NewEnvelope_def Let_def)
  moreover have "env_Type consent = TypePeerAuthorizeResult" by (simp add: consent_def NewEnvelope_def)
  ultimately have "starts (snd (run_state (transfer_step (TvAuthorize ''s1'' consent)) pull_world)) \<noteq> starts pull_world"
    using find by (simp add: HandlePeerAuthorizeResult_def consent_decodes authorize_found_def fields)
  from pull_needs_consent [OF this] obtain r t c plan
    where "decode_PeerAuthorizeResult consent = Inr r" "find_row mt_ID (pr_TransferID r) (model_transfers pull_world) = Some t"
      "map_of (conns pull_world) (mt_DestNodeID t) = Some c"
      "starts (snd (run_state (transfer_step (TvAuthorize ''s1'' consent)) pull_world)) = starts pull_world @ [(c, start_peer_message ''s1'' plan t)]"
    by auto
  moreover from this have "t = waiting_pull" "c = 7" by (auto simp: consent_decodes pull_world_def waiting_pull_def queued_transfer_def)
  ultimately show ?thesis by (auto simp: pull_world_def starts_def empty_world_def)
qed

section \<open>What a report leaves\<close>

definition usable :: "model_inventory option \<Rightarrow> bool" where
  "usable e \<longleftrightarrow> (\<exists>i. e = Some i \<and> (mi_Status i = InvPresent \<or> mi_Status i = InvStale))"

text \<open>The status and the size of the destination's entry after a report.\<close>

definition entry_after :: "transfer_progress \<Rightarrow> model_inventory option \<Rightarrow> (inventory_status \<times> int) option" where
  "entry_after g old =
     (let st = status_of_string (tg_Status g) in
      if st = TransferCompleted then Some (InvPresent, tg_BytesTotal g)
      else if st = TransferFailed \<and> tg_BytesTransferred g > 0 \<and> \<not> usable old then Some (InvIncomplete, tg_BytesTransferred g)
      else map_option (\<lambda>i. (mi_Status i, mi_SizeBytes i)) old)"

lemma run_inv_Upsert_ok:
  assumes "faults w = (\<lambda>_. NoFault)" "snd (snd (snd k)) = FormatSafetensors \<or> snd (snd (snd k)) = FormatGGUF"
  shows "\<exists>r now. run_state (inv_Upsert k s z v) w = (r, w\<lparr>tick := Suc (tick w), node_model_inventory := upsert_row inv_key (placed now k s z v) (node_model_inventory w)\<rparr>)"
  using assms by (cases k) (auto simp: inv_Upsert_def run_simps Let_def scanNodeModelInventory_def bad_format_def)


definition same_tables :: "world \<Rightarrow> world \<Rightarrow> bool" where
  "same_tables w w' \<longleftrightarrow> model_transfers w' = model_transfers w \<and> node_model_inventory w' = node_model_inventory w \<and> faults w' = faults w"

interpretation same_tables: db_step_rel same_tables
  by unfold_locales (auto simp: same_tables_def)

lemma same_tables_peers: "within same_tables (sendCancel n i)" "within same_tables (revokePeer t)"
proof -
  have s: "within same_tables (Send n env)" for n env unfolding Send_def
    by (intro same_tables.db_within_rules same_tables.within_exec) (simp add: same_tables_def)
  show "within same_tables (sendCancel n i)" "within same_tables (revokePeer t)"
    unfolding sendCancel_def revokePeer_def best_effort_def Connected_def by (intro same_tables.db_within_rules s)+
qed

lemma placed_key [simp]: "inv_key (placed now k s z v) = k" by (cases k) (simp add: placed_def inv_key_def)

text \<open>An entry written, or left as it is: the other entries and the transfers are untouched.\<close>

definition wrote_entry :: "inventory_key \<Rightarrow> (inventory_status \<times> int) option \<Rightarrow> world \<Rightarrow> world \<Rightarrow> bool" where
  "wrote_entry k e w w' \<longleftrightarrow> model_transfers w' = model_transfers w \<and>
     map_option (\<lambda>i. (mi_Status i, mi_SizeBytes i)) (find_row inv_key k (node_model_inventory w')) = e \<and>
     (\<forall>j. j \<noteq> k \<longrightarrow> find_row inv_key j (node_model_inventory w') = find_row inv_key j (node_model_inventory w))"

lemma wrote_Upsert:
  assumes "faults w = (\<lambda>_. NoFault)" "snd (snd (snd k)) = FormatSafetensors \<or> snd (snd (snd k)) = FormatGGUF"
  shows "wrote_entry k (Some (s, z)) w (snd (run_state (inv_Upsert k s z v) w))"
proof -
  obtain r now where "run_state (inv_Upsert k s z v) w =
      (r, w\<lparr>tick := Suc (tick w), node_model_inventory := upsert_row inv_key (placed now k s z v) (node_model_inventory w)\<rparr>)"
    using run_inv_Upsert_ok [OF assms] by blast
  then show ?thesis by (cases k) (auto simp: wrote_entry_def find_upsert placed_def inv_key_def)
qed

lemma wrote_recordIncomplete:
  assumes calm: "faults w = (\<lambda>_. NoFault)" and f: "snd (inventoryKey t) = FormatSafetensors \<or> snd (inventoryKey t) = FormatGGUF"
    and old: "find_row inv_key (transfer_key (mt_DestNodeID t) t) (node_model_inventory w) = old"
  shows "wrote_entry (transfer_key (mt_DestNodeID t) t)
    (if usable old then map_option (\<lambda>i. (mi_Status i, mi_SizeBytes i)) old else Some (InvIncomplete, b)) w (snd (run_state (recordIncomplete t b) w))"
proof -
  let ?k = "transfer_key (mt_DestNodeID t) t"
  have get: "run_state (inv_Get ?k) w = (case old of None \<Rightarrow> Inl ErrNodeModelInventoryNotFound | Some i \<Rightarrow> Inr i, w\<lparr>tick := Suc (tick w)\<rparr>)"
    using calm old f by (auto simp: inv_Get_def run_simps scanNodeModelInventory_def inv_scan_error_def bad_format_def transfer_key_def
        split: option.split)
  have fmt: "snd (snd (snd ?k)) = FormatSafetensors \<or> snd (snd (snd ?k)) = FormatGGUF" using f by (simp add: transfer_key_def)
  have calm': "faults (w\<lparr>tick := Suc (tick w)\<rparr>) = (\<lambda>_. NoFault)" using calm by simp
  note put = wrote_Upsert [OF calm' fmt, of InvIncomplete b "mt_ID t"]
  show ?thesis
  proof (cases "usable old")
    case True
    then show ?thesis using get old by (auto simp: recordIncomplete_def Let_def usable_def wrote_entry_def)
  next
    case False
    then have "snd (run_state (recordIncomplete t b) w) = snd (run_state (inv_Upsert ?k InvIncomplete b (mt_ID t)) (w\<lparr>tick := Suc (tick w)\<rparr>))"
      using get by (cases old) (auto simp: recordIncomplete_def Let_def usable_def split: prod.split)
    then show ?thesis using put False by (simp add: wrote_entry_def)
  qed
qed

text \<open>
  C33. What a transfer report does when no call fails. A report by any node but the transfer's destination changes no
  transfer and no inventory entry. The destination's report on an unfinished transfer sets the bytes, the status and
  the message, and the time of the end for a final status; a completed transfer files the model as present with the
  reported size; a failed one that left data files it as incomplete, but never in place of an entry that is usable;
  every other entry stays as it was.
\<close>

theorem report_effect:
  assumes calm: "faults w = (\<lambda>_. NoFault)" and env: "env_Type env = TypeTransferProgress" "decode_TransferProgress env = Inr g"
    and t: "find_row mt_ID (tg_TransferID g) (model_transfers w) = Some t" "\<not> isTerminal (mt_Status t)"
    and status: "tg_Status g \<in> {''queued'', ''transferring'', ''completed'', ''failed'', ''cancelled''}"
    and fmt: "mt_Format t \<in> {None, Some FormatSafetensors, Some FormatGGUF}"
  shows "n \<noteq> mt_DestNodeID t \<and> same_tables w (snd (run_state (HandleTransferProgress n env) w)) \<or>
    n = mt_DestNodeID t \<and>
    (\<exists>now. find_row mt_ID (tg_TransferID g) (model_transfers (snd (run_state (HandleTransferProgress n env) w))) =
       Some (set_transfer_status now (status_of_string (tg_Status g)) (opt_text (tg_ErrorMessage g))
         (t\<lparr>mt_BytesTransferred := tg_BytesTransferred g, mt_BytesTotal := tg_BytesTotal g\<rparr>))) \<and>
    map_option (\<lambda>i. (mi_Status i, mi_SizeBytes i))
      (find_row inv_key (transfer_key n t) (node_model_inventory (snd (run_state (HandleTransferProgress n env) w)))) =
      entry_after g (find_row inv_key (transfer_key n t) (node_model_inventory w)) \<and>
    (\<forall>j. find_row inv_key j (node_model_inventory (snd (run_state (HandleTransferProgress n env) w))) = find_row inv_key j (node_model_inventory w)
       \<or> j = transfer_key n t)"
proof (cases "n = mt_DestNodeID t")
  case False
  have "run_state (mt_FindByID (tg_TransferID g)) w = (Inr t, w\<lparr>tick := Suc (tick w)\<rparr>)"
    using calm t by (simp add: mt_FindByID_def scanModelTransfer_def run_simps)
  then show ?thesis using False env by (simp add: HandleTransferProgress_def progress_found_def same_tables_def)
next
  case True
  let ?i = "tg_TransferID g" and ?st = "status_of_string (tg_Status g)" and ?w = "w\<lparr>tick := Suc (tick w)\<rparr>" and ?k = "transfer_key n t"
  define t' where "t' = set_transfer_status (clock w (Suc (Suc (Suc (tick w))))) ?st (opt_text (tg_ErrorMessage g))
    (t\<lparr>mt_BytesTransferred := tg_BytesTransferred g, mt_BytesTotal := tg_BytesTotal g\<rparr>)"
  have known: "\<not> (case ?st of TransferOther _ \<Rightarrow> True | _ \<Rightarrow> False)" using status by (auto simp: status_of_string_def)
  have find: "run_state (mt_FindByID ?i) w = (Inr t, ?w)"
    using calm t by (simp add: mt_FindByID_def scanModelTransfer_def run_simps)
  obtain w1 where upd: "run_state (mt_UpdateProgress ?i (tg_BytesTransferred g) (tg_BytesTotal g)) ?w = (Inr (), w1)"
    and w1: "faults w1 = faults w" "node_model_inventory w1 = node_model_inventory w" "tick w1 = Suc (Suc (tick w))" "clock w1 = clock w"
      "find_row mt_ID ?i (model_transfers w1) = Some (t\<lparr>mt_BytesTransferred := tg_BytesTransferred g, mt_BytesTotal := tg_BytesTotal g\<rparr>)"
    using calm t by (simp add: mt_UpdateProgress_def update_transfer_def run_simps pk_table.fnd_upd)
  obtain w2 where set: "run_state (mt_SetStatus ?i ?st (opt_text (tg_ErrorMessage g))) w1 = (Inr (), w2)"
    and w2: "faults w2 = faults w" "node_model_inventory w2 = node_model_inventory w" "find_row mt_ID ?i (model_transfers w2) = Some t'"
    using calm w1 known by (simp add: mt_SetStatus_def update_transfer_def run_simps pk_table.fnd_upd t'_def db_now_def)
  define w3 where "w3 = (if isTerminal ?st then snd (run_state (revokePeer t) w2) else w2)"
  have w3: "faults w3 = faults w" "node_model_inventory w3 = node_model_inventory w" "model_transfers w3 = model_transfers w2"
    using same_tables_peers(2) [of t] w2 by (auto simp: w3_def within_def same_tables_def)
  have f: "snd (inventoryKey t) = FormatSafetensors \<or> snd (inventoryKey t) = FormatGGUF" using fmt by (auto simp: inventoryKey_def Let_def)
  have res: "snd (run_state (HandleTransferProgress n env) w) =
      (if ?st = TransferFailed \<and> tg_BytesTransferred g > 0 then snd (run_state (recordIncomplete t (tg_BytesTransferred g)) w3)
       else if ?st = TransferCompleted then snd (run_state (inv_Upsert ?k InvPresent (tg_BytesTotal g) (mt_ID t)) w3) else w3)"
    using env find upd set True t(2)
    by (auto simp: HandleTransferProgress_def progress_found_def apply_progress_def Let_def w3_def isTerminal_def split: prod.split)
  have calm3: "faults w3 = (\<lambda>_. NoFault)" using calm w3 by simp
  have "snd (snd (snd ?k)) = FormatSafetensors \<or> snd (snd (snd ?k)) = FormatGGUF" using f by (simp add: transfer_key_def)
  note put = wrote_Upsert [OF calm3 this, of InvPresent "tg_BytesTotal g" "mt_ID t"]
  note part = wrote_recordIncomplete [OF calm3 f refl, of "tg_BytesTransferred g"]
  have "wrote_entry ?k (entry_after g (find_row inv_key ?k (node_model_inventory w))) w3 (snd (run_state (HandleTransferProgress n env) w))"
    using put part True w3(2) unfolding res by (auto simp: entry_after_def Let_def wrote_entry_def)
  then show ?thesis using True w2 w3 unfolding wrote_entry_def t'_def by auto
qed


definition running_world :: world where
  "running_world = empty_world\<lparr>model_transfers := [old_transfer\<lparr>mt_Status := TransferTransferring\<rparr>], conns := [(''d1'', 7)]\<rparr>"

theorem report_effect_witness:
  "map_option (\<lambda>i. (mi_Status i, mi_SizeBytes i)) (find_row inv_key (''d1'', ''org/model'', [], FormatSafetensors) (node_model_inventory
     (snd (run_state (HandleTransferProgress ''d1'' (progress_frame ''t1'' 10 10 ''completed'' [])) running_world)))) = Some (InvPresent, 10)"
proof -
  let ?t = "old_transfer\<lparr>mt_Status := TransferTransferring\<rparr>"
    and ?g = "\<lparr>tg_TransferID = ''t1'', tg_BytesTransferred = 10, tg_BytesTotal = 10, tg_Status = ''completed'', tg_ErrorMessage = []\<rparr>"
  have calm: "faults running_world = (\<lambda>_. NoFault)" by (simp add: running_world_def empty_world_def)
  have g: "decode_TransferProgress (progress_frame ''t1'' 10 10 ''completed'' []) = Inr ?g"
    by (rule progress_frame_decodes) (simp_all add: in_int64_def)
  have t: "find_row mt_ID (tg_TransferID ?g) (model_transfers running_world) = Some ?t"
    by (simp add: running_world_def old_transfer_def)
  have "\<not> isTerminal (mt_Status ?t)" "tg_Status ?g \<in> {''queued'', ''transferring'', ''completed'', ''failed'', ''cancelled''}"
    "mt_Format ?t \<in> {None, Some FormatSafetensors, Some FormatGGUF}"
    by (simp_all add: isTerminal_def old_transfer_def queued_transfer_def)
  from report_effect [OF calm progress_frame_decodes(1) g t this, of "''d1''"]
  show ?thesis
    by (simp add: entry_after_def status_of_string_def transfer_key_def inventoryKey_def old_transfer_def queued_transfer_def)
qed

section \<open>Where the guarantees end\<close>

text \<open>
  A report that has been looked up before a cancellation and is written after it overwrites the cancellation: the
  transfer is in the reported status again.
\<close>

theorem cancellation_overwritten:
  assumes calm: "faults w = (\<lambda>_. NoFault)" and t: "find_row mt_ID (tg_TransferID g) (model_transfers w) = Some t" "\<not> isTerminal (mt_Status t)"
    and status: "tg_Status g = ''transferring''" and cancel: "run_state (CancelTransfer a (tg_TransferID g)) w = (Inr (), w')" "faults w' = faults w"
  shows "\<exists>t'. find_row mt_ID (tg_TransferID g) (model_transfers (snd (run_state (apply_progress n g t) w'))) = Some t' \<and> mt_Status t' = TransferTransferring"
proof -
  have "find_row mt_ID (tg_TransferID g) (model_transfers w') \<noteq> None"
    using withinD [OF keeps_Cancel cancel(1)] t by (auto simp: keeps_transfers_def)
  then show ?thesis using calm cancel(2) status
    by (auto simp: apply_progress_def mt_UpdateProgress_def mt_SetStatus_def update_transfer_def run_simps status_of_string_def Let_def
        isTerminal_def pk_table.fnd_upd)
qed

text \<open>
  A dispatch that fails after the row was created leaves the row queued, although the request is answered with an
  error and nothing was asked of the node.
\<close>

theorem lost_dispatch_leaves_queued:
  assumes "faults w (tick w) = NoFault" "faults w (Suc (tick w)) = Lost e" "IsSuperAdmin a" "tp_validate p = Inr ()" "tp_SourceType p = SourceInternet"
    and "map_of (conns w) (tp_DestNodeID p) = Some c" "uuids w (Suc (tick w)) \<notin> mt_ID ` set (model_transfers w)"
  shows "\<exists>err t w'. run_state (InitiateTransfer a p) w = (Inl err, w') \<and> model_transfers w' = model_transfers w @ [t] \<and> mt_Status t = TransferQueued
    \<and> sent w' = sent w"
  using assms
  by (simp add: InitiateTransfer_def canManageModelStore_def CanManageModelStore_def mt_Create_def queued_transfer_def scanModelTransfer_def
      run_simps Let_def db_uuid_def)

section \<open>Connectivity checks\<close>

text \<open>
  A connectivity answer counts once and only from the node that was asked: a message about a check changes that
  check alone, and only when it comes over the connection of the node that was asked and no answer is there yet.
\<close>

lemma check_answer_rule:
  assumes "decode_ConnectivityCheckResult env = Inr r" "env_Type env = TypeConnectivityCheckResult"
  shows "map_of (connectivity_checks (snd (run_state (HandleConnectivityCheckResult n env) w))) i =
    (case map_of (connectivity_checks w) i of
       None \<Rightarrow> None
     | Some c \<Rightarrow> Some (if i = cc_CheckID r \<and> pc_destNodeID c = n \<and> pc_result c = None
         then c\<lparr>pc_result := Some \<lparr>cr_Reachable = cc_Reachable r, cr_LatencyMs = cc_LatencyMs r, cr_Reason = boundedReason (cc_Reason r)\<rparr>\<rparr> else c))"
  using assms by (auto simp: HandleConnectivityCheckResult_def checks_complete_def run_simps update_conv split: option.split)

section \<open>The audit log\<close>

lemma log_grows_plan: "within log_grows (planPeer d s ov)" "within log_grows (canManageModelStore a)"
  unfolding planPeer_def GetNode_def node_FindByID_def ResolveTransferSource_def ListInterfaces_def ListByNode_def Let_def
    canManageModelStore_def po_Get_def
  by (intro log_grows_rules)+

lemma log_grows_peers: "within log_grows (sendCancel n i)" "within log_grows (revokePeer t)" "within log_grows (failPeer t msg)"
  "within log_grows (recordIncomplete t b)"
  unfolding sendCancel_def revokePeer_def failPeer_def best_effort_def recordIncomplete_def Let_def
  by (intro log_grows_rules log_grows_agentconn log_grows_transfers_repo)+

lemma log_grows_transfers:
  "within log_grows (InitiateTransfer a p)" "within log_grows (CancelTransfer a i)" "within log_grows (RetryTransfer a i)"
  "within log_grows (HandleTransferProgress n env)" "within log_grows (HandlePeerAuthorizeResult n env)"
proof -
  show init: "within log_grows (InitiateTransfer a p)" for p
    unfolding InitiateTransfer_def initiatePeer_def peer_dispatch_def or_fail_def
    by (intro log_grows_rules log_grows_plan log_grows_peers log_grows_agentconn log_grows_transfers_repo)
  show "within log_grows (CancelTransfer a i)" "within log_grows (RetryTransfer a i)" "within log_grows (HandleTransferProgress n env)"
    "within log_grows (HandlePeerAuthorizeResult n env)"
    unfolding CancelTransfer_def cancel_found_def RetryTransfer_def HandleTransferProgress_def progress_found_def apply_progress_def
      HandlePeerAuthorizeResult_def authorize_found_def start_peer_def Let_def
    by (intro log_grows_rules init log_grows_plan log_grows_peers log_grows_agentconn log_grows_transfers_repo)+
qed

end
