(* ===== verification/Store_Rules.thy ===== *)
theory Store_Rules
  imports Model_Store "HOL-Library.Sublist" "HOL-Library.Multiset"
begin

text \<open>
  What the scan of a model store lists and what the removal of a copy can touch. Model directories are never nested,
  a listed copy names its own directory, and a removal changes nothing outside of the directory it is for.
\<close>

section \<open>Trees\<close>

text \<open>The names in a directory are distinct, and each is a proper file name.\<close>

fun fs_ok :: "fsnode \<Rightarrow> bool" and entries_ok :: "(string \<times> fsnode) list \<Rightarrow> bool" where
  "fs_ok (Reg k) \<longleftrightarrow> True"
| "fs_ok (Dir r es) \<longleftrightarrow> distinct (map fst es) \<and> entries_ok es"
| "entries_ok [] \<longleftrightarrow> True"
| "entries_ok ((n, c) # es) \<longleftrightarrow> name_ok n \<and> fs_ok c \<and> entries_ok es"

lemma entries_ok_iff: "entries_ok es \<longleftrightarrow> (\<forall>(n, c) \<in> set es. name_ok n \<and> fs_ok c)"
  by (induction es) auto

lemma lookup_append: "lookup t (p @ q) = (case lookup t p of None \<Rightarrow> None | Some u \<Rightarrow> lookup u q)"
  by (induction t p rule: lookup.induct) (auto split: option.split)

lemma lookup_fs_ok: "fs_ok t \<Longrightarrow> lookup t p = Some u \<Longrightarrow> fs_ok u \<and> list_all name_ok p"
proof (induction t p rule: lookup.induct)
  case (2 r es n ns)
  then obtain c where c: "map_of es n = Some c" "lookup c ns = Some u" by (auto split: option.splits)
  have "entries_ok es" using 2(2) by simp
  then have "name_ok n" "fs_ok c" using map_of_SomeD [OF c(1)] by (auto simp: entries_ok_iff)
  then show ?case using 2(1) [OF c(1) _ c(2)] by simp
qed auto

lemma map_of_filter_name: "m \<noteq> n \<Longrightarrow> map_of (filter (\<lambda>e. fst e \<noteq> n) es) m = map_of es m"
  by (induction es) auto

lemma map_of_put: "map_of (map (\<lambda>e. if fst e = n then (fst e, f (snd e)) else e) es) m = (if m = n then map_option f (map_of es m) else map_of es m)"
  by (induction es) auto

text \<open>A change at one path is not seen at a path beside it.\<close>

lemma lookup_put_other: "\<not> prefix p q \<Longrightarrow> \<not> prefix q p \<Longrightarrow> lookup (put_at p x t) q = lookup t q"
proof (induction p x t arbitrary: q rule: put_at.induct)
  case (3 n ns x r es)
  from "3.prems" obtain m ms where q: "q = m # ms" by (cases q) auto
  show ?case
  proof (cases "ns = [] \<and> x = None")
    case True
    then have "m \<noteq> n" using "3.prems" q by auto
    then show ?thesis using True by (simp add: q map_of_filter_name)
  next
    case False
    have "(n, c) \<in> set es \<Longrightarrow> m = n \<Longrightarrow> lookup (put_at ns x c) ms = lookup c ms" for c
      using "3.IH" [OF False, of "(n, c)" ms] "3.prems" q by auto
    then show ?thesis using False by (auto simp: q map_of_put dest!: map_of_SomeD split: option.split)
  qed
qed auto

lemma lookup_remove_parent:
  "lookup (put_at (p @ [n]) None t) p = map_option (put_at [n] None) (lookup t p)"
proof (induction p arbitrary: t)
  case (Cons m p)
  show ?case
  proof (cases t)
    case (Dir r es)
    then show ?thesis using Cons by (auto simp: map_of_put split: option.split)
  qed simp
qed simp

section \<open>What a removal can touch\<close>

lemma contains_Nil: "contains [] n"
  by (cases n) (simp_all add: has_prefix_def)

lemma remove_matching_other:
  "remove_matching stuck p q es k t = (r, t') \<Longrightarrow> (\<And>n. contains q n \<Longrightarrow> \<not> prefix (p @ [n]) x \<and> \<not> prefix x (p @ [n])) \<Longrightarrow>
   lookup t' x = lookup t x"
proof (induction stuck p q es k t rule: remove_matching.induct)
  case (2 stuck p q n c es k t)
  show ?case
  proof (cases "\<not> is_reg c \<or> \<not> contains q n \<or> stuck (p @ [n])")
    case True
    then show ?thesis using 2 by (auto split: if_splits)
  next
    case False
    then have "lookup t' x = lookup (put_at (p @ [n]) None t) x" using 2 by simp
    then show ?thesis using False "2.prems"(2) [of n] by (simp add: lookup_put_other)
  qed
qed simp

lemma remove_matching_dir:
  "remove_matching stuck p q es k t = (r, t') \<Longrightarrow> lookup t p = Some (Dir True ds) \<Longrightarrow> \<exists>ds'. lookup t' p = Some (Dir True ds')"
proof (induction stuck p q es k t arbitrary: ds rule: remove_matching.induct)
  case (2 stuck p q n c es k t)
  show ?case
  proof (cases "\<not> is_reg c \<or> \<not> contains q n \<or> stuck (p @ [n])")
    case True
    then show ?thesis using 2 by (auto split: if_splits)
  next
    case False
    have "lookup (put_at (p @ [n]) None t) p = Some (Dir True (filter (\<lambda>e. fst e \<noteq> n) ds))"
      using "2.prems"(2) by (simp add: lookup_remove_parent)
    then show ?thesis using 2 False by simp
  qed
qed simp

lemma RemoveAll_other: "RemoveAll stuck p t = (b, t') \<Longrightarrow> \<not> prefix p x \<Longrightarrow> \<not> prefix x p \<Longrightarrow> lookup t' x = lookup t x"
  by (auto simp: RemoveAll_def lookup_put_other split: option.splits)

text \<open>Outside of the directory that the reference names nothing changes.\<close>

lemma removeModel_other:
  assumes run: "removeModel stuck root ref q fmt t = (r, t')" and dir: "Resolve root ref = Inr d"
    and np: "\<not> prefix (names_below root d) x" "\<not> prefix x (names_below root d)"
  shows "lookup t' x = lookup t x"
proof -
  let ?p = "names_below root d"
  have side: "\<not> prefix (?p @ [n]) x \<and> \<not> prefix x (?p @ [n])" for n
    using np by (metis append_prefixD prefix_order.dual_order.trans prefix_snoc prefixI)
  have rm: "remove_matching stuck ?p q es 0 t = (s, u) \<Longrightarrow> lookup u x = lookup t x" for es s u
    using remove_matching_other side by blast
  have all: "RemoveAll stuck ?p u = (b, v) \<Longrightarrow> lookup v x = lookup u x" for u b v
    using RemoveAll_other np by blast
  show ?thesis using run dir rm all
    by (auto simp: removeModel_def Let_def split: option.splits if_splits fsnode.splits prod.splits sum.splits)
qed

section \<open>What a scan lists\<close>

definition weights_at :: "fsnode \<Rightarrow> string list \<Rightarrow> bool" where
  "weights_at t p \<longleftrightarrow> (\<exists>es. lookup t p = Some (Dir True es) \<and> hasWeights es)"

text \<open>A directory with weights that is not below another one.\<close>

definition model_dir :: "fsnode \<Rightarrow> string list \<Rightarrow> bool" where
  "model_dir t p \<longleftrightarrow> p \<noteq> [] \<and> weights_at t p \<and> (\<forall>q. q \<noteq> [] \<and> strict_prefix q p \<longrightarrow> \<not> weights_at t q)"

lemma model_dirs_apart: "model_dir t p \<Longrightarrow> model_dir t q \<Longrightarrow> p \<noteq> q \<Longrightarrow> \<not> prefix p q \<and> \<not> prefix q p"
  unfolding model_dir_def by (metis prefix_order.le_neq_trans)

definition gguf_file :: "fsnode \<Rightarrow> string list \<Rightarrow> string \<Rightarrow> bool" where
  "gguf_file t p f \<longleftrightarrow> has_suffix ''.gguf'' f \<and> \<not> hidden f \<and> (\<exists>k. lookup t (p @ [f]) = Some (Reg k))"

text \<open>What stands behind an entry of the listing.\<close>

definition found_at :: "string \<Rightarrow> fsnode \<Rightarrow> string list \<Rightarrow> scanned_model \<Rightarrow> bool" where
  "found_at root t p m \<longleftrightarrow> model_dir t p \<and> sm_ModelRef m = join ''/'' p \<and> validRef root (sm_ModelRef m)
     \<and> (if sm_Format m = ''gguf'' then gguf_file t p (sm_FileName m) else sm_Format m = ''safetensors'' \<and> sm_FileName m = [])"

definition listing_ok :: "string \<Rightarrow> fsnode \<Rightarrow> scanner \<Rightarrow> bool" where
  "listing_ok root t s \<longleftrightarrow> length (sn_out s) \<le> MaxCandidates \<and> (\<forall>m \<in> set (sn_out s). \<exists>p. found_at root t p m)"

lemma add_gguf_firsts: "gg_first ` set (add_gguf n k gs) \<subseteq> insert n (gg_first ` set gs)"
  by (auto simp: add_gguf_def Let_def)

lemma dir_contents_firsts:
  "dir_contents es (b, c, gs) = (b', c', gs') \<Longrightarrow> g \<in> set gs' \<Longrightarrow>
   gg_first g \<in> gg_first ` set gs \<or> (\<exists>k. (gg_first g, Reg k) \<in> set es) \<and> has_suffix ''.gguf'' (gg_first g) \<and> \<not> hidden (gg_first g)"
proof (induction es "(b, c, gs)" arbitrary: b c gs rule: dir_contents.induct)
  case (3 n k es b c gs)
  show ?case
  proof (cases "rsyncTempRe n \<or> hidden n \<or> has_suffix ''.safetensors'' n \<or> \<not> has_suffix ''.gguf'' n")
    case True
    then show ?thesis using 3 by (auto split: if_splits)
  next
    case False
    then have "gg_first g \<in> gg_first ` set (add_gguf n k gs) \<or> (\<exists>k. (gg_first g, Reg k) \<in> set es) \<and> has_suffix ''.gguf'' (gg_first g) \<and> \<not> hidden (gg_first g)"
      using 3 by auto
    then show ?thesis using False add_gguf_firsts [of n k gs] by auto
  qed
qed auto

lemma listing_add:
  assumes "listing_ok root t s" "\<exists>p. found_at root t p m"
  shows "listing_ok root t (unless_full (\<lambda>s. s\<lparr>sn_out := sn_out s @ [m]\<rparr>) s)"
  using assms by (auto simp: listing_ok_def unless_full_def full_def)

lemma add_groups_eq: "add_groups rel inc (g # gs) s =
    (if full s then s\<lparr>sn_truncated := True\<rparr> else add_groups rel inc gs (unless_full (\<lambda>s. s\<lparr>sn_out := sn_out s @
       [\<lparr>sm_ModelRef = rel, sm_Quantization = quantizationFromName (gg_key g), sm_Format = ''gguf'', sm_SizeBytes = gg_size g,
         sm_FileName = gg_first g, sm_PossiblyIncomplete = inc\<rparr>]\<rparr>) s))"
  by (simp add: unless_full_def)

lemma listing_add_groups:
  assumes "model_dir t p" "validRef root (join ''/'' p)" "\<And>g. g \<in> set gs \<Longrightarrow> gguf_file t p (gg_first g)" "listing_ok root t s"
  shows "listing_ok root t (add_groups (join ''/'' p) inc gs s)"
  using assms(3,4)
proof (induction gs arbitrary: s)
  case (Cons g gs)
  have "listing_ok root t (s\<lparr>sn_truncated := True\<rparr>)" using Cons.prems(2) by (simp add: listing_ok_def)
  moreover have "gguf_file t p (gg_first g)" using Cons.prems(1) by simp
  ultimately show ?case using Cons.prems Cons.IH assms(1,2)
    unfolding add_groups_eq by (auto intro!: Cons.IH listing_add exI [of _ p] simp: found_at_def)
qed simp

lemma listing_addModelDir:
  assumes dir: "model_dir t p" "lookup t p = Some (Dir True es)" "fs_ok t" and s: "listing_ok root t s"
  shows "listing_ok root t (addModelDir root (join ''/'' p) es s)"
proof (cases "validRef root (join ''/'' p)")
  case True
  obtain b c gs where contents: "dir_contents es (False, False, []) = (b, c, gs)" by (metis prod_cases3)
  have "gguf_file t p (gg_first g)" if g: "g \<in> set gs" for g
  proof -
    obtain k where k: "(gg_first g, Reg k) \<in> set es" and name: "has_suffix ''.gguf'' (gg_first g)" "\<not> hidden (gg_first g)"
      using dir_contents_firsts [OF contents g] by auto
    have "distinct (map fst es)" using lookup_fs_ok [OF dir(3,2)] by simp
    then show ?thesis using k name dir(2) by (auto simp: gguf_file_def lookup_append)
  qed
  moreover have "listing_ok root t (if b then unless_full (\<lambda>s. s\<lparr>sn_out := sn_out s @
      [\<lparr>sm_ModelRef = join ''/'' p, sm_Quantization = [], sm_Format = ''safetensors'', sm_SizeBytes = wholeRepoSize (Dir True es),
        sm_FileName = [], sm_PossiblyIncomplete = c\<rparr>]\<rparr>) s else s)"
    using s dir True by (auto intro!: listing_add simp: found_at_def)
  ultimately show ?thesis using contents listing_add_groups [OF dir(1) True, of "sort_key gg_key gs"] True
    by (simp add: addModelDir_def)
qed (use s in \<open>simp add: addModelDir_def\<close>)

definition open_path :: "fsnode \<Rightarrow> string list \<Rightarrow> bool" where
  "open_path t p \<longleftrightarrow> (\<forall>q. q \<noteq> [] \<and> strict_prefix q p \<longrightarrow> \<not> weights_at t q)"

lemma walk_lists:
  assumes ok: "fs_ok t"
  shows "lookup t p = Some u \<Longrightarrow> open_path t p \<Longrightarrow> listing_ok root t s \<Longrightarrow> listing_ok root t (walk root p depth u s)"
    and "lookup t p = Some (Dir True es) \<Longrightarrow> set fs \<subseteq> set es \<Longrightarrow> (\<And>n. open_path t (p @ [n])) \<Longrightarrow> listing_ok root t s \<Longrightarrow>
         listing_ok root t (walk_entries root p depth fs s)"
proof (induction root p depth u s and root p depth fs s arbitrary: and es rule: walk_walk_entries.induct)
  case (2 root p depth r es s)
  show ?case
  proof (cases "r \<and> p \<noteq> [] \<and> hasWeights es")
    case True
    then have "model_dir t p" using "2.prems"(1,2) by (auto simp: model_dir_def weights_at_def open_path_def)
    then show ?thesis using True "2.prems" ok listing_addModelDir [of t p es root s] by simp
  next
    case False
    show ?thesis
    proof (cases "r \<and> depth < maxDepth")
      case True
      have "p \<noteq> [] \<Longrightarrow> \<not> weights_at t p" using False True "2.prems"(1) by (simp add: weights_at_def)
      then have "open_path t (p @ [n])" for n
        using "2.prems"(2) unfolding open_path_def by (metis prefix_order.le_neq_trans prefix_order.less_le prefix_snoc)
      then show ?thesis using False True 2 by auto
    qed (use False "2.prems" in auto)
  qed
next
  case (4 root p depth n c fs s)
  have "listing_ok root t (s\<lparr>sn_truncated := True\<rparr>)" using "4.prems" by (simp add: listing_ok_def)
  moreover have "lookup t (p @ [n]) = Some c"
  proof -
    have "distinct (map fst es)" using lookup_fs_ok [OF ok "4.prems"(1)] by simp
    then show ?thesis using "4.prems"(1,2) by (auto simp: lookup_append)
  qed
  ultimately show ?case using 4 by auto
qed auto

lemma Scan_lists:
  assumes "fs_ok t" "Scan root (Some t) = Inr (found, truncated)"
  shows "length found \<le> MaxCandidates" "m \<in> set found \<Longrightarrow> \<exists>p. found_at (Clean root) t p m"
proof -
  obtain es where t: "t = Dir True es" using assms(2) by (cases t) (auto simp: Scan_def Let_def split: if_splits)
  let ?s = "walk (Clean root) [] 0 t \<lparr>sn_out = [], sn_truncated = False\<rparr>"
  have "listing_ok (Clean root) t ?s"
    by (rule walk_lists(1) [OF assms(1)]) (simp_all add: open_path_def listing_ok_def)
  moreover have "mset found = mset (sn_out ?s)" using assms(2) by (auto simp: Scan_def Let_def t)
  ultimately show "length found \<le> MaxCandidates" "m \<in> set found \<Longrightarrow> \<exists>p. found_at (Clean root) t p m"
    by (metis listing_ok_def mset_eq_length, metis listing_ok_def mset_eq_setD)
qed

section \<open>Names and patterns\<close>

text \<open>Below a code point of ASCII there is that character; ASCII text starts afresh.\<close>

lemma decode_rune_ascii: "s \<noteq> [] \<Longrightarrow> decode_rune s = (r, n) \<Longrightarrow> r < 0x80 \<Longrightarrow> r = of_char (hd s) \<and> n = 1"
  by (cases s) (auto simp: decode_rune_def Let_def byte_def cont_def split: if_splits)

lemma runes_of_ascii: "r \<in> set (runes s) \<Longrightarrow> r < 0x80 \<Longrightarrow> \<exists>c \<in> set s. r = of_char c"
proof (induction s rule: runes.induct)
  case (1 s)
  show ?case
  proof (cases "s = []")
    case False
    obtain x n where d: "decode_rune s = (x, n)" by (cases "decode_rune s")
    have "r = x \<or> r \<in> set (runes (drop n s))" using "1.prems"(1) False d by (simp add: runes.simps [of s])
    then show ?thesis using decode_rune_ascii [OF False d] "1.IH" [OF False d [symmetric]] "1.prems"(2) False
      by (metis hd_in_set in_set_dropD)
  qed (use 1 in \<open>simp add: runes.simps\<close>)
qed

lemma decode_rune_append:
  assumes "a \<noteq> []" "byte b 0 < 0x80"
  shows "decode_rune (a @ b) = decode_rune a" "snd (decode_rune a) \<le> length a"
proof -
  have at: "byte (a @ b) i = (if i < length a then byte a i else byte b (i - length a))" for i
    by (auto simp: byte_def nth_append)
  have conts: "cont (a @ b) i = (if i < length a then cont a i else cont b (i - length a))" for i by (simp add: cont_def at)
  have starts: "\<not> cont b 0" "length a \<le> i \<Longrightarrow> \<not> cont a i" for i
    using assms(2) by (simp_all add: cont_def) (simp add: byte_def)
  have "length a = 1 \<or> length a = 2 \<or> length a = 3 \<or> 4 \<le> length a" using assms(1) length_greater_0_conv [of a] by linarith
  then consider "length a = 1" | "length a = 2" | "length a = 3" | "4 \<le> length a" by blast
  then show "decode_rune (a @ b) = decode_rune a"
  proof cases
    case 1
    then show ?thesis by (simp add: decode_rune_def Let_def at conts starts)
  next
    case 2
    then show ?thesis by (simp add: decode_rune_def Let_def at conts starts)
  next
    case 3
    then show ?thesis by (simp add: decode_rune_def Let_def at conts starts numeral_2_eq_2)
  next
    case 4
    then have eq: "byte (a @ b) i = byte a i" "cont (a @ b) i = cont a i" if "i < 4" for i using that by (simp_all add: at conts)
    have "byte (a @ b) 0 = byte a 0" "byte (a @ b) 1 = byte a 1" "byte (a @ b) 2 = byte a 2" "byte (a @ b) 3 = byte a 3"
      "cont (a @ b) 1 = cont a 1" "cont (a @ b) 2 = cont a 2" "cont (a @ b) 3 = cont a 3"
      by (rule eq; simp)+
    then show ?thesis unfolding decode_rune_def by (simp only:)
  qed
  show "snd (decode_rune a) \<le> length a"
  proof -
    have "cont a 1 \<Longrightarrow> 2 \<le> length a" "cont a 2 \<Longrightarrow> 3 \<le> length a" "cont a 3 \<Longrightarrow> 4 \<le> length a" "1 \<le> length a"
      using starts(2) [of 1] starts(2) [of 2] starts(2) [of 3] length_greater_0_conv [of a] assms(1) by linarith+
    then show ?thesis unfolding decode_rune_def Let_def by (simp split: if_split)
  qed
qed

lemma runes_append: "byte b 0 < 0x80 \<Longrightarrow> runes (a @ b) = runes a @ runes b"
proof (induction a rule: runes.induct)
  case (1 a)
  show ?case
  proof (cases "a = []")
    case False
    obtain r n where d: "decode_rune a = (r, n)" by (cases "decode_rune a")
    note app = decode_rune_append [OF False "1.prems"]
    have "runes (drop n a @ b) = runes (drop n a) @ runes b" using "1.IH" [OF False d [symmetric]] "1.prems" by simp
    moreover have "drop n (a @ b) = drop n a @ b" using app(2) d by simp
    ultimately show ?thesis using False d app(1) by (simp add: runes.simps [of a] runes.simps [of "a @ b"])
  qed (simp add: runes.simps [of "[]"])
qed

lemma glob_tokens_plain:
  "list_all (\<lambda>r. r \<noteq> 0x2A \<and> r \<noteq> 0x3F \<and> r \<noteq> 0x5B \<and> r \<noteq> 0x5C) rs \<Longrightarrow> glob_tokens rs = Some (map TLit rs)"
  by (induction rs) auto

lemma glob_tokens_no_meta: "\<not> hasMeta c \<Longrightarrow> glob_tokens (runes c) = Some (map TLit (runes c))"
proof (rule glob_tokens_plain, unfold list_all_iff, intro ballI)
  fix r assume plain: "\<not> hasMeta c" and r: "r \<in> set (runes c)"
  have "r = of_char x \<Longrightarrow> char_of r = x" for x :: char by simp
  moreover have "char_of (0x2A :: int) = CHR ''*''" "char_of (0x3F :: int) = CHR ''?''" "char_of (0x5B :: int) = CHR ''[''" "char_of (0x5C :: int) = CHR 0x5C"
    by code_simp+
  ultimately show "r \<noteq> 0x2A \<and> r \<noteq> 0x3F \<and> r \<noteq> 0x5B \<and> r \<noteq> 0x5C"
    using runes_of_ascii [OF r] plain unfolding hasMeta_def by (smt (verit))
qed

lemma tokens_match_lits: "tokens_match (map TLit xs) xs"
  by (induction xs) auto

lemma tokens_match_star: "0x2F \<notin> set ys \<Longrightarrow> tokens_match ts xs \<Longrightarrow> tokens_match (TStar # ts) (ys @ xs)"
proof (induction ys)
  case Nil
  then show ?case by (cases xs) auto
qed auto

lemma has_suffixE: "has_suffix x s \<Longrightarrow> \<exists>a. s = a @ x"
  unfolding has_suffix_def by (metis append_take_drop_id)

lemma match_gguf: "has_suffix ''.gguf'' f \<Longrightarrow> CHR ''/'' \<notin> set f \<Longrightarrow> path_Match ''*.gguf'' f"
proof -
  assume s: "has_suffix ''.gguf'' f" and slash: "CHR ''/'' \<notin> set f"
  obtain a where f: "f = a @ ''.gguf''" using has_suffixE [OF s] by blast
  have "byte ''.gguf'' 0 < 0x80" by code_simp
  then have r: "runes f = runes a @ runes ''.gguf''" unfolding f by (rule runes_append)
  have "char_of (0x2F :: int) = CHR ''/''" by code_simp
  then have "0x2F \<notin> set (runes a)" using runes_of_ascii [of "0x2F" a] slash by (auto simp: f) (metis char_of_char)
  moreover have "glob_tokens (runes ''*.gguf'') = Some (TStar # map TLit (runes ''.gguf''))" by code_simp
  ultimately show ?thesis by (simp add: path_Match_def r tokens_match_star tokens_match_lits)
qed

lemma glob_below_finds:
  "list_all (\<lambda>c. \<not> hasMeta c) p \<Longrightarrow> lookup t p = Some (Dir True es) \<Longrightarrow> map_of es f = Some x \<Longrightarrow> hasMeta pat \<Longrightarrow> path_Match pat f \<Longrightarrow>
   glob_below (p @ [pat]) t \<noteq> []"
proof (induction p arbitrary: t)
  case Nil
  have "(f, x) \<in> set es" using Nil by (simp add: map_of_SomeD)
  then have "[f] \<in> set (glob_below ([] @ [pat]) t)" using Nil(2,4,5) by (simp add: bexI [of _ "(f, x)"])
  then show ?case by (metis list.set(1) empty_iff)
next
  case (Cons c p)
  then obtain r ds where t: "t = Dir r ds" by (cases t) auto
  obtain y where y: "map_of ds c = Some y" "lookup y p = Some (Dir True es)" using Cons.prems(2) by (auto simp: t split: option.splits)
  then show ?case using Cons by (simp add: t)
qed

lemma Glob_finds_gguf:
  assumes "list_all (\<lambda>c. \<not> hasMeta c) p" "lookup t p = Some (Dir True es)" "map_of es f = Some x" "has_suffix ''.gguf'' f" "CHR ''/'' \<notin> set f"
  shows "Glob (p @ [''*.gguf'']) t \<noteq> []"
proof -
  have "glob_tokens (runes ''*.gguf'') \<noteq> None" by code_simp
  moreover have "hasMeta ''*.gguf''" by code_simp
  ultimately show ?thesis
    using glob_below_finds [OF assms(1-3) _ match_gguf [OF assms(4,5)]] glob_tokens_no_meta assms(1) by (auto simp: Glob_def list_all_iff)
qed

section \<open>The directory of a listed copy\<close>

lemma Clean_Clean: "Clean (Clean p) = Clean p"
  using Clean_same [of "Clean p" p] Clean_elements [of p] by simp

lemma clean_elements_append: "clean_elements rooted es \<Longrightarrow> list_all name_ok fs \<Longrightarrow> clean_elements rooted (es @ fs)"
  by (induction es) (auto simp: clean_elements_names split: if_splits)

definition ref_path :: "scanned_model \<Rightarrow> string list" where
  "ref_path m = split_on (CHR ''/'') (sm_ModelRef m)"

lemma found_at_path:
  assumes "fs_ok t" "found_at (Clean root) t p m"
  shows "ref_path m = p" "\<exists>d. Resolve root (sm_ModelRef m) = Inr d \<and> names_below root d = p"
proof -
  have ref: "sm_ModelRef m = join ''/'' p" and dir: "model_dir t p" and ok: "validRef (Clean root) (sm_ModelRef m)"
    using assms(2) unfolding found_at_def by blast+
  have names: "list_all name_ok p" and ne: "p \<noteq> []"
    using dir lookup_fs_ok [OF assms(1)] by (auto simp: model_dir_def weights_at_def)
  have split: "split_on (CHR ''/'') (join ''/'' p) = p"
    using names ne by (intro split_join_path) (auto simp: list_all_iff name_ok_def)
  then show "ref_path m = p" by (simp add: ref_path_def ref)
  let ?d = "path_Join (Clean root) (sm_ModelRef m)"
  have "elements ?d = foldl (clean_step (IsAbs root)) (elements root) p"
    using elements_Join(2) [OF Clean_nonempty, of root "sm_ModelRef m"] split by (simp add: Clean_elements ref)
  also have "\<dots> = elements root @ p"
    using clean_elements_append [OF elements_clean names] foldl_step_id by blast
  finally have "names_below root ?d = p" by (simp add: names_below_def)
  moreover have "Resolve (Clean root) (sm_ModelRef m) = Resolve root (sm_ModelRef m)" unfolding Resolve_def Clean_Clean ..
  then have "Resolve root (sm_ModelRef m) = Inr ?d" using ok by (simp add: validRef_def)
  ultimately show "\<exists>d. Resolve root (sm_ModelRef m) = Inr d \<and> names_below root d = p" by blast
qed

lemma hasMeta_join: "\<not> hasMeta (join ''/'' p) \<Longrightarrow> list_all (\<lambda>c. \<not> hasMeta c) p"
proof (induction p)
  case (Cons e es)
  then show ?case by (cases "es = []") (auto simp: join_Cons hasMeta_def)
qed simp

text \<open>
  In its own directory the removal of a quantization leaves every name that does not contain it, as long as a gguf
  file with such a name is there and the reference has no character that is special in a pattern.
\<close>

lemma removeModel_sibling:
  assumes ok: "fs_ok t" and run: "removeModel stuck root ref q ''gguf'' t = (r, t')" and dir: "Resolve root ref = Inr d" "names_below root d = p"
    and q: "q \<noteq> []" "q \<noteq> ''UNKNOWN''" and here: "lookup t p = Some (Dir True es)" and f: "gguf_file t p f" "\<not> contains q f"
    and plain: "list_all (\<lambda>c. \<not> hasMeta c) p" and n: "\<not> contains q n"
  shows "lookup t' (p @ [n]) = lookup t (p @ [n])"
proof -
  obtain s u where rm: "remove_matching stuck p q es 0 t = (s, u)" by (metis prod.collapse)
  have keep: "lookup u (p @ [m]) = lookup t (p @ [m])" if "\<not> contains q m" for m
    using that by (intro remove_matching_other [OF rm]) auto
  obtain k where k: "lookup t (p @ [f]) = Some (Reg k)" using f by (auto simp: gguf_file_def)
  obtain ds where ds: "lookup u p = Some (Dir True ds)" using remove_matching_dir [OF rm here] by blast
  have "map_of ds f = Some (Reg k)" using keep [OF f(2)] k ds by (auto simp: lookup_append split: option.splits)
  moreover have "CHR ''/'' \<notin> set f" using lookup_fs_ok [OF ok k] by (simp add: name_ok_def)
  ultimately have "Glob (p @ [''*.gguf'']) u \<noteq> []" using Glob_finds_gguf [OF plain ds] f(1) by (simp add: gguf_file_def)
  then have "t' = u" using run dir q here rm by (auto simp: removeModel_def Let_def split: sum.splits if_splits)
  then show ?thesis using keep [OF n] by simp
qed

end
