(* ===== verification/Inventory_Rules.thy ===== *)
theory Inventory_Rules
  imports Inventory Store_Rules
begin

text \<open>
  The inventory and the agents' stores together: what the server lets in by import can later be deleted on the node
  without touching the other copies of the scan; an answer to a scan is taken once, from a node that was asked, and a
  deletion is only sent for a copy that nothing uses.
\<close>

section \<open>Import and removal\<close>

lemma validScannedModels_subset: "set (validScannedModels ms out) \<subseteq> set ms \<union> set out"
proof (induction ms arbitrary: out)
  case (Cons m ms)
  then show ?case using Cons.IH [of out] Cons.IH [of "out @ [m]"] by auto
qed simp

lemma importBlock_sibling:
  assumes "importBlock models m q = None" "m \<in> set models" "x \<in> set models" "sm_ModelRef x = sm_ModelRef m" "\<not> same_copy x m"
  shows "q \<noteq> []" "q \<noteq> ''UNKNOWN''" "sm_Format m = ''gguf''" "contains q (sm_FileName m)" "sm_Format x = ''gguf'' \<Longrightarrow> \<not> contains q (sm_FileName x)"
proof -
  let ?P = "\<lambda>x. sm_ModelRef x = sm_ModelRef m \<and> sm_Format x = ''gguf'' \<and> contains q (sm_FileName x)"
  have "x \<in> set (filter (\<lambda>x. sm_ModelRef x = sm_ModelRef m \<and> \<not> same_copy x m) models)" using assms by simp
  then have "0 < length (filter (\<lambda>x. sm_ModelRef x = sm_ModelRef m \<and> \<not> same_copy x m) models)" by (metis empty_iff length_greater_0_conv list.set(1))
  then have q: "q \<noteq> [] \<and> q \<noteq> ''UNKNOWN'' \<and> sm_Format m = ''gguf'' \<and> contains q (sm_FileName m) \<and> length (filter ?P models) = 1"
    using assms(1) by (auto simp: importBlock_def Let_def split: if_splits)
  then show "q \<noteq> []" "q \<noteq> ''UNKNOWN''" "sm_Format m = ''gguf''" "contains q (sm_FileName m)" by simp_all
  show "\<not> contains q (sm_FileName x)" if "sm_Format x = ''gguf''"
  proof
    assume "contains q (sm_FileName x)"
    then have "{m, x} \<subseteq> set (filter ?P models)" using q assms that by simp
    moreover obtain y where "filter ?P models = [y]" using q unfolding One_nat_def length_Suc_conv by auto
    ultimately have "m = x" by (metis insert_subset list.set(1,2) singletonD)
    then show False using assms(5) by (simp add: same_copy_def)
  qed
qed

lemma unblocked_removal:
  assumes store: "fs_ok t" "Scan root (Some t) = Inr (found, truncated)" and models: "set models \<subseteq> set found"
    and m: "m \<in> set models" "importBlock models m q = None" and run: "removeModel stuck root (sm_ModelRef m) q (sm_Format m) t = (r, t')"
    and x: "x \<in> set models"
  shows "sm_ModelRef x \<noteq> sm_ModelRef m \<Longrightarrow> lookup t' (ref_path x) = lookup t (ref_path x)"
    and "sm_ModelRef x = sm_ModelRef m \<Longrightarrow> \<not> same_copy x m \<Longrightarrow> sm_Format x = ''gguf'' \<Longrightarrow> \<not> hasMeta (sm_ModelRef m) \<Longrightarrow>
         lookup t' (ref_path x @ [sm_FileName x]) = lookup t (ref_path x @ [sm_FileName x])"
proof -
  obtain p y where p: "found_at (Clean root) t p m" and y: "found_at (Clean root) t y x"
    using Scan_lists(2) [OF store] models m(1) x by blast
  note P = found_at_path [OF store(1) p] and Y = found_at_path [OF store(1) y]
  obtain d where d: "Resolve root (sm_ModelRef m) = Inr d" "names_below root d = p" using P(2) by blast
  have dirs: "model_dir t p" "model_dir t y" "sm_ModelRef m = join ''/'' p" "sm_ModelRef x = join ''/'' y" using p y by (simp_all add: found_at_def)
  show "lookup t' (ref_path x) = lookup t (ref_path x)" if "sm_ModelRef x \<noteq> sm_ModelRef m"
  proof -
    have "\<not> prefix p y \<and> \<not> prefix y p" using model_dirs_apart [OF dirs(1,2)] that dirs(3,4) by metis
    then show ?thesis using removeModel_other [OF run d(1)] d(2) Y(1) by simp
  qed
  show "lookup t' (ref_path x @ [sm_FileName x]) = lookup t (ref_path x @ [sm_FileName x])"
    if same: "sm_ModelRef x = sm_ModelRef m" and apart: "\<not> same_copy x m" and gguf: "sm_Format x = ''gguf''" and plain: "\<not> hasMeta (sm_ModelRef m)"
  proof -
    note S = importBlock_sibling [OF m(2,1) x same apart]
    have py: "y = p" using P(1) Y(1) same by (simp add: ref_path_def)
    obtain es where es: "lookup t p = Some (Dir True es)" using dirs(1) by (auto simp: model_dir_def weights_at_def)
    have f: "gguf_file t p (sm_FileName x)" using y gguf py by (simp add: found_at_def)
    have "lookup t' (p @ [sm_FileName x]) = lookup t (p @ [sm_FileName x])"
      using removeModel_sibling [OF store(1) run [unfolded S(3)] d S(1,2) es f S(5) [OF gguf] _ S(5) [OF gguf]] hasMeta_join plain dirs(3) by metis
    then show ?thesis using Y(1) py by simp
  qed
qed

section \<open>Open scans\<close>

definition from_models :: "scanned_model list \<Rightarrow> scan_candidate \<Rightarrow> bool" where
  "from_models ms c \<longleftrightarrow> (\<exists>m \<in> set ms. sd_ModelRef c = sm_ModelRef m \<and> sd_Quantization c = sm_Quantization m
     \<and> sd_Format c = format_of_string (sm_Format m) \<and> sd_SizeBytes c = sm_SizeBytes m \<and> sd_FileName c = sm_FileName m)"

definition node_scan_ok :: "node_scan_state \<Rightarrow> bool" where
  "node_scan_ok ns \<longleftrightarrow> length (nss_models ns) \<le> 500 \<and> list_all validScannedModel (nss_models ns)
     \<and> list_all (from_models (nss_models ns)) (nss_candidates ns)"

definition scan_ok :: "scan_state \<Rightarrow> bool" where
  "scan_ok sc \<longleftrightarrow> length (scs_nodes sc) \<le> 50 \<and> list_all (\<lambda>(n, ns). node_scan_ok ns) (scs_nodes sc)"

definition scans_ok :: "world \<Rightarrow> bool" where
  "scans_ok w \<longleftrightarrow> length (model_scans w) \<le> 100 \<and> list_all (\<lambda>(i, sc). scan_ok sc) (model_scans w)"

lemma update_entries: "set (AList.update k v xs) \<subseteq> insert (k, v) (set xs)"
  by (induction xs) auto

lemma update_all: "list_all P xs \<Longrightarrow> P (k, v) \<Longrightarrow> list_all P (AList.update k v xs)"
  using update_entries [of k v xs] by (auto simp: list_all_iff)

lemma update_length: "length (AList.update k v xs) \<le> Suc (length xs)" "map_of xs k = Some u \<Longrightarrow> length (AList.update k v xs) = length xs"
  by (induction xs) (auto split: if_splits)

lemma scans_ok_found: "scans_ok w \<Longrightarrow> map_of (model_scans w) i = Some sc \<Longrightarrow> scan_ok sc"
  by (auto simp: scans_ok_def list_all_iff dest!: map_of_SomeD)

lemma scan_ok_found: "scan_ok sc \<Longrightarrow> map_of (scs_nodes sc) n = Some ns \<Longrightarrow> node_scan_ok ns"
  by (auto simp: scan_ok_def list_all_iff dest!: map_of_SomeD)

lemma scans_ok_update:
  "scans_ok w \<Longrightarrow> map_of (model_scans w) i = Some sc \<Longrightarrow> scan_ok sc' \<Longrightarrow> scans_ok (w\<lparr>model_scans := AList.update i sc' (model_scans w)\<rparr>)"
  by (auto simp: scans_ok_def update_length intro!: update_all)

lemma scan_ok_update:
  "scan_ok sc \<Longrightarrow> map_of (scs_nodes sc) n = Some ns \<Longrightarrow> node_scan_ok ns' \<Longrightarrow> scan_ok (sc\<lparr>scs_nodes := AList.update n ns' (scs_nodes sc)\<rparr>)"
  by (auto simp: scan_ok_def update_length intro!: update_all)

section \<open>Requests and answers\<close>

datatype inventory_event =
    InvDelete actor inventory_key
  | InvDeleteState inventory_key
  | InvStartScan actor "string list"
  | InvScanResult actor string
  | InvImport actor string "import_item list"
  | InvDeleted string envelope
  | InvScanned string envelope

fun inventory_step :: "inventory_event \<Rightarrow> unit io" where
  "inventory_step (InvDelete a k) = State_Monad.bind (inventory_Delete a k) (\<lambda>_. State_Monad.return ())"
| "inventory_step (InvDeleteState k) = State_Monad.bind (DeleteState k) (\<lambda>_. State_Monad.return ())"
| "inventory_step (InvStartScan a ns) = State_Monad.bind (StartScan a ns) (\<lambda>_. State_Monad.return ())"
| "inventory_step (InvScanResult a i) = State_Monad.bind (ScanResult a i) (\<lambda>_. State_Monad.return ())"
| "inventory_step (InvImport a i items) = State_Monad.bind (Import a i items) (\<lambda>_. State_Monad.return ())"
| "inventory_step (InvDeleted n env) = HandleDeleteModelResult n env"
| "inventory_step (InvScanned n env) = HandleScanModelsResult n env"

lemma validScannedModels_ok:
  "list_all validScannedModel out \<Longrightarrow> length out \<le> maxScanModels \<Longrightarrow>
   list_all validScannedModel (validScannedModels ms out) \<and> length (validScannedModels ms out) \<le> maxScanModels"
  by (induction ms arbitrary: out) auto

lemma drop_first_all: "list_all P xs \<Longrightarrow> list_all P (drop_first p xs)"
  by (induction xs) auto

text \<open>
  The service touches the frames sent, the inventory, its deletions and scans and the audit log. A relation that does
  not look at these, apart from what the open scans have to satisfy, holds of all its operations.
\<close>

locale inventory_rel = db_step_rel R for R +
  assumes rest: "w' = w\<lparr>sent := sent w', node_model_inventory := node_model_inventory w', model_deletes := model_deletes w'\<rparr> \<Longrightarrow> R w w'"
    and recorded: "within R (Record act isSA action otyp obj det)"
    and scan_kept: "(scans_ok w \<Longrightarrow> scans_ok (w\<lparr>model_scans := s\<rparr>)) \<Longrightarrow> R w (w\<lparr>model_scans := s\<rparr>)"
begin

lemma within_finishNode:
  assumes "\<And>ns. node_scan_ok ns \<Longrightarrow> node_scan_ok (update ns)"
  shows "within R (finishNode i n update)"
  unfolding finishNode_def
proof (rule within_poke)
  fix w
  show "R w (case map_of (model_scans w) i of None \<Rightarrow> w
      | Some sc \<Rightarrow> w\<lparr>model_scans := AList.update i (finish_node n update sc) (model_scans w)\<rparr>)"
  proof (cases "map_of (model_scans w) i")
    case (Some sc)
    have "scan_ok (finish_node n update sc)" if "scan_ok sc"
      using that assms scan_ok_found [OF that] scan_ok_update [OF that] by (auto simp: finish_node_def split: option.split)
    then have "scans_ok w \<Longrightarrow> scans_ok (w\<lparr>model_scans := AList.update i (finish_node n update sc) (model_scans w)\<rparr>)"
      using Some scans_ok_found scans_ok_update by blast
    then show ?thesis using Some scan_kept by simp
  qed (simp add: rel_refl)
qed

lemma within_HandleScan: "within R (HandleScanModelsResult n env)"
proof -
  have answer: "node_scan_ok (ns\<lparr>nss_status := st, nss_truncated := tr, nss_known := k, nss_models := ms,
      nss_candidates := map (candidate_of n entries ms) (filter unknown ms)\<rparr>)"
    if "ms = validScannedModels rs []" for ns st tr k ms entries unknown rs
    using validScannedModels_ok [of "[]" rs] that
    by (auto simp: node_scan_ok_def maxScanModels_def from_models_def candidate_of_def list_all_iff)
  have "node_scan_ok (ns\<lparr>nss_status := st, nss_err := e\<rparr>) = node_scan_ok ns" for ns st e
    by (simp add: node_scan_ok_def)
  then show ?thesis
    unfolding HandleScanModelsResult_def scanWaitingOn_def inv_List_def Let_def
    by (intro db_within_rules within_finishNode) (auto intro: answer)
qed

lemma within_prune: "within R pruneScansLocked"
  unfolding pruneScansLocked_def
  by (intro db_within_rules within_poke scan_kept) (auto simp: scans_ok_def list_all_iff intro: order_trans [OF length_filter_le])

lemma within_Send: "within R (Send n env)"
  unfolding Send_def by (intro db_within_rules within_exec rest) simp

lemma within_Connected: "within R (Connected n)"
  unfolding Connected_def by (intro db_within_rules)

lemma within_ask: "within R (ask_scan i n)"
  unfolding ask_scan_def
  by (intro db_within_rules within_finishNode within_Send within_Connected) (simp_all add: node_scan_ok_def)

lemma within_new_scan:
  assumes "length ids \<le> maxScanNodes"
  shows "within R
    (State_Monad.bind (peek (\<lambda>w. length (model_scans w) \<ge> maxLiveScans)) (\<lambda>many.
       if many then fail ErrTooManyScans
       else State_Monad.bind
         (poke (\<lambda>w. w\<lparr>model_scans := AList.update i \<lparr>scs_at = now, scs_order = ids, scs_nodes = map (\<lambda>i. (i, pending_node)) ids\<rparr> (model_scans w)\<rparr>))
         (\<lambda>_. State_Monad.bind (for_each (ask_scan i) ids) (\<lambda>_. ok i))))" (is "within _ ?prog")
proof -
  let ?new = "\<lambda>w. w\<lparr>model_scans := AList.update i \<lparr>scs_at = now, scs_order = ids, scs_nodes = map (\<lambda>i. (i, pending_node)) ids\<rparr> (model_scans w)\<rparr>"
  have "R w (?new w)" if "length (model_scans w) < maxLiveScans" for w
  proof -
    have "length (AList.update i v (model_scans w)) \<le> 100" for v
      using that update_length(1) [of i v "model_scans w"] by (simp add: maxLiveScans_def)
    moreover have "scan_ok \<lparr>scs_at = now, scs_order = ids, scs_nodes = map (\<lambda>i. (i, pending_node)) ids\<rparr>"
      using assms by (simp add: scan_ok_def node_scan_ok_def pending_node_def maxScanNodes_def list_all_iff)
    ultimately show ?thesis by (intro scan_kept) (simp add: scans_ok_def update_all)
  qed
  moreover have rest: "within R (State_Monad.bind (for_each (ask_scan i) ids) (\<lambda>_. ok i))"
    by (intro db_within_rules within_ask)
  ultimately have run: "R w (snd (run_state (State_Monad.bind (for_each (ask_scan i) ids) (\<lambda>_. ok i)) (?new w)))"
    if "length (model_scans w) < maxLiveScans" for w
    using that rel_trans unfolding within_def by blast
  show ?thesis
  proof (rule withinI)
    fix w
    show "R w (snd (run_state ?prog w))"
    proof (cases "length (model_scans w) < maxLiveScans")
      case True
      then show ?thesis using run [OF True] by (simp add: run_peek run_poke)
    next
      case False
      then show ?thesis by (simp add: run_peek rel_refl)
    qed
  qed
qed

lemma within_StartScan: "within R (StartScan a raws)"
proof -
  have "within R newScanID" unfolding newScanID_def by (intro db_within_rules)
  then show ?thesis
    unfolding StartScan_def
    by (auto split: sum.split intro!: within_return within_or_return within_new_scan
        within_bind [OF within_time_now] within_bind [OF within_prune])
qed

lemma within_dropCandidate: "within R (dropCandidate i n c)"
  unfolding dropCandidate_def
proof (rule within_poke)
  fix w
  have ok: "node_scan_ok (drop_candidate c ns)" if "node_scan_ok ns" for ns
    using that by (simp add: drop_candidate_def node_scan_ok_def Let_def drop_first_all)
  show "R w (case map_of (model_scans w) i of None \<Rightarrow> w
      | Some sc \<Rightarrow> (case map_of (scs_nodes sc) n of None \<Rightarrow> w
          | Some ns \<Rightarrow> w\<lparr>model_scans := AList.update i (sc\<lparr>scs_nodes := AList.update n (drop_candidate c ns) (scs_nodes sc)\<rparr>) (model_scans w)\<rparr>))"
  proof (cases "map_of (model_scans w) i")
    case (Some sc)
    show ?thesis
    proof (cases "map_of (scs_nodes sc) n")
      case ns: (Some ns)
      have "scans_ok (w\<lparr>model_scans := AList.update i (sc\<lparr>scs_nodes := AList.update n (drop_candidate c ns) (scs_nodes sc)\<rparr>) (model_scans w)\<rparr>)"
        if "scans_ok w"
        using scans_ok_found [OF that Some] scan_ok_found [OF _ ns] scan_ok_update [OF _ ns ok] scans_ok_update [OF that Some] by blast
      then show ?thesis using Some ns scan_kept by simp
    qed (use Some in \<open>simp add: rel_refl\<close>)
  qed (simp add: rel_refl)
qed

lemma within_rows: "within R (inv_Get k)" "within R (inv_Upsert k st z v)" "within R (inv_SetStatus k st)"
  unfolding inv_Get_def inv_Upsert_def inv_SetStatus_def
  by (intro db_within_rules within_exec within_io_call rest; simp add: Let_def)+

lemma within_importOne: "within R (importOne a i item)"
proof -
  have "within R (findScanned i it)" for it
    unfolding findScanned_def by (intro db_within_rules)
  moreover have "within R (import_found a i n q c)" for n q c
    unfolding import_found_def Let_def by (intro db_within_rules within_rows within_dropCandidate recorded)
  ultimately show ?thesis unfolding importOne_def Let_def by (intro db_within_rules)
qed

lemma within_Import: "within R (Import a i items)"
proof -
  have "within R (import_items a i items k fs)" for k fs
    by (induction items arbitrary: k fs) (auto intro!: db_within_rules within_importOne)
  then show ?thesis unfolding Import_def by (intro db_within_rules)
qed

lemma within_deletes:
  "within R (DeleteState k)" "within R (inventory_Delete a k)" "within R (HandleDeleteModelResult n env)"
proof -
  have st: "within R (setDeleteState s d)" "within R (clearDeleteState s)" for s d
    unfolding setDeleteState_def clearDeleteState_def by (intro within_poke rest; simp)+
  show ds: "within R (DeleteState k)" for k
    unfolding DeleteState_def by (intro db_within_rules within_poke rest) simp
  have "within R (canManageModelStore a)"
    unfolding canManageModelStore_def po_Get_def by (intro db_within_rules)
  then show "within R (inventory_Delete a k)"
    unfolding inventory_Delete_def prof_List_def
    by (intro db_within_rules within_rows within_Send within_Connected recorded st ds)
  show "within R (HandleDeleteModelResult n env)"
    unfolding HandleDeleteModelResult_def Let_def by (intro db_within_rules within_rows st)
qed

lemma within_step: "within R (inventory_step ev)"
proof -
  have "within R (ScanResult a i)" for a i
    unfolding ScanResult_def Let_def by (intro db_within_rules within_prune)
  then show ?thesis
    by (cases ev) (auto intro!: within_bind within_return within_deletes within_StartScan within_Import within_HandleScan)
qed

end

definition keeps_scans :: "world \<Rightarrow> world \<Rightarrow> bool" where
  "keeps_scans w w' \<longleftrightarrow> (scans_ok w \<longrightarrow> scans_ok w')"

interpretation keeps_scans: inventory_rel keeps_scans
proof
  fix w w' :: world
  show "keeps_scans w w'" if eq: "w' = w\<lparr>sent := sent w', node_model_inventory := node_model_inventory w', model_deletes := model_deletes w'\<rparr>"
    using arg_cong [OF eq, of model_scans] by (simp add: keeps_scans_def scans_ok_def)
  show "within keeps_scans (Record act isSA action otyp obj det)" for act isSA action otyp obj det
    by (rule withinI) (simp add: run_Record Let_def keeps_scans_def scans_ok_def split: fault.split)
qed (auto simp: keeps_scans_def scans_ok_def)

interpretation log_inventory: inventory_rel log_grows
proof
  fix w w' :: world
  show "log_grows w w'" if eq: "w' = w\<lparr>sent := sent w', node_model_inventory := node_model_inventory w', model_deletes := model_deletes w'\<rparr>"
    using arg_cong [OF eq, of audit_log] by (simp add: log_grows_same)
qed (auto simp: log_grows_Record log_grows_same)

text \<open>
  C35. Whatever users ask and nodes answer, in whatever order, what the server keeps of open scans stays bounded and
  sound: at most 100 scans of at most 50 nodes, at most 500 copies per node, every copy well-formed (a relative
  reference without empty, \<^verbatim>\<open>.\<close> or \<^verbatim>\<open>..\<close> elements, a known format), and every candidate that can
  be imported one of the copies that its own node reported.
\<close>

theorem open_scans_sound:
  "scans_ok w \<Longrightarrow> scans_ok (snd (run_state (for_each inventory_step evs) w))"
proof -
  have "within keeps_scans (for_each inventory_step evs)" by (rule keeps_scans.within_for_each) (rule keeps_scans.within_step)
  then show "scans_ok w \<Longrightarrow> scans_ok (snd (run_state (for_each inventory_step evs) w))"
    by (simp add: within_def keeps_scans_def)
qed

theorem open_scans_sound_witness:
  "scans_ok empty_world \<and> scans_ok (snd (run_state (for_each inventory_step [InvScanned ''n'' (NewEnvelope TypeScanModelsResult [] JNull)]) empty_world))"
  using open_scans_sound [of empty_world "[InvScanned ''n'' (NewEnvelope TypeScanModelsResult [] JNull)]"]
  by (simp add: scans_ok_def empty_world_def)

definition slot :: "world \<Rightarrow> string \<Rightarrow> string \<Rightarrow> node_scan_state option" where
  "slot w i n = (case map_of (model_scans w) i of None \<Rightarrow> None | Some sc \<Rightarrow> map_of (scs_nodes sc) n)"

lemma slot_finish:
  "slot (w\<lparr>model_scans := AList.update i (finish_node n f sc) (model_scans w)\<rparr>) j m =
     (if map_of (model_scans w) i = Some sc \<and> j = i \<and> m = n \<and> map_option nss_status (slot w i n) = Some InvScanPending
      then map_option f (slot w i n)
      else if j = i then map_of (scs_nodes sc) m else slot w j m)"
  if "map_of (model_scans w) i = Some sc"
  using that by (auto simp: slot_def finish_node_def update_conv split: option.split)

text \<open>What one call of \<^verbatim>\<open>finishNode\<close> can change.\<close>

definition answered :: "string \<Rightarrow> world \<Rightarrow> world \<Rightarrow> bool" where
  "answered n w w' \<longleftrightarrow> (\<forall>j m. slot w' j m = slot w j m
     \<or> m = n \<and> map_option nss_status (slot w j m) = Some InvScanPending \<and> (\<exists>ns'. slot w' j m = Some ns' \<and> nss_status ns' \<noteq> InvScanPending))
   \<and> w' = w\<lparr>tick := tick w', model_scans := model_scans w'\<rparr>"

lemma answered_finishNode:
  assumes "\<And>ns. nss_status (f ns) \<noteq> InvScanPending"
  shows "answered n w (snd (run_state (finishNode i n f) w))"
proof (cases "map_of (model_scans w) i")
  case None
  then show ?thesis by (simp add: answered_def finishNode_def run_poke)
next
  case (Some sc)
  have same: "slot w i m = map_of (scs_nodes sc) m" for m by (simp add: slot_def Some)
  show ?thesis unfolding finishNode_def run_poke answered_def using assms
    by (auto simp: Some slot_finish [OF Some] same)
qed

lemma answered_tick: "answered n (w\<lparr>tick := k\<rparr>) w' \<Longrightarrow> answered n w w'"
  by (auto simp: answered_def slot_def)

lemma answered_refl: "answered n w (w\<lparr>tick := k\<rparr>)" "answered n w w"
  by (auto simp: answered_def slot_def)

text \<open>
  C36. An answer to a scan changes at most the slot of the node whose connection it came over, only while that slot is
  pending, and ends the wait for it; so a node can answer once per scan and never in another node's place. Nothing
  else of the server's state changes.
\<close>

theorem scan_answer_taken_once:
  "\<exists>w'. run_state (HandleScanModelsResult n env) w = ((), w') \<and> w' = w\<lparr>tick := tick w', model_scans := model_scans w'\<rparr>
     \<and> (slot w' j m = slot w j m
        \<or> m = n \<and> map_option nss_status (slot w j m) = Some InvScanPending
          \<and> (\<exists>ns'. slot w' j m = Some ns' \<and> nss_status ns' \<noteq> InvScanPending))"
proof -
  have "answered n w (snd (run_state (HandleScanModelsResult n env) w))"
    by (auto simp: HandleScanModelsResult_def scanWaitingOn_def inv_List_def Let_def run_simps answered_refl
        intro: answered_finishNode answered_finishNode [THEN answered_tick] answered_finishNode [THEN answered_tick, THEN answered_tick]
        split: sum.split option.split fault.split if_split)
  moreover obtain w' where "run_state (HandleScanModelsResult n env) w = ((), w')" by (metis old.unit.exhaust prod.collapse)
  ultimately show ?thesis unfolding answered_def by (metis snd_conv)
qed

section \<open>Imported copies\<close>

definition chosen :: "import_item \<Rightarrow> string" where
  "chosen item = (if ii_AsQuantization item \<noteq> [] then ii_AsQuantization item else ii_Quantization item)"

definition item_node :: "import_item \<Rightarrow> string" where
  "item_node item = ToLower (TrimSpace (ii_NodeID item))"

definition item_key :: "import_item \<Rightarrow> inventory_key" where
  "item_key item = (item_node item, ii_ModelRef item, chosen item, ii_Format item)"

lemma upsert_row_present: "key r \<in> key ` set (upsert_row key r t)"
  by (force simp: upsert_row_def update_row_def update_rows_def)

lemma import_found_inserts:
  assumes "run_state (import_found a i n q c) w = (Inr (), w')"
  shows "(n, sd_ModelRef c, q, sd_Format c) \<in> inv_key ` set (node_model_inventory w')"
proof -
  let ?k = "(n, sd_ModelRef c, q, sd_Format c)"
  have "inv_key (placed now ?k st z v) = ?k" for now st z v by (simp add: inv_key_def placed_def)
  then have "?k \<in> inv_key ` set (upsert_row inv_key (placed now ?k st z v) t)" for now st z v t
    using upsert_row_present [of inv_key] by metis
  then show ?thesis using assms
    by (auto simp: import_found_def inv_Get_def inv_Upsert_def dropCandidate_def Let_def run_simps
        split: sum.splits option.splits fault.splits if_splits prod.splits)
qed

lemma importOne_success:
  assumes "run_state (importOne a i item) w = (Inr (), w')"
  shows "\<exists>sc ns c. map_of (model_scans w) i = Some sc \<and> map_of (scs_nodes sc) (item_node item) = Some ns \<and> nss_status ns = InvScanDone
    \<and> c \<in> set (nss_candidates ns) \<and> is_candidate (ii_ModelRef item) (ii_Quantization item) (ii_Format item) c
    \<and> importBlock (nss_models ns) (scanned_of (nss_models ns) c) (chosen item) = None
    \<and> item_key item \<in> inv_key ` set (node_model_inventory w')"
proof -
  let ?it = "item\<lparr>ii_NodeID := ToLower (TrimSpace (ii_NodeID item))\<rparr>"
  obtain r w1 where f: "run_state (findScanned i ?it) w = (r, w1)" by (metis prod.collapse)
  obtain c ms where r: "r = Inr (c, ms)" using assms f by (cases r) (auto simp: importOne_def Let_def run_or_return)
  obtain sc ns where sc: "map_of (model_scans w) i = Some sc" "map_of (scs_nodes sc) (item_node item) = Some ns" "nss_status ns = InvScanDone"
    "ms = nss_models ns" "find (is_candidate (ii_ModelRef item) (ii_Quantization item) (ii_Format item)) (nss_candidates ns) = Some c"
    using f r by (auto simp: findScanned_def item_node_def run_simps split: option.splits if_splits)
  have c: "c \<in> set (nss_candidates ns)" "is_candidate (ii_ModelRef item) (ii_Quantization item) (ii_Format item) c"
    using sc(5) by (auto simp: find_Some_iff)
  then have q: "sd_Quantization c = ii_Quantization item" "sd_ModelRef c = ii_ModelRef item" "sd_Format c = ii_Format item"
    by (simp_all add: is_candidate_def)
  have "importBlock ms (scanned_of ms c) (chosen item) = None
      \<and> run_state (import_found a i (item_node item) (chosen item) c) w1 = (Inr (), w')"
    using assms f r q by (auto simp: importOne_def Let_def run_or_return chosen_def item_node_def split: if_splits option.splits)
  then show ?thesis using sc c q import_found_inserts [of a i "item_node item" "chosen item" c w1 w'] by (auto simp: item_key_def)
qed

lemma format_valid: "validScannedModel m \<Longrightarrow> format_string (format_of_string (sm_Format m)) = sm_Format m"
  by (auto simp: validScannedModel_def format_of_string_def format_string_def split: if_splits)

lemma scanned_of_found:
  assumes "node_scan_ok ns" "c \<in> set (nss_candidates ns)"
  shows "scanned_of (nss_models ns) c \<in> set (nss_models ns)"
    and "sm_ModelRef (scanned_of (nss_models ns) c) = sd_ModelRef c" "sm_Format (scanned_of (nss_models ns) c) = format_string (sd_Format c)"
proof -
  obtain m where m: "m \<in> set (nss_models ns)" "sd_ModelRef c = sm_ModelRef m" "sd_Quantization c = sm_Quantization m"
      "sd_Format c = format_of_string (sm_Format m)" "sd_FileName c = sm_FileName m"
    using assms by (auto simp: node_scan_ok_def from_models_def list_all_iff)
  have "validScannedModel m" using assms(1) m(1) by (auto simp: node_scan_ok_def list_all_iff)
  then have "format_string (sd_Format c) = sm_Format m" using format_valid m(4) by simp
  then have "find (\<lambda>m. sm_ModelRef m = sd_ModelRef c \<and> sm_Format m = format_string (sd_Format c) \<and> sm_FileName m = sd_FileName c \<and>
        sm_Quantization m = sd_Quantization c) (nss_models ns) \<noteq> None"
    using m by (simp add: find_None_iff) metis
  then obtain m' where f: "find (\<lambda>m. sm_ModelRef m = sd_ModelRef c \<and> sm_Format m = format_string (sd_Format c) \<and> sm_FileName m = sd_FileName c \<and>
        sm_Quantization m = sd_Quantization c) (nss_models ns) = Some m'" by blast
  then have "scanned_of (nss_models ns) c = m'" by (simp add: scanned_of_def)
  then show "scanned_of (nss_models ns) c \<in> set (nss_models ns)"
    "sm_ModelRef (scanned_of (nss_models ns) c) = sd_ModelRef c" "sm_Format (scanned_of (nss_models ns) c) = format_string (sd_Format c)"
    using f by (auto simp: find_Some_iff)
qed

text \<open>What is left of another copy of the listing: its directory, or its first file where it shares the directory.\<close>

definition copy_kept :: "fsnode \<Rightarrow> fsnode \<Rightarrow> scanned_model \<Rightarrow> scanned_model \<Rightarrow> bool" where
  "copy_kept t t' m x \<longleftrightarrow>
     (if sm_ModelRef x \<noteq> sm_ModelRef m then lookup t' (ref_path x) = lookup t (ref_path x)
      else if same_copy x m \<or> sm_Format x \<noteq> ''gguf'' \<or> hasMeta (sm_ModelRef m) then True
      else lookup t' (ref_path x @ [sm_FileName x]) = lookup t (ref_path x @ [sm_FileName x]))"


text \<open>Two quantizations in one directory.\<close>

definition two_quants :: fsnode where
  "two_quants = Dir True [(''org'', Dir True [(''m'', Dir True [(''a-Q4_K_M.gguf'', Reg 5), (''a-Q8_0.gguf'', Reg 9)])])]"

definition quant_model :: "string \<Rightarrow> string \<Rightarrow> int \<Rightarrow> scanned_model" where
  "quant_model q f k = \<lparr>sm_ModelRef = ''org/m'', sm_Quantization = q, sm_Format = ''gguf'', sm_SizeBytes = k, sm_FileName = f, sm_PossiblyIncomplete = False\<rparr>"

definition quant_models :: "scanned_model list" where
  "quant_models = [quant_model ''Q4_K_M'' ''a-Q4_K_M.gguf'' 5, quant_model ''Q8_0'' ''a-Q8_0.gguf'' 9]"

definition quant_item :: import_item where
  "quant_item = \<lparr>ii_NodeID = uuid_of 1, ii_ModelRef = ''org/m'', ii_Quantization = ''Q4_K_M'', ii_Format = FormatGGUF, ii_AsQuantization = []\<rparr>"

definition quant_node :: node_scan_state where
  "quant_node = \<lparr>nss_status = InvScanDone, nss_err = [], nss_truncated = False, nss_known = 0, nss_models = quant_models,
     nss_candidates = map (candidate_of (uuid_of 1) [] quant_models) quant_models\<rparr>"

definition quant_world :: world where
  "quant_world = empty_world\<lparr>model_scans := [(''s'', \<lparr>scs_at = clock empty_world 0, scs_order = [uuid_of 1], scs_nodes = [(uuid_of 1, quant_node)]\<rparr>)]\<rparr>"

lemma quant_names:
  "quantizationFromName ''a-Q4_K_M'' = ''Q4_K_M''" "quantizationFromName ''a-Q8_0'' = ''Q8_0''"
  "gguf_key ''a-Q4_K_M.gguf'' = ''a-Q4_K_M''" "gguf_key ''a-Q8_0.gguf'' = ''a-Q8_0''"
  "Clean ''/models'' = ''/models''" "validRef ''/models'' ''org/m''"
  by code_simp+

lemma quant_files:
  "\<not> hidden ''org''" "\<not> hidden ''m''" "\<not> hidden ''a-Q4_K_M.gguf''" "\<not> hidden ''a-Q8_0.gguf''" "\<not> rsyncTempRe ''a-Q4_K_M.gguf''"
  "\<not> rsyncTempRe ''a-Q8_0.gguf''" "has_suffix ''.gguf'' ''a-Q4_K_M.gguf''" "has_suffix ''.gguf'' ''a-Q8_0.gguf''"
  "\<not> has_suffix ''.safetensors'' ''a-Q4_K_M.gguf''" "\<not> has_suffix ''.safetensors'' ''a-Q8_0.gguf''"
  by code_simp+

lemma scan_two_quants: "Scan ''/models'' (Some two_quants) = Inr (quant_models, False)"
  by (simp add: Scan_def two_quants_def quant_models_def quant_model_def Let_def quant_names quant_files hasWeights_def weights_def is_reg_def full_def
      MaxCandidates_def maxDepth_def addModelDir_def add_gguf_def unless_full_def)

lemma valid_quant_models: "validScannedModels quant_models [] = quant_models"
  by code_simp

lemma quant_block: "importBlock quant_models (quant_model ''Q4_K_M'' ''a-Q4_K_M.gguf'' 5) ''Q4_K_M'' = None"
  by code_simp

lemma quant_item_node: "item_node quant_item = uuid_of 1"
  by code_simp

lemma remove_quant:
  "removeModel (\<lambda>_. False) ''/models'' ''org/m'' ''Q4_K_M'' ''gguf'' two_quants =
     (Inr (), Dir True [(''org'', Dir True [(''m'', Dir True [(''a-Q8_0.gguf'', Reg 9)])])])"
  by code_simp

definition quant_candidate :: scan_candidate where
  "quant_candidate = candidate_of (uuid_of 1) [] quant_models (quant_model ''Q4_K_M'' ''a-Q4_K_M.gguf'' 5)"

lemma quant_fields:
  "sd_ModelRef quant_candidate = ''org/m''" "sd_Quantization quant_candidate = ''Q4_K_M''" "sd_Format quant_candidate = FormatGGUF"
  "sd_FileName quant_candidate = ''a-Q4_K_M.gguf''"
  by (simp_all add: quant_candidate_def candidate_of_def quant_model_def format_of_string_def)

lemma quant_found:
  "run_state (findScanned ''s'' (quant_item\<lparr>ii_NodeID := uuid_of 1\<rparr>)) quant_world = (Inr (quant_candidate, quant_models), quant_world\<lparr>tick := 1\<rparr>)"
proof -
  have "is_candidate ''org/m'' ''Q4_K_M'' FormatGGUF quant_candidate" by (simp add: is_candidate_def quant_fields)
  moreover have "nss_candidates quant_node = [quant_candidate, candidate_of (uuid_of 1) [] quant_models (quant_model ''Q8_0'' ''a-Q8_0.gguf'' 9)]"
    by (simp add: quant_node_def quant_candidate_def quant_models_def)
  ultimately show ?thesis
    by (simp add: findScanned_def quant_world_def quant_item_def run_simps Sub_def empty_world_def scanTTL_def quant_node_def)
qed

lemma quant_import: "\<exists>w'. run_state (importOne root_actor ''s'' quant_item) quant_world = (Inr (), w')"
proof -
  have "scanned_of quant_models quant_candidate = quant_model ''Q4_K_M'' ''a-Q4_K_M.gguf'' 5"
    by (simp add: scanned_of_def quant_fields quant_models_def quant_model_def format_string_def)
  moreover have "ii_AsQuantization quant_item = []" by (simp add: quant_item_def)
  moreover have "\<exists>w'. run_state (import_found root_actor ''s'' (uuid_of 1) ''Q4_K_M'' quant_candidate) (quant_world\<lparr>tick := 1\<rparr>) = (Inr (), w')"
    by (simp add: import_found_def Let_def inv_Get_def inv_Upsert_def run_simps quant_world_def empty_world_def bad_format_def quant_fields
        scanNodeModelInventory_def inv_scan_error_def dropCandidate_def)
  ultimately show ?thesis
    using quant_found quant_item_node quant_block
    by (simp add: importOne_def Let_def item_node_def run_or_return quant_fields)
qed

lemma quant_world_ok: "scans_ok quant_world"
proof -
  have "list_all validScannedModel quant_models" using validScannedModels_ok [of "[]" quant_models] unfolding valid_quant_models by simp
  moreover have "length quant_models \<le> 500" by (simp add: quant_models_def)
  moreover have "from_models quant_models (candidate_of (uuid_of 1) [] quant_models m)" if "m \<in> set quant_models" for m
    using that by (auto simp: from_models_def candidate_of_def)
  ultimately show ?thesis
    by (simp add: scans_ok_def scan_ok_def node_scan_ok_def quant_world_def quant_node_def list_all_iff)
qed


section \<open>Where a removal takes more\<close>

text \<open>
  A gguf file beside safetensors: the import is not refused, because only gguf files are counted, and deleting the copy
  removes the whole directory, the safetensors copy included.
\<close>

definition mixed_store :: fsnode where
  "mixed_store = Dir True [(''org'', Dir True [(''m'', Dir True [(''a-Q4_K_M.gguf'', Reg 5), (''w.safetensors'', Reg 9)])])]"

definition beside :: scanned_model where
  "beside = \<lparr>sm_ModelRef = ''org/m'', sm_Quantization = [], sm_Format = ''safetensors'', sm_SizeBytes = 9, sm_FileName = [], sm_PossiblyIncomplete = False\<rparr>"

lemma delete_takes_safetensors:
  "importBlock [quant_model ''Q4_K_M'' ''a-Q4_K_M.gguf'' 5, beside] (quant_model ''Q4_K_M'' ''a-Q4_K_M.gguf'' 5) ''Q4_K_M'' = None"
  "removeModel (\<lambda>_. False) ''/models'' ''org/m'' ''Q4_K_M'' ''gguf'' mixed_store = (Inr (), Dir True [(''org'', Dir True [])])"
  by code_simp+

text \<open>A bracket in the reference makes the pattern match nothing, so deleting one quantization removes its sibling.\<close>

definition bracket_store :: fsnode where
  "bracket_store = Dir True [(''org'', Dir True [(''m[1]'', Dir True [(''a-Q4_K_M.gguf'', Reg 5), (''a-Q8_0.gguf'', Reg 9)])])]"

lemma bracket_takes_sibling:
  "removeModel (\<lambda>_. False) ''/models'' ''org/m[1]'' ''Q4_K_M'' ''gguf'' bracket_store = (Inr (), Dir True [(''org'', Dir True [])])"
  by code_simp

section \<open>Deleting\<close>

definition delete_view :: "world \<Rightarrow> world \<Rightarrow> bool" where
  "delete_view w w' \<longleftrightarrow> sent w' = sent w \<and> conns w' = conns w \<and> model_profiles w' = model_profiles w \<and> node_model_inventory w' = node_model_inventory w"

interpretation delete_view: db_step_rel delete_view
  by unfold_locales (auto simp: delete_view_def)

lemma delete_view_reads: "within delete_view (canManageModelStore a)" "within delete_view (DeleteState k)"
  "within delete_view (setDeleteState s d)" "within delete_view (Record act b c e f g)"
proof -
  show "within delete_view (canManageModelStore a)"
    unfolding canManageModelStore_def po_Get_def by (intro delete_view.db_within_rules)
  show "within delete_view (DeleteState k)"
    unfolding DeleteState_def by (intro delete_view.db_within_rules delete_view.within_poke) (simp add: delete_view_def)
  show "within delete_view (setDeleteState s d)"
    unfolding setDeleteState_def by (intro delete_view.within_poke) (simp add: delete_view_def)
  show "within delete_view (Record act b c e f g)"
    by (rule withinI) (simp add: run_Record Let_def delete_view_def split: fault.split)
qed

lemma find_none_uses: "find (uses_entry k) (sort_key prof_Name ps) = None \<Longrightarrow> p \<in> set ps \<Longrightarrow> \<not> uses_entry k p"
  by (auto simp: find_None_iff)

text \<open>The end of \<^verbatim>\<open>Delete\<close>, once every check has passed.\<close>

definition delete_tail :: "actor \<Rightarrow> inventory_key \<Rightarrow> unit res io" where
  "delete_tail a k = State_Monad.bind time_now (\<lambda>now.
      State_Monad.bind (setDeleteState (deleteKey k) \<lparr>ds_at = now, ds_failed = False, ds_reason = []\<rparr>) (\<lambda>_.
      or_return (Record (actor_id a) (IsSuperAdmin a) ''deleted_model_copy'' ''node'' (fst k)
        (Some [(''model_ref'', JStr (fst (snd k))), (''quantization'', JStr (fst (snd (snd k)))), (''format'', JStr (format_string (snd (snd (snd k)))))]))
        (Wrap ''record audit'') (\<lambda>_. ok ())))"

definition delete_dispatch :: "actor \<Rightarrow> inventory_key \<Rightarrow> unit res io" where
  "delete_dispatch a k = or_return (Send (fst k) (delete_message k)) (Wrap (''dispatch delete_model to node '' @ fst k)) (\<lambda>_. delete_tail a k)"

lemma dispatch_sends:
  assumes "run_state (delete_dispatch a k) u = (r, w')"
  shows "sent w' = sent u \<or> (\<exists>c. map_of (conns u) (fst k) = Some c \<and> sent w' = sent u @ [(c, delete_message k)])"
proof -
  obtain x v where x: "run_state (Send (fst k) (delete_message k)) u = (x, v)" by (metis prod.collapse)
  have tail: "within delete_view (delete_tail a k)" unfolding delete_tail_def by (intro delete_view.db_within_rules delete_view_reads)
  have "sent w' = sent v" using assms x withinD [OF tail] by (cases x) (auto simp: delete_dispatch_def run_or_return delete_view_def)
  then show ?thesis using x by (auto simp: run_Send Let_def split: option.splits fault.splits)
qed

text \<open>
  C34. A deletion is sent to a node only for a copy that the inventory lists there and has not marked removed, that no
  model profile for that node refers to, and over the node's own connection; the request for it is the only frame.
\<close>

theorem deletion_sent_only_unused:
  assumes "run_state (inventory_Delete a k) w = (r, w')"
  shows "sent w' = sent w
    \<or> list_all (\<lambda>p. \<not> uses_entry k p) (model_profiles w)
      \<and> (\<exists>e. find_row inv_key k (node_model_inventory w) = Some e \<and> mi_Status e \<noteq> InvRemoved)
      \<and> (\<exists>c. map_of (conns w) (fst k) = Some c \<and> sent w' = sent w @ [(c, delete_message k)])"
proof -
  obtain p w1 where p: "run_state (canManageModelStore a) w = (p, w1)" by (metis prod.collapse)
  obtain e w2 where e: "run_state (inv_Get k) w1 = (e, w2)" by (metis prod.collapse)
  obtain st d w3 where st: "run_state (DeleteState k) w2 = ((st, d), w3)" by (metis prod.collapse)
  obtain ps w4 where ps: "run_state prof_List w3 = (ps, w4)" by (metis prod.collapse)
  have v1: "delete_view w w1" using withinD [OF delete_view_reads(1) p] .
  have v2: "delete_view w1 w2" using e by (auto simp: inv_Get_def run_simps delete_view_def split: sum.splits fault.splits if_splits)
  have v3: "delete_view w2 w3" using withinD [OF delete_view_reads(2) st] .
  have v4: "delete_view w3 w4" using ps by (auto simp: prof_List_def run_simps delete_view_def split: sum.splits fault.splits)
  have views: "delete_view w w1" "delete_view w w2" "delete_view w w3" "delete_view w w4" using v1 v2 v3 v4 delete_view.rel_trans by blast+
  show ?thesis
  proof (cases "\<exists>entry profiles. p = Inr True \<and> e = Inr entry \<and> mi_Status entry \<noteq> InvRemoved \<and> st \<noteq> DeleteRemoving \<and> ps = Inr profiles
      \<and> find (uses_entry k) profiles = None \<and> map_of (conns w4) (fst k) \<noteq> None")
    case True
    then obtain entry profiles where t: "p = Inr True" "e = Inr entry" "mi_Status entry \<noteq> InvRemoved" "st \<noteq> DeleteRemoving" "ps = Inr profiles"
      "find (uses_entry k) profiles = None" "map_of (conns w4) (fst k) \<noteq> None" by blast
    have run: "run_state (delete_dispatch a k) w4 = (r, w')"
      using assms p e st ps t
      by (cases k) (auto simp: inventory_Delete_def run_or_return run_Connected delete_dispatch_def delete_tail_def)
    have "sent w' = sent w \<or> (\<exists>c. map_of (conns w) (fst k) = Some c \<and> sent w' = sent w @ [(c, delete_message k)])"
      using dispatch_sends [OF run] views(4) by (auto simp: delete_view_def)
    moreover have "list_all (\<lambda>p. \<not> uses_entry k p) (model_profiles w)"
      using ps t(5,6) views(3) find_none_uses [of k] by (auto simp: prof_List_def run_simps delete_view_def list_all_iff split: fault.splits)
    moreover have "find_row inv_key k (node_model_inventory w) = Some entry"
      using e t(2) views(1) by (auto simp: inv_Get_def run_simps delete_view_def scanNodeModelInventory_def split: fault.splits if_splits option.splits)
    ultimately show ?thesis using t(3) by blast
  next
    case False
    then have "w' \<in> {w1, w2, w3, w4}"
      using assms p e st ps
      by (cases k) (auto simp: inventory_Delete_def run_or_return run_Connected split: sum.splits if_splits option.splits)
    then show ?thesis using views by (auto simp: delete_view_def)
  qed
qed

definition held_copy :: inventory_key where
  "held_copy = (uuid_of 1, ''org/m'', ''Q4_K_M'', FormatGGUF)"

definition held_world :: world where
  "held_world = empty_world\<lparr>node_model_inventory := [placed 0 held_copy InvPresent 5 []], conns := [(uuid_of 1, 7)]\<rparr>"

theorem deletion_sent_only_unused_witness:
  "\<exists>r w'. run_state (inventory_Delete root_actor held_copy) held_world = (r, w') \<and> sent w' = [(7, delete_message held_copy)]
     \<and> list_all (\<lambda>p. \<not> uses_entry held_copy p) (model_profiles held_world)"
proof -
  obtain r w' where run: "run_state (inventory_Delete root_actor held_copy) held_world = (r, w')" by (metis prod.collapse)
  have key: "inv_key (placed 0 held_copy InvPresent 5 []) = held_copy" by (simp add: inv_key_def placed_def held_copy_def)
  have "sent w' = [(7, delete_message held_copy)]"
  proof -
    let ?e = "placed 0 held_copy InvPresent 5 []"
    have steps: "run_state (canManageModelStore root_actor) held_world = (Inr True, held_world)"
      "run_state (inv_Get held_copy) held_world = (Inr ?e, held_world\<lparr>tick := 1\<rparr>)"
      "run_state (DeleteState held_copy) (held_world\<lparr>tick := 1\<rparr>) = ((DeleteNone, []), held_world\<lparr>tick := 1\<rparr>)"
      "run_state prof_List (held_world\<lparr>tick := 1\<rparr>) = (Inr [], held_world\<lparr>tick := 2\<rparr>)"
      by (simp add: canManageModelStore_def root_actor_def CanManageModelStore_def held_world_def)
        (simp_all add: inv_Get_def DeleteState_def prof_List_def run_simps held_world_def empty_world_def key bad_format_def
          scanNodeModelInventory_def, simp_all add: held_copy_def)
    have "mi_Status ?e = InvPresent" by (simp add: placed_def held_copy_def)
    moreover have up: "map_of (conns held_world) (uuid_of 1) = Some 7" by (simp add: held_world_def)
    ultimately have disp: "run_state (delete_dispatch root_actor held_copy) (held_world\<lparr>tick := 2\<rparr>) = (r, w')"
      using run steps unfolding inventory_Delete_def
      by (simp add: held_copy_def run_or_return run_Connected delete_dispatch_def delete_tail_def)
    have "fst held_copy = uuid_of 1" by (simp add: held_copy_def)
    then have "run_state (Send (fst held_copy) (delete_message held_copy)) (held_world\<lparr>tick := 2\<rparr>) =
        (Inr (), held_world\<lparr>tick := 3, sent := [(7, delete_message held_copy)]\<rparr>)"
      using up by (simp add: run_Send Let_def) (simp add: held_world_def empty_world_def)
    moreover have "within delete_view (delete_tail root_actor held_copy)"
      unfolding delete_tail_def by (intro delete_view.db_within_rules delete_view_reads)
    ultimately show ?thesis using disp withinD by (fastforce simp: delete_dispatch_def run_or_return delete_view_def)
  qed
  then show ?thesis using deletion_sent_only_unused [OF run] run by (simp add: held_world_def empty_world_def)
qed

end
