(* ===== verification/Groups_Repo.thy ===== *)
theory Groups_Repo
  imports Users Alerts_Repo Gotime
begin

text \<open>
  The tables of application groups (internal/db/app_groups.go): the groups, the directory groups mapped to them, their
  manual members, and the cache of who is in which mapped directory group. One definition per statement, with the
  constraints of the schema that the code reacts to. Columns that no statement reads (who added a member, when a cached
  membership was checked) are left out. \<open>lower\<close> is \<^verbatim>\<open>lower()\<close> of the database and
  \<^verbatim>\<open>strings.ToLower\<close> on ASCII text.
\<close>

section \<open>Groups\<close>

abbreviation ErrCheckViolation :: error where "ErrCheckViolation \<equiv> Sentinel ''pgconn'' ''violates check constraint''"

definition isForeignKeyViolation :: "error \<Rightarrow> bool" where
  "isForeignKeyViolation e = errors_is e ErrForeignKey"

definition lower_name :: "app_group \<Rightarrow> string" where
  "lower_name g = lower (ag_Name g)"

definition name_length_ok :: "string \<Rightarrow> bool" where
  "name_length_ok name \<longleftrightarrow> 1 \<le> RuneCountInString name \<and> RuneCountInString name \<le> 64"

definition new_group :: "world \<Rightarrow> string \<Rightarrow> string option \<Rightarrow> app_group" where
  "new_group w name createdBy =
     \<lparr>ag_ID = db_uuid w, ag_Name = name, ag_CreatedBy = createdBy, ag_CreatedAt = db_now w, ag_UpdatedBy = createdBy, ag_UpdatedAt = db_now w\<rparr>"

definition insert_group :: "app_group \<Rightarrow> world \<Rightarrow> app_group res \<times> world" where
  "insert_group g w =
     (if \<not> name_length_ok (ag_Name g) then (Inl ErrCheckViolation, w)
      else if ag_ID g \<in> ag_ID ` set (app_groups w) \<or> lower_name g \<in> lower_name ` set (app_groups w) then (Inl ErrUniqueViolation, w)
      else (Inr g, w\<lparr>app_groups := app_groups w @ [g]\<rparr>))"

definition group_Create :: "string \<Rightarrow> string option \<Rightarrow> app_group res io" where
  "group_Create name createdBy =
     or_return (io_call (\<lambda>w. insert_group (new_group w name createdBy) w))
       (\<lambda>e. if isUniqueViolation e then ErrAppGroupNameTaken else Wrap ''create application group'' e) ok"

definition scanAppGroup :: "app_group option \<Rightarrow> app_group res" where
  "scanAppGroup row = (case row of None \<Rightarrow> Inl ErrAppGroupNotFound | Some g \<Rightarrow> Inr g)"

definition group_FindByID :: "string \<Rightarrow> app_group res io" where
  "group_FindByID i =
     or_return (query (\<lambda>w. scanAppGroup (find_row ag_ID i (app_groups w))))
       (\<lambda>e. if e = ErrAppGroupNotFound then e else Wrap ''find application group'' e) ok"

definition renamed :: "time \<Rightarrow> string \<Rightarrow> string option \<Rightarrow> app_group \<Rightarrow> app_group" where
  "renamed now name updatedBy g = g\<lparr>ag_Name := name, ag_UpdatedBy := updatedBy, ag_UpdatedAt := now\<rparr>"

definition group_Rename :: "string \<Rightarrow> string \<Rightarrow> string option \<Rightarrow> unit res io" where
  "group_Rename i name updatedBy =
     or_return
       (io_call (\<lambda>w.
          if find_row ag_ID i (app_groups w) = None then (Inr False, w)
          else if \<not> name_length_ok name then (Inl ErrCheckViolation, w)
          else if list_ex (\<lambda>g. ag_ID g \<noteq> i \<and> lower_name g = lower name) (app_groups w) then (Inl ErrUniqueViolation, w)
          else (Inr True, w\<lparr>app_groups := update_row ag_ID i (renamed (db_now w) name updatedBy) (app_groups w)\<rparr>)))
       (\<lambda>e. if isUniqueViolation e then ErrAppGroupNameTaken else Wrap ''rename application group'' e)
       (\<lambda>affected. if affected then ok () else fail ErrAppGroupNotFound)"

text \<open>The mappings, manual members and alert audiences of the group go with it.\<close>

definition cascade_delete :: "string \<Rightarrow> world \<Rightarrow> world" where
  "cascade_delete i w = w\<lparr>app_groups := filter (\<lambda>g. ag_ID g \<noteq> i) (app_groups w),
     app_group_ad_groups := filter (\<lambda>m. am_GroupID m \<noteq> i) (app_group_ad_groups w),
     app_group_local_members := filter (\<lambda>m. fst m \<noteq> i) (app_group_local_members w),
     alert_audiences := filter (\<lambda>(_, aud). aud \<noteq> AudienceGroup i) (alert_audiences w)\<rparr>"

definition group_Delete :: "string \<Rightarrow> unit res io" where
  "group_Delete i =
     or_return (exec (\<lambda>w. (find_row ag_ID i (app_groups w) \<noteq> None, cascade_delete i w))) (Wrap ''delete application group'')
       (\<lambda>affected. if affected then ok () else fail ErrAppGroupNotFound)"

record group_summary =
  gs_Group :: app_group
  gs_ADGroupCount :: nat
  gs_LocalMemberCount :: nat
  gs_MemberCount :: nat

definition cached_in :: "world \<Rightarrow> string \<Rightarrow> string list" where
  "cached_in w i =
     concat (map (\<lambda>m. map fst (filter (\<lambda>c. lower (snd c) = lower (am_DN m)) (user_ad_group_membership w)))
       (filter (\<lambda>m. am_GroupID m = i) (app_group_ad_groups w)))"

definition manual_in :: "world \<Rightarrow> string \<Rightarrow> string list" where
  "manual_in w i = map snd (filter (\<lambda>m. fst m = i) (app_group_local_members w))"

definition summary_of :: "world \<Rightarrow> app_group \<Rightarrow> group_summary" where
  "summary_of w g =
     \<lparr>gs_Group = g, gs_ADGroupCount = length (filter (\<lambda>m. am_GroupID m = ag_ID g) (app_group_ad_groups w)),
      gs_LocalMemberCount = length (manual_in w (ag_ID g)),
      gs_MemberCount = length (remdups (manual_in w (ag_ID g) @ cached_in w (ag_ID g)))\<rparr>"

definition ListWithCounts :: "group_summary list res io" where
  "ListWithCounts =
     or_return (query (\<lambda>w. Inr (map (summary_of w) (sort_key lower_name (app_groups w))))) (Wrap ''list application groups'') ok"

section \<open>Mapped directory groups\<close>

definition mapping_key :: "ad_mapping \<Rightarrow> string \<times> string" where
  "mapping_key m = (am_GroupID m, lower (am_DN m))"

definition AddADMapping :: "string \<Rightarrow> string \<Rightarrow> string \<Rightarrow> string option \<Rightarrow> unit res io" where
  "AddADMapping groupID dn name addedBy =
     or_return
       (io_call (\<lambda>w.
          let m = \<lparr>am_GroupID = groupID, am_DN = dn, am_Name = name, am_AddedBy = addedBy, am_AddedAt = db_now w\<rparr> in
          if mapping_key m \<in> mapping_key ` set (app_group_ad_groups w) then (Inl ErrUniqueViolation, w)
          else if groupID \<notin> ag_ID ` set (app_groups w) then (Inl ErrForeignKey, w)
          else (Inr (), w\<lparr>app_group_ad_groups := app_group_ad_groups w @ [m]\<rparr>)))
       (\<lambda>e. if isUniqueViolation e then ErrADGroupAlreadyMapped
            else if isForeignKeyViolation e then ErrAppGroupNotFound else Wrap ''map AD group'' e) ok"

definition RemoveADMapping :: "string \<Rightarrow> string \<Rightarrow> bool res io" where
  "RemoveADMapping groupID dn =
     or_return
       (exec (\<lambda>w. (length (filter (\<lambda>m. mapping_key m = (groupID, lower dn)) (app_group_ad_groups w)) = 1,
          w\<lparr>app_group_ad_groups := filter (\<lambda>m. mapping_key m \<noteq> (groupID, lower dn)) (app_group_ad_groups w)\<rparr>)))
       (Wrap ''unmap AD group'') ok"

definition ListADMappings :: "string \<Rightarrow> ad_mapping list res io" where
  "ListADMappings groupID =
     or_return
       (query (\<lambda>w. Inr (sort_key (\<lambda>m. lower (am_Name m)) (filter (\<lambda>m. am_GroupID m = groupID) (app_group_ad_groups w)))))
       (Wrap ''list AD group mappings'') ok"

text \<open>Of several spellings of a name one is returned.\<close>

definition mapped_dns :: "world \<Rightarrow> string list" where
  "mapped_dns w =
     (let ms = app_group_ad_groups w in
      map (\<lambda>l. am_DN (hd (filter (\<lambda>m. lower (am_DN m) = l) ms))) (sort (remdups (map (\<lambda>m. lower (am_DN m)) ms))))"

definition MappedDNs :: "string list res io" where
  "MappedDNs = or_return (query (\<lambda>w. Inr (mapped_dns w))) (Wrap ''list mapped AD groups'') ok"

section \<open>Members\<close>

definition repo_AddLocalMember :: "string \<Rightarrow> string \<Rightarrow> string option \<Rightarrow> bool res io" where
  "repo_AddLocalMember groupID userID addedBy =
     or_return
       (io_call (\<lambda>w.
          if (groupID, userID) \<in> set (app_group_local_members w) then (Inr False, w)
          else if groupID \<notin> ag_ID ` set (app_groups w) \<or> userID \<notin> user_ID ` set (users w) then (Inl ErrForeignKey, w)
          else (Inr True, w\<lparr>app_group_local_members := app_group_local_members w @ [(groupID, userID)]\<rparr>)))
       (\<lambda>e. if isForeignKeyViolation e then ErrAppGroupNotFound else Wrap ''add local group member'' e) ok"

definition repo_RemoveLocalMember :: "string \<Rightarrow> string \<Rightarrow> bool res io" where
  "repo_RemoveLocalMember groupID userID =
     or_return
       (exec (\<lambda>w. ((groupID, userID) \<in> set (app_group_local_members w),
          w\<lparr>app_group_local_members := filter (\<lambda>m. m \<noteq> (groupID, userID)) (app_group_local_members w)\<rparr>)))
       (Wrap ''remove local group member'') ok"

record group_member =
  gm_UserID :: string
  gm_DisplayName :: string
  gm_Tier :: tier
  gm_LocalUsername :: "string option"
  gm_ViaADGroups :: "string list"
  gm_AddedManually :: bool

definition via_groups :: "world \<Rightarrow> string \<Rightarrow> string \<Rightarrow> string list" where
  "via_groups w groupID u =
     sort (remdups (map am_Name (filter (\<lambda>m. am_GroupID m = groupID \<and>
       list_ex (\<lambda>(u', c). u' = u \<and> lower c = lower (am_DN m)) (user_ad_group_membership w)) (app_group_ad_groups w))))"

definition member_of :: "world \<Rightarrow> string \<Rightarrow> user \<Rightarrow> group_member" where
  "member_of w groupID u =
     \<lparr>gm_UserID = user_ID u, gm_DisplayName = user_DisplayName u, gm_Tier = user_Tier u, gm_LocalUsername = user_LocalUsername u,
      gm_ViaADGroups = via_groups w groupID (user_ID u), gm_AddedManually = ((groupID, user_ID u) \<in> set (app_group_local_members w))\<rparr>"

definition Members :: "string \<Rightarrow> group_member list res io" where
  "Members groupID =
     or_return
       (query (\<lambda>w. Inr (map (member_of w groupID)
          (sort_key (\<lambda>u. lower (user_DisplayName u)) (sort_key user_ID (filter (\<lambda>u. in_group w groupID (user_ID u)) (users w)))))))
       (Wrap ''list group members'') ok"

section \<open>The membership cache\<close>

fun lower_distinct :: "string list \<Rightarrow> string list \<Rightarrow> string list" where
  "lower_distinct [] out = out"
| "lower_distinct (dn # dns) out = lower_distinct dns (if lower dn \<in> set out then out else out @ [lower dn])"

definition lowerDistinct :: "string list \<Rightarrow> string list" where
  "lowerDistinct dns = lower_distinct dns []"

text \<open>A row that is there already is only refreshed.\<close>

definition add_membership :: "string \<times> string \<Rightarrow> (string \<times> string) list \<Rightarrow> (string \<times> string) list" where
  "add_membership c cs = (if list_ex (\<lambda>x. fst x = fst c \<and> lower (snd x) = lower (snd c)) cs then cs else cs @ [c])"

definition set_user_memberships :: "string \<Rightarrow> string list \<Rightarrow> (string \<times> string) list \<Rightarrow> (string \<times> string) list" where
  "set_user_memberships u dns cs =
     fold add_membership (map (\<lambda>d. (u, d)) dns) (filter (\<lambda>c. \<not> (fst c = u \<and> lower (snd c) \<notin> set dns)) cs)"

definition set_members_of :: "string \<Rightarrow> string list \<Rightarrow> (string \<times> string) list \<Rightarrow> (string \<times> string) list" where
  "set_members_of dn us cs =
     fold add_membership (map (\<lambda>u. (u, lower dn)) us) (filter (\<lambda>c. \<not> (lower (snd c) = lower dn \<and> fst c \<notin> set us)) cs)"

text \<open>
  The two statements run in one transaction: each can fail, and nothing is stored before the commit. An unknown user
  is refused by the foreign key.
\<close>

definition ReplaceUserMemberships :: "string \<Rightarrow> string list \<Rightarrow> unit res io" where
  "ReplaceUserMemberships userID dns =
     (let lowered = lowerDistinct dns in
      or_return (query (\<lambda>_. Inr ())) (Wrap ''begin replace user memberships'') (\<lambda>_.
      or_return (query (\<lambda>_. Inr ())) (Wrap ''remove stale memberships'') (\<lambda>_.
      or_return (if lowered \<noteq> [] then query (\<lambda>w. if userID \<in> user_ID ` set (users w) then Inr () else Inl ErrForeignKey) else ok ())
        (Wrap ''record memberships'') (\<lambda>_.
      or_return (exec (\<lambda>w. ((), w\<lparr>user_ad_group_membership := set_user_memberships userID lowered (user_ad_group_membership w)\<rparr>)))
        (Wrap ''commit replace user memberships'') ok))))"

definition ReplaceMembersOfDN :: "string \<Rightarrow> string list \<Rightarrow> unit res io" where
  "ReplaceMembersOfDN dn userIDs =
      or_return (query (\<lambda>_. Inr ())) (Wrap ''begin replace group members'') (\<lambda>_.
      or_return (query (\<lambda>_. Inr ())) (Wrap ''remove stale members'') (\<lambda>_.
      or_return (if userIDs \<noteq> [] then query (\<lambda>w. if set userIDs \<subseteq> user_ID ` set (users w) then Inr () else Inl ErrForeignKey) else ok ())
        (Wrap ''record members'') (\<lambda>_.
      or_return (exec (\<lambda>w. ((), w\<lparr>user_ad_group_membership := set_members_of dn userIDs (user_ad_group_membership w)\<rparr>)))
        (Wrap ''commit replace group members'') ok)))"

definition still_mapped :: "world \<Rightarrow> string \<times> string \<Rightarrow> bool" where
  "still_mapped w c = list_ex (\<lambda>m. lower (am_DN m) = lower (snd c)) (app_group_ad_groups w)"

definition PruneUnmappedMemberships :: "nat res io" where
  "PruneUnmappedMemberships =
     or_return
       (exec (\<lambda>w. (length (filter (\<lambda>c. \<not> still_mapped w c) (user_ad_group_membership w)),
          w\<lparr>user_ad_group_membership := filter (still_mapped w) (user_ad_group_membership w)\<rparr>)))
       (Wrap ''prune unmapped memberships'') ok"

text \<open>\<^verbatim>\<open>UserRepository.FindIDsByLDAPDNs\<close>.\<close>

definition ids_by_dns :: "world \<Rightarrow> string list \<Rightarrow> string list" where
  "ids_by_dns w lowered =
     map user_ID (filter (\<lambda>u. case user_LDAPDN u of None \<Rightarrow> False | Some d \<Rightarrow> lower d \<in> set lowered) (users w))"

definition FindIDsByLDAPDNs :: "string list \<Rightarrow> string list res io" where
  "FindIDsByLDAPDNs dns =
     (let lowered = lowerDistinct dns in
      if lowered = [] then ok []
      else or_return (query (\<lambda>w. Inr (ids_by_dns w lowered))) (Wrap ''find users by LDAP DN'') ok)"

end
