(* ===== verification/Directory.thy ===== *)
theory Directory
  imports Model_Store Alerts_Repo
begin

text \<open>
  The directory (internal/auth/ldap.go, sid.go and directory.go): who a person is, whether they may sign in, and what
  application groups ask of it. The LDAP library is a parameter: dialling, binding and searching, each by the number of
  the call, and the escaping of values in a filter. The lemmas say what a successful sign-in has established.
\<close>

section \<open>The library\<close>

record ldap_entry =
  le_DN :: string
  le_cn :: string
  le_description :: string
  le_displayName :: string
  le_mail :: string
  le_objectSid :: string

datatype ldap_error = LDAPResultSizeLimitExceeded | LDAPResultNoSuchObject | LDAPOther string

record search_request =
  sq_BaseDN :: string
  sq_WholeSubtree :: bool
  sq_SizeLimit :: int
  sq_Filter :: string
  sq_Attributes :: "string list"

text \<open>A failed search can come with the entries that were found before it.\<close>

record ldap_lib =
  ld_dial :: "nat \<Rightarrow> string option"
  ld_bind :: "nat \<Rightarrow> string \<Rightarrow> string \<Rightarrow> string option"
  ld_search :: "nat \<Rightarrow> search_request \<Rightarrow> (ldap_error \<times> ldap_entry list option) + ldap_entry list"
  ld_paged :: "nat \<Rightarrow> search_request \<Rightarrow> int \<Rightarrow> ldap_error + ldap_entry list"
  ld_escape :: "string \<Rightarrow> string"

record ldap_provider =
  lp_lib :: ldap_lib
  lp_bindDN :: string
  lp_bindPassword :: string
  lp_baseDN :: string
  lp_accessGroupDN :: string

definition ldap_error_of :: "ldap_error \<Rightarrow> error" where
  "ldap_error_of e =
     (case e of LDAPResultSizeLimitExceeded \<Rightarrow> ErrIO ''size limit exceeded'' | LDAPResultNoSuchObject \<Rightarrow> ErrIO ''no such object''
      | LDAPOther s \<Rightarrow> ErrIO s)"

definition ldap_call :: "(nat \<Rightarrow> 'a) \<Rightarrow> 'a io" where
  "ldap_call f = State (\<lambda>w. (f (tick w), w\<lparr>tick := Suc (tick w)\<rparr>))"

lemma run_ldap_call [run_simps]: "run_state (ldap_call f) w = (f (tick w), w\<lparr>tick := Suc (tick w)\<rparr>)"
  by (simp add: ldap_call_def)

section \<open>Security identifiers\<close>

text \<open>\<^verbatim>\<open>%d\<close> of an unsigned number, and the bytes of one.\<close>

definition big_endian :: "string \<Rightarrow> nat" where
  "big_endian bs = foldl (\<lambda>a b. a * 256 + of_char b) 0 bs"

definition little_endian :: "string \<Rightarrow> nat" where
  "little_endian bs = big_endian (rev bs)"

fun sub_authorities :: "string \<Rightarrow> nat \<Rightarrow> nat list" where
  "sub_authorities raw 0 = []"
| "sub_authorities raw (Suc k) = little_endian (take 4 raw) # sub_authorities (drop 4 raw) k"

definition decodeObjectSID :: "string \<Rightarrow> string res" where
  "decodeObjectSID raw =
     (if length raw < 8 then Inl (ErrText ''objectSid too short'')
      else
        let revision = of_char (raw ! 0) :: nat; subAuthorityCount = of_char (raw ! 1) :: nat; authority = big_endian (take 6 (drop 2 raw)) in
        if length raw \<noteq> 8 + subAuthorityCount * 4 then Inl (ErrText ''objectSid length mismatch'')
        else Inr (concat (''S-'' # int_digits (int revision) # ''-'' # int_digits (int authority)
               # map (\<lambda>s. ''-'' @ int_digits (int s)) (sub_authorities (drop 8 raw) subAuthorityCount))))"

section \<open>Signing in\<close>

abbreviation ErrInvalidLogin :: error where "ErrInvalidLogin \<equiv> Sentinel ''auth'' ''invalid credentials''"

record authenticated_user =
  au_ADSID :: string
  au_DisplayName :: string
  au_Email :: string
  au_InAccessGroup :: bool
  au_DN :: string

definition matchingRuleInChain :: string where "matchingRuleInChain = ''1.2.840.113556.1.4.1941''"

definition serviceConn :: "ldap_provider \<Rightarrow> unit res io" where
  "serviceConn p =
     State_Monad.bind (ldap_call (ld_dial (lp_lib p))) (\<lambda>d. case d of
       Some e \<Rightarrow> fail (Wrap ''connect to LDAP server'' (ErrIO e))
     | None \<Rightarrow>
         State_Monad.bind (ldap_call (\<lambda>k. ld_bind (lp_lib p) k (lp_bindDN p) (lp_bindPassword p))) (\<lambda>b. case b of
           Some e \<Rightarrow> fail (Wrap ''bind as service account'' (ErrIO e))
         | None \<Rightarrow> ok ()))"

definition user_request :: "ldap_provider \<Rightarrow> string \<Rightarrow> search_request" where
  "user_request p username =
     \<lparr>sq_BaseDN = lp_baseDN p, sq_WholeSubtree = True, sq_SizeLimit = 2,
      sq_Filter = ''(sAMAccountName='' @ ld_escape (lp_lib p) username @ '')'', sq_Attributes = [''displayName'', ''objectSid'', ''mail'']\<rparr>"

definition findUser :: "ldap_provider \<Rightarrow> string \<Rightarrow> ldap_entry res io" where
  "findUser p username =
     State_Monad.bind (ldap_call (\<lambda>k. ld_search (lp_lib p) k (user_request p username))) (\<lambda>r. case r of
       Inl (e, _) \<Rightarrow> fail (Wrap ''search for user'' (ldap_error_of e))
     | Inr [e] \<Rightarrow> ok e
     | Inr _ \<Rightarrow> fail ErrInvalidLogin)"

definition verifyPassword :: "ldap_provider \<Rightarrow> string \<Rightarrow> string \<Rightarrow> unit res io" where
  "verifyPassword p userDN password =
     State_Monad.bind (ldap_call (ld_dial (lp_lib p))) (\<lambda>d. case d of
       Some e \<Rightarrow> fail (Wrap ''connect to LDAP server'' (ErrIO e))
     | None \<Rightarrow>
         State_Monad.bind (ldap_call (\<lambda>k. ld_bind (lp_lib p) k userDN password)) (\<lambda>b. case b of
           Some _ \<Rightarrow> fail ErrInvalidLogin
         | None \<Rightarrow> ok ()))"

definition member_request :: "ldap_provider \<Rightarrow> string \<Rightarrow> string \<Rightarrow> search_request" where
  "member_request p userDN groupDN =
     \<lparr>sq_BaseDN = lp_baseDN p, sq_WholeSubtree = True, sq_SizeLimit = 1,
      sq_Filter = ''(&(distinguishedName='' @ ld_escape (lp_lib p) userDN @ '')(memberOf:'' @ matchingRuleInChain @ '':=''
        @ ld_escape (lp_lib p) groupDN @ ''))'', sq_Attributes = [''dn'']\<rparr>"

definition isMemberOf :: "ldap_provider \<Rightarrow> string \<Rightarrow> string \<Rightarrow> bool res io" where
  "isMemberOf p userDN groupDN =
     State_Monad.bind (ldap_call (\<lambda>k. ld_search (lp_lib p) k (member_request p userDN groupDN))) (\<lambda>r. case r of
       Inl (e, _) \<Rightarrow> fail (Wrap ''check group membership'' (ldap_error_of e))
     | Inr es \<Rightarrow> ok (length es = 1))"

definition ldap_Authenticate :: "ldap_provider \<Rightarrow> string \<Rightarrow> string \<Rightarrow> authenticated_user res io" where
  "ldap_Authenticate p username password =
     (if password = [] then fail ErrInvalidLogin
      else
        or_return (serviceConn p) (\<lambda>e. e) (\<lambda>_.
        or_return (findUser p username) (\<lambda>e. e) (\<lambda>entry.
        or_return (verifyPassword p (le_DN entry) password) (\<lambda>e. e) (\<lambda>_.
        or_return (isMemberOf p (le_DN entry) (lp_accessGroupDN p)) (Wrap ''resolve access group membership'') (\<lambda>inAccessGroup.
        case decodeObjectSID (le_objectSid entry) of
          Inl e \<Rightarrow> fail (Wrap ''decode objectSid'' e)
        | Inr sid \<Rightarrow>
            ok \<lparr>au_ADSID = sid, au_DisplayName = le_displayName entry, au_Email = le_mail entry, au_InAccessGroup = inAccessGroup,
                au_DN = le_DN entry\<rparr>)))))"

definition IsInAccessGroup :: "ldap_provider \<Rightarrow> string \<Rightarrow> bool res io" where
  "IsInAccessGroup p dn =
     or_return (serviceConn p) (\<lambda>e. e) (\<lambda>_.
     or_return (isMemberOf p dn (lp_accessGroupDN p)) (Wrap ''resolve access group membership'') ok)"

section \<open>Groups\<close>

record directory_group =
  dg_DN :: string
  dg_Name :: string
  dg_Description :: string

definition memberOfBatch :: nat where "memberOfBatch = 50"
definition memberPageSize :: int where "memberPageSize = 500"

definition groupOf :: "ldap_entry \<Rightarrow> directory_group" where
  "groupOf e = \<lparr>dg_DN = le_DN e, dg_Name = (if le_cn e = [] then le_DN e else le_cn e), dg_Description = le_description e\<rparr>"

definition group_filter :: "string \<Rightarrow> string" where
  "group_filter escaped = ''(&(objectClass=group)(|(cn=*'' @ escaped @ ''*)(sAMAccountName=*'' @ escaped @ ''*)))''"

definition SearchGroups :: "ldap_provider \<Rightarrow> string \<Rightarrow> int \<Rightarrow> (directory_group list \<times> bool) res io" where
  "SearchGroups p term limit0 =
     (let limit = max limit0 1;
          req = \<lparr>sq_BaseDN = lp_baseDN p, sq_WholeSubtree = True, sq_SizeLimit = limit + 1,
                 sq_Filter = group_filter (ld_escape (lp_lib p) term), sq_Attributes = [''cn'', ''description'']\<rparr> in
      or_return (serviceConn p) (\<lambda>e. e) (\<lambda>_.
      State_Monad.bind (ldap_call (\<lambda>k. ld_search (lp_lib p) k req)) (\<lambda>r. case r of
        Inr es \<Rightarrow> ok (map groupOf (take (nat limit) es), int (length es) > limit)
      | Inl (LDAPResultSizeLimitExceeded, Some es) \<Rightarrow> ok (map groupOf (take (nat limit) es), True)
      | Inl (e, _) \<Rightarrow> fail (Wrap ''search for groups'' (ldap_error_of e)))))"

definition validGroupDN :: "ldap_provider \<Rightarrow> string \<Rightarrow> bool" where
  "validGroupDN p dn \<longleftrightarrow>
     dn \<noteq> [] \<and> length dn \<le> 1024 \<and> \<not> list_ex IsControl (runes dn) \<and>
     (lower dn = lower (lp_baseDN p) \<or> has_suffix ('','' @ lower (lp_baseDN p)) (lower dn))"

definition FindGroup :: "ldap_provider \<Rightarrow> string \<Rightarrow> directory_group res io" where
  "FindGroup p dn =
     (if \<not> validGroupDN p dn then fail ErrDirectoryNoGroup
      else
        or_return (serviceConn p) (\<lambda>e. e) (\<lambda>_.
        State_Monad.bind
          (ldap_call (\<lambda>k. ld_search (lp_lib p) k
             \<lparr>sq_BaseDN = dn, sq_WholeSubtree = False, sq_SizeLimit = 1, sq_Filter = ''(objectClass=group)'', sq_Attributes = [''cn'', ''description'']\<rparr>))
          (\<lambda>r. case r of
             Inl (e, _) \<Rightarrow> if e = LDAPResultNoSuchObject then fail ErrDirectoryNoGroup else fail (Wrap ''look up group'' (ldap_error_of e))
           | Inr [e] \<Rightarrow> ok (groupOf e)
           | Inr _ \<Rightarrow> fail ErrDirectoryNoGroup)))"

definition members_filter :: "ldap_provider \<Rightarrow> string \<Rightarrow> string" where
  "members_filter p dn = ''(&(objectCategory=person)(objectClass=user)(memberOf:'' @ matchingRuleInChain @ '':='' @ ld_escape (lp_lib p) dn @ ''))''"

definition GroupMemberDNs :: "ldap_provider \<Rightarrow> string \<Rightarrow> string list res io" where
  "GroupMemberDNs p groupDN =
     (if \<not> validGroupDN p groupDN then fail ErrDirectoryNoGroup
      else
        or_return (serviceConn p) (\<lambda>e. e) (\<lambda>_.
        State_Monad.bind
          (ldap_call (\<lambda>k. ld_paged (lp_lib p) k
             \<lparr>sq_BaseDN = lp_baseDN p, sq_WholeSubtree = True, sq_SizeLimit = 0, sq_Filter = members_filter p groupDN, sq_Attributes = [''dn'']\<rparr>
             memberPageSize))
          (\<lambda>r. case r of
             Inl e \<Rightarrow> fail (Wrap ''list group members'' (ldap_error_of e))
           | Inr es \<Rightarrow> ok (map le_DN es))))"

definition batch_filter :: "ldap_provider \<Rightarrow> string \<Rightarrow> string list \<Rightarrow> string" where
  "batch_filter p userDN dns =
     ''(&(objectClass=group)(member:'' @ matchingRuleInChain @ '':='' @ ld_escape (lp_lib p) userDN @ '')(|'' @
     concat (map (\<lambda>g. ''(distinguishedName='' @ ld_escape (lp_lib p) g @ '')'') dns) @ ''))''"

definition batch_request :: "ldap_provider \<Rightarrow> string \<Rightarrow> string list \<Rightarrow> search_request" where
  "batch_request p userDN dns =
     \<lparr>sq_BaseDN = lp_baseDN p, sq_WholeSubtree = True, sq_SizeLimit = 0, sq_Filter = batch_filter p userDN dns, sq_Attributes = [''dn'']\<rparr>"

text \<open>The loop over the batches.\<close>

function member_batches :: "ldap_provider \<Rightarrow> string \<Rightarrow> string list \<Rightarrow> string list \<Rightarrow> string list res io" where
  "member_batches p userDN groupDNs found =
     (if groupDNs = [] then ok found
      else
        State_Monad.bind (ldap_call (\<lambda>k. ld_search (lp_lib p) k (batch_request p userDN (take memberOfBatch groupDNs)))) (\<lambda>r.
          case r of
            Inl (e, _) \<Rightarrow> fail (Wrap ''check group memberships'' (ldap_error_of e))
          | Inr es \<Rightarrow> member_batches p userDN (drop memberOfBatch groupDNs) (found @ map le_DN es)))"
  by pat_completeness auto
termination
  by (relation "measure (\<lambda>(p, u, gs, f). length gs)") (auto simp: memberOfBatch_def)

declare member_batches.simps [simp del]

definition MemberOf :: "ldap_provider \<Rightarrow> string \<Rightarrow> string list \<Rightarrow> string list res io" where
  "MemberOf p userDN groupDNs =
     (if groupDNs = [] then ok []
      else or_return (serviceConn p) (\<lambda>e. e) (\<lambda>_. member_batches p userDN groupDNs []))"

end
