(* ===== verification/App_Groups.thy ===== *)
theory App_Groups
  imports Groups_Repo Directory Nodes
begin

text \<open>
  Application groups (internal/groups/groups.go): named groups of people, made of the directory groups mapped to them
  and of local accounts added by hand. \<open>dir\<close> is the directory, absent in a deployment without one.
\<close>

section \<open>Names\<close>

definition MaxNameLen :: nat where "MaxNameLen = 64"
definition MinSearchLen :: nat where "MinSearchLen = 3"
definition MaxSearchLen :: nat where "MaxSearchLen = 64"
definition SearchLimit :: int where "SearchLimit = 25"

definition validateName :: "string \<Rightarrow> string res" where
  "validateName raw =
     (let name = TrimSpace raw in
      if name = [] then Inl (Detail ErrInvalidName ''a name is required'')
      else if RuneCountInString name > MaxNameLen then Inl (Detail ErrInvalidName ''at most 64 characters'')
      else if list_ex IsControl (runes name) then Inl (Detail ErrInvalidName ''no control characters'')
      else Inr name)"

definition validateSearch :: "string \<Rightarrow> string res" where
  "validateSearch raw =
     (let term = TrimSpace raw; n = RuneCountInString term in
      if n < MinSearchLen then Inl (Detail ErrInvalidSearch (''type at least 3 characters of the group'' @ CHR 0x27 # ''s name''))
      else if n > MaxSearchLen then Inl (Detail ErrInvalidSearch ''at most 64 characters'')
      else if list_ex IsControl (runes term) then Inl (Detail ErrInvalidSearch ''no control characters'')
      else Inr term)"

definition record_group :: "actor \<Rightarrow> string \<Rightarrow> string \<Rightarrow> audit_detail \<Rightarrow> unit res io" where
  "record_group a action groupID detail = Record (actor_id a) (IsSuperAdmin a) action ''app_group'' groupID (Some detail)"

definition mapStoreErr :: "error \<Rightarrow> error" where
  "mapStoreErr e =
     (if errors_is e ErrAppGroupNotFound then ErrGroupNotFound
      else if errors_is e ErrAppGroupNameTaken then ErrGroupNameTaken
      else if errors_is e ErrADGroupAlreadyMapped then ErrAlreadyMapped
      else e)"

text \<open>Returned when the revert fails too; the text of the second error only shows in the message.\<close>

definition revert_failed :: "error \<Rightarrow> error" where
  "revert_failed e = Detail e ''revert also failed''"

section \<open>Viewing\<close>

definition groups_List :: "actor \<Rightarrow> group_summary list res io" where
  "groups_List a = (if \<not> CanManageGroups a then fail ErrNotPermitted else or_return ListWithCounts (\<lambda>e. e) ok)"

record group_detail =
  gd_Group :: app_group
  gd_Mappings :: "ad_mapping list"
  gd_Members :: "group_member list"
  gd_DirectoryAvailable :: bool
  gd_CanManageLocalMembers :: bool
  gd_AddableLocalUsers :: "user list"

definition groups_Get :: "ldap_provider option \<Rightarrow> actor \<Rightarrow> string \<Rightarrow> group_detail res io" where
  "groups_Get dir a i =
     (if \<not> CanManageGroups a then fail ErrNotPermitted
      else
        or_return (group_FindByID i) mapStoreErr (\<lambda>g.
        or_return (ListADMappings i) (\<lambda>e. e) (\<lambda>mappings.
        or_return (Members i) (\<lambda>e. e) (\<lambda>members.
        let d = \<lparr>gd_Group = g, gd_Mappings = mappings, gd_Members = members, gd_DirectoryAvailable = (dir \<noteq> None),
                 gd_CanManageLocalMembers = CanManageGroupLocalMembers a, gd_AddableLocalUsers = []\<rparr> in
        if \<not> CanManageGroupLocalMembers a then ok d
        else or_return user_List (Wrap ''list users'') (\<lambda>all.
          ok (d\<lparr>gd_AddableLocalUsers := filter (\<lambda>u. user_LocalUsername u \<noteq> None \<and>
                user_ID u \<notin> set (map gm_UserID (filter gm_AddedManually members))) all\<rparr>))))))"

definition groups_SearchDirectory :: "ldap_provider option \<Rightarrow> actor \<Rightarrow> string \<Rightarrow> string \<Rightarrow> ((directory_group \<times> bool) list \<times> bool) res io" where
  "groups_SearchDirectory dir a groupID rawTerm =
     (if \<not> CanManageGroups a then fail ErrNotPermitted
      else case dir of
        None \<Rightarrow> fail ErrDirectoryUnavailable
      | Some p \<Rightarrow>
          (case validateSearch rawTerm of
             Inl e \<Rightarrow> fail e
           | Inr term \<Rightarrow>
               or_return (group_FindByID groupID) mapStoreErr (\<lambda>_.
               or_return (ListADMappings groupID) (\<lambda>e. e) (\<lambda>mappings.
               or_return (SearchGroups p term SearchLimit) (\<lambda>e. Detail ErrDirectory (''search the directory: '' @ error_text e)) (\<lambda>(groups, truncated).
                 ok (map (\<lambda>g. (g, lower (dg_DN g) \<in> set (map (\<lambda>m. lower (am_DN m)) mappings))) groups, truncated))))))"

section \<open>Changing groups\<close>

definition groups_Create :: "actor \<Rightarrow> string \<Rightarrow> app_group res io" where
  "groups_Create a rawName =
     (if \<not> CanManageGroups a then fail ErrNotPermitted
      else case validateName rawName of
        Inl e \<Rightarrow> fail e
      | Inr name \<Rightarrow>
          or_return (group_Create name (actor_id a)) mapStoreErr (\<lambda>g.
          or_return
            (audited (record_group a ''created_app_group'' (ag_ID g) [(''name'', JStr (ag_Name g))]) (group_Delete (ag_ID g)) revert_failed)
            (\<lambda>e. e) (\<lambda>_. ok g)))"

definition groups_Rename :: "actor \<Rightarrow> string \<Rightarrow> string \<Rightarrow> unit res io" where
  "groups_Rename a i rawName =
     (if \<not> CanManageGroups a then fail ErrNotPermitted
      else case validateName rawName of
        Inl e \<Rightarrow> fail e
      | Inr name \<Rightarrow>
          or_return (group_FindByID i) mapStoreErr (\<lambda>old.
            if ag_Name old = name then ok ()
            else or_return (group_Rename i name (actor_id a)) mapStoreErr (\<lambda>_.
              audited (record_group a ''renamed_app_group'' i [(''old_name'', JStr (ag_Name old)), (''new_name'', JStr name)])
                (group_Rename i (ag_Name old) (ag_UpdatedBy old)) revert_failed)))"

definition groups_Delete :: "actor \<Rightarrow> string \<Rightarrow> unit res io" where
  "groups_Delete a i =
     (if \<not> CanManageGroups a then fail ErrNotPermitted
      else
        or_return (group_FindByID i) mapStoreErr (\<lambda>g.
        or_return (ListADMappings i) (\<lambda>e. e) (\<lambda>mappings.
        or_return (Members i) (\<lambda>e. e) (\<lambda>members.
        or_return (group_Delete i) mapStoreErr (\<lambda>_.
        State_Monad.bind PruneUnmappedMemberships (\<lambda>_.
        or_return
          (record_group a ''deleted_app_group'' i
             [(''name'', JStr (ag_Name g)), (''ad_groups'', JInt (int (length mappings))),
              (''manual_members'', JInt (int (length (filter gm_AddedManually members))))])
          (Wrap ''record audit'') (\<lambda>_. ok ())))))))"

section \<open>Mapping directory groups\<close>

record map_result =
  mr_Group :: directory_group
  mr_MatchedMembers :: nat
  mr_BackfillFailed :: bool

text \<open>The members that are known already; nothing when a step fails.\<close>

definition backfill :: "ldap_provider \<Rightarrow> string \<Rightarrow> nat option io" where
  "backfill p dn =
     State_Monad.bind (GroupMemberDNs p dn) (\<lambda>r. case r of
       Inl _ \<Rightarrow> State_Monad.return None
     | Inr memberDNs \<Rightarrow>
         State_Monad.bind (FindIDsByLDAPDNs memberDNs) (\<lambda>r. case r of
           Inl _ \<Rightarrow> State_Monad.return None
         | Inr ids \<Rightarrow>
             State_Monad.bind (ReplaceMembersOfDN dn ids) (\<lambda>r. case r of
               Inl _ \<Rightarrow> State_Monad.return None
             | Inr _ \<Rightarrow> State_Monad.return (Some (length ids)))))"

text \<open>The revert of a mapping, and the pruning that follows it when it worked.\<close>

definition revert_mapping :: "string \<Rightarrow> string \<Rightarrow> unit res io" where
  "revert_mapping groupID dn =
     or_return (RemoveADMapping groupID dn) (\<lambda>e. e) (\<lambda>_. State_Monad.bind PruneUnmappedMemberships (\<lambda>_. ok ()))"

definition MapADGroup :: "ldap_provider option \<Rightarrow> actor \<Rightarrow> string \<Rightarrow> string \<Rightarrow> map_result res io" where
  "MapADGroup dir a groupID dn =
     (if \<not> CanManageGroups a then fail ErrNotPermitted
      else case dir of
        None \<Rightarrow> fail ErrDirectoryUnavailable
      | Some p \<Rightarrow>
          or_return (group_FindByID groupID) mapStoreErr (\<lambda>g.
          or_return (FindGroup p dn)
            (\<lambda>e. if errors_is e ErrDirectoryNoGroup then ErrADGroupNotFound else Detail ErrDirectory (''look up the group: '' @ error_text e)) (\<lambda>found.
          or_return (AddADMapping groupID (dg_DN found) (dg_Name found) (actor_id a)) mapStoreErr (\<lambda>_.
          State_Monad.bind (backfill p (dg_DN found)) (\<lambda>matched.
          let res = \<lparr>mr_Group = found, mr_MatchedMembers = (case matched of None \<Rightarrow> 0 | Some k \<Rightarrow> k), mr_BackfillFailed = (matched = None)\<rparr> in
          or_return
            (audited
               (record_group a ''mapped_ad_group'' groupID
                  [(''group_name'', JStr (ag_Name g)), (''ad_group_dn'', JStr (dg_DN found)), (''ad_group_name'', JStr (dg_Name found)),
                   (''matched_members'', JInt (int (mr_MatchedMembers res))), (''backfill_failed'', JBool (mr_BackfillFailed res))])
               (revert_mapping groupID (dg_DN found)) revert_failed)
            (\<lambda>e. e) (\<lambda>_. ok res))))))"

definition UnmapADGroup :: "actor \<Rightarrow> string \<Rightarrow> string \<Rightarrow> unit res io" where
  "UnmapADGroup a groupID dn =
     (if \<not> CanManageGroups a then fail ErrNotPermitted
      else
        or_return (group_FindByID groupID) mapStoreErr (\<lambda>g.
        or_return (ListADMappings groupID) (\<lambda>e. e) (\<lambda>mappings.
        case find (\<lambda>m. lower (am_DN m) = lower dn) mappings of
          None \<Rightarrow> fail ErrGroupNotFound
        | Some existing \<Rightarrow>
            or_return (RemoveADMapping groupID (am_DN existing)) (\<lambda>e. e) (\<lambda>removed.
              if \<not> removed then fail ErrGroupNotFound
              else State_Monad.bind PruneUnmappedMemberships (\<lambda>_.
                audited
                  (record_group a ''unmapped_ad_group'' groupID
                     [(''group_name'', JStr (ag_Name g)), (''ad_group_dn'', JStr (am_DN existing)), (''ad_group_name'', JStr (am_Name existing))])
                  (AddADMapping groupID (am_DN existing) (am_Name existing) (actor_id a)) revert_failed)))))"

section \<open>Manual members\<close>

definition groups_AddLocalMember :: "actor \<Rightarrow> string \<Rightarrow> string \<Rightarrow> unit res io" where
  "groups_AddLocalMember a groupID userID =
     (if \<not> CanManageGroupLocalMembers a then fail ErrNotPermitted
      else
        or_return (group_FindByID groupID) mapStoreErr (\<lambda>g.
        or_return (user_FindByID userID) (\<lambda>e. if errors_is e ErrUserNotFound then ErrGroupNotFound else Wrap ''look up user'' e) (\<lambda>u.
          if user_LocalUsername u = None then fail ErrOnlyLocalAccounts
          else or_return (repo_AddLocalMember groupID (user_ID u) (actor_id a)) mapStoreErr (\<lambda>added.
            if \<not> added then ok ()
            else audited
              (record_group a ''added_group_member'' groupID
                 [(''group_name'', JStr (ag_Name g)), (''user_id'', JStr (user_ID u)), (''user'', JStr (user_DisplayName u))])
              (or_return (repo_RemoveLocalMember groupID (user_ID u)) (\<lambda>e. e) (\<lambda>_. ok ())) revert_failed))))"

definition groups_RemoveLocalMember :: "actor \<Rightarrow> string \<Rightarrow> string \<Rightarrow> unit res io" where
  "groups_RemoveLocalMember a groupID userID =
     (if \<not> CanManageGroupLocalMembers a then fail ErrNotPermitted
      else
        or_return (group_FindByID groupID) mapStoreErr (\<lambda>g.
        State_Monad.bind (user_FindByID userID) (\<lambda>r.
        let display = (case r of Inr u \<Rightarrow> user_DisplayName u | Inl _ \<Rightarrow> userID) in
        or_return (repo_RemoveLocalMember groupID userID) (\<lambda>e. e) (\<lambda>removed.
          if \<not> removed then ok ()
          else audited
            (record_group a ''removed_group_member'' groupID
               [(''group_name'', JStr (ag_Name g)), (''user_id'', JStr userID), (''user'', JStr display)])
            (or_return (repo_AddLocalMember groupID userID (actor_id a)) (\<lambda>e. e) (\<lambda>_. ok ())) revert_failed))))"

section \<open>Refreshing the cache\<close>

definition RefreshUser :: "ldap_provider option \<Rightarrow> string \<Rightarrow> string \<Rightarrow> unit io" where
  "RefreshUser dir userID dn =
     (case dir of
        None \<Rightarrow> State_Monad.return ()
      | Some p \<Rightarrow>
          if dn = [] then State_Monad.return ()
          else State_Monad.bind MappedDNs (\<lambda>r. case r of
            Inl _ \<Rightarrow> State_Monad.return ()
          | Inr mapped \<Rightarrow>
              State_Monad.bind (if mapped = [] then ok [] else MemberOf p dn mapped) (\<lambda>r. case r of
                Inl _ \<Rightarrow> State_Monad.return ()
              | Inr groups \<Rightarrow> State_Monad.bind (ReplaceUserMemberships userID groups) (\<lambda>_. State_Monad.return ()))))"

end
