(* ===== verification/Group_Rules.thy ===== *)
theory Group_Rules
  imports App_Groups
begin

text \<open>
  Application groups: the tables stay sound whatever is done, only local accounts are ever manual members, and a
  refresh makes a person's groups what the directory says they are.
\<close>

section \<open>Sound tables\<close>

definition cache_key :: "string \<times> string \<Rightarrow> string \<times> string" where
  "cache_key c = (fst c, lower (snd c))"

definition valid_group_name :: "string \<Rightarrow> bool" where
  "valid_group_name n \<longleftrightarrow> name_length_ok n \<and> \<not> list_ex IsControl (runes n)"

definition local_user :: "user list \<Rightarrow> string \<Rightarrow> bool" where
  "local_user us i \<longleftrightarrow> (\<exists>u \<in> set us. user_ID u = i \<and> user_LocalUsername u \<noteq> None)"

definition groups_ok :: "world \<Rightarrow> bool" where
  "groups_ok w \<longleftrightarrow>
     primary_key ag_ID (app_groups w) \<and> primary_key lower_name (app_groups w) \<and> list_all (\<lambda>g. valid_group_name (ag_Name g)) (app_groups w)
     \<and> primary_key mapping_key (app_group_ad_groups w) \<and> list_all (\<lambda>m. am_GroupID m \<in> ag_ID ` set (app_groups w)) (app_group_ad_groups w)
     \<and> distinct (app_group_local_members w)
     \<and> list_all (\<lambda>(g, u). g \<in> ag_ID ` set (app_groups w) \<and> local_user (users w) u) (app_group_local_members w)
     \<and> primary_key cache_key (user_ad_group_membership w)"

definition keeps_groups :: "world \<Rightarrow> world \<Rightarrow> bool" where
  "keeps_groups w w' \<longleftrightarrow> (groups_ok w \<longrightarrow> groups_ok w')"

interpretation keeps_groups: db_step_rel keeps_groups
  by unfold_locales (auto simp: keeps_groups_def groups_ok_def)

lemma keeps_groups_same:
  "users w' = users w \<Longrightarrow> app_groups w' = app_groups w \<Longrightarrow> app_group_ad_groups w' = app_group_ad_groups w \<Longrightarrow>
   app_group_local_members w' = app_group_local_members w \<Longrightarrow> user_ad_group_membership w' = user_ad_group_membership w \<Longrightarrow> keeps_groups w w'"
  by (simp add: keeps_groups_def groups_ok_def)

section \<open>Rows\<close>

lemma primary_key_snoc: "primary_key key (t @ [r]) \<longleftrightarrow> primary_key key t \<and> key r \<notin> key ` set t"
  by (auto simp: primary_key_def)

lemma primary_key_filter: "primary_key key t \<Longrightarrow> primary_key key (filter p t)"
  by (simp add: primary_key_def distinct_map_filter)

lemma keeps_insert_group:
  "valid_group_name (ag_Name g) \<Longrightarrow> keeps_groups w (snd (insert_group g w))"
  by (auto simp: insert_group_def keeps_groups_def groups_ok_def primary_key_snoc list_all_iff)

lemma keeps_group_Create: "valid_group_name name \<Longrightarrow> within keeps_groups (group_Create name by)"
  unfolding group_Create_def by (intro keeps_groups.db_within_rules keeps_groups.within_io_call keeps_insert_group) (simp add: new_group_def)

lemma lower_names_update:
  assumes "primary_key ag_ID t" "primary_key lower_name t" "\<not> list_ex (\<lambda>g. ag_ID g \<noteq> i \<and> lower_name g = lower name) t"
  shows "primary_key lower_name (update_row ag_ID i (renamed now name by) t)"
  using assms
proof (induction t)
  case (Cons g t)
  have other: "lower_name (renamed now name by g) = lower name" "ag_ID (renamed now name by g) = ag_ID g" for g
    by (simp_all add: renamed_def lower_name_def)
  have same: "i \<notin> ag_ID ` set t \<Longrightarrow> update_row ag_ID i (renamed now name by) t = t" by (rule update_row_absent)
  have keys: "lower_name ` set (update_row ag_ID i (renamed now name by) t) \<subseteq> insert (lower name) (lower_name ` set t)"
    by (auto simp: update_row_def update_rows_def other)
  show ?case
  proof (cases "ag_ID g = i")
    case True
    then have "update_row ag_ID i (renamed now name by) t = t" using Cons.prems(1) same by (auto simp: primary_key_def)
    moreover have "lower name \<noteq> lower_name x" if "x \<in> set t" for x
    proof -
      have "ag_ID x \<noteq> i" using Cons.prems(1) True imageI [OF that, of ag_ID] by (auto simp: primary_key_def)
      then show ?thesis using Cons.prems(3) that by (auto simp: list_ex_iff)
    qed
    ultimately show ?thesis using True Cons.prems(2) by (auto simp: primary_key_def other)
  next
    case False
    then have "lower_name g \<noteq> lower name" using Cons.prems(3) by auto
    then show ?thesis using Cons False keys by (auto simp: primary_key_def)
  qed
qed simp

lemma keeps_group_Rename:
  assumes "valid_group_name name"
  shows "within keeps_groups (group_Rename i name by)"
proof -
  let ?f = "\<lambda>w. renamed (db_now w) name by"
  have "groups_ok (w\<lparr>app_groups := update_row ag_ID i (?f w) (app_groups w)\<rparr>)"
    if ok: "groups_ok w" and free: "\<not> list_ex (\<lambda>g. ag_ID g \<noteq> i \<and> lower_name g = lower name) (app_groups w)" for w
  proof -
    have id: "ag_ID (?f w g) = ag_ID g" for g by (simp add: renamed_def)
    then have ids: "map ag_ID (update_row ag_ID i (?f w) (app_groups w)) = map ag_ID (app_groups w)" by (intro pk_table.keys_upd)
    have "list_all (\<lambda>g. valid_group_name (ag_Name g)) (update_row ag_ID i (?f w) (app_groups w))"
      using ok assms by (auto simp: groups_ok_def list_all_iff update_row_def update_rows_def renamed_def)
    moreover have "primary_key lower_name (update_row ag_ID i (?f w) (app_groups w))"
      using lower_names_update ok free by (simp add: groups_ok_def)
    moreover have "ag_ID ` set (update_row ag_ID i (?f w) (app_groups w)) = ag_ID ` set (app_groups w)" by (metis ids list.set_map)
    ultimately show ?thesis using ok ids by (simp add: groups_ok_def primary_key_def)
  qed
  then show ?thesis unfolding group_Rename_def
    by (intro keeps_groups.db_within_rules keeps_groups.within_io_call) (auto simp: keeps_groups_def)
qed

lemma keeps_group_Delete: "within keeps_groups (group_Delete i)"
proof -
  have "keeps_groups w (cascade_delete i w)" for w
    by (auto simp: cascade_delete_def keeps_groups_def groups_ok_def list_all_iff primary_key_filter)
  then show ?thesis unfolding group_Delete_def by (intro keeps_groups.db_within_rules keeps_groups.within_exec) simp
qed

lemma keeps_mappings: "within keeps_groups (AddADMapping g dn n by)" "within keeps_groups (RemoveADMapping g dn)"
  unfolding AddADMapping_def RemoveADMapping_def
  by (intro keeps_groups.db_within_rules keeps_groups.within_io_call keeps_groups.within_exec;
      auto simp: Let_def keeps_groups_def groups_ok_def list_all_iff primary_key_snoc primary_key_filter)+

lemma keeps_RemoveLocal: "within keeps_groups (repo_RemoveLocalMember g u)"
  unfolding repo_RemoveLocalMember_def
  by (intro keeps_groups.db_within_rules keeps_groups.within_exec) (auto simp: keeps_groups_def groups_ok_def list_all_iff)

lemma keeps_AddLocal:
  assumes "groups_ok w \<Longrightarrow> local_user (users w) u"
  shows "keeps_groups w (snd (run_state (repo_AddLocalMember g u by) w))"
  using assms
  by (auto simp: repo_AddLocalMember_def run_simps keeps_groups_def groups_ok_def list_all_iff split: fault.split)

lemma keeps_group_reads:
  "within keeps_groups (group_FindByID i)" "within keeps_groups (ListADMappings i)" "within keeps_groups (Members i)" "within keeps_groups MappedDNs"
  "within keeps_groups (FindIDsByLDAPDNs dns)" "within keeps_groups ListWithCounts" "within keeps_groups (user_FindByID u)" "within keeps_groups user_List"
  unfolding group_FindByID_def ListADMappings_def Members_def MappedDNs_def FindIDsByLDAPDNs_def ListWithCounts_def user_FindByID_def user_List_def Let_def
  by (intro keeps_groups.db_within_rules)+

section \<open>The cache\<close>

lemma add_membership_set: "cache_key ` set (add_membership c cs) = insert (cache_key c) (cache_key ` set cs)"
  by (auto simp: add_membership_def list_ex_iff cache_key_def image_iff) (metis fst_conv snd_conv)

lemma add_membership_pk: "primary_key cache_key cs \<Longrightarrow> primary_key cache_key (add_membership c cs)"
  by (auto simp: add_membership_def primary_key_def list_ex_iff cache_key_def)

lemma fold_add_set: "cache_key ` set (fold add_membership xs cs) = cache_key ` set xs \<union> cache_key ` set cs"
  by (induction xs arbitrary: cs) (auto simp: add_membership_set)

lemma fold_add_pk: "primary_key cache_key cs \<Longrightarrow> primary_key cache_key (fold add_membership xs cs)"
  by (induction xs arbitrary: cs) (auto simp: add_membership_pk)

lemma keeps_cache:
  "within keeps_groups (ReplaceUserMemberships u dns)" "within keeps_groups (ReplaceMembersOfDN dn us)" "within keeps_groups PruneUnmappedMemberships"
proof -
  show "within keeps_groups (ReplaceUserMemberships u dns)"
    unfolding ReplaceUserMemberships_def Let_def
    by (intro keeps_groups.db_within_rules keeps_groups.within_exec)
      (auto simp: keeps_groups_def groups_ok_def set_user_memberships_def fold_add_pk primary_key_filter)
  show "within keeps_groups (ReplaceMembersOfDN dn us)"
    unfolding ReplaceMembersOfDN_def
    by (intro keeps_groups.db_within_rules keeps_groups.within_exec)
      (auto simp: keeps_groups_def groups_ok_def set_members_of_def fold_add_pk primary_key_filter)
  show "within keeps_groups PruneUnmappedMemberships"
    unfolding PruneUnmappedMemberships_def
    by (intro keeps_groups.db_within_rules keeps_groups.within_exec) (auto simp: keeps_groups_def groups_ok_def primary_key_filter)
qed

section \<open>The directory\<close>

text \<open>Asking the directory changes nothing on the server.\<close>

context db_step_rel
begin

lemma within_ldap_call: "within R (ldap_call f)"
  by (simp add: within_def run_simps rel_tick)

lemma within_serviceConn: "within R (serviceConn p)"
  unfolding serviceConn_def by (intro db_within_rules within_ldap_call)

lemma within_ldap_answer:
  "(\<And>e x. within R (h e x)) \<Longrightarrow> (\<And>es. within R (k es)) \<Longrightarrow> within R (case r of Inl (e, x) \<Rightarrow> h e x | Inr es \<Rightarrow> k es)"
  by (auto split: sum.split)

lemma within_member_batches: "within R (member_batches p u gs found)"
proof (induction p u gs found rule: member_batches.induct)
  case (1 p u gs found)
  show ?case
  proof (cases "gs = []")
    case False
    then show ?thesis using 1 unfolding member_batches.simps [of p u gs]
      by (auto intro!: within_bind within_ldap_call within_return split: sum.split prod.split)
  qed (simp add: member_batches.simps within_return)
qed

lemma within_directory:
  "within R (SearchGroups p term limit)" "within R (FindGroup p dn)" "within R (GroupMemberDNs p dn)" "within R (MemberOf p dn gs)"
proof -
  have list1: "within R m \<Longrightarrow> (\<And>x. within R (k x)) \<Longrightarrow> within R (case es of [x] \<Rightarrow> k x | _ \<Rightarrow> m)" for es :: "'a list" and m :: "'b io" and k
    by (auto split: list.split)
  show "within R (SearchGroups p term limit)"
    unfolding SearchGroups_def Let_def
    by (auto intro!: within_or_return within_serviceConn within_bind within_ldap_call within_return split: sum.split prod.split ldap_error.split option.split)
  show "within R (FindGroup p dn)"
    unfolding FindGroup_def
    by (auto intro!: within_or_return within_serviceConn within_bind within_ldap_call within_return split: sum.split prod.split list.split)
  show "within R (GroupMemberDNs p dn)" "within R (MemberOf p dn gs)"
    unfolding GroupMemberDNs_def MemberOf_def
    by (intro db_within_rules within_ldap_call within_serviceConn within_member_batches)+
qed

end

section \<open>Events\<close>

datatype group_event =
    GCreate actor string
  | GRename actor string string
  | GDelete actor string
  | GMap actor string string
  | GUnmap actor string string
  | GAddMember actor string string
  | GRemoveMember actor string string
  | GRefresh string string

fun group_step :: "ldap_provider option \<Rightarrow> group_event \<Rightarrow> unit io" where
  "group_step dir (GCreate a n) = drop_result (groups_Create a n)"
| "group_step dir (GRename a i n) = drop_result (groups_Rename a i n)"
| "group_step dir (GDelete a i) = drop_result (groups_Delete a i)"
| "group_step dir (GMap a i dn) = drop_result (MapADGroup dir a i dn)"
| "group_step dir (GUnmap a i dn) = drop_result (UnmapADGroup a i dn)"
| "group_step dir (GAddMember a i u) = drop_result (groups_AddLocalMember a i u)"
| "group_step dir (GRemoveMember a i u) = drop_result (groups_RemoveLocalMember a i u)"
| "group_step dir (GRefresh u dn) = RefreshUser dir u dn"

lemma validateName_valid: "validateName raw = Inr name \<Longrightarrow> valid_group_name name"
proof -
  assume v: "validateName raw = Inr name"
  then have "name \<noteq> []" "RuneCountInString name \<le> 64" "\<not> list_ex IsControl (runes name)"
    by (auto simp: validateName_def Let_def MaxNameLen_def split: if_splits)
  moreover have "runes name \<noteq> []" if "name \<noteq> []" using that by (simp add: runes.simps [of name] split: prod.split)
  ultimately show ?thesis by (simp add: valid_group_name_def name_length_ok_def RuneCountInString_def Suc_le_eq)
qed

context db_step_rel
begin

lemma or_return_step:
  "R w (snd (run_state m w)) \<Longrightarrow> (\<And>x w1. run_state m w = (Inr x, w1) \<Longrightarrow> R w1 (snd (run_state (k x) w1))) \<Longrightarrow> R w (snd (run_state (or_return m h k) w))"
  by (cases "run_state m w") (auto simp: run_or_return split: sum.split intro: rel_trans)

lemma audited_step:
  "within R rc \<Longrightarrow> (\<And>w1. R w w1 \<Longrightarrow> R w1 (snd (run_state rv w1))) \<Longrightarrow> R w (snd (run_state (audited rc rv both) w))"
proof -
  assume rc: "within R rc" and rv: "\<And>w1. R w w1 \<Longrightarrow> R w1 (snd (run_state rv w1))"
  obtain r w1 where run: "run_state rc w = (r, w1)" by (metis prod.collapse)
  have "R w w1" using withinD [OF rc run] .
  then show ?thesis using rv [of w1] run
    by (cases r; cases "run_state rv w1") (auto simp: run_audited split: sum.split intro: rel_trans)
qed

end

lemma keeps_record: "within keeps_groups (record_group a act i d)"
  unfolding record_group_def by (rule withinI) (simp add: run_Record Let_def keeps_groups_same split: fault.split)

lemma keeps_audited: "within keeps_groups rv \<Longrightarrow> within keeps_groups (audited (record_group a act i d) rv both)"
  using keeps_groups.audited_step [OF keeps_record] by (simp add: within_def)

lemma keeps_Create: "within keeps_groups (groups_Create a n)"
  unfolding groups_Create_def
  by (auto split: sum.split intro!: keeps_groups.within_return keeps_groups.within_or_return keeps_group_Create validateName_valid
      keeps_audited keeps_group_Delete)

lemma keeps_Rename: "within keeps_groups (groups_Rename a i n)"
proof (cases "CanManageGroups a \<and> (\<exists>name. validateName n = Inr name)")
  case True
  then obtain name where name: "validateName n = Inr name" by blast
  let ?rest = "\<lambda>old. or_return (group_Rename i name (actor_id a)) mapStoreErr (\<lambda>_.
      audited (record_group a ''renamed_app_group'' i [(''old_name'', JStr (ag_Name old)), (''new_name'', JStr name)])
        (group_Rename i (ag_Name old) (ag_UpdatedBy old)) revert_failed)"
  show ?thesis
  proof (rule withinI)
    fix w
    have "keeps_groups w1 (snd (run_state (if ag_Name old = name then ok () else ?rest old) w1))"
      if run: "run_state (group_FindByID i) w = (Inr old, w1)" for old w1
    proof (cases "groups_ok w1")
      case ok: True
      have "old \<in> set (app_groups w1)"
        using run by (auto simp: group_FindByID_def run_simps scanAppGroup_def split: option.splits fault.splits dest: find_row_SomeD)
      then have "valid_group_name (ag_Name old)" using ok by (auto simp: groups_ok_def list_all_iff)
      then have "within keeps_groups (?rest old)"
        by (intro keeps_groups.db_within_rules keeps_audited keeps_group_Rename validateName_valid [OF name])
      then show ?thesis by (simp add: within_def keeps_groups.rel_refl)
    next
      case False
      then show ?thesis by (simp add: keeps_groups_def)
    qed
    then have "keeps_groups w (snd (run_state (or_return (group_FindByID i) mapStoreErr (\<lambda>old. if ag_Name old = name then ok () else ?rest old)) w))"
      by (rule keeps_groups.or_return_step [OF keeps_group_reads(1) [unfolded within_def, rule_format]])
    then show "keeps_groups w (snd (run_state (groups_Rename a i n) w))" using True name by (simp add: groups_Rename_def)
  qed
qed (auto simp: groups_Rename_def split: sum.split intro!: keeps_groups.within_return)

lemma found_local_user:
  assumes "run_state (user_FindByID i) w = (Inr u, w1)" "user_LocalUsername u \<noteq> None"
  shows "local_user (users w1) (user_ID u)"
proof -
  obtain v where v: "find_row user_ID i (users w) = Some v" "u = v\<lparr>user_LocalPasswordHash := None\<rparr>" "users w1 = users w"
    using assms(1) by (auto simp: run_user_FindByID scanUser_def split: fault.splits option.splits)
  then show ?thesis using assms(2) find_row_SomeD [OF v(1)] by (auto simp: local_user_def)
qed

lemma keeps_AddMember: "within keeps_groups (groups_AddLocalMember a g i)"
proof (cases "CanManageGroupLocalMembers a")
  case True
  let ?tail = "\<lambda>gr u added. if \<not> added then ok ()
      else audited (record_group a ''added_group_member'' g
          [(''group_name'', JStr (ag_Name gr)), (''user_id'', JStr (user_ID u)), (''user'', JStr (user_DisplayName u))])
        (or_return (repo_RemoveLocalMember g (user_ID u)) (\<lambda>e. e) (\<lambda>_. ok ())) revert_failed"
  have tail: "within keeps_groups (?tail gr u added)" for gr u added
    by (intro keeps_groups.db_within_rules keeps_audited keeps_RemoveLocal)
  have add: "keeps_groups w (snd (run_state (if user_LocalUsername u = None then fail ErrOnlyLocalAccounts
      else or_return (repo_AddLocalMember g (user_ID u) (actor_id a)) mapStoreErr (?tail gr u)) w))"
    if "run_state (user_FindByID i) w0 = (Inr u, w)" for gr u w w0
  proof (cases "user_LocalUsername u = None")
    case False
    have "keeps_groups w (snd (run_state (or_return (repo_AddLocalMember g (user_ID u) (actor_id a)) mapStoreErr (?tail gr u)) w))"
    proof (rule keeps_groups.or_return_step)
      show "keeps_groups w (snd (run_state (repo_AddLocalMember g (user_ID u) (actor_id a)) w))"
        by (rule keeps_AddLocal) (rule found_local_user [OF that False])
    qed (rule tail [unfolded within_def, rule_format])
    then show ?thesis using False by (simp only: if_False)
  qed (simp add: keeps_groups.rel_refl)
  have "keeps_groups w (snd (run_state (or_return (user_FindByID i) h (\<lambda>u. if user_LocalUsername u = None then fail ErrOnlyLocalAccounts
      else or_return (repo_AddLocalMember g (user_ID u) (actor_id a)) mapStoreErr (?tail gr u))) w))" for h gr w
    by (rule keeps_groups.or_return_step [OF keeps_group_reads(7) [unfolded within_def, rule_format]]) (rule add)
  then show ?thesis unfolding groups_AddLocalMember_def
    by (simp only: True not_True_eq_False if_False) (rule keeps_groups.within_or_return [OF keeps_group_reads(1)], rule withinI, blast)
qed (simp add: groups_AddLocalMember_def keeps_groups.within_return)

definition same_users :: "world \<Rightarrow> world \<Rightarrow> bool" where
  "same_users w w' \<longleftrightarrow> users w' = users w"

interpretation same_users: db_step_rel same_users
  by unfold_locales (auto simp: same_users_def)

lemma keeps_RemoveMember: "within keeps_groups (groups_RemoveLocalMember a g i)"
proof (cases "CanManageGroupLocalMembers a")
  case True
  let ?rec = "\<lambda>gr d. record_group a ''removed_group_member'' g [(''group_name'', JStr (ag_Name gr)), (''user_id'', JStr i), (''user'', JStr d)]"
  let ?readd = "or_return (repo_AddLocalMember g i (actor_id a)) (\<lambda>e. e) (\<lambda>_. ok ())"
  have recorded: "within same_users (?rec gr d)" for gr d
    unfolding record_group_def by (rule withinI) (simp add: run_Record Let_def same_users_def split: fault.split)
  have rest: "keeps_groups w (snd (run_state (or_return (repo_RemoveLocalMember g i) (\<lambda>e. e) (\<lambda>removed.
      if \<not> removed then ok () else audited (?rec gr d) ?readd revert_failed)) w))" for gr d w
  proof (cases "groups_ok w")
    case ok: True
    show ?thesis
    proof (rule keeps_groups.or_return_step)
      show "keeps_groups w (snd (run_state (repo_RemoveLocalMember g i) w))" using keeps_RemoveLocal by (simp add: within_def)
      fix removed w1
      assume rm: "run_state (repo_RemoveLocalMember g i) w = (Inr removed, w1)"
      then have u: "users w1 = users w" and r: "removed = ((g, i) \<in> set (app_group_local_members w))"
        by (auto simp: repo_RemoveLocalMember_def run_simps split: fault.splits)
      have undo: "keeps_groups w2 (snd (run_state ?readd w2))" if "removed" "same_users w1 w2" for w2
      proof -
        have "local_user (users w2) i" using ok that u r by (auto simp: groups_ok_def list_all_iff same_users_def)
        then show ?thesis by (intro keeps_groups.or_return_step keeps_AddLocal) (simp_all add: keeps_groups.rel_refl)
      qed
      obtain x w2 where x: "run_state (?rec gr d) w1 = (x, w2)" by (metis prod.collapse)
      have w2: "same_users w1 w2" "keeps_groups w1 w2" using withinD [OF recorded x] withinD [OF keeps_record x] .
      show "keeps_groups w1 (snd (run_state (if \<not> removed then ok () else audited (?rec gr d) ?readd revert_failed) w1))"
        using undo [OF _ w2(1)] w2(2) x keeps_groups.rel_trans
        by (cases removed; cases x; cases "run_state ?readd w2") (auto simp: run_audited keeps_groups.rel_refl split: sum.split)
    qed
  qed (simp add: keeps_groups_def)
  then have "within keeps_groups (or_return (repo_RemoveLocalMember g i) (\<lambda>e. e) (\<lambda>removed.
      if \<not> removed then ok () else audited (?rec gr d) ?readd revert_failed))" for gr d by (rule withinI)
  then show ?thesis unfolding groups_RemoveLocalMember_def Let_def
    by (simp only: True not_True_eq_False if_False) (intro keeps_groups.within_or_return [OF keeps_group_reads(1)] keeps_groups.within_bind [OF keeps_group_reads(7)])
qed (simp add: groups_RemoveLocalMember_def keeps_groups.within_return)

lemma keeps_MapADGroup: "within keeps_groups (MapADGroup dir a g dn)"
proof -
  have "within keeps_groups (backfill p d)" for p d
    unfolding backfill_def by (intro keeps_groups.db_within_rules keeps_groups.within_directory keeps_group_reads keeps_cache)
  moreover have "within keeps_groups (revert_mapping i d)" for i d
    unfolding revert_mapping_def by (intro keeps_groups.db_within_rules keeps_mappings keeps_cache)
  ultimately show ?thesis
    unfolding MapADGroup_def Let_def
    by (intro keeps_groups.db_within_rules keeps_groups.within_directory keeps_group_reads keeps_mappings keeps_audited)
qed

lemma keeps_group_step: "within keeps_groups (group_step dir ev)"
proof -
  have "within keeps_groups (groups_Delete a i)" for a i
    unfolding groups_Delete_def by (intro keeps_groups.db_within_rules keeps_group_reads keeps_group_Delete keeps_cache keeps_record)
  moreover have "within keeps_groups (UnmapADGroup a i dn)" for a i dn
    unfolding UnmapADGroup_def by (intro keeps_groups.db_within_rules keeps_group_reads keeps_mappings keeps_cache keeps_audited)
  moreover have "within keeps_groups (RefreshUser dir u dn)" for u dn
    unfolding RefreshUser_def by (intro keeps_groups.db_within_rules keeps_group_reads keeps_cache keeps_groups.within_directory)
  moreover have "within keeps_groups m \<Longrightarrow> within keeps_groups (drop_result m)" for m :: "'x io"
    unfolding drop_result_def by (intro keeps_groups.db_within_rules)
  ultimately show ?thesis
    by (cases ev) (simp_all add: keeps_Create keeps_Rename keeps_AddMember keeps_RemoveMember keeps_MapADGroup drop_result_def
        keeps_groups.within_bind keeps_groups.within_return)
qed

text \<open>
  C38. Whatever is done with application groups, in whatever order and whichever calls fail, their tables stay sound:
  group names are unique ignoring case, not empty, at most 64 characters and free of control characters; a directory
  group is mapped to a group at most once; mappings and members belong to groups that exist; the cache holds a person
  at most once per directory group; and everyone who was added by hand is a local account.
\<close>

theorem groups_stay_sound:
  "groups_ok w \<Longrightarrow> groups_ok (snd (run_state (for_each (group_step dir) evs) w))"
proof -
  have "within keeps_groups (for_each (group_step dir) evs)" by (rule keeps_groups.within_for_each) (rule keeps_group_step)
  then show "groups_ok w \<Longrightarrow> groups_ok (snd (run_state (for_each (group_step dir) evs) w))" by (simp add: within_def keeps_groups_def)
qed

theorem groups_stay_sound_witness:
  "groups_ok empty_world \<and> groups_ok (snd (run_state (for_each (group_step None) [GCreate root_actor ''Data'']) empty_world))"
  using groups_stay_sound [of empty_world None "[GCreate root_actor ''Data'']"]
  by (simp add: groups_ok_def empty_world_def primary_key_def)

section \<open>Who is in a group\<close>

lemma lower_lower [simp]: "lower (lower s) = lower s"
proof -
  have "lower (lower [c]) = lower [c]" for c
    by (cases c) (auto simp: lower_def less_eq_char_def)
  then show ?thesis by (induction s) (auto simp: lower_def)
qed

lemma in_group_iff:
  "in_group w g u \<longleftrightarrow> (g, u) \<in> set (app_group_local_members w)
     \<or> (\<exists>m \<in> set (app_group_ad_groups w). am_GroupID m = g \<and> (u, lower (am_DN m)) \<in> cache_key ` set (user_ad_group_membership w))"
  by (auto simp: in_group_def list_ex_iff cache_key_def image_iff) force+

lemma lower_distinct_set: "set (lower_distinct dns out) = lower ` set dns \<union> set out"
  by (induction dns arbitrary: out) auto

lemma cached_user:
  "(v, l) \<in> cache_key ` set (set_user_memberships u (lowerDistinct dns) cs) \<longleftrightarrow>
     (if v = u then l \<in> lower ` set dns else (v, l) \<in> cache_key ` set cs)"
  unfolding set_user_memberships_def fold_add_set
  by (auto simp: cache_key_def image_iff lowerDistinct_def lower_distinct_set) force

definition group_view :: "world \<Rightarrow> world \<Rightarrow> bool" where
  "group_view w w' \<longleftrightarrow> faults w' = faults w \<and> users w' = users w \<and> app_groups w' = app_groups w \<and> app_group_ad_groups w' = app_group_ad_groups w
     \<and> app_group_local_members w' = app_group_local_members w \<and> user_ad_group_membership w' = user_ad_group_membership w"

interpretation group_view: db_step_rel group_view
  by unfold_locales (auto simp: group_view_def)

lemma run_RefreshUser:
  assumes "dn \<noteq> []" "faults w (tick w) = NoFault"
    and answer: "run_state (MemberOf p dn (mapped_dns w)) (w\<lparr>tick := Suc (tick w)\<rparr>) = (r, w1)"
  shows "run_state (RefreshUser (Some p) u dn) w =
     (case r of Inl _ \<Rightarrow> ((), w1) | Inr dns \<Rightarrow> ((), snd (run_state (ReplaceUserMemberships u dns) w1)))"
proof -
  have mapped: "run_state MappedDNs w = (Inr (mapped_dns w), w\<lparr>tick := Suc (tick w)\<rparr>)"
    using assms(2) by (simp add: MappedDNs_def run_simps mapped_dns_def)
  have "run_state (if mapped_dns w = [] then ok [] else MemberOf p dn (mapped_dns w)) (w\<lparr>tick := Suc (tick w)\<rparr>) = (r, w1)"
    using answer by (auto simp: MemberOf_def)
  then show ?thesis using assms(1) mapped by (auto simp: RefreshUser_def split: sum.split prod.split)
qed

text \<open>
  C39. After a refresh a person is in exactly the groups that they were added to by hand and those with a mapped
  directory group that the directory, asked about all mapped groups, says they are in; nobody else's groups change.
\<close>

theorem refresh_follows_directory:
  assumes "dn \<noteq> []" "faults w = (\<lambda>_. NoFault)" "u \<in> user_ID ` set (users w)"
    and answer: "run_state (MemberOf p dn (mapped_dns w)) (w\<lparr>tick := Suc (tick w)\<rparr>) = (Inr dns, w1)"
    and run: "run_state (RefreshUser (Some p) u dn) w = ((), w')"
  shows "in_group w' g v \<longleftrightarrow>
     (if v = u then (g, u) \<in> set (app_group_local_members w)
        \<or> (\<exists>m \<in> set (app_group_ad_groups w). am_GroupID m = g \<and> lower (am_DN m) \<in> lower ` set dns)
      else in_group w g v)"
proof -
  have "group_view (w\<lparr>tick := Suc (tick w)\<rparr>) w1" using withinD [OF group_view.within_directory(4) answer] .
  then have w1: "faults w1 = (\<lambda>_. NoFault)" "users w1 = users w" "app_group_ad_groups w1 = app_group_ad_groups w"
    "app_group_local_members w1 = app_group_local_members w" "user_ad_group_membership w1 = user_ad_group_membership w"
    using assms(2) by (simp_all add: group_view_def)
  have "w' = snd (run_state (ReplaceUserMemberships u dns) w1)" using run_RefreshUser [OF assms(1) _ answer, of u] run assms(2) by simp
  then have "user_ad_group_membership w' = set_user_memberships u (lowerDistinct dns) (user_ad_group_membership w)"
    "app_group_ad_groups w' = app_group_ad_groups w" "app_group_local_members w' = app_group_local_members w"
    using w1 assms(3) by (auto simp: ReplaceUserMemberships_def run_simps Let_def)
  then show ?thesis unfolding in_group_iff by (simp add: cached_user)
qed

text \<open>
  C40. A directory that cannot be reached, or does not answer, leaves everybody's groups as they were.
\<close>

theorem refresh_keeps_on_failure:
  assumes "faults w (tick w) = NoFault"
    and answer: "run_state (MemberOf p dn (mapped_dns w)) (w\<lparr>tick := Suc (tick w)\<rparr>) = (Inl e, w1)"
    and run: "run_state (RefreshUser (Some p) u dn) w = ((), w')"
  shows "in_group w' g v = in_group w g v"
proof (cases "dn = []")
  case True
  then show ?thesis using run by (simp add: RefreshUser_def)
next
  case False
  then have "w' = w1" using run_RefreshUser [OF False assms(1) answer, of u] run by simp
  moreover have "group_view (w\<lparr>tick := Suc (tick w)\<rparr>) w1" using withinD [OF group_view.within_directory(4) answer] .
  ultimately show ?thesis by (simp add: in_group_iff group_view_def)
qed

section \<open>A concrete directory\<close>

definition eng_entry :: ldap_entry where
  "eng_entry = \<lparr>le_DN = ''CN=Eng'', le_cn = ''Eng'', le_description = [], le_displayName = [], le_mail = [], le_objectSid = []\<rparr>"

definition eng_dir :: ldap_provider where
  "eng_dir = \<lparr>lp_lib = \<lparr>ld_dial = (\<lambda>_. None), ld_bind = (\<lambda>_ _ _. None), ld_search = (\<lambda>_ _. Inr [eng_entry]),
      ld_paged = (\<lambda>_ _ _. Inr []), ld_escape = (\<lambda>s. s)\<rparr>,
     lp_bindDN = ''CN=svc'', lp_bindPassword = ''x'', lp_baseDN = ''DC=x'', lp_accessGroupDN = ''CN=access''\<rparr>"

definition down_dir :: ldap_provider where
  "down_dir = eng_dir\<lparr>lp_lib := (lp_lib eng_dir)\<lparr>ld_dial := (\<lambda>_. Some ''refused'')\<rparr>\<rparr>"

definition eng_group :: app_group where
  "eng_group = \<lparr>ag_ID = uuid_of 1, ag_Name = ''Engineering'', ag_CreatedBy = None, ag_CreatedAt = 0, ag_UpdatedBy = None, ag_UpdatedAt = 0\<rparr>"

definition eng_mapping :: ad_mapping where
  "eng_mapping = \<lparr>am_GroupID = uuid_of 1, am_DN = ''cn=eng'', am_Name = ''Eng'', am_AddedBy = None, am_AddedAt = 0\<rparr>"

definition eng_world :: world where
  "eng_world = empty_world\<lparr>users := [new_user empty_world ''Ann'' TierReadOnly], app_groups := [eng_group], app_group_ad_groups := [eng_mapping]\<rparr>"

lemma eng_mapped: "mapped_dns eng_world = [''cn=eng'']"
  by (simp add: mapped_dns_def eng_world_def eng_mapping_def)

lemma eng_user: "uuid_of 0 \<in> user_ID ` set (users eng_world)"
  by (simp add: eng_world_def new_user_def db_uuid_def empty_world_def)

lemma eng_answer:
  "run_state (MemberOf eng_dir ''CN=Ann'' (mapped_dns eng_world)) (eng_world\<lparr>tick := Suc (tick eng_world)\<rparr>) = (Inr [''CN=Eng''], eng_world\<lparr>tick := 4\<rparr>)"
  by (simp add: eng_mapped MemberOf_def member_batches.simps run_simps serviceConn_def eng_dir_def memberOfBatch_def eng_entry_def)
    (simp add: eng_world_def empty_world_def)

theorem refresh_follows_directory_witness:
  "\<exists>w'. run_state (RefreshUser (Some eng_dir) (uuid_of 0) ''CN=Ann'') eng_world = ((), w') \<and> in_group w' (uuid_of 1) (uuid_of 0)
     \<and> in_group eng_world (uuid_of 1) (uuid_of 0) = False"
proof -
  obtain w' where run: "run_state (RefreshUser (Some eng_dir) (uuid_of 0) ''CN=Ann'') eng_world = ((), w')" by (metis old.unit.exhaust prod.collapse)
  have "faults eng_world = (\<lambda>_. NoFault)" by (simp add: eng_world_def empty_world_def)
  then have "in_group w' (uuid_of 1) (uuid_of 0) \<longleftrightarrow>
     (if uuid_of 0 = uuid_of 0 then (uuid_of 1, uuid_of 0) \<in> set (app_group_local_members eng_world)
        \<or> (\<exists>m \<in> set (app_group_ad_groups eng_world). am_GroupID m = uuid_of 1 \<and> lower (am_DN m) \<in> lower ` set [''CN=Eng''])
      else in_group eng_world (uuid_of 1) (uuid_of 0))"
    using refresh_follows_directory [OF _ _ eng_user eng_answer run] by simp
  moreover have "lower ''cn=eng'' = lower ''CN=Eng''" by code_simp
  moreover have "\<not> in_group eng_world (uuid_of 1) (uuid_of 0)" by (simp add: in_group_def eng_world_def empty_world_def)
  ultimately show ?thesis using run by (simp add: eng_world_def eng_mapping_def)
qed

theorem refresh_keeps_on_failure_witness:
  "\<exists>e w1 w'. run_state (MemberOf down_dir ''CN=Ann'' (mapped_dns eng_world)) (eng_world\<lparr>tick := Suc (tick eng_world)\<rparr>) = (Inl e, w1)
     \<and> run_state (RefreshUser (Some down_dir) (uuid_of 0) ''CN=Ann'') eng_world = ((), w')
     \<and> in_group w' (uuid_of 1) (uuid_of 0) = in_group eng_world (uuid_of 1) (uuid_of 0)"
proof -
  obtain w' where run: "run_state (RefreshUser (Some down_dir) (uuid_of 0) ''CN=Ann'') eng_world = ((), w')" by (metis old.unit.exhaust prod.collapse)
  have "\<exists>w1. run_state (MemberOf down_dir ''CN=Ann'' (mapped_dns eng_world)) (eng_world\<lparr>tick := Suc (tick eng_world)\<rparr>)
      = (Inl (Wrap ''connect to LDAP server'' (ErrIO ''refused'')), w1)"
    by (simp add: eng_mapped MemberOf_def run_simps serviceConn_def down_dir_def)
  then obtain w1 where a: "run_state (MemberOf down_dir ''CN=Ann'' (mapped_dns eng_world)) (eng_world\<lparr>tick := Suc (tick eng_world)\<rparr>)
      = (Inl (Wrap ''connect to LDAP server'' (ErrIO ''refused'')), w1)" by blast
  have "faults eng_world (tick eng_world) = NoFault" by (simp add: eng_world_def empty_world_def)
  then show ?thesis using refresh_keeps_on_failure [OF _ a run, of "uuid_of 1" "uuid_of 0"] a run by blast
qed

section \<open>A revert that does not restore\<close>

text \<open>
  When recording an unmapping fails, the directory group is mapped again, but the cached memberships that were pruned in
  between are gone: a person who was in the group before the failed request is not any more.
\<close>

definition ann_world :: world where
  "ann_world = eng_world\<lparr>user_ad_group_membership := [(uuid_of 0, ''cn=eng'')], faults := (\<lambda>n. if n = 4 then Lost ''down'' else NoFault)\<rparr>"

lemma unmap_revert_loses_members:
  "\<exists>e w'. run_state (UnmapADGroup root_actor (uuid_of 1) ''cn=eng'') ann_world = (Inl e, w')
     \<and> map am_DN (app_group_ad_groups w') = [''cn=eng''] \<and> audit_log w' = []
     \<and> in_group ann_world (uuid_of 1) (uuid_of 0) \<and> \<not> in_group w' (uuid_of 1) (uuid_of 0)"
proof -
  have "CanManageGroups root_actor" by (simp add: CanManageGroups_def root_actor_def)
  then show ?thesis
    by (auto simp: UnmapADGroup_def ann_world_def eng_world_def empty_world_def run_simps group_FindByID_def ListADMappings_def eng_group_def
        eng_mapping_def RemoveADMapping_def PruneUnmappedMemberships_def record_group_def AddADMapping_def scanAppGroup_def mapping_key_def
        still_mapped_def Let_def in_group_def root_actor_def)
qed

section \<open>The audit log\<close>

lemma log_grows_groups_repo:
  "within log_grows (group_FindByID i)" "within log_grows (group_Create n by)" "within log_grows (group_Rename i n by)" "within log_grows (group_Delete i)"
  "within log_grows (AddADMapping i dn n by)" "within log_grows (RemoveADMapping i dn)" "within log_grows (ListADMappings i)" "within log_grows MappedDNs"
  "within log_grows (repo_AddLocalMember i u by)" "within log_grows (repo_RemoveLocalMember i u)" "within log_grows (Members i)"
  "within log_grows (ReplaceUserMemberships u dns)" "within log_grows (ReplaceMembersOfDN dn us)" "within log_grows PruneUnmappedMemberships"
  "within log_grows (FindIDsByLDAPDNs dns)"
  unfolding group_FindByID_def group_Create_def group_Rename_def group_Delete_def AddADMapping_def RemoveADMapping_def ListADMappings_def MappedDNs_def
    repo_AddLocalMember_def repo_RemoveLocalMember_def Members_def ReplaceUserMemberships_def ReplaceMembersOfDN_def PruneUnmappedMemberships_def
    FindIDsByLDAPDNs_def Let_def
  by (intro log_grows_rules log_grows_exec log_grows.within_io_call log_grows_same; simp add: insert_group_def cascade_delete_def)+

lemma log_grows_group_step: "within log_grows (group_step dir ev)"
proof -
  note rules = log_grows_rules log_grows_groups_repo log_grows_users log_grows.within_directory
  have "within log_grows (backfill p d)" "within log_grows (revert_mapping i d)" for p i d
    unfolding backfill_def revert_mapping_def by (intro rules)+
  then show ?thesis
    by (cases ev; simp; unfold drop_result_def groups_Create_def groups_Rename_def groups_Delete_def MapADGroup_def UnmapADGroup_def
        groups_AddLocalMember_def groups_RemoveLocalMember_def RefreshUser_def record_group_def Let_def; intro rules)
qed

end
