(* ===== verification/Spec2Isabelle.thy ===== *)
theory Spec2Isabelle
  imports Rbac_Service Stale_Run Agent_Sessions Transfer_Rules Inventory_Rules Group_Rules
begin

text \<open>
  Sparky is a control plane for language model servers on GPU nodes. One central server keeps everything in a
  PostgreSQL database, serves web pages to users and holds a websocket to an agent on every node; the agents run
  containers with inference engines, download and copy model files, and report back. This library models the services
  of the server, its database statements, the protocol with the agents, the agent's model store, and the directory
  client, and proves what they guarantee. It follows the Go sources file by file; definitions have the names of the
  functions they translate (with a prefix of the table or package where two would clash).

  \<^bold>\<open>State and effects\<close> (\<open>Prelude\<close>, \<open>Json\<close>, \<open>World\<close>, \<open>Gotime\<close>,
  \<open>Sha256\<close>). A Go method is a program of the state monad over the record \<open>world\<close>: the tables as lists of
  rows in insertion order, the in-memory state of the services (connection registry, waiting requests, open scans,
  pending deletions), the frames written to agents, the published events and the audit stream. An error is a value
  (\<open>error\<close>: a sentinel, a wrapped error, an I/O error), a fallible method returns \<open>error + 'a\<close>, and
  \<open>or_return\<close> is the early return of Go. Every database statement and every write to a socket is an
  \<open>io_call\<close>: whether the n-th call fails is an arbitrary function of the environment, and a failed call may have
  had its effect (\<open>Ambiguous\<close>) or not (\<open>Lost\<close>), so the theorems hold for every pattern of failures
  unless they say otherwise. Clock readings, generated identifiers and random bytes come from the environment in the
  same way. JSON values are data; decoding follows \<^verbatim>\<open>encoding/json\<close> (case folding of names, duplicates,
  \<^verbatim>\<open>null\<close>, \<^verbatim>\<open>DisallowUnknownFields\<close>); the text of JSON is not modelled. The locale
  \<open>db_step_rel\<close> states what a relation on worlds needs in order to be kept by statements, and its interpretations
  carry most of the invariants.

  \<^bold>\<open>Components\<close>, each with its sources:

  \<^item> \<open>Rbac\<close>, \<open>Users\<close>, \<open>Password\<close>, \<open>Audit_Log\<close>, \<open>Rbac_Service\<close>: permission
    decisions, accounts, password hashes, the audit log and the account service (internal/rbac, internal/audit,
    internal/auth/breakglass.go, internal/db/users.go, audit.go, theme.go). No sequence of tier changes by ordinary
    actors changes who is an Admin; a tier change happens with its audit record or not at all; a stored hash verifies
    exactly the password it was made from, up to collisions of argon2id.
  \<^item> \<open>Instances\<close>, \<open>Agentproto\<close>, \<open>Agentconn\<close>, \<open>Engines\<close>, \<open>Lifecycle\<close>: running
    instances, protocol frames, the connection registry, engine parameters, and loading and unloading of models
    (internal/db/running_instances.go, internal/agentproto, internal/agentconn/registry.go, internal/engines,
    internal/lifecycle). At most one active instance per profile, what each load, unload, result and health report
    leaves behind, that the registry refines its specification, that accepted parameters always build a launch.
  \<^item> \<open>Alerts_Repo\<close>, \<open>Alerts\<close>: the alert inbox (internal/db/alerts.go, alert_settings.go, internal/alerts).
    Raising deduplicates, also against a concurrent session; open alerts are unique per key; users change only what they
    see, with its audit record or not at all.
  \<^item> \<open>Schedule\<close>, \<open>Schedule_Order\<close>, \<open>Schedule_Service\<close>: recurring schedules, the runner, the time zone
    (internal/schedule, internal/db/schedule_settings.go). The searches for the latest and the next occurrence are
    exact in every zone whose wall clock keeps its order (locale \<open>zone_order\<close>), also across clock changes.
  \<^item> \<open>Stale_Settings\<close>, \<open>Stale_Classify\<close>, \<open>Stale_Scan\<close>, \<open>Stale_Run\<close>: monitoring and
    removal of left-over containers (internal/stalecontainers, internal/db/stale_container_settings.go). Only
    containers that a fresh scan of that node found and that the rules call stale are ever removed; an answer is taken
    only from the node that was asked and is bounded; no occurrence runs twice.
  \<^item> \<open>Nodes_Repo\<close>, \<open>Nodes\<close>, \<open>Agent_Handler\<close>, \<open>Agent_Sessions\<close>: node registration and
    tokens, reported interfaces, and the websocket endpoint (internal/db/nodes.go, node_network_interfaces.go,
    internal/nodes, internal/auth/nodetoken.go, internal/agentconn/agentconn.go, internal/agentproto/sshkey.go). The
    goroutines of all connections are interleaved by an inductive step relation; in every reachable state the registry
    names only connections whose agent presented the token of the node.
  \<^item> \<open>Transfers_Repo\<close>, \<open>Transfers\<close>, \<open>Transfer_Rules\<close>: downloads and copies between nodes
    (internal/db/transfers.go, node_model_inventory.go, permission_overrides.go, internal/transfers). A finished
    transfer never changes, a pull starts only with the consent of its source, and what each report leaves behind.
  \<^item> \<open>Filepath\<close>, \<open>Model_Store\<close>, \<open>Store_Rules\<close>: the store of an agent (agent/modelpath,
    agent/modelscan, agent/connection/deletemodel.go). A reference never resolves outside of the store; a scan lists
    what is there, within its bounds; a removal touches nothing outside of the directory it is for.
  \<^item> \<open>Inventory\<close>, \<open>Inventory_Rules\<close>: the inventory of the server (internal/inventory) and its composition
    with the stores: deleting an imported copy takes no other copy of the scan with it.
  \<^item> \<open>Groups_Repo\<close>, \<open>Directory\<close>, \<open>App_Groups\<close>, \<open>Group_Rules\<close>: application groups and the
    directory they mirror (internal/db/app_groups.go, internal/auth/ldap.go, sid.go, directory.go, internal/groups).
    The tables stay sound, and a refresh makes the groups of a person what the directory says.
  \<^item> This theory composes the services into one server: \<open>serve\<close> is one request, report or job, and the audit
    log is append-only over any sequence of them.

  \<^bold>\<open>Parameters\<close>. Code outside of the repository is an argument: argon2id (\<open>idkey\<close>), the time zone
  database (\<open>zones\<close>, and a \<open>location\<close> as its offsets), the LDAP library and the server behind it
  (\<open>ldap_lib\<close>), and the database, whose constraints are written out where the code reacts to them. Theorems name
  what they need of a parameter as hypotheses, and their witnesses instantiate it.

  \<^bold>\<open>Abstractions\<close>. Log lines and the wording of a wrapped error's cause are not modelled. Identifiers are
  text. Strings are lists of bytes; lower-casing is that of ASCII, and the database orders text by bytes. Times are
  nanoseconds since year 1 without a monotonic reading. A \<^verbatim>\<open>float64\<close> parameter of an engine is the decimal
  number of its literal: rounding is not modelled. Where Go iterates over a map the model takes the order of insertion.
  A wait for an agent (\<open>await\<close>) delivers an arbitrary list of arrivals to their handlers; the nodes of a scan are
  asked one after another, where the code asks them in parallel. A service method runs without interleaving with
  others except where a theory says so: alerts race with another session inside their transaction
  (\<open>Alerts_Repo\<close>), connections interleave (\<open>Agent_Handler\<close>), and a cancellation interleaves with a
  report (\<open>Transfer_Rules\<close>). The file tree of a store has no links, and the root of the store contains no
  characters that are special in a pattern.

  \<^bold>\<open>Bounds and termination\<close>. Every definition is total. The retry of a raced alert is bounded by the code itself;
  the searches of a schedule recurse over a bounded window with a measure; the walk of a store is bounded by its own
  depth limit; paging and batching recurse on the list that is left. No definition uses fuel that the code does not
  have. Integers are kept at their width where the code can overflow them (\<open>wrap64\<close>, 32-bit words in
  \<open>Sha256\<close>, the shared memory size in \<open>Engines\<close>).

  \<^bold>\<open>Not modelled\<close>: the HTTP handlers and templates (they parse forms and render what these services return), the
  agent's connection loop and its calls to container runtimes (I/O of the host), the model profile forms, session
  cookies and the sign-in pages, the container log archive, mail, metrics, engine provisioning, configuration and
  the entry points.
\<close>

section \<open>The server as a whole\<close>

text \<open>
  The operations of all modelled services that users, agents and the server's own jobs call. \<open>idkey\<close> is argon2id,
  \<open>zones\<close> the time zone database, \<open>dir\<close> the directory.
\<close>

datatype request =
    ReqElevate actor string tier
  | ReqCreateAccount actor string string string tier
  | ReqResetPassword actor string string
  | ReqDisplayName actor string
  | ReqChangePassword actor string string
  | ReqTheme actor "string option" "(string \<times> string) list" "string option"
  | ReqLifecycle lifecycle_event
  | ReqAlertRead actor string
  | ReqAlertUnread actor string
  | ReqAlertDismiss actor string
  | ReqAlertReadAll actor
  | ReqAlertResolve actor string
  | ReqAlertRetention actor int
  | JobExpireAlerts location
  | ReqTimezone actor string
  | ReqStaleSettings actor settings_input
  | ReqStalePreview actor
  | ReqStaleRemove actor string string int
  | JobStaleRun
  | ReqRegisterNode actor node_registration
  | ReqRescan actor string
  | ReqNodeInterface actor string string
  | ReqNodeComment actor string string
  | ReqTransfer transfer_event
  | ReqInventory inventory_event
  | ReqGroup group_event
  | AgentMessage string envelope

fun serve :: "idkey \<Rightarrow> zone_db \<Rightarrow> ldap_provider option \<Rightarrow> request \<Rightarrow> unit io" where
  "serve idkey zones dir (ReqElevate a u t) = drop_result (ElevateTier a u t)"
| "serve idkey zones dir (ReqCreateAccount a u p d t) = drop_result (CreateLocalAccount idkey a u p d t)"
| "serve idkey zones dir (ReqResetPassword a u p) = drop_result (ResetLocalAccountPassword idkey a u p)"
| "serve idkey zones dir (ReqDisplayName a d) = drop_result (UpdateDisplayName a d)"
| "serve idkey zones dir (ReqChangePassword a c n) = drop_result (ChangeOwnPassword idkey a c n)"
| "serve idkey zones dir (ReqTheme a p c s) = drop_result (UpdateOwnTheme a p c s)"
| "serve idkey zones dir (ReqLifecycle ev) = lifecycle_step ev"
| "serve idkey zones dir (ReqAlertRead a i) = drop_result (MarkRead a i)"
| "serve idkey zones dir (ReqAlertUnread a i) = drop_result (MarkUnread a i)"
| "serve idkey zones dir (ReqAlertDismiss a i) = drop_result (Dismiss a i)"
| "serve idkey zones dir (ReqAlertReadAll a) = drop_result (MarkAllRead a)"
| "serve idkey zones dir (ReqAlertResolve a i) = drop_result (ResolveAlert a i)"
| "serve idkey zones dir (ReqAlertRetention a m) = drop_result (UpdateRetention a m)"
| "serve idkey zones dir (JobExpireAlerts loc) = drop_result (ExpireOnce loc)"
| "serve idkey zones dir (ReqTimezone a z) = drop_result (UpdateTimezone zones a z)"
| "serve idkey zones dir (ReqStaleSettings a i) = drop_result (UpdateSettings a i)"
| "serve idkey zones dir (ReqStalePreview a) = drop_result (Preview a)"
| "serve idkey zones dir (ReqStaleRemove a n i k) = drop_result (RemoveOne a n i k)"
| "serve idkey zones dir JobStaleRun = drop_result runScheduled"
| "serve idkey zones dir (ReqRegisterNode a p) = drop_result (RegisterNode a p)"
| "serve idkey zones dir (ReqRescan a n) = drop_result (RescanInterfaces a n)"
| "serve idkey zones dir (ReqNodeInterface a n i) = drop_result (SetDefaultTransferInterface a n i)"
| "serve idkey zones dir (ReqNodeComment a n c) = drop_result (SetComment a n c)"
| "serve idkey zones dir (ReqTransfer ev) = transfer_step ev"
| "serve idkey zones dir (ReqInventory ev) = inventory_step ev"
| "serve idkey zones dir (ReqGroup ev) = group_step dir ev"
| "serve idkey zones dir (AgentMessage n env) = onMessage (n, env)"

lemma log_grows_HashPassword: "within log_grows (HashPassword idkey p)"
  by (rule withinI) (simp add: HashPassword_def log_grows_same)

lemma log_grows_account_writes:
  "within log_grows (user_UpdateLocalPassword u h)" "within log_grows (user_UpdateDisplayName u d)" "within log_grows (user_UpdateTheme u p c s)"
  unfolding user_UpdateLocalPassword_def user_UpdateDisplayName_def user_UpdateTheme_def by (intro log_grows_rules log_grows_users)+

lemma log_grows_accounts:
  "within log_grows (ElevateTier a u t)" "within log_grows (CreateLocalAccount idkey a n p d t)"
  "within log_grows (ResetLocalAccountPassword idkey a u p)" "within log_grows (UpdateDisplayName a d)"
  "within log_grows (ChangeOwnPassword idkey a p q)" "within log_grows (UpdateOwnTheme a th cs sp)"
  unfolding ElevateTier_def CreateLocalAccount_def ResetLocalAccountPassword_def UpdateDisplayName_def ChangeOwnPassword_def UpdateOwnTheme_def
    Let_def
  by (intro log_grows_rules log_grows_users log_grows_account_writes log_grows_audited log_grows_HashPassword)+

lemma log_grows_drop: "within log_grows m \<Longrightarrow> within log_grows (drop_result m)"
  unfolding drop_result_def by (intro log_grows_rules)

lemma log_grows_steps: "within log_grows (lifecycle_step ev)" "within log_grows (transfer_step tv)"
  by (cases ev, auto intro: log_grows_drop log_grows_load log_grows_unload log_grows_reports log_grows_agentconn)
    (cases tv, auto intro: log_grows_drop log_grows_transfers)

lemma log_grows_serve: "within log_grows (serve idkey zones dir r)"
  by (cases r) (auto intro: log_grows_drop log_grows_accounts log_grows_steps log_grows_inbox log_grows_MarkAllRead log_grows_ResolveAlert
      log_grows_retention log_grows_schedule log_grows_settings log_grows_stale_runs log_grows_nodes log_inventory.within_step log_grows_group_step
      log_grows.within_onMessage)


end
